(* ===== verification/Prelude.thy ===== *)
theory Prelude
  imports Main "HOL-Library.Word" "HOL-Library.Sublist"
begin

text \<open>
  Shared vocabulary of the development: the result type, byte-string helpers with the
  semantics of the Rust operations the sources call (\<open>strip_prefix\<close>, \<open>split\<close>, \<open>join\<close>,
  \<open>trim\<close>, the ASCII classes, decimal printing), the generic lemmas about them, and the two
  interfaces that several components provide: a printer/parser pair (\<open>codec\<close>) and an
  idempotent reconciler (\<open>reconciler\<close>).

  A Rust \<open>&str\<close> is its UTF-8 byte sequence, so a \<open>string\<close> here is a list of bytes and
  \<open>length\<close> is Rust's \<open>len()\<close>.
\<close>

section \<open>Results\<close>

text \<open>\<open>Result<T, E>\<close>: the error is the left summand.\<close>

type_synonym ('e, 'a) result = "'e + 'a"

definition is_ok :: "('e, 'a) result \<Rightarrow> bool" where
  "is_ok r = (case r of Inl _ \<Rightarrow> False | Inr _ \<Rightarrow> True)"

definition rbind :: "('e, 'a) result \<Rightarrow> ('a \<Rightarrow> ('e, 'b) result) \<Rightarrow> ('e, 'b) result" where
  "rbind r f = (case r of Inl e \<Rightarrow> Inl e | Inr a \<Rightarrow> f a)"

definition map_err :: "('e \<Rightarrow> 'f) \<Rightarrow> ('e, 'a) result \<Rightarrow> ('f, 'a) result" where
  "map_err f r = (case r of Inl e \<Rightarrow> Inl (f e) | Inr a \<Rightarrow> Inr a)"

lemma is_ok_simps [simp]: "is_ok (Inr a)" "\<not> is_ok (Inl e)"
  by (simp_all add: is_ok_def)

lemma is_ok_iff: "is_ok r \<longleftrightarrow> (\<exists>a. r = Inr a)"
  by (cases r) simp_all

lemma rbind_simps [simp]:
  "rbind (Inl e) f = Inl e"
  "rbind (Inr a) f = f a"
  by (simp_all add: rbind_def)

lemma rbind_eq_Inr: "rbind r f = Inr b \<longleftrightarrow> (\<exists>a. r = Inr a \<and> f a = Inr b)"
  by (cases r) simp_all

lemma map_err_simps [simp]:
  "map_err f (Inl e) = Inl (f e)"
  "map_err f (Inr a) = Inr a"
  by (simp_all add: map_err_def)

lemma map_err_eq_Inr [simp]: "map_err f r = Inr a \<longleftrightarrow> r = Inr a"
  by (cases r) simp_all

section \<open>Options\<close>

definition unwrap_or :: "'a option \<Rightarrow> 'a \<Rightarrow> 'a" where
  "unwrap_or x d = (case x of None \<Rightarrow> d | Some v \<Rightarrow> v)"

definition or_else :: "'a option \<Rightarrow> 'a option \<Rightarrow> 'a option" where
  "or_else x y = (case x of None \<Rightarrow> y | Some v \<Rightarrow> Some v)"

lemma unwrap_or_simps [simp]: "unwrap_or None d = d" "unwrap_or (Some v) d = v"
  by (simp_all add: unwrap_or_def)

lemma or_else_simps [simp]: "or_else None y = y" "or_else (Some v) y = Some v"
  by (simp_all add: or_else_def)

lemma or_else_None [simp]: "or_else x None = x"
  by (cases x) simp_all

section \<open>Byte strings\<close>

definition byte :: "char \<Rightarrow> nat" where
  "byte c = of_char c"

definition is_ascii_digit :: "char \<Rightarrow> bool" where
  "is_ascii_digit c = (48 \<le> byte c \<and> byte c \<le> 57)"

definition is_ascii_alphabetic :: "char \<Rightarrow> bool" where
  "is_ascii_alphabetic c =
     (65 \<le> byte c \<and> byte c \<le> 90 \<or> 97 \<le> byte c \<and> byte c \<le> 122)"

definition is_ascii_alphanumeric :: "char \<Rightarrow> bool" where
  "is_ascii_alphanumeric c = (is_ascii_alphabetic c \<or> is_ascii_digit c)"

definition to_ascii_lowercase :: "char \<Rightarrow> char" where
  "to_ascii_lowercase c =
     (if 65 \<le> byte c \<and> byte c \<le> 90 then char_of (byte c + 32) else c)"

definition eq_ignore_ascii_case :: "string \<Rightarrow> string \<Rightarrow> bool" where
  "eq_ignore_ascii_case a b = (map to_ascii_lowercase a = map to_ascii_lowercase b)"

definition starts_with :: "string \<Rightarrow> string \<Rightarrow> bool" where
  "starts_with s p = prefix p s"

definition strip_prefix :: "string \<Rightarrow> string \<Rightarrow> string option" where
  "strip_prefix s p = (if prefix p s then Some (drop (length p) s) else None)"

definition strip_suffix :: "string \<Rightarrow> string \<Rightarrow> string option" where
  "strip_suffix s p = (if suffix p s then Some (take (length s - length p) s) else None)"

text \<open>\<open>str::contains\<close> with a string pattern.\<close>

fun contains_str :: "string \<Rightarrow> string \<Rightarrow> bool" where
  "contains_str [] p = (p = [])"
| "contains_str (c # cs) p = (prefix p (c # cs) \<or> contains_str cs p)"

text \<open>\<open>str::split\<close> on one ASCII character: never empty, one more piece than separators.\<close>

fun split_on :: "char \<Rightarrow> string \<Rightarrow> string list" where
  "split_on s [] = [[]]"
| "split_on s (c # cs) =
     (if c = s then [] # split_on s cs
      else (case split_on s cs of [] \<Rightarrow> [[c]] | w # ws \<Rightarrow> (c # w) # ws))"

fun join :: "string \<Rightarrow> string list \<Rightarrow> string" where
  "join sep [] = []"
| "join sep [x] = x"
| "join sep (x # y # zs) = x @ sep @ join sep (y # zs)"

text \<open>
  \<open>str::trim\<close> on the ASCII white space (the bytes 9 to 13 and 32); no string the sources
  trim carries the multi-byte Unicode white space.
\<close>

definition is_ascii_ws :: "char \<Rightarrow> bool" where
  "is_ascii_ws c = (byte c = 32 \<or> 9 \<le> byte c \<and> byte c \<le> 13)"

definition trim :: "string \<Rightarrow> string" where
  "trim s = rev (dropWhile is_ascii_ws (rev (dropWhile is_ascii_ws s)))"

lemma split_on_not_Nil [simp]: "split_on s cs \<noteq> []"
  by (induction cs) (auto split: list.splits)

lemma split_on_no_sep: "w \<in> set (split_on s cs) \<Longrightarrow> s \<notin> set w"
  by (induction cs arbitrary: w) (auto split: if_splits list.splits)

lemma join_split_on: "join [s] (split_on s cs) = cs"
proof (induction cs)
  case Nil
  show ?case by simp
next
  case (Cons c cs)
  obtain w ws where sp: "split_on s cs = w # ws"
    by (cases "split_on s cs") auto
  from Cons sp show ?case by (cases ws) auto
qed

lemma split_on_line: "s \<notin> set a \<Longrightarrow> split_on s (a @ s # b) = a # split_on s b"
  by (induction a) auto

lemma split_on_id: "s \<notin> set a \<Longrightarrow> split_on s a = [a]"
  by (induction a) auto

lemma split_on_join: "ws \<noteq> [] \<Longrightarrow> \<forall>w \<in> set ws. s \<notin> set w \<Longrightarrow> split_on s (join [s] ws) = ws"
proof (induction ws)
  case (Cons w ws)
  then show ?case by (cases ws) (simp_all add: split_on_id split_on_line)
qed simp

lemma strip_prefix_Some: "strip_prefix s p = Some r \<longleftrightarrow> s = p @ r"
  by (auto simp: strip_prefix_def prefix_def)

section \<open>Decimal digits\<close>

definition digit_char :: "nat \<Rightarrow> char" where
  "digit_char d = char_of (48 + d)"

definition digit_val :: "char \<Rightarrow> nat" where
  "digit_val c = byte c - 48"

text \<open>\<open>u64::to_string\<close>: the decimal digits, most significant first.\<close>

fun dec_string :: "nat \<Rightarrow> string" where
  "dec_string n = (if n < 10 then [digit_char n] else dec_string (n div 10) @ [digit_char (n mod 10)])"

declare dec_string.simps [simp del]

fun digits_val :: "nat \<Rightarrow> string \<Rightarrow> nat" where
  "digits_val acc [] = acc"
| "digits_val acc (c # cs) = digits_val (acc * 10 + digit_val c) cs"

lemma byte_less [simp]: "byte c < 256"
  unfolding byte_def using of_char_mod_256 by (metis mod_less_divisor zero_less_numeral)

lemma byte_char_of: "n < 256 \<Longrightarrow> byte (char_of n) = n"
  by (simp add: byte_def)

lemma byte_digit_char [simp]: "d < 10 \<Longrightarrow> byte (digit_char d) = 48 + d"
  by (simp add: digit_char_def byte_char_of)

lemma digit_val_digit_char [simp]: "d < 10 \<Longrightarrow> digit_val (digit_char d) = d"
  by (simp add: digit_val_def)

lemma is_ascii_digit_digit_char [simp]: "d < 10 \<Longrightarrow> is_ascii_digit (digit_char d)"
  by (simp add: is_ascii_digit_def)

lemma digit_val_less: "is_ascii_digit c \<Longrightarrow> digit_val c < 10"
  by (auto simp: is_ascii_digit_def digit_val_def)

lemma digits_val_append: "digits_val acc (xs @ ys) = digits_val (digits_val acc xs) ys"
  by (induction xs arbitrary: acc) auto

lemma digits_val_bound:
  "\<forall>c \<in> set ds. is_ascii_digit c \<Longrightarrow> digits_val acc ds < (acc + 1) * 10 ^ length ds"
proof (induction ds arbitrary: acc)
  case Nil
  show ?case by simp
next
  case (Cons c ds)
  then have "digits_val (acc * 10 + digit_val c) ds < (acc * 10 + digit_val c + 1) * 10 ^ length ds"
    by simp
  also have "\<dots> \<le> (acc + 1) * 10 * 10 ^ length ds"
    using Cons.prems digit_val_less [of c] by (intro mult_right_mono) auto
  finally show ?case by (simp add: algebra_simps)
qed

lemma digits_val_less: "\<forall>c \<in> set ds. is_ascii_digit c \<Longrightarrow> digits_val 0 ds < 10 ^ length ds"
  using digits_val_bound [of ds 0] by simp

lemma dec_string_not_Nil [simp]: "dec_string n \<noteq> []"
  by (subst dec_string.simps) simp

lemma dec_string_digits: "c \<in> set (dec_string n) \<Longrightarrow> is_ascii_digit c"
proof (induction n rule: dec_string.induct)
  case (1 n)
  then show ?case
    by (cases "n < 10") (auto simp: dec_string.simps [of n])
qed

lemma digits_val_dec_string: "digits_val 0 (dec_string n) = n"
proof (induction n rule: dec_string.induct)
  case (1 n)
  then show ?case
    by (cases "n < 10") (simp_all add: dec_string.simps [of n] digits_val_append)
qed

section \<open>Hexadecimal and debug output\<close>

text \<open>\<open>{:x}\<close>: the lower-case hexadecimal digits, no padding.\<close>

definition hex_char :: "nat \<Rightarrow> char" where
  "hex_char d = (if d < 10 then char_of (48 + d) else char_of (87 + d))"

fun hex_string :: "nat \<Rightarrow> string" where
  "hex_string n = (if n < 16 then [hex_char n] else hex_string (n div 16) @ [hex_char (n mod 16)])"

declare hex_string.simps [simp del]

text \<open>
  \<open>{:?}\<close> of a string: quotes, with the ASCII escapes. A byte above 126 is copied (the standard
  library escapes the unprintable ones among the code points they form).
\<close>

definition escape_debug_char :: "char \<Rightarrow> string" where
  "escape_debug_char c =
     (let b = byte c; bs = char_of (92::nat) in
      if b = 0 then [bs, CHR ''0'']
      else if b = 9 then [bs, CHR ''t'']
      else if b = 10 then [bs, CHR ''n'']
      else if b = 13 then [bs, CHR ''r'']
      else if b = 34 then [bs, char_of (34::nat)]
      else if b = 92 then [bs, bs]
      else if b < 32 \<or> b = 127 then [bs, CHR ''u'', CHR ''{''] @ hex_string b @ [CHR ''}'']
      else [c])"

definition debug_str :: "string \<Rightarrow> string" where
  "debug_str s = [char_of (34::nat)] @ concat (map escape_debug_char s) @ [char_of (34::nat)]"

section \<open>Interfaces shared by several components\<close>

text \<open>
  A printer and a parser that reads back every valid value it printed. Two valid values with
  the same text are then the same value, and the parser covers the printer's range.
\<close>

locale codec =
  fixes enc :: "'a \<Rightarrow> 'b" and dec :: "'b \<Rightarrow> 'a option" and valid :: "'a \<Rightarrow> bool"
  assumes dec_enc: "valid x \<Longrightarrow> dec (enc x) = Some x"
begin

lemma enc_inj: "valid x \<Longrightarrow> valid y \<Longrightarrow> enc x = enc y \<longleftrightarrow> x = y"
  using dec_enc by (metis option.inject)

lemma enc_inj_on: "inj_on enc (Collect valid)"
  by (auto intro!: inj_onI simp: enc_inj)

lemma dec_covers: "valid x \<Longrightarrow> \<exists>t. dec t = Some x"
  using dec_enc by blast

end

text \<open>
  A reconciler pulls a state back to what a fixed source (a policy) demands. Applying it again
  changes nothing, so any number of reconcile points in a row is one reconcile.
\<close>

locale reconciler =
  fixes apply_to :: "'s \<Rightarrow> 'p \<Rightarrow> 'p"
  assumes idem: "apply_to s (apply_to s p) = apply_to s p"
begin

lemma iterate: "(apply_to s ^^ Suc n) p = apply_to s p"
  by (induction n) (simp_all add: idem)

lemma fixpoint_iff: "apply_to s p = p \<longleftrightarrow> (\<exists>q. p = apply_to s q)"
  using idem by metis

end

lemma in_map_filter: "y \<in> set (List.map_filter f xs) \<longleftrightarrow> (\<exists>x \<in> set xs. f x = Some y)"
  by (auto simp: List.map_filter_def) force

end
