(* ===== verification/StdNet.thy ===== *)
theory StdNet
  imports Prelude
begin

text \<open>
  IP addresses as the standard library's \<open>std::net::IpAddr\<close> has them: their order, their parser
  (\<open>core::net::parser\<close>: an atomic reader per production, no octal groups, at most four hexadecimal
  digits per group, one \<open>::\<close>, a trailing embedded IPv4 address) and their \<open>Display\<close>. The daemon
  stores policy-pinned and operator-chosen exit nodes in the printed form and parses them back, so
  the round trip is what its exit-node logic rests on.
\<close>

datatype ipaddr = V4 "32 word" | V6 "128 word"

text \<open>The derived order: every v4 address before every v6 one, then numerically.\<close>

instantiation ipaddr :: linorder
begin

fun less_eq_ipaddr :: "ipaddr \<Rightarrow> ipaddr \<Rightarrow> bool" where
  "less_eq_ipaddr (V4 a) (V4 b) = (a \<le> b)"
| "less_eq_ipaddr (V4 _) (V6 _) = True"
| "less_eq_ipaddr (V6 _) (V4 _) = False"
| "less_eq_ipaddr (V6 a) (V6 b) = (a \<le> b)"

definition less_ipaddr :: "ipaddr \<Rightarrow> ipaddr \<Rightarrow> bool" where
  "less_ipaddr a b = (a \<le> b \<and> \<not> b \<le> a)"

instance
proof
  fix x y z :: ipaddr
  show "x < y \<longleftrightarrow> x \<le> y \<and> \<not> y \<le> x" by (rule less_ipaddr_def)
  show "x \<le> x" by (cases x) simp_all
  show "x \<le> y \<Longrightarrow> y \<le> z \<Longrightarrow> x \<le> z" by (cases x; cases y; cases z) auto
  show "x \<le> y \<Longrightarrow> y \<le> x \<Longrightarrow> x = y" by (cases x; cases y) auto
  show "x \<le> y \<or> y \<le> x" by (cases x; cases y) auto
qed

end

section \<open>The parser\<close>

text \<open>\<open>char::to_digit\<close> for a radix of at most 16.\<close>

definition to_digit :: "nat \<Rightarrow> char \<Rightarrow> nat option" where
  "to_digit radix c =
     (let b = byte c;
          d = (if 48 \<le> b \<and> b \<le> 57 then Some (b - 48)
               else if 97 \<le> b \<and> b \<le> 102 then Some (b - 87)
               else if 65 \<le> b \<and> b \<le> 70 then Some (b - 55)
               else None)
      in case d of None \<Rightarrow> None | Some v \<Rightarrow> if v < radix then Some v else None)"

text \<open>The digit loop of \<open>read_number\<close>: the value, the count and the rest, unless it runs too long.\<close>

fun read_digits :: "nat \<Rightarrow> nat \<Rightarrow> nat \<Rightarrow> nat \<Rightarrow> string \<Rightarrow> (nat \<times> nat \<times> string) option" where
  "read_digits radix maxd n acc [] = Some (acc, n, [])"
| "read_digits radix maxd n acc (c # cs) =
     (case to_digit radix c of
        None \<Rightarrow> Some (acc, n, c # cs)
      | Some d \<Rightarrow> if maxd < n + 1 then None
                  else read_digits radix maxd (n + 1) (acc * radix + d) cs)"

definition read_number :: "nat \<Rightarrow> nat \<Rightarrow> bool \<Rightarrow> nat \<Rightarrow> string \<Rightarrow> (nat \<times> string) option" where
  "read_number radix maxd allow_zero_prefix bound s =
     (case read_digits radix maxd 0 0 s of
        None \<Rightarrow> None
      | Some (v, n, rest) \<Rightarrow>
          if n = 0 then None
          else if \<not> allow_zero_prefix \<and> take 1 s = ''0'' \<and> 1 < n then None
          else if v < bound then Some (v, rest) else None)"

fun read_given_char :: "char \<Rightarrow> string \<Rightarrow> string option" where
  "read_given_char c [] = None"
| "read_given_char c (d # ds) = (if c = d then Some ds else None)"

definition read_separator :: "char \<Rightarrow> nat \<Rightarrow> (string \<Rightarrow> ('a \<times> string) option) \<Rightarrow> string \<Rightarrow> ('a \<times> string) option" where
  "read_separator sep i inner s =
     (if i = 0 then inner s
      else case read_given_char sep s of None \<Rightarrow> None | Some s' \<Rightarrow> inner s')"

text \<open>The four-slot loop of \<open>read_ipv4_addr\<close>; the value accumulates the octets, first one first.\<close>

fun read_octets :: "nat \<Rightarrow> nat \<Rightarrow> nat \<Rightarrow> string \<Rightarrow> (nat \<times> string) option" where
  "read_octets 0 i acc s = Some (acc, s)"
| "read_octets (Suc k) i acc s =
     (case read_separator (CHR ''.'') i (read_number 10 3 False 256) s of
        None \<Rightarrow> None
      | Some (v, s') \<Rightarrow> read_octets k (i + 1) (acc * 256 + v) s')"

definition read_ipv4_addr :: "string \<Rightarrow> (nat \<times> string) option" where
  "read_ipv4_addr s = read_octets 4 0 0 s"

text \<open>
  \<open>read_groups\<close>: at most \<open>limit\<close> sixteen-bit groups, the last two of them possibly an embedded
  IPv4 address. The result is the groups read, whether they ended in an IPv4 address, and the rest.
  The first argument counts the slots left.
\<close>

fun read_groups :: "nat \<Rightarrow> nat \<Rightarrow> string \<Rightarrow> nat list \<times> bool \<times> string" where
  "read_groups 0 i s = ([], False, s)"
| "read_groups (Suc left) i s =
     (case (if 0 < left then read_separator (CHR '':'') i read_ipv4_addr s else None) of
        Some (v4, s') \<Rightarrow> ([v4 div 65536, v4 mod 65536], True, s')
      | None \<Rightarrow>
          (case read_separator (CHR '':'') i (read_number 16 4 True 65536) s of
             None \<Rightarrow> ([], False, s)
           | Some (g, s') \<Rightarrow>
               (case read_groups left (i + 1) s' of (gs, v4, s'') \<Rightarrow> (g # gs, v4, s''))))"

definition read_ipv6_addr :: "string \<Rightarrow> (nat list \<times> string) option" where
  "read_ipv6_addr s =
     (case read_groups 8 0 s of
        (head, head_ipv4, s1) \<Rightarrow>
          if length head = 8 then Some (head, s1)
          else if head_ipv4 then None
          else case read_given_char (CHR '':'') s1 of
            None \<Rightarrow> None
          | Some s2 \<Rightarrow> (case read_given_char (CHR '':'') s2 of
              None \<Rightarrow> None
            | Some s3 \<Rightarrow>
                (case read_groups (8 - (length head + 1)) 0 s3 of
                   (tail, _, s4) \<Rightarrow>
                     Some (head @ replicate (8 - length head - length tail) 0 @ tail, s4))))"

definition groups_val :: "nat list \<Rightarrow> nat" where
  "groups_val gs = foldl (\<lambda>acc g. acc * 65536 + g) 0 gs"

text \<open>\<open>str::parse::<IpAddr>\<close>: IPv4 first, then IPv6, and the whole input must be consumed.\<close>

definition parse_ipaddr :: "string \<Rightarrow> ipaddr option" where
  "parse_ipaddr s =
     (case (case read_ipv4_addr s of
              Some (v, r) \<Rightarrow> Some (V4 (word_of_nat v), r)
            | None \<Rightarrow> (case read_ipv6_addr s of
                 Some (gs, r) \<Rightarrow> Some (V6 (word_of_nat (groups_val gs)), r)
               | None \<Rightarrow> None)) of
        Some (a, []) \<Rightarrow> Some a
      | _ \<Rightarrow> None)"

section \<open>The printer\<close>

definition octet_of :: "nat \<Rightarrow> nat \<Rightarrow> nat" where
  "octet_of i v = v div 256 ^ i mod 256"

definition show_ipv4 :: "nat \<Rightarrow> string" where
  "show_ipv4 v =
     dec_string (octet_of 3 v) @ ''.'' @ dec_string (octet_of 2 v) @ ''.'' @
     dec_string (octet_of 1 v) @ ''.'' @ dec_string (octet_of 0 v)"

definition segments :: "nat \<Rightarrow> nat list" where
  "segments v = map (\<lambda>i. v div 65536 ^ (7 - i) mod 65536) [0..<8]"

text \<open>The longest run of zero segments, the first of equal ones: (longest, current) per step.\<close>

definition span_step :: "nat list \<Rightarrow> nat \<Rightarrow> (nat \<times> nat) \<times> (nat \<times> nat) \<Rightarrow> (nat \<times> nat) \<times> (nat \<times> nat)" where
  "span_step segs i acc =
     (case acc of ((lstart, llen), (cstart, clen)) \<Rightarrow>
        if segs ! i = 0 then
          (let cur = ((if clen = 0 then i else cstart), clen + 1) in
           (if llen < clen + 1 then cur else (lstart, llen), cur))
        else ((lstart, llen), (0, 0)))"

definition longest_zero_span :: "nat list \<Rightarrow> nat \<times> nat" where
  "longest_zero_span segs = fst (fold (span_step segs) [0..<length segs] ((0, 0), (0, 0)))"

definition fmt_subslice :: "nat list \<Rightarrow> string" where
  "fmt_subslice segs = join '':'' (map hex_string segs)"

definition show_ipv6 :: "nat \<Rightarrow> string" where
  "show_ipv6 v =
     (let segs = segments v in
      if take 6 segs = [0, 0, 0, 0, 0, 65535] then ''::ffff:'' @ show_ipv4 (v mod 2 ^ 32)
      else case longest_zero_span segs of (start, len) \<Rightarrow>
        if 1 < len then fmt_subslice (take start segs) @ ''::'' @ fmt_subslice (drop (start + len) segs)
        else fmt_subslice segs)"

fun show_ipaddr :: "ipaddr \<Rightarrow> string" where
  "show_ipaddr (V4 a) = show_ipv4 (unat a)"
| "show_ipaddr (V6 a) = show_ipv6 (unat a)"

section \<open>The IPv4 round trip\<close>

text \<open>Reading decimal digits back from \<open>dec_string\<close>, in front of anything that is not a digit.\<close>

lemma to_digit_dec: "is_ascii_digit c \<Longrightarrow> to_digit 10 c = Some (digit_val c)"
  by (auto simp: to_digit_def is_ascii_digit_def digit_val_def Let_def)

lemma to_digit_non: "\<not> is_ascii_digit c \<Longrightarrow> to_digit 10 c = None"
  by (auto simp: to_digit_def is_ascii_digit_def Let_def)

definition stops_digits :: "string \<Rightarrow> bool" where
  "stops_digits r = (case r of [] \<Rightarrow> True | c # _ \<Rightarrow> \<not> is_ascii_digit c)"

lemma read_digits_stop:
  "\<forall>c \<in> set ds. is_ascii_digit c \<Longrightarrow> n + length ds \<le> maxd \<Longrightarrow> stops_digits r \<Longrightarrow>
     read_digits 10 maxd n acc (ds @ r) = Some (digits_val acc ds, n + length ds, r)"
proof (induction ds arbitrary: n acc)
  case Nil
  then show ?case by (cases r) (auto simp: stops_digits_def to_digit_non)
next
  case (Cons c ds)
  then show ?case by (simp add: to_digit_dec)
qed

lemma dec_string_leading_zero: "take 1 (dec_string n) = ''0'' \<Longrightarrow> n = 0"
proof (induction n rule: dec_string.induct)
  case (1 n)
  show ?case
  proof (cases "n < 10")
    case True
    with "1.prems" have "digit_char n = CHR ''0''" by (simp add: dec_string.simps [of n])
    with True show ?thesis using digit_val_digit_char [of n] by (simp add: digit_val_def byte_def)
  next
    case False
    with "1.prems" have "take 1 (dec_string (n div 10)) = ''0''"
      by (cases "dec_string (n div 10)") (simp_all add: dec_string.simps [of n])
    with False "1.IH" have "n div 10 = 0" by simp
    with False show ?thesis by simp
  qed
qed

lemma dec_string_octet:
  assumes "v < 256"
  shows "length (dec_string v) \<le> 3" "take 1 (dec_string v) = ''0'' \<Longrightarrow> length (dec_string v) = 1"
proof -
  have "v div 10 div 10 < 10" using assms by simp
  then show "length (dec_string v) \<le> 3"
    by (simp add: dec_string.simps [of v] dec_string.simps [of "v div 10"]
        dec_string.simps [of "v div 10 div 10"])
  show "take 1 (dec_string v) = ''0'' \<Longrightarrow> length (dec_string v) = 1"
    using dec_string_leading_zero [of v] by (auto simp: dec_string.simps [of 0])
qed

lemma read_number_octet:
  assumes "v < 256" "stops_digits r"
  shows "read_number 10 3 False 256 (dec_string v @ r) = Some (v, r)"
proof -
  have "read_digits 10 3 0 0 (dec_string v @ r) = Some (v, length (dec_string v), r)"
    using read_digits_stop [of "dec_string v" 0 3 r 0] dec_string_octet(1) [OF assms(1)] assms(2)
      dec_string_digits digits_val_dec_string by fastforce
  moreover have "take 1 (dec_string v @ r) = take 1 (dec_string v)"
    by (cases "dec_string v") auto
  ultimately show ?thesis
    using dec_string_octet(2) [OF assms(1)] assms(1) by (auto simp: read_number_def)
qed

lemma stops_digits_simps [simp]: "stops_digits []" "stops_digits (CHR ''.'' # r)"
  by (simp_all add: stops_digits_def is_ascii_digit_def byte_def)

lemma octet_of_less [simp]: "octet_of i v < 256"
  by (simp add: octet_of_def)

lemma octets_val:
  assumes "v < 2 ^ 32"
  shows "((octet_of 3 v * 256 + octet_of 2 v) * 256 + octet_of 1 v) * 256 + octet_of 0 v = v"
proof -
  have step: "v div 256 ^ Suc i * 256 + octet_of i v = v div 256 ^ i" for i
    by (simp only: octet_of_def power_Suc2 div_mult2_eq div_mult_mod_eq)
  have "octet_of 3 v = v div 256 ^ Suc 2"
    using assms by (simp add: octet_of_def)
  with step [of 2] have "octet_of 3 v * 256 + octet_of 2 v = v div 256 ^ Suc 1"
    by (simp add: numeral_2_eq_2)
  with step [of 1] have "(octet_of 3 v * 256 + octet_of 2 v) * 256 + octet_of 1 v = v div 256 ^ Suc 0"
    by simp
  with step [of 0] show ?thesis by simp
qed

lemma four_Suc: "(4::nat) = Suc (Suc (Suc (Suc 0)))"
  by simp

lemma read_ipv4_show:
  assumes "v < 2 ^ 32"
  shows "read_ipv4_addr (show_ipv4 v) = Some (v, [])"
  using octets_val [OF assms]
  by (simp add: read_ipv4_addr_def show_ipv4_def four_Suc read_separator_def read_number_octet
      read_number_octet [where r = "[]", simplified] del: One_nat_def)

lemma parse_show_ipv4: "parse_ipaddr (show_ipaddr (V4 a)) = Some (V4 a)"
proof -
  have "unat a < 2 ^ 32" using unsigned_less [of a] by simp
  then show ?thesis by (simp add: parse_ipaddr_def read_ipv4_show)
qed

end
