(* ===== verification/Routes.thy ===== *)
theory Routes
  imports StdNet "HOL-Library.Product_Lexorder"
begin

unbundle bit_operations_syntax

text \<open>
  \<open>src/src/routes.rs\<close>: the set of prefixes a node advertises. The prefix type, its parser, its
  masking (\<open>trunc\<close>) and its printer belong to the \<open>ipnet\<close> crate: a prefix is modelled by the
  address and the length the daemon reads off it, and the three functions are the record
  \<open>ipnet_lib\<close>, a parameter of everything here.
\<close>

datatype ipnet = NetV4 "32 word" nat | NetV6 "128 word" nat

fun addr :: "ipnet \<Rightarrow> ipaddr" where
  "addr (NetV4 a _) = V4 a"
| "addr (NetV6 a _) = V6 a"

fun prefix_len :: "ipnet \<Rightarrow> nat" where
  "prefix_len (NetV4 _ n) = n"
| "prefix_len (NetV6 _ n) = n"

record ipnet_lib =
  parse_ipnet :: "string \<Rightarrow> ipnet option"
  trunc :: "ipnet \<Rightarrow> ipnet"
  show_ipnet :: "ipnet \<Rightarrow> string"

section \<open>4via6 prefixes\<close>

text \<open>\<open>Ipv6Addr::octets\<close>: the sixteen bytes, most significant first.\<close>

definition octets :: "128 word \<Rightarrow> nat list" where
  "octets a = map (\<lambda>i. unat (drop_bit (8 * (15 - i)) a) mod 256) [0..<16]"

definition VIA_RANGE_PREFIX :: "nat list" where
  "VIA_RANGE_PREFIX = [0xfd, 0x7a, 0x11, 0x5c, 0xa1, 0xe0, 0x0b, 0x1a]"

definition all_ipv4 :: ipnet where
  "all_ipv4 = NetV4 0 0"

definition all_ipv6 :: ipnet where
  "all_ipv6 = NetV6 0 0"

fun is_via_prefix :: "ipnet \<Rightarrow> bool" where
  "is_via_prefix (NetV6 a _) = (take 8 (octets a) = VIA_RANGE_PREFIX)"
| "is_via_prefix (NetV4 _ _) = False"

definition u32_from_be_bytes :: "nat \<Rightarrow> nat \<Rightarrow> nat \<Rightarrow> nat \<Rightarrow> nat" where
  "u32_from_be_bytes a b c d = ((a * 256 + b) * 256 + c) * 256 + d"

text \<open>\<open>{:08x}\<close>: eight lower-case hexadecimal digits.\<close>

definition hex08 :: "nat \<Rightarrow> string" where
  "hex08 n = map (\<lambda>i. hex_char (n div 16 ^ (7 - i) mod 16)) [0..<8]"

definition validate_via_prefix :: "ipnet_lib \<Rightarrow> ipnet \<Rightarrow> (string, unit) result" where
  "validate_via_prefix lib p =
     (if \<not> is_via_prefix p then Inl (show_ipnet lib p @ '' is not a 4-in-6 prefix'')
      else if prefix_len p < 96 then
        Inl (show_ipnet lib p @ '' 4-in-6 prefix must be at least a /96'')
      else case p of
        NetV4 _ _ \<Rightarrow> Inl (show_ipnet lib p @ '' is not a 4-in-6 prefix'')
      | NetV6 a _ \<Rightarrow>
          (let os = octets a; site_id = u32_from_be_bytes (os ! 8) (os ! 9) (os ! 10) (os ! 11) in
           if 0xffff < site_id then
             Inl (''route '' @ show_ipnet lib p @ '' contains invalid site ID '' @ hex08 site_id @
                  ''; must be 0xffff or less'')
           else Inr ()))"

section \<open>The errors\<close>

datatype RouteError =
    Unparsable string
  | NonMasked ipnet ipnet
  | Via string
  | LoneDefault ipnet ipnet

fun refused_by_go_config_path :: "RouteError \<Rightarrow> bool" where
  "refused_by_go_config_path (NonMasked _ _) = True"
| "refused_by_go_config_path (Unparsable _) = True"
| "refused_by_go_config_path (LoneDefault _ _) = False"
| "refused_by_go_config_path (Via _) = False"

fun display_RouteError :: "ipnet_lib \<Rightarrow> RouteError \<Rightarrow> string" where
  "display_RouteError lib (Unparsable route) =
     debug_str route @ '' is not a valid IP address or CIDR prefix''"
| "display_RouteError lib (NonMasked route masked) =
     ''route '' @ show_ipnet lib route @ '' has non-address bits set; expected '' @ show_ipnet lib masked"
| "display_RouteError lib (Via msg) = msg"
| "display_RouteError lib (LoneDefault hv want) =
     show_ipnet lib hv @ '' advertised without its '' @
     (case addr want of V6 _ \<Rightarrow> ''IPv6'' | V4 _ \<Rightarrow> ''IPv4'') @
     '' counterpart, please also advertise '' @ show_ipnet lib want"

section \<open>\<open>calc_advertise_routes\<close>\<close>

record route_acc =
  ra_errors :: "RouteError list"
  ra_set :: "ipnet list"
  ra_default4 :: bool
  ra_default6 :: bool

text \<open>One turn of the loop over the operator's strings; every \<open>continue\<close> is a branch.\<close>

definition route_step :: "ipnet_lib \<Rightarrow> string \<Rightarrow> route_acc \<Rightarrow> route_acc" where
  "route_step lib s acc =
     (case parse_ipnet lib s of
        None \<Rightarrow> acc\<lparr>ra_errors := ra_errors acc @ [Unparsable s]\<rparr>
      | Some net \<Rightarrow>
          (let masked = trunc lib net in
           if masked \<noteq> net then acc\<lparr>ra_errors := ra_errors acc @ [NonMasked net masked]\<rparr>
           else case (if is_via_prefix net then validate_via_prefix lib net else Inr ()) of
             Inl msg \<Rightarrow> acc\<lparr>ra_errors := ra_errors acc @ [Via msg]\<rparr>
           | Inr _ \<Rightarrow>
               acc\<lparr>ra_default4 := ra_default4 acc \<or> net = all_ipv4,
                   ra_default6 := ra_default6 acc \<or> net = all_ipv6,
                   ra_set := ra_set acc @ [net]\<rparr>))"

definition calc_advertise_routes ::
  "ipnet_lib \<Rightarrow> string list \<Rightarrow> bool \<Rightarrow> (RouteError list, ipnet list) result" where
  "calc_advertise_routes lib advertise_routes advertise_exit_node =
     (let a0 = fold (route_step lib) advertise_routes
                 \<lparr>ra_errors = [], ra_set = [], ra_default4 = False, ra_default6 = False\<rparr>;
          a1 = (if advertise_exit_node
                then a0\<lparr>ra_default4 := True, ra_default6 := True,
                        ra_set := ra_set a0 @ [all_ipv4, all_ipv6]\<rparr>
                else a0);
          a2 = (if ra_default4 a1 \<noteq> ra_default6 a1
                then a1\<lparr>ra_errors := ra_errors a1 @
                         [if ra_default4 a1 then LoneDefault all_ipv4 all_ipv6
                          else LoneDefault all_ipv6 all_ipv4]\<rparr>
                else a1)
      in if ra_errors a2 \<noteq> [] then Inl (ra_errors a2)
         else Inr (remdups_adj (sort_key (\<lambda>n. (prefix_len n, addr n)) (ra_set a2))))"

definition validate_advertise_routes ::
  "ipnet_lib \<Rightarrow> string list \<Rightarrow> bool \<Rightarrow> (string, unit) result" where
  "validate_advertise_routes lib routes exit =
     (case calc_advertise_routes lib routes exit of
        Inr _ \<Rightarrow> Inr ()
      | Inl errs \<Rightarrow> Inl (join [char_of (10::nat)] (map (display_RouteError lib) errs)))"

section \<open>The rules one route at a time\<close>

text \<open>
  What a single string is judged to be, independently of the loop: the first rule it breaks, or
  the prefix it names.
\<close>

definition judge_route :: "ipnet_lib \<Rightarrow> string \<Rightarrow> (RouteError, ipnet) result" where
  "judge_route lib s =
     (case parse_ipnet lib s of
        None \<Rightarrow> Inl (Unparsable s)
      | Some net \<Rightarrow>
          if trunc lib net \<noteq> net then Inl (NonMasked net (trunc lib net))
          else case (if is_via_prefix net then validate_via_prefix lib net else Inr ()) of
            Inl msg \<Rightarrow> Inl (Via msg) | Inr _ \<Rightarrow> Inr net)"

definition route_errors :: "ipnet_lib \<Rightarrow> string list \<Rightarrow> RouteError list" where
  "route_errors lib rs = List.map_filter (\<lambda>s. case judge_route lib s of Inl e \<Rightarrow> Some e | _ \<Rightarrow> None) rs"

definition route_nets :: "ipnet_lib \<Rightarrow> string list \<Rightarrow> ipnet list" where
  "route_nets lib rs = List.map_filter (\<lambda>s. case judge_route lib s of Inr n \<Rightarrow> Some n | _ \<Rightarrow> None) rs"

lemma route_step_judge:
  "route_step lib s acc =
     (case judge_route lib s of
        Inl e \<Rightarrow> acc\<lparr>ra_errors := ra_errors acc @ [e]\<rparr>
      | Inr net \<Rightarrow> acc\<lparr>ra_default4 := ra_default4 acc \<or> net = all_ipv4,
                       ra_default6 := ra_default6 acc \<or> net = all_ipv6,
                       ra_set := ra_set acc @ [net]\<rparr>)"
  by (cases "parse_ipnet lib s")
     (simp_all add: route_step_def judge_route_def Let_def split: sum.split)

lemma route_errors_Cons:
  "route_errors lib (s # rs) =
     (case judge_route lib s of Inl e \<Rightarrow> e # route_errors lib rs | Inr _ \<Rightarrow> route_errors lib rs)"
  by (simp add: route_errors_def List.map_filter_simps split: sum.split)

lemma route_nets_Cons:
  "route_nets lib (s # rs) =
     (case judge_route lib s of Inl _ \<Rightarrow> route_nets lib rs | Inr n \<Rightarrow> n # route_nets lib rs)"
  by (simp add: route_nets_def List.map_filter_simps split: sum.split)

lemma route_acc_Nil: "route_errors lib [] = []" "route_nets lib [] = []"
  by (simp_all add: route_errors_def route_nets_def)

lemma fold_route_step:
  "fold (route_step lib) rs acc =
     acc\<lparr>ra_errors := ra_errors acc @ route_errors lib rs,
         ra_set := ra_set acc @ route_nets lib rs,
         ra_default4 := ra_default4 acc \<or> all_ipv4 \<in> set (route_nets lib rs),
         ra_default6 := ra_default6 acc \<or> all_ipv6 \<in> set (route_nets lib rs)\<rparr>"
proof (induction rs arbitrary: acc)
  case Nil
  show ?case by (simp add: route_errors_def route_nets_def)
next
  case (Cons s rs)
  show ?case
  proof (cases "judge_route lib s")
    case (Inl e)
    then show ?thesis
      by (simp add: Cons.IH route_step_judge [of lib s] route_errors_Cons route_nets_Cons)
  next
    case (Inr n)
    have "(all_ipv4 = n) = (n = all_ipv4)" "(all_ipv6 = n) = (n = all_ipv6)" by auto
    with Inr show ?thesis
      by (simp add: Cons.IH route_step_judge [of lib s] route_errors_Cons route_nets_Cons)
  qed
qed

text \<open>The composed set, before sorting, and the pairing error it may have.\<close>

definition composed_routes :: "ipnet_lib \<Rightarrow> string list \<Rightarrow> bool \<Rightarrow> ipnet list" where
  "composed_routes lib rs exit = route_nets lib rs @ (if exit then [all_ipv4, all_ipv6] else [])"

definition pairing_errors :: "ipnet list \<Rightarrow> RouteError list" where
  "pairing_errors ns =
     (if all_ipv4 \<in> set ns \<and> all_ipv6 \<notin> set ns then [LoneDefault all_ipv4 all_ipv6]
      else if all_ipv6 \<in> set ns \<and> all_ipv4 \<notin> set ns then [LoneDefault all_ipv6 all_ipv4]
      else [])"

lemma calc_advertise_routes_spec:
  "calc_advertise_routes lib rs exit =
     (let errs = route_errors lib rs @ pairing_errors (composed_routes lib rs exit) in
      if errs \<noteq> [] then Inl errs
      else Inr (remdups_adj (sort_key (\<lambda>n. (prefix_len n, addr n)) (composed_routes lib rs exit))))"
  by (simp add: calc_advertise_routes_def fold_route_step pairing_errors_def composed_routes_def Let_def)

lemma net_key_inj: "prefix_len a = prefix_len b \<Longrightarrow> addr a = addr b \<Longrightarrow> a = b"
  by (cases a; cases b) auto

lemma remdups_adj_sorted_distinct:
  assumes "inj f" "sorted (map f xs)"
  shows "distinct (remdups_adj xs) \<and> sorted (map f (remdups_adj xs))"
  using assms(2)
proof (induction xs rule: remdups_adj.induct)
  case (3 x y xs)
  then show ?case
    using injD [OF assms(1)] by (fastforce simp: order.antisym)
qed simp_all

lemma composed_routes_set:
  "set (composed_routes lib rs exit) =
     {n. \<exists>s \<in> set rs. judge_route lib s = Inr n} \<union> (if exit then {all_ipv4, all_ipv6} else {})"
  by (induction rs) (auto simp: composed_routes_def route_acc_Nil route_nets_Cons split: sum.splits)

lemma judge_route_Inr:
  "judge_route lib s = Inr n \<longleftrightarrow>
     parse_ipnet lib s = Some n \<and> trunc lib n = n \<and>
     (is_via_prefix n \<longrightarrow> validate_via_prefix lib n = Inr ())"
  by (auto simp: judge_route_def split: option.splits sum.splits if_splits)

lemma route_errors_set: "set (route_errors lib rs) = {e. \<exists>s \<in> set rs. judge_route lib s = Inl e}"
  by (induction rs) (auto simp: route_acc_Nil route_errors_Cons split: sum.splits)

lemma all_defaults_not_via: "\<not> is_via_prefix all_ipv4" "\<not> is_via_prefix all_ipv6"
  by (simp_all add: all_ipv4_def all_ipv6_def octets_def VIA_RANGE_PREFIX_def upt_rec)

section \<open>Properties\<close>

lemma calc_advertise_routes_accepts_parts:
  assumes "calc_advertise_routes lib rs exit = Inr ns"
  shows "sorted (map (\<lambda>n. (prefix_len n, addr n)) ns)"
    and "distinct ns"
    and "set ns = {n. \<exists>s \<in> set rs. parse_ipnet lib s = Some n} \<union> (if exit then {all_ipv4, all_ipv6} else {})"
    and "\<forall>s \<in> set rs. \<exists>n. parse_ipnet lib s = Some n \<and> trunc lib n = n \<and>
           (is_via_prefix n \<longrightarrow> validate_via_prefix lib n = Inr ())"
    and "all_ipv4 \<in> set ns \<longleftrightarrow> all_ipv6 \<in> set ns"
proof -
  let ?k = "\<lambda>n. (prefix_len n, addr n)" and ?c = "composed_routes lib rs exit"
  from assms have errs: "route_errors lib rs = []" "pairing_errors ?c = []"
    and ns: "ns = remdups_adj (sort_key ?k ?c)"
    by (auto simp: calc_advertise_routes_spec Let_def split: if_splits)
  have "inj ?k" by (auto intro: injI dest: net_key_inj)
  then have ds: "distinct ns \<and> sorted (map ?k ns)"
    unfolding ns by (rule remdups_adj_sorted_distinct) simp
  then show "sorted (map ?k ns)" "distinct ns" by simp_all
  have good: "\<exists>n. judge_route lib s = Inr n" if "s \<in> set rs" for s
    using that errs(1) route_errors_set [of lib rs] by (cases "judge_route lib s") auto
  then show "\<forall>s \<in> set rs. \<exists>n. parse_ipnet lib s = Some n \<and> trunc lib n = n \<and>
           (is_via_prefix n \<longrightarrow> validate_via_prefix lib n = Inr ())"
    by (auto simp: judge_route_Inr)
  have "set ns = set ?c" by (simp add: ns)
  moreover have "{n. \<exists>s \<in> set rs. judge_route lib s = Inr n} =
                 {n. \<exists>s \<in> set rs. parse_ipnet lib s = Some n}"
    using good by (fastforce simp: judge_route_Inr)
  ultimately show "set ns = {n. \<exists>s \<in> set rs. parse_ipnet lib s = Some n} \<union>
       (if exit then {all_ipv4, all_ipv6} else {})"
    by (simp add: composed_routes_set)
  show "all_ipv4 \<in> set ns \<longleftrightarrow> all_ipv6 \<in> set ns"
    using errs(2) \<open>set ns = set ?c\<close> by (auto simp: pairing_errors_def split: if_splits)
qed

text \<open>
  A route set that is accepted is sorted by prefix length and then address, free of
  duplicates, and is exactly the set of prefixes the operator's strings name, together with the two
  default routes when the node advertises itself as an exit node. Every prefix in it that came from
  a string has no host bits and, in the 4via6 range, a length of at least 96 and a site id of at
  most 65535; and it holds the IPv4 default route exactly when it holds the IPv6 one, so no accepted
  set leaks one address family.
\<close>

theorem calc_advertise_routes_accepts:
  assumes "calc_advertise_routes lib rs exit = Inr ns"
  shows "(sorted (map (\<lambda>n. (prefix_len n, addr n)) ns)) \<and>
    (distinct ns) \<and>
    (set ns = {n. \<exists>s \<in> set rs. parse_ipnet lib s = Some n} \<union> (if exit then {all_ipv4, all_ipv6} else {})) \<and>
    (\<forall>s \<in> set rs. \<exists>n. parse_ipnet lib s = Some n \<and> trunc lib n = n \<and>
           (is_via_prefix n \<longrightarrow> validate_via_prefix lib n = Inr ())) \<and>
    (all_ipv4 \<in> set ns \<longleftrightarrow> all_ipv6 \<in> set ns)"
  by (rule conjI, rule calc_advertise_routes_accepts_parts(1) [OF assms],
      rule conjI, rule calc_advertise_routes_accepts_parts(2) [OF assms],
      rule conjI, rule calc_advertise_routes_accepts_parts(3) [OF assms],
      rule conjI, rule calc_advertise_routes_accepts_parts(4) [OF assms],
      rule calc_advertise_routes_accepts_parts(5) [OF assms])

text \<open>A library instance for the witnesses: two spellings it knows, every prefix masked.\<close>

definition demo_ipnet :: ipnet_lib where
  "demo_ipnet =
     \<lparr>parse_ipnet = (\<lambda>s. if s = ''10.0.0.0/8'' then Some (NetV4 0x0A000000 8)
                         else if s = ''::/0'' then Some (NetV6 0 0) else None),
      trunc = (\<lambda>n. n), show_ipnet = (\<lambda>_. ''net'')\<rparr>"

lemma demo_routes_ok:
  "calc_advertise_routes demo_ipnet [''10.0.0.0/8'', ''::/0'', ''10.0.0.0/8''] True =
     Inr [all_ipv4, all_ipv6, NetV4 0x0A000000 8]"
  by code_simp

theorem calc_advertise_routes_accepts_witness:
  "distinct [all_ipv4, all_ipv6, NetV4 0x0A000000 8] \<and>
   sorted (map (\<lambda>n. (prefix_len n, addr n)) [all_ipv4, all_ipv6, NetV4 0x0A000000 8])"
  using calc_advertise_routes_accepts [OF demo_routes_ok] by blast

text \<open>
  A refusal reports everything: the errors are, in the order of the operator's list, the first
  broken rule of each bad string, followed by at most one pairing error; the set is refused exactly
  when there is one. The pairing error names a default route that is in the composed set and the
  missing one of the other family.
\<close>

theorem calc_advertise_routes_refuses:
  "calc_advertise_routes lib rs exit = Inl errs \<longleftrightarrow>
     errs \<noteq> [] \<and>
     errs = route_errors lib rs @ pairing_errors (route_nets lib rs @ (if exit then [all_ipv4, all_ipv6] else []))"
  by (auto simp: calc_advertise_routes_spec composed_routes_def Let_def split: if_splits)

lemma exit_node_never_lone: "pairing_errors (route_nets lib rs @ [all_ipv4, all_ipv6]) = []"
  by (auto simp: pairing_errors_def)

text \<open>The 4via6 rule in numbers: the accepted site ids are those of sixteen bits.\<close>

lemma validate_via_prefix_ok:
  "validate_via_prefix lib p = Inr () \<longleftrightarrow>
     (\<exists>a n. p = NetV6 a n \<and> is_via_prefix p \<and> 96 \<le> n \<and>
        u32_from_be_bytes (octets a ! 8) (octets a ! 9) (octets a ! 10) (octets a ! 11) \<le> 0xffff)"
  by (cases p) (auto simp: validate_via_prefix_def Let_def)

end
