(* ===== verification/Store.thy ===== *)
theory Store
  imports Prelude
begin

text \<open>
  The file system as the daemon uses it: files by path, and an I/O environment that says which
  calls fail. \<open>atomic_write\<close> (\<open>src/src/prefs.rs\<close>, and the identical copy in
  \<open>src/src/ipn/profile.rs\<close>) is modelled call by call: its trace is the list of file systems after
  each system call, which is what a crash between two calls leaves behind.
\<close>

type_synonym path = "string list"
type_synonym fs = "path \<Rightarrow> string option"

text \<open>
  \<open>write_fails p = Some c\<close>: writing \<open>p\<close> fails and leaves \<open>c\<close> there (nothing, or a truncated
  file). The other predicates make the call fail without an effect.
\<close>

record io_env =
  write_fails :: "path \<Rightarrow> string option option"
  rename_fails :: "path \<Rightarrow> bool"
  remove_fails :: "path \<Rightarrow> bool"
  read_fails :: "path \<Rightarrow> bool"
  mkdir_fails :: "path \<Rightarrow> bool"
  proc_id :: nat

definition fs_write :: "io_env \<Rightarrow> path \<Rightarrow> string \<Rightarrow> fs \<Rightarrow> bool \<times> fs" where
  "fs_write io p b f =
     (case write_fails io p of None \<Rightarrow> (True, f(p \<mapsto> b)) | Some c \<Rightarrow> (False, f(p := c)))"

definition fs_rename :: "io_env \<Rightarrow> path \<Rightarrow> path \<Rightarrow> fs \<Rightarrow> bool \<times> fs" where
  "fs_rename io src dst f =
     (if rename_fails io dst then (False, f) else (True, f(dst := f src, src := None)))"

datatype remove_outcome = Removed | NotFound | RemoveError

definition fs_remove :: "io_env \<Rightarrow> path \<Rightarrow> fs \<Rightarrow> remove_outcome \<times> fs" where
  "fs_remove io p f =
     (case f p of None \<Rightarrow> (NotFound, f)
      | Some _ \<Rightarrow> if remove_fails io p then (RemoveError, f) else (Removed, f(p := None)))"

datatype read_outcome = ReadOk string | ReadNotFound | ReadError

definition fs_read :: "io_env \<Rightarrow> path \<Rightarrow> fs \<Rightarrow> read_outcome" where
  "fs_read io p f =
     (case f p of None \<Rightarrow> ReadNotFound
      | Some b \<Rightarrow> if read_fails io p then ReadError else ReadOk b)"

section \<open>\<open>atomic_write\<close>\<close>

definition parent_dir :: "path \<Rightarrow> path" where
  "parent_dir p = butlast p"

definition file_name :: "path \<Rightarrow> string" where
  "file_name p = (if p = [] then [] else last p)"

definition tmp_path :: "io_env \<Rightarrow> path \<Rightarrow> path" where
  "tmp_path io p = parent_dir p @ [file_name p @ ''.tmp.'' @ dec_string (proc_id io)]"

definition atomic_write_trace :: "io_env \<Rightarrow> path \<Rightarrow> string \<Rightarrow> fs \<Rightarrow> bool \<times> fs list" where
  "atomic_write_trace io p b f =
     (let tmp = tmp_path io p; (ok1, f1) = fs_write io tmp b f in
      if \<not> ok1 then (False, [f1, snd (fs_remove io tmp f1)])
      else let (ok2, f2) = fs_rename io tmp p f1 in
        if \<not> ok2 then (False, [f1, f2, snd (fs_remove io tmp f2)])
        else (True, [f1, f2]))"

definition atomic_write :: "io_env \<Rightarrow> path \<Rightarrow> string \<Rightarrow> fs \<Rightarrow> bool \<times> fs" where
  "atomic_write io p b f =
     (case atomic_write_trace io p b f of (ok, fs) \<Rightarrow> (ok, last fs))"

lemma tmp_path_neq: "tmp_path io p \<noteq> p"
proof
  assume a: "tmp_path io p = p"
  then have "p \<noteq> []" by (auto simp: tmp_path_def)
  moreover have "last (tmp_path io p) = file_name p @ ''.tmp.'' @ dec_string (proc_id io)"
    by (simp add: tmp_path_def)
  ultimately show False using a by (simp add: file_name_def)
qed

lemma fs_remove_other: "p \<noteq> q \<Longrightarrow> snd (fs_remove io q f) p = f p"
  by (auto simp: fs_remove_def split: option.splits)

lemma fs_remove_None: "f p = None \<Longrightarrow> snd (fs_remove io q f) p = None"
  by (auto simp: fs_remove_def split: option.splits)

lemma atomic_write_states:
  assumes "atomic_write_trace io p b f = (ok, ss)" "s \<in> set ss"
  shows "s p = f p \<or> s p = Some b"
  using assms tmp_path_neq [of io p] fs_remove_other
  by (auto simp: atomic_write_trace_def fs_write_def fs_rename_def Let_def
      split: if_splits option.splits prod.splits)

lemma atomic_write_frame:
  assumes "atomic_write_trace io p b f = (ok, ss)" "s \<in> set ss" "q \<noteq> p" "q \<noteq> tmp_path io p"
  shows "s q = f q"
  using assms fs_remove_other
  by (auto simp: atomic_write_trace_def fs_write_def fs_rename_def Let_def
      split: if_splits option.splits prod.splits)

lemma atomic_write_trace_final:
  "atomic_write_trace io p b f = (ok, ss) \<Longrightarrow>
     ss \<noteq> [] \<and> (if ok then last ss p = Some b \<and> last ss (tmp_path io p) = None else last ss p = f p)"
  using tmp_path_neq [of io p] fs_remove_other
  by (auto simp: atomic_write_trace_def fs_write_def fs_rename_def Let_def
      split: if_splits option.splits prod.splits)

lemma atomic_write_result:
  "atomic_write io p b f = (ok, f') \<Longrightarrow> f' p = (if ok then Some b else f p)"
  by (auto simp: atomic_write_def split: prod.splits dest!: atomic_write_trace_final)

lemma atomic_write_other:
  assumes "atomic_write io p b f = (ok, f')" "q \<noteq> p" "q \<noteq> tmp_path io p"
  shows "f' q = f q"
proof -
  obtain ss where t: "atomic_write_trace io p b f = (ok, ss)" and "f' = last ss"
    using assms(1) by (auto simp: atomic_write_def split: prod.splits)
  moreover from t have "ss \<noteq> []" by (blast dest: atomic_write_trace_final)
  ultimately show ?thesis using atomic_write_frame [OF t _ assms(2,3)] by simp
qed

end
