(* ===== verification/Prefs.thy ===== *)
theory Prefs
  imports Store
begin

text \<open>
  \<open>src/src/prefs.rs\<close>: the node's persisted intent. The record has the struct's fields in the
  struct's order; \<open>default_prefs\<close> is its \<open>Default\<close>. Serialisation is \<open>serde_json\<close>'s, so the
  encoder and the decoder are parameters (\<open>json\<close>); what the daemon relies on is that the decoder
  reads back what the encoder wrote.
\<close>

record prefs =
  want_running :: bool
  logged_out :: bool
  control_url :: "string option"
  hostname :: "string option"
  ephemeral :: bool
  accept_routes :: bool
  accept_dns :: bool
  shields_up :: bool
  exit_node :: "string option"
  advertise_exit_node :: bool
  advertise_routes :: "string list"
  advertise_tags :: "string list"
  ssh_enabled :: bool
  advertise_app_connector :: bool
  auto_update_apply :: "bool option"
  auto_update_check :: bool
  operator_user :: "string option"
  node_nickname :: "string option"
  posture_checking :: bool
  run_web_client :: bool
  exit_node_allow_lan_access :: bool
  taildrop_dir :: "string option"
  tun_enabled :: bool
  tun_name :: "string option"
  tun_mtu :: "16 word option"
  has_logged_in :: bool

definition default_prefs :: prefs where
  "default_prefs =
     \<lparr>want_running = False, logged_out = False, control_url = None, hostname = None,
      ephemeral = False, accept_routes = False, accept_dns = True, shields_up = False,
      exit_node = None, advertise_exit_node = False, advertise_routes = [], advertise_tags = [],
      ssh_enabled = False, advertise_app_connector = False, auto_update_apply = None,
      auto_update_check = True, operator_user = None, node_nickname = None,
      posture_checking = False, run_web_client = False, exit_node_allow_lan_access = False,
      taildrop_dir = None, tun_enabled = False, tun_name = None, tun_mtu = None,
      has_logged_in = False\<rparr>"

definition reset_up_managed_to_default :: "prefs \<Rightarrow> prefs" where
  "reset_up_managed_to_default p = (let d = default_prefs in
     p\<lparr>control_url := control_url d, hostname := hostname d, accept_routes := accept_routes d,
       accept_dns := accept_dns d, shields_up := shields_up d, exit_node := exit_node d,
       advertise_exit_node := advertise_exit_node d, advertise_routes := advertise_routes d,
       advertise_tags := advertise_tags d, ssh_enabled := ssh_enabled d,
       operator_user := operator_user d,
       exit_node_allow_lan_access := exit_node_allow_lan_access d,
       advertise_app_connector := advertise_app_connector d,
       posture_checking := posture_checking d, tun_enabled := tun_enabled d,
       tun_name := tun_name d, tun_mtu := tun_mtu d\<rparr>)"

record json_prefs =
  prefs_to_json :: "prefs \<Rightarrow> string"
  prefs_of_json :: "string \<Rightarrow> prefs option"

text \<open>\<open>Prefs::load\<close>: a missing or malformed file is the default, another read error is an error.\<close>

definition load_prefs :: "io_env \<Rightarrow> json_prefs \<Rightarrow> path \<Rightarrow> fs \<Rightarrow> prefs option" where
  "load_prefs io js p f =
     (case fs_read io p f of
        ReadOk b \<Rightarrow> Some (unwrap_or (prefs_of_json js b) default_prefs)
      | ReadNotFound \<Rightarrow> Some default_prefs
      | ReadError \<Rightarrow> None)"

text \<open>\<open>Prefs::save\<close>: create the directory, then \<open>atomic_write\<close>.\<close>

definition save_prefs :: "io_env \<Rightarrow> json_prefs \<Rightarrow> path \<Rightarrow> prefs \<Rightarrow> fs \<Rightarrow> bool \<times> fs" where
  "save_prefs io js path p f =
     (if path \<noteq> [] \<and> mkdir_fails io (parent_dir path) then (False, f)
      else atomic_write io path (prefs_to_json js p) f)"

section \<open>Properties\<close>

lemma save_prefs_result:
  "save_prefs io js path p f = (ok, f') \<Longrightarrow>
     f' path = (if ok then Some (prefs_to_json js p) else f path)"
  by (auto simp: save_prefs_def split: if_splits dest: atomic_write_result)

lemma save_prefs_other:
  "save_prefs io js path p f = (ok, f') \<Longrightarrow> q \<noteq> path \<Longrightarrow> q \<noteq> tmp_path io path \<Longrightarrow> f' q = f q"
  by (auto simp: save_prefs_def split: if_splits dest: atomic_write_other)

text \<open>
  Crash safety of every persisted file: at each point of an \<open>atomic_write\<close> (after any
  prefix of its system calls, whichever of them fail) the destination holds either its old contents
  or the complete new bytes, and no file other than the destination and its temporary sibling is
  touched; success leaves the new bytes and no temporary file, failure leaves the destination as it
  was.
\<close>

theorem atomic_write_crash_safe:
  assumes "atomic_write_trace io p b f = (ok, ss)"
  shows "(\<forall>s \<in> set ss. (s p = f p \<or> s p = Some b) \<and>
            (\<forall>q. q \<noteq> p \<and> q \<noteq> tmp_path io p \<longrightarrow> s q = f q)) \<and>
         (if ok then last ss p = Some b \<and> last ss (tmp_path io p) = None else last ss p = f p)"
proof (intro conjI ballI)
  fix s assume s: "s \<in> set ss"
  show "s p = f p \<or> s p = Some b" by (rule atomic_write_states [OF assms s])
  show "\<forall>q. q \<noteq> p \<and> q \<noteq> tmp_path io p \<longrightarrow> s q = f q"
    using atomic_write_frame [OF assms s] by blast
next
  show "if ok then last ss p = Some b \<and> last ss (tmp_path io p) = None else last ss p = f p"
    using atomic_write_trace_final [OF assms] by blast
qed

theorem atomic_write_crash_safe_witness:
  "let io = \<lparr>write_fails = (\<lambda>_. None), rename_fails = (\<lambda>_. True), remove_fails = (\<lambda>_. False),
             read_fails = (\<lambda>_. False), mkdir_fails = (\<lambda>_. False), proc_id = 7\<rparr>;
       f = [[''d'', ''prefs.json''] \<mapsto> ''old'']
   in atomic_write io [''d'', ''prefs.json''] ''new'' f =
        (False, last (snd (atomic_write_trace io [''d'', ''prefs.json''] ''new'' f))) \<and>
      last (snd (atomic_write_trace io [''d'', ''prefs.json''] ''new'' f)) [''d'', ''prefs.json'']
        = Some ''old''"
proof -
  define io where "io = \<lparr>write_fails = (\<lambda>_. None), rename_fails = (\<lambda>_. True),
     remove_fails = (\<lambda>_. False), read_fails = (\<lambda>_. False), mkdir_fails = (\<lambda>_. False), proc_id = 7\<rparr>"
  define f where "f = [[''d'', ''prefs.json''] \<mapsto> ''old'']"
  obtain ok ss where t: "atomic_write_trace io [''d'', ''prefs.json''] ''new'' f = (ok, ss)"
    by fastforce
  have "\<not> ok" using t by (auto simp: atomic_write_trace_def io_def fs_write_def fs_rename_def Let_def)
  with atomic_write_crash_safe [OF t] t show ?thesis
    by (simp add: io_def [symmetric] f_def [symmetric] atomic_write_def Let_def) (simp add: f_def)
qed

text \<open>
  A saved preference file reads back: after a successful \<open>save\<close>, \<open>load\<close> returns the saved
  preferences (if the file can be read), and after a failed one it returns what it returned before.
\<close>

theorem prefs_save_load:
  assumes codec: "prefs_of_json js (prefs_to_json js p) = Some p"
    and save: "save_prefs io js path p f = (ok, f')"
    and readable: "\<not> read_fails io path"
  shows "load_prefs io js path f' = (if ok then Some p else load_prefs io js path f)"
  using save_prefs_result [OF save] readable
  by (auto simp: load_prefs_def fs_read_def codec split: option.splits)

text \<open>A codec that keeps one field, enough to read back the preferences of the witness.\<close>

definition demo_codec :: json_prefs where
  "demo_codec = \<lparr>prefs_to_json = (\<lambda>p. if want_running p then ''up'' else ''down''),
     prefs_of_json = (\<lambda>b. Some (default_prefs\<lparr>want_running := (b = ''up'')\<rparr>))\<rparr>"

definition demo_io :: io_env where
  "demo_io = \<lparr>write_fails = (\<lambda>_. None), rename_fails = (\<lambda>_. False), remove_fails = (\<lambda>_. False),
     read_fails = (\<lambda>_. False), mkdir_fails = (\<lambda>_. False), proc_id = 7\<rparr>"

theorem prefs_save_load_witness:
  "load_prefs demo_io demo_codec [''d'', ''prefs.json'']
     (snd (save_prefs demo_io demo_codec [''d'', ''prefs.json'']
        (default_prefs\<lparr>want_running := True\<rparr>) (\<lambda>_. None))) =
   Some (default_prefs\<lparr>want_running := True\<rparr>)"
proof -
  let ?p = "default_prefs\<lparr>want_running := True\<rparr>"
  obtain ok f' where s: "save_prefs demo_io demo_codec [''d'', ''prefs.json''] ?p (\<lambda>_. None) = (ok, f')"
    by fastforce
  then have "ok"
    by (auto simp: save_prefs_def demo_io_def atomic_write_def atomic_write_trace_def fs_write_def
        fs_rename_def Let_def)
  with prefs_save_load [OF _ s] s show ?thesis
    by (simp add: demo_codec_def demo_io_def)
qed

end
