(* ===== verification/TunFlag.thy ===== *)
theory TunFlag
  imports Prelude
begin

text \<open>
  \<open>src/src/tunflag.rs\<close>: the \<open>--tun\<close> flag, a comma-separated list of candidates of which the first
  usable one is taken. The refusals are constructors, one per reason of the source; a refusal of the
  whole list carries the reason of every candidate, in order.
\<close>

definition USERSPACE_NETWORKING :: string where
  "USERSPACE_NETWORKING = ''userspace-networking''"

datatype TunTransport = Netstack | Tun "string option"

datatype candidate_error = EmptyName | TapUnsupported string | NoTunFeature | MacosNeedsRoot

datatype tun_error = DarwinRootRefusal | NoTunValue | NoUsableCandidate "(string \<times> candidate_error) list"

definition darwin_root_refusal :: "string \<Rightarrow> string \<Rightarrow> nat \<Rightarrow> bool" where
  "darwin_root_refusal v goos euid =
     (goos = ''darwin'' \<and> euid \<noteq> 0 \<and> \<not> contains_str v USERSPACE_NETWORKING)"

definition kernel_tun_privilege :: "string \<Rightarrow> nat \<Rightarrow> (candidate_error, unit) result" where
  "kernel_tun_privilege goos euid = (if goos = ''darwin'' \<and> euid \<noteq> 0 then Inl MacosNeedsRoot else Inr ())"

definition candidate :: "string \<Rightarrow> bool \<Rightarrow> string \<Rightarrow> nat \<Rightarrow> (candidate_error, TunTransport) result" where
  "candidate name tun_feature goos euid =
     (if name = USERSPACE_NETWORKING then Inr Netstack
      else if name = [] then Inl EmptyName
      else if starts_with name ''tap:'' then Inl (TapUnsupported name)
      else if \<not> tun_feature then Inl NoTunFeature
      else rbind (kernel_tun_privilege goos euid) (\<lambda>_.
             Inr (Tun (if goos = ''darwin'' \<and> name = ''utun'' then None else Some name))))"

fun try_candidates :: "bool \<Rightarrow> string \<Rightarrow> nat \<Rightarrow> (string \<times> candidate_error) list \<Rightarrow> string list \<Rightarrow>
    ((string \<times> candidate_error) list, TunTransport) result" where
  "try_candidates tf goos euid reasons [] = Inl reasons"
| "try_candidates tf goos euid reasons (name # names) =
     (case candidate name tf goos euid of
        Inr transport \<Rightarrow> Inr transport
      | Inl why \<Rightarrow> try_candidates tf goos euid (reasons @ [(name, why)]) names)"

definition resolve_with :: "string \<Rightarrow> bool \<Rightarrow> string \<Rightarrow> nat \<Rightarrow> (tun_error, TunTransport) result" where
  "resolve_with v tun_feature goos euid =
     (if darwin_root_refusal v goos euid then Inl DarwinRootRefusal
      else if v = [] then Inl NoTunValue
      else map_err NoUsableCandidate (try_candidates tun_feature goos euid [] (split_on (CHR '','') v)))"

section \<open>Properties\<close>

lemma try_candidates_find:
  "try_candidates tf goos euid rs names =
     (case find (\<lambda>n. is_ok (candidate n tf goos euid)) names of
        Some n \<Rightarrow> Inr (projr (candidate n tf goos euid))
      | None \<Rightarrow> Inl (rs @ map (\<lambda>n. (n, projl (candidate n tf goos euid))) names))"
  by (induction tf goos euid rs names rule: try_candidates.induct) (auto split: sum.splits option.splits)

lemma find_Some_ok: "find P xs = Some x \<Longrightarrow> P x \<and> x \<in> set xs"
  by (auto simp: find_Some_iff)

lemma netstack_only_by_name: "candidate n tf goos euid = Inr Netstack \<longleftrightarrow> n = USERSPACE_NETWORKING"
  by (auto simp: candidate_def kernel_tun_privilege_def split: if_splits)

lemma contains_str_append: "contains_str (xs @ p @ ys) p"
proof (induction xs)
  case Nil
  have "prefix p (p @ ys)" by simp
  then show ?case by (cases "p @ ys") auto
qed auto

lemma contains_str_join: "w \<in> set ws \<Longrightarrow> contains_str (join [s] ws) w"
proof (induction "[s]" ws rule: join.induct)
  case (2 x)
  then show ?case using contains_str_append [of "[]" x "[]"] by simp
next
  case (3 x y zs)
  show ?case
  proof (cases "w = x")
    case True
    then show ?thesis using contains_str_append [of "[]" x "[s] @ join [s] (y # zs)"] by simp
  next
    case False
    with 3 have "contains_str (join [s] (y # zs)) w" by auto
    moreover have "contains_str t w \<Longrightarrow> contains_str (xs @ t) w" for xs t by (induction xs) auto
    ultimately show ?thesis by simp
  qed
qed simp

lemma tun_flag_resolution_parts:
  shows "resolve_with v tf goos euid = Inr t \<Longrightarrow>
           \<exists>n. find (\<lambda>n. is_ok (candidate n tf goos euid)) (split_on (CHR '','') v) = Some n \<and>
               candidate n tf goos euid = Inr t"
    and "resolve_with v tf goos euid = Inr Netstack \<Longrightarrow> USERSPACE_NETWORKING \<in> set (split_on (CHR '','') v)"
    and "USERSPACE_NETWORKING \<in> set (split_on (CHR '','') v) \<Longrightarrow> is_ok (resolve_with v tf goos euid)"
proof -
  show first: "\<exists>n. find (\<lambda>n. is_ok (candidate n tf goos euid)) (split_on (CHR '','') v) = Some n \<and>
               candidate n tf goos euid = Inr t"
    if "resolve_with v tf goos euid = Inr t" for t
    using that
    by (auto simp: resolve_with_def try_candidates_find is_ok_iff split: if_splits option.splits
        dest: find_Some_ok)
  show "USERSPACE_NETWORKING \<in> set (split_on (CHR '','') v)" if "resolve_with v tf goos euid = Inr Netstack"
    using first [OF that] by (auto simp: netstack_only_by_name dest: find_Some_ok)
  assume u: "USERSPACE_NETWORKING \<in> set (split_on (CHR '','') v)"
  have "contains_str v USERSPACE_NETWORKING"
    using contains_str_join [OF u, of "CHR '',''"] by (simp add: join_split_on)
  moreover have "is_ok (candidate USERSPACE_NETWORKING tf goos euid)" by (simp add: candidate_def)
  with u have "find (\<lambda>n. is_ok (candidate n tf goos euid)) (split_on (CHR '','') v) \<noteq> None"
    unfolding find_None_iff by blast
  moreover have "v \<noteq> []" using u by (auto simp: USERSPACE_NETWORKING_def)
  ultimately show "is_ok (resolve_with v tf goos euid)"
    by (auto simp: resolve_with_def darwin_root_refusal_def try_candidates_find)
qed

text \<open>
  The flag never downgrades in silence and never refuses a fallback: a successful resolution is
  the first usable candidate of the list, it is the userspace netstack only where the list names it,
  and a list that names it always resolves, whatever the build, the platform and the uid.
\<close>

theorem tun_flag_resolution:
  shows "(resolve_with v tf goos euid = Inr t \<longrightarrow>
     (\<exists>n. find (\<lambda>n. is_ok (candidate n tf goos euid)) (split_on (CHR '','') v) = Some n \<and>
               candidate n tf goos euid = Inr t)) \<and>
    (resolve_with v tf goos euid = Inr Netstack \<longrightarrow>
     USERSPACE_NETWORKING \<in> set (split_on (CHR '','') v)) \<and>
    (USERSPACE_NETWORKING \<in> set (split_on (CHR '','') v) \<longrightarrow>
     is_ok (resolve_with v tf goos euid))"
  by (rule conjI, rule impI, erule tun_flag_resolution_parts(1),
      rule conjI, rule impI, erule tun_flag_resolution_parts(2),
      rule impI, erule tun_flag_resolution_parts(3))

theorem tun_flag_resolution_witness:
  "is_ok (resolve_with ''utun,userspace-networking'' False ''darwin'' 501)"
  by (rule tun_flag_resolution [THEN conjunct2, THEN conjunct2, rule_format]) (simp add: USERSPACE_NETWORKING_def)

end
