(* ===== verification/BTree.thy ===== *)
theory BTree
  imports Prelude "HOL-Library.List_Lexorder" "HOL-Library.Char_ord"
begin

text \<open>
  The standard library's \<open>BTreeMap<String, V>\<close> as the sources use it: an association list kept
  sorted by key, so that iteration is in key order (byte-wise lexicographic, which is Rust's
  \<open>String\<close> order). The interface \<open>ordered_map\<close> states what the clients (profile metadata, the
  policy merge) rely on; the interpretation at the end proves it for these functions.
\<close>

type_synonym 'v btree = "(string \<times> 'v) list"

definition bt_get :: "'v btree \<Rightarrow> string \<Rightarrow> 'v option" where
  "bt_get m k = map_of m k"

fun bt_insert :: "string \<Rightarrow> 'v \<Rightarrow> 'v btree \<Rightarrow> 'v btree" where
  "bt_insert k v [] = [(k, v)]"
| "bt_insert k v ((k', v') # m) =
     (if k < k' then (k, v) # (k', v') # m
      else if k = k' then (k, v) # m
      else (k', v') # bt_insert k v m)"

definition bt_remove :: "string \<Rightarrow> 'v btree \<Rightarrow> 'v btree" where
  "bt_remove k m = filter (\<lambda>(k', _). k' \<noteq> k) m"

definition bt_contains_key :: "'v btree \<Rightarrow> string \<Rightarrow> bool" where
  "bt_contains_key m k = (bt_get m k \<noteq> None)"

text \<open>\<open>entry(k).or_insert(d)\<close>: insert the default unless the key is there.\<close>

definition bt_or_insert :: "string \<Rightarrow> 'v \<Rightarrow> 'v btree \<Rightarrow> 'v btree" where
  "bt_or_insert k d m = (if bt_contains_key m k then m else bt_insert k d m)"

definition bt_wf :: "'v btree \<Rightarrow> bool" where
  "bt_wf m = (sorted_wrt (<) (map fst m))"

section \<open>The interface\<close>

locale ordered_map =
  fixes get :: "'m \<Rightarrow> 'k::linorder \<Rightarrow> 'v option"
    and ins :: "'k \<Rightarrow> 'v \<Rightarrow> 'm \<Rightarrow> 'm"
    and del :: "'k \<Rightarrow> 'm \<Rightarrow> 'm"
    and iter :: "'m \<Rightarrow> ('k \<times> 'v) list"
    and wf :: "'m \<Rightarrow> bool"
  assumes get_ins: "wf m \<Longrightarrow> get (ins k v m) = (get m)(k \<mapsto> v)"
    and get_del: "wf m \<Longrightarrow> get (del k m) = (get m)(k := None)"
    and wf_ins: "wf m \<Longrightarrow> wf (ins k v m)"
    and wf_del: "wf m \<Longrightarrow> wf (del k m)"
    and iter_sorted: "wf m \<Longrightarrow> sorted_wrt (<) (map fst (iter m))"
    and iter_get: "wf m \<Longrightarrow> get m = map_of (iter m)"
begin

lemma get_ins_same: "wf m \<Longrightarrow> get (ins k v m) k = Some v"
  by (simp add: get_ins)

lemma get_ins_other: "wf m \<Longrightarrow> k' \<noteq> k \<Longrightarrow> get (ins k v m) k' = get m k'"
  by (simp add: get_ins)

lemma get_del_same: "wf m \<Longrightarrow> get (del k m) k = None"
  by (simp add: get_del)

lemma iter_distinct: "wf m \<Longrightarrow> distinct (map fst (iter m))"
  using iter_sorted strict_sorted_iff by blast

lemma in_iter_iff: "wf m \<Longrightarrow> (k, v) \<in> set (iter m) \<longleftrightarrow> get m k = Some v"
  by (simp add: iter_get iter_distinct)

text \<open>Inserting a list of entries in order keeps the last value of every key.\<close>

lemma wf_fold_ins: "wf m \<Longrightarrow> wf (fold (\<lambda>(k, v). ins k v) xs m)"
  by (induction xs arbitrary: m) (auto simp: wf_ins)

lemma get_fold_ins: "wf m \<Longrightarrow> get (fold (\<lambda>(k, v). ins k v) xs m) = get m ++ map_of (rev xs)"
proof (induction xs arbitrary: m)
  case Nil
  then show ?case by simp
next
  case (Cons x xs)
  then show ?case
    by (cases x) (simp add: wf_ins get_ins map_add_def fun_eq_iff split: option.splits)
qed

end

section \<open>The implementation satisfies it\<close>

lemma fst_bt_insert: "set (map fst (bt_insert k v m)) = insert k (set (map fst m))"
  by (induction k v m rule: bt_insert.induct) auto

lemma bt_wf_insert: "bt_wf m \<Longrightarrow> bt_wf (bt_insert k v m)"
proof (induction k v m rule: bt_insert.induct)
  case (1 k v)
  show ?case by (simp add: bt_wf_def)
next
  case (2 k v k' v' m)
  then show ?case
    using fst_bt_insert [of k v m]
    by (auto simp: bt_wf_def dest: less_trans split: if_splits)
qed

lemma bt_wf_remove: "bt_wf m \<Longrightarrow> bt_wf (bt_remove k m)"
  by (induction m) (auto simp: bt_wf_def bt_remove_def)

lemma bt_get_insert: "bt_wf m \<Longrightarrow> bt_get (bt_insert k v m) = (bt_get m)(k \<mapsto> v)"
proof (induction k v m rule: bt_insert.induct)
  case (1 k v)
  show ?case by (simp add: bt_get_def)
next
  case (2 k v k' v' m)
  then show ?case by (auto simp: bt_get_def bt_wf_def fun_eq_iff)
qed

lemma bt_get_remove: "bt_get (bt_remove k m) = (bt_get m)(k := None)"
  by (induction m) (auto simp: bt_get_def bt_remove_def fun_eq_iff)

interpretation bt: ordered_map bt_get bt_insert bt_remove "\<lambda>m. m" bt_wf
  by unfold_locales
     (simp_all add: bt_get_insert bt_get_remove bt_wf_insert bt_wf_remove,
      simp_all add: bt_wf_def bt_get_def fun_eq_iff)

lemma bt_wf_Nil [simp]: "bt_wf []"
  by (simp add: bt_wf_def)

lemma bt_get_Nil [simp]: "bt_get [] k = None"
  by (simp add: bt_get_def)

lemma bt_wf_or_insert: "bt_wf m \<Longrightarrow> bt_wf (bt_or_insert k d m)"
  by (simp add: bt_or_insert_def bt_wf_insert)

lemma bt_get_or_insert:
  "bt_wf m \<Longrightarrow> bt_get (bt_or_insert k d m) k' =
     (if k' = k then Some (unwrap_or (bt_get m k) d) else bt_get m k')"
  by (auto simp: bt_or_insert_def bt_contains_key_def bt_get_insert)

end
