(* ===== verification/GoDuration.thy ===== *)
theory GoDuration
  imports Complex_Main Prelude
begin

text \<open>
  \<open>src/src/goduration.rs\<close>: Go's duration grammar. \<open>parse_go_duration\<close> is the parser,
  \<open>format_go_duration\<close> the printer. The parser's \<open>u64\<close> accumulators are \<open>nat\<close>; the guards of
  the source keep every one of them below \<open>2 ^ 64\<close> (lemmas \<open>leading_int_bound\<close> and
  \<open>dur_loop_bound\<close>), so no addition or product of the code can overflow. The signed results are
  \<open>int\<close> with the \<open>i64\<close> wrap-around written out. The fraction goes through \<open>f64\<close> exactly
  as in the source, so IEEE binary64 rounding (nearest, ties to even, subnormals, overflow to
  infinity) is modelled on \<open>rat\<close>.
\<close>

section \<open>IEEE binary64, as far as the parser uses it\<close>

text \<open>A non-negative \<open>f64\<close>: a rational that is exactly representable, or infinity.\<close>

datatype f64 = Fin rat | Inf

definition rne :: "rat \<Rightarrow> int" where
  "rne x = (let f = \<lfloor>x\<rfloor>; r = x - of_int f in
            if r < 1/2 then f else if 1/2 < r then f + 1 else if even f then f else f + 1)"

text \<open>
  The binary exponent of a positive rational, by halving or doubling into \<open>[1, 2)\<close>. The fuel
  of 2200 covers every exponent an operation of two binary64 values can have.
\<close>

fun bin_exponent :: "nat \<Rightarrow> rat \<Rightarrow> int" where
  "bin_exponent 0 x = 0"
| "bin_exponent (Suc n) x =
     (if 2 \<le> x then 1 + bin_exponent n (x / 2)
      else if x < 1 then bin_exponent n (2 * x) - 1
      else 0)"

definition pow2 :: "int \<Rightarrow> rat" where
  "pow2 e = (if 0 \<le> e then 2 ^ nat e else 1 / 2 ^ nat (- e))"

definition f64_max_exclusive :: rat where
  "f64_max_exclusive = 2 ^ 1024"

definition f64_round :: "rat \<Rightarrow> f64" where
  "f64_round x =
     (if x \<le> 0 then Fin 0
      else let u = pow2 (max (bin_exponent 2200 x - 52) (- 1074));
               y = of_int (rne (x / u)) * u
           in if f64_max_exclusive \<le> y then Inf else Fin y)"

definition f64_of_nat :: "nat \<Rightarrow> f64" where
  "f64_of_nat n = f64_round (of_nat n)"

fun f64_mul :: "f64 \<Rightarrow> f64 \<Rightarrow> f64" where
  "f64_mul (Fin x) (Fin y) = f64_round (x * y)"
| "f64_mul _ _ = Inf"

fun f64_div :: "f64 \<Rightarrow> f64 \<Rightarrow> f64" where
  "f64_div (Fin x) (Fin y) = f64_round (x / y)"
| "f64_div (Fin x) Inf = Fin 0"
| "f64_div Inf _ = Inf"

text \<open>\<open>f as u64\<close>: truncation, saturating at the type's bound.\<close>

fun f64_to_u64 :: "f64 \<Rightarrow> nat" where
  "f64_to_u64 (Fin x) = min (nat \<lfloor>x\<rfloor>) (2 ^ 64 - 1)"
| "f64_to_u64 Inf = 2 ^ 64 - 1"

section \<open>The parser\<close>

datatype dur_error =
    InvalidDuration string
  | MissingUnit string
  | UnknownUnit string string

text \<open>The three error texts, with the quoted offending input.\<close>

fun dur_error_text :: "dur_error \<Rightarrow> string" where
  "dur_error_text (InvalidDuration s) = ''time: invalid duration '' @ debug_str s"
| "dur_error_text (MissingUnit s) = ''time: missing unit in duration '' @ debug_str s"
| "dur_error_text (UnknownUnit u s) =
     ''time: unknown unit '' @ debug_str u @ '' in duration '' @ debug_str s"

text \<open>
  \<open>leading_int\<close>: the loop over the leading digits with its two overflow guards; \<open>None\<close> is the
  overflow. The value and the unconsumed rest are returned.
\<close>

fun leading_int_from :: "nat \<Rightarrow> string \<Rightarrow> (nat \<times> string) option" where
  "leading_int_from value [] = Some (value, [])"
| "leading_int_from value (c # cs) =
     (if \<not> is_ascii_digit c then Some (value, c # cs)
      else if 2 ^ 63 div 10 < value then None
      else let value' = value * 10 + digit_val c
           in if 2 ^ 63 < value' then None else leading_int_from value' cs)"

definition leading_int :: "string \<Rightarrow> (nat \<times> string) option" where
  "leading_int s = leading_int_from 0 s"

fun leading_fraction_from :: "nat \<Rightarrow> f64 \<Rightarrow> bool \<Rightarrow> string \<Rightarrow> nat \<times> f64 \<times> string" where
  "leading_fraction_from value sc overflow [] = (value, sc, [])"
| "leading_fraction_from value sc overflow (c # cs) =
     (if \<not> is_ascii_digit c then (value, sc, c # cs)
      else if overflow then leading_fraction_from value sc True cs
      else if (2 ^ 63 - 1) div 10 < value then leading_fraction_from value sc True cs
      else let nxt = value * 10 + digit_val c
           in if 2 ^ 63 < nxt then leading_fraction_from value sc True cs
              else leading_fraction_from nxt (f64_mul sc (Fin 10)) False cs)"

definition leading_fraction :: "string \<Rightarrow> nat \<times> f64 \<times> string" where
  "leading_fraction s = leading_fraction_from 0 (Fin 1) False s"

text \<open>The unit table; microseconds is accepted with the micro sign (C2 B5) and the Greek mu (CE BC).\<close>

definition micro_s :: string where
  "micro_s = [CHR 0xC2, CHR 0xB5, CHR ''s'']"

definition greek_mu_s :: string where
  "greek_mu_s = [CHR 0xCE, CHR 0xBC, CHR ''s'']"

definition unit_ns :: "string \<Rightarrow> nat option" where
  "unit_ns u =
     (if u = ''ns'' then Some 1
      else if u = ''us'' \<or> u = micro_s \<or> u = greek_mu_s then Some 1000
      else if u = ''ms'' then Some 1000000
      else if u = ''s'' then Some 1000000000
      else if u = ''m'' then Some (60 * 1000000000)
      else if u = ''h'' then Some (3600 * 1000000000)
      else None)"

definition starts_number :: "char \<Rightarrow> bool" where
  "starts_number c = (c = CHR ''.'' \<or> is_ascii_digit c)"

text \<open>
  One turn of the \<open>while\<close> loop: read a number with its optional fraction, then its unit, and
  return the nanoseconds of the pair with the rest of the input. The optional fraction first.
\<close>

definition read_fraction :: "string \<Rightarrow> nat \<times> f64 \<times> bool \<times> string" where
  "read_fraction s =
     (case s of
        [] \<Rightarrow> (0, Fin 1, False, s)
      | c # s1 \<Rightarrow>
          if c = CHR ''.'' then
            (case leading_fraction s1 of (f, sc, rest) \<Rightarrow> (f, sc, length s1 \<noteq> length rest, rest))
          else (0, Fin 1, False, s))"

definition scale_number :: "string \<Rightarrow> nat \<Rightarrow> nat \<Rightarrow> f64 \<Rightarrow> nat \<Rightarrow> (dur_error, nat) result" where
  "scale_number orig v fr sc unit =
     (if 2 ^ 63 div unit < v then Inl (InvalidDuration orig)
      else let v1 = v * unit in
        if 0 < fr then
          let v2 = v1 + f64_to_u64 (f64_mul (f64_of_nat fr) (f64_div (f64_of_nat unit) sc))
          in if 2 ^ 63 < v2 then Inl (InvalidDuration orig) else Inr v2
        else Inr v1)"

definition read_pair :: "string \<Rightarrow> string \<Rightarrow> (dur_error, nat \<times> string) result" where
  "read_pair orig s =
     (if s = [] \<or> \<not> starts_number (hd s) then Inl (InvalidDuration orig)
      else case leading_int s of
        None \<Rightarrow> Inl (InvalidDuration orig)
      | Some (v, s1) \<Rightarrow>
          let had_int = length s \<noteq> length s1 in
          (case read_fraction s1 of (fr, sc, had_frac, s2) \<Rightarrow>
             if \<not> had_int \<and> \<not> had_frac then Inl (InvalidDuration orig)
             else let unit_name = takeWhile (\<lambda>c. \<not> starts_number c) s2;
                      s3 = dropWhile (\<lambda>c. \<not> starts_number c) s2
                  in if unit_name = [] then Inl (MissingUnit orig)
                     else case unit_ns unit_name of
                       None \<Rightarrow> Inl (UnknownUnit unit_name orig)
                     | Some unit \<Rightarrow>
                         rbind (scale_number orig v fr sc unit) (\<lambda>n. Inr (n, s3))))"

lemma leading_int_from_length:
  "leading_int_from v s = Some (w, r) \<Longrightarrow> length r \<le> length s"
  by (induction v s rule: leading_int_from.induct) (auto split: if_splits simp: Let_def)

lemma leading_fraction_from_length:
  "leading_fraction_from v sc b s = (w, sc', r) \<Longrightarrow> length r \<le> length s"
  by (induction v sc b s rule: leading_fraction_from.induct) (auto split: if_splits simp: Let_def)

lemma read_fraction_length: "read_fraction s = (f, sc, h, r) \<Longrightarrow> length r \<le> length s"
  by (auto simp: read_fraction_def leading_fraction_def split: list.splits prod.splits if_splits
      dest: leading_fraction_from_length)

lemma takeWhile_dropWhile_length:
  "takeWhile P s \<noteq> [] \<Longrightarrow> length (dropWhile P s) < length s"
  by (cases s) (auto simp: length_dropWhile_le le_imp_less_Suc split: if_splits)

lemma read_pair_length:
  assumes "read_pair orig s = Inr (n, r)"
  shows "length r < length s"
proof -
  from assms obtain v s1 fr sc h s2 where
      1: "leading_int s = Some (v, s1)" and 2: "read_fraction s1 = (fr, sc, h, s2)"
      and 3: "takeWhile (\<lambda>c. \<not> starts_number c) s2 \<noteq> []"
      and 4: "r = dropWhile (\<lambda>c. \<not> starts_number c) s2"
    by (auto simp: read_pair_def Let_def rbind_eq_Inr split: if_splits option.splits prod.splits)
  from 3 4 have "length r < length s2" by (simp add: takeWhile_dropWhile_length)
  also have "\<dots> \<le> length s1" using 2 by (rule read_fraction_length)
  also have "\<dots> \<le> length s" using 1 unfolding leading_int_def by (rule leading_int_from_length)
  finally show ?thesis .
qed

text \<open>The loop; \<open>tot.checked_add(v)\<close> fails beyond \<open>u64\<close>, then the range guard applies.\<close>

function dur_loop :: "string \<Rightarrow> nat \<Rightarrow> string \<Rightarrow> (dur_error, nat) result" where
  "dur_loop orig tot s =
     (if s = [] then Inr tot
      else case read_pair orig s of
        Inl e \<Rightarrow> Inl e
      | Inr (v, rest) \<Rightarrow>
          if 2 ^ 64 \<le> tot + v then Inl (InvalidDuration orig)
          else if 2 ^ 63 < tot + v then Inl (InvalidDuration orig)
          else dur_loop orig (tot + v) rest)"
  by pat_completeness auto
termination
  by (relation "measure (\<lambda>(orig, tot, s). length s)") (auto dest: read_pair_length)

declare dur_loop.simps [simp del]

text \<open>\<open>n as i64\<close> for a \<open>u64\<close>, and \<open>i64::wrapping_neg\<close>.\<close>

definition u64_as_i64 :: "nat \<Rightarrow> int" where
  "u64_as_i64 n = (if n < 2 ^ 63 then int n else int n - 2 ^ 64)"

definition wrapping_neg_i64 :: "int \<Rightarrow> int" where
  "wrapping_neg_i64 x = (if x = - (2 ^ 63) then x else - x)"

definition split_sign :: "string \<Rightarrow> bool \<times> string" where
  "split_sign s =
     (case s of [] \<Rightarrow> (False, s)
      | c # cs \<Rightarrow> if c = CHR ''-'' \<or> c = CHR ''+'' then (c = CHR ''-'', cs) else (False, s))"

definition parse_go_duration :: "string \<Rightarrow> (dur_error, int) result" where
  "parse_go_duration input =
     (case split_sign input of (neg, s) \<Rightarrow>
        if s = ''0'' then Inr 0
        else if s = [] then Inl (InvalidDuration input)
        else rbind (dur_loop input 0 s) (\<lambda>tot.
               if neg then Inr (wrapping_neg_i64 (u64_as_i64 tot))
               else if 2 ^ 63 - 1 < tot then Inl (InvalidDuration input)
               else Inr (u64_as_i64 tot)))"

section \<open>The printer\<close>

text \<open>
  The source pushes bytes least significant first and reverses the buffer once; the buffer is
  therefore a list in push order and every helper appends to it.
\<close>

fun fmt_frac_from :: "nat \<Rightarrow> string \<Rightarrow> nat \<Rightarrow> bool \<Rightarrow> string \<times> nat \<times> bool" where
  "fmt_frac_from 0 buf v printing = (buf, v, printing)"
| "fmt_frac_from (Suc n) buf v printing =
     (let digit = v mod 10; printing' = (printing \<or> digit \<noteq> 0)
      in fmt_frac_from n (if printing' then buf @ [digit_char digit] else buf) (v div 10) printing')"

definition fmt_frac :: "string \<Rightarrow> nat \<Rightarrow> nat \<Rightarrow> string \<times> nat" where
  "fmt_frac buf v prec =
     (case fmt_frac_from prec buf v False of (buf', v', printing) \<Rightarrow>
        (if printing then buf' @ ''.'' else buf', v'))"

function fmt_int_from :: "string \<Rightarrow> nat \<Rightarrow> string" where
  "fmt_int_from buf v = (if v = 0 then buf else fmt_int_from (buf @ [digit_char (v mod 10)]) (v div 10))"
  by pat_completeness auto
termination by (relation "measure snd") auto

declare fmt_int_from.simps [simp del]

definition fmt_int :: "string \<Rightarrow> nat \<Rightarrow> string" where
  "fmt_int buf v = (if v = 0 then buf @ ''0'' else fmt_int_from buf v)"

text \<open>\<open>d as u64\<close>, negated when \<open>d < 0\<close>: the magnitude, \<open>2 ^ 63\<close> for \<open>i64::MIN\<close>.\<close>

definition magnitude_u64 :: "int \<Rightarrow> nat" where
  "magnitude_u64 d =
     (let u = nat (d mod 2 ^ 64) in if d < 0 then (2 ^ 64 - u) mod 2 ^ 64 else u)"

definition sub_second :: "nat \<Rightarrow> string" where
  "sub_second u =
     (let (buf, prec) =
            (if u < 1000 then (''sn'', 0)
             else if u < 1000000 then ([CHR ''s'', CHR 0xB5, CHR 0xC2], 3)
             else (''sm'', 6));
          (buf1, u1) = fmt_frac buf u prec
      in fmt_int buf1 u1)"

definition whole_seconds :: "nat \<Rightarrow> string" where
  "whole_seconds u =
     (let (buf, u1) = fmt_frac ''s'' u 9;
          buf2 = fmt_int buf (u1 mod 60); u2 = u1 div 60
      in if 0 < u2 then
           let buf3 = fmt_int (buf2 @ ''m'') (u2 mod 60); u3 = u2 div 60
           in if 0 < u3 then fmt_int (buf3 @ ''h'') u3 else buf3
         else buf2)"

definition format_go_duration :: "int \<Rightarrow> string" where
  "format_go_duration d =
     (let u = magnitude_u64 d in
      if u = 0 then ''0s''
      else let buf = (if u < 1000000000 then sub_second u else whole_seconds u)
           in rev (if d < 0 then buf @ ''-'' else buf))"

section \<open>Bounds of the accumulators\<close>

lemma leading_int_bound:
  "leading_int_from v s = Some (w, r) \<Longrightarrow> v \<le> 2 ^ 63 \<Longrightarrow> w \<le> 2 ^ 63"
  by (induction v s rule: leading_int_from.induct) (auto split: if_splits simp: Let_def)

text \<open>Before the second guard fires the product and sum are still below \<open>2 ^ 64\<close>.\<close>

lemma leading_int_step_no_overflow:
  "is_ascii_digit c \<Longrightarrow> \<not> 2 ^ 63 div 10 < value \<Longrightarrow> value * 10 + digit_val c < 2 ^ 64"
  by (auto dest: digit_val_less)

lemma scale_number_bound: "scale_number orig v fr sc u = Inr n \<Longrightarrow> 0 < u \<Longrightarrow> n \<le> 2 ^ 63"
proof -
  assume a: "scale_number orig v fr sc u = Inr n" and u: "0 < u"
  from a have "v \<le> 2 ^ 63 div u" by (auto simp: scale_number_def split: if_splits)
  with u have "v * u \<le> 2 ^ 63" by (simp add: less_eq_div_iff_mult_less_eq)
  with a show ?thesis by (auto simp: scale_number_def Let_def split: if_splits)
qed

lemma unit_ns_pos: "unit_ns u = Some n \<Longrightarrow> 0 < n"
  by (auto simp: unit_ns_def split: if_splits)

lemma dur_loop_bound: "dur_loop orig tot s = Inr n \<Longrightarrow> tot \<le> 2 ^ 63 \<Longrightarrow> n \<le> 2 ^ 63"
proof (induction orig tot s rule: dur_loop.induct)
  case (1 orig tot s)
  then show ?case
    by (subst (asm) (2) dur_loop.simps)
       (auto split: if_splits sum.splits prod.splits)
qed

lemma u64_as_i64_range: "n \<le> 2 ^ 63 \<Longrightarrow> - (2 ^ 63) \<le> u64_as_i64 n \<and> u64_as_i64 n < 2 ^ 63"
  by (auto simp: u64_as_i64_def)

lemma parse_go_duration_in_i64:
  assumes "parse_go_duration s = Inr d"
  shows "- (2 ^ 63) \<le> d \<and> d < 2 ^ 63"
proof -
  obtain neg r where sp: "split_sign s = (neg, r)" by fastforce
  show ?thesis
  proof (cases "r = ''0'' \<or> r = []")
    case True
    with assms sp show ?thesis by (auto simp: parse_go_duration_def split: if_splits)
  next
    case False
    with assms sp obtain t where t: "dur_loop s 0 r = Inr t"
      and d: "(if neg then Inr (wrapping_neg_i64 (u64_as_i64 t))
               else if 2 ^ 63 - 1 < t then Inl (InvalidDuration s)
               else Inr (u64_as_i64 t)) = Inr d"
      by (auto simp: parse_go_duration_def rbind_eq_Inr)
    from t have "t \<le> 2 ^ 63" by (rule dur_loop_bound) simp
    with d show ?thesis
      by (auto simp: wrapping_neg_i64_def u64_as_i64_def split: if_splits)
  qed
qed

section \<open>Exactness of the float path on small integers\<close>

lemma bin_exponent_bound:
  "1 \<le> x \<Longrightarrow> x < 2 ^ Suc k \<Longrightarrow> k < n \<Longrightarrow> \<exists>j\<le>k. bin_exponent n x = int j"
proof (induction n arbitrary: x k)
  case 0
  then show ?case by simp
next
  case (Suc n)
  show ?case
  proof (cases "2 \<le> x")
    case True
    with Suc.prems obtain k' where k: "k = Suc k'" by (cases k) auto
    have "\<exists>j\<le>k'. bin_exponent n (x / 2) = int j"
      by (rule Suc.IH) (use True Suc.prems k in auto)
    then obtain j where "j \<le> k'" "bin_exponent n (x / 2) = int j" by blast
    with True k show ?thesis by (intro exI [of _ "Suc j"]) auto
  next
    case False
    with Suc.prems show ?thesis by (intro exI [of _ 0]) auto
  qed
qed

lemma rne_of_int [simp]: "rne (of_int i) = i"
  by (simp add: rne_def)

lemma f64_round_nat_exact:
  assumes "n < 2 ^ 53"
  shows "f64_round (of_nat n) = Fin (of_nat n)"
proof (cases "n = 0")
  case True
  then show ?thesis by (simp add: f64_round_def)
next
  case False
  have "1 \<le> (of_nat n :: rat)" using False by simp
  moreover have "(of_nat n :: rat) < 2 ^ Suc 52"
  proof -
    have "(of_nat n :: rat) < of_nat (2 ^ 53)" using assms by (simp only: of_nat_less_iff)
    then show ?thesis by simp
  qed
  ultimately obtain j where j: "j \<le> 52" "bin_exponent 2200 (of_nat n) = int j"
    using bin_exponent_bound [of "of_nat n" 52 2200] by auto
  define u where "u = pow2 (max (bin_exponent 2200 (of_nat n) - 52) (- 1074))"
  have u: "u = 1 / 2 ^ (52 - j)"
  proof -
    have "max (int j - 52) (- 1074) = - int (52 - j)" using j(1) by (simp add: of_nat_diff)
    moreover have "nat (52 - int j) = 52 - j" by simp
    ultimately show ?thesis using j by (auto simp: u_def pow2_def)
  qed
  have "of_nat n / u = (of_int (int (n * 2 ^ (52 - j))) :: rat)" by (simp add: u)
  then have r: "rne (of_nat n / u) = int (n * 2 ^ (52 - j))" by (simp only: rne_of_int)
  have y: "of_int (rne (of_nat n / u)) * u = (of_nat n :: rat)"
    unfolding r by (simp add: u)
  have "(of_nat n :: rat) < of_nat (2 ^ 53)" using assms by (simp only: of_nat_less_iff)
  then have "(of_nat n :: rat) < 2 ^ 53" by simp
  also have "\<dots> \<le> 2 ^ 1024" by (rule power_increasing) simp_all
  finally show ?thesis
    using False y by (simp add: f64_round_def u_def [symmetric] Let_def f64_max_exclusive_def)
qed

lemma pow10_small: "k \<le> 9 \<Longrightarrow> (10::nat) ^ k < 2 ^ 53"
proof -
  assume "k \<le> 9"
  then have "(10::nat) ^ k \<le> 10 ^ 9" by (rule power_increasing) simp
  then show ?thesis by simp
qed

lemma f64_pow10_step:
  assumes "Suc k \<le> 9"
  shows "f64_mul (Fin (10 ^ k)) (Fin 10) = Fin (10 ^ Suc k)"
proof -
  have "f64_round (of_nat (10 ^ Suc k)) = Fin (of_nat (10 ^ Suc k))"
    by (rule f64_round_nat_exact) (rule pow10_small [OF assms])
  then show ?thesis by (simp add: mult.commute)
qed

lemma f64_fraction_exact:
  assumes k: "k \<le> p" and p: "p \<le> 9" and f: "f < 10 ^ k"
  shows "f64_to_u64 (f64_mul (f64_of_nat f) (f64_div (f64_of_nat (10 ^ p)) (Fin (10 ^ k))))
         = f * 10 ^ (p - k)"
proof -
  have fp: "f * 10 ^ (p - k) < 10 ^ p"
  proof -
    have "f * 10 ^ (p - k) < 10 ^ k * 10 ^ (p - k)" using f by simp
    then show ?thesis using k by (simp flip: power_add)
  qed
  have P: "(10::nat) ^ p < 2 ^ 53" using p by (rule pow10_small)
  have D: "(10::nat) ^ (p - k) < 2 ^ 53" by (rule pow10_small) (use p in simp)
  have F: "f < 2 ^ 53" using f pow10_small [of k] k p by linarith
  have "(10 ^ p :: rat) = 10 ^ k * 10 ^ (p - k)" using k by (simp flip: power_add)
  then have "(10 ^ p :: rat) / 10 ^ k = of_nat (10 ^ (p - k))" by simp
  then have div: "f64_div (f64_of_nat (10 ^ p)) (Fin (10 ^ k)) = Fin (of_nat (10 ^ (p - k)))"
    using f64_round_nat_exact [OF P] f64_round_nat_exact [OF D] by (simp add: f64_of_nat_def)
  have "f64_round (of_nat (f * 10 ^ (p - k))) = Fin (of_nat (f * 10 ^ (p - k)))"
    by (rule f64_round_nat_exact) (use fp P in linarith)
  then have mul: "f64_mul (f64_of_nat f) (Fin (of_nat (10 ^ (p - k)))) = Fin (of_nat (f * 10 ^ (p - k)))"
    using f64_round_nat_exact [OF F] by (simp add: f64_of_nat_def)
  have "f * 10 ^ (p - k) \<le> 2 ^ 64 - 1" using fp P by simp
  then show ?thesis unfolding div mul by (simp add: floor_of_nat del: of_nat_mult of_nat_power)
qed

section \<open>What the printer emits\<close>

lemma fmt_int_from_eq: "0 < v \<Longrightarrow> fmt_int_from buf v = buf @ rev (dec_string v)"
proof (induction buf v rule: fmt_int_from.induct)
  case (1 buf v)
  show ?case
  proof (cases "v < 10")
    case True
    with "1.prems" show ?thesis
      by (simp add: fmt_int_from.simps [of buf v] fmt_int_from.simps [of _ 0] dec_string.simps [of v])
  next
    case False
    with 1 show ?thesis
      by (simp add: fmt_int_from.simps [of buf v] dec_string.simps [of v])
  qed
qed

lemma dec_string_0: "dec_string 0 = ''0''"
  by code_simp

lemma rev_fmt_int: "rev (fmt_int buf v) = dec_string v @ rev buf"
  by (simp add: fmt_int_def fmt_int_from_eq dec_string_0)

text \<open>
  \<open>frac_text p f t\<close>: \<open>t\<close> is the text of the fraction \<open>f / 10 ^ p\<close>, empty for 0 and otherwise a
  point and at most \<open>p\<close> digits.
\<close>

definition frac_text :: "nat \<Rightarrow> nat \<Rightarrow> string \<Rightarrow> bool" where
  "frac_text p f t \<longleftrightarrow>
     (f = 0 \<and> t = []) \<or>
     (\<exists>ds. t = CHR ''.'' # ds \<and> ds \<noteq> [] \<and> (\<forall>c \<in> set ds. is_ascii_digit c) \<and> length ds \<le> p \<and>
           0 < digits_val 0 ds \<and> digits_val 0 ds * 10 ^ (p - length ds) = f)"

lemma mod_pow10_Suc: "(v::nat) mod (10 * 10 ^ n) = (v div 10 mod 10 ^ n) * 10 + v mod 10"
  using mod_mult2_eq [of v 10 "10 ^ n"] by simp

lemma fmt_frac_from_printing:
  "\<exists>ds. fmt_frac_from n buf v True = (buf @ rev ds, v div 10 ^ n, True) \<and> length ds = n \<and>
        (\<forall>c \<in> set ds. is_ascii_digit c) \<and> digits_val 0 ds = v mod 10 ^ n"
proof (induction n arbitrary: buf v)
  case 0
  show ?case by simp
next
  case (Suc n)
  from Suc [of "buf @ [digit_char (v mod 10)]" "v div 10"] obtain ds where
    ds: "fmt_frac_from n (buf @ [digit_char (v mod 10)]) (v div 10) True =
           ((buf @ [digit_char (v mod 10)]) @ rev ds, v div 10 div 10 ^ n, True)"
      "length ds = n" "\<forall>c \<in> set ds. is_ascii_digit c" "digits_val 0 ds = v div 10 mod 10 ^ n"
    by blast
  then show ?case
    by (intro exI [of _ "ds @ [digit_char (v mod 10)]"])
       (auto simp: Let_def digits_val_append mod_pow10_Suc div_mult2_eq)
qed

lemma fmt_frac_from_skipping:
  "\<exists>ds p. fmt_frac_from n buf v False = (buf @ rev ds, v div 10 ^ n, p) \<and>
        (\<forall>c \<in> set ds. is_ascii_digit c) \<and>
        (if v mod 10 ^ n = 0 then \<not> p \<and> ds = []
         else p \<and> ds \<noteq> [] \<and> length ds \<le> n \<and> digits_val 0 ds * 10 ^ (n - length ds) = v mod 10 ^ n)"
proof (induction n arbitrary: buf v)
  case 0
  show ?case by (intro exI [of _ "[]"] exI [of _ False]) simp
next
  case (Suc n)
  show ?case
  proof (cases "v mod 10 = 0")
    case True
    from Suc [of buf "v div 10"] obtain ds p where
      ds: "fmt_frac_from n buf (v div 10) False = (buf @ rev ds, v div 10 div 10 ^ n, p)"
        "\<forall>c \<in> set ds. is_ascii_digit c"
        "if v div 10 mod 10 ^ n = 0 then \<not> p \<and> ds = []
         else p \<and> ds \<noteq> [] \<and> length ds \<le> n \<and> digits_val 0 ds * 10 ^ (n - length ds) = v div 10 mod 10 ^ n"
      by blast
    with True show ?thesis
      by (intro exI [of _ ds] exI [of _ p])
         (auto simp: Let_def mod_pow10_Suc div_mult2_eq Suc_diff_le algebra_simps split: if_splits)
  next
    case False
    from fmt_frac_from_printing [of n "buf @ [digit_char (v mod 10)]" "v div 10"] obtain ds where
      ds: "fmt_frac_from n (buf @ [digit_char (v mod 10)]) (v div 10) True =
             ((buf @ [digit_char (v mod 10)]) @ rev ds, v div 10 div 10 ^ n, True)"
        "length ds = n" "\<forall>c \<in> set ds. is_ascii_digit c" "digits_val 0 ds = v div 10 mod 10 ^ n"
      by blast
    with False show ?thesis
      by (intro exI [of _ "ds @ [digit_char (v mod 10)]"] exI [of _ True])
         (auto simp: Let_def digits_val_append mod_pow10_Suc div_mult2_eq)
  qed
qed

lemma fmt_frac_text:
  obtains t where "rev (fst (fmt_frac buf v p)) = t @ rev buf" "snd (fmt_frac buf v p) = v div 10 ^ p"
    "frac_text p (v mod 10 ^ p) t"
proof -
  obtain ds b where
    ds: "fmt_frac_from p buf v False = (buf @ rev ds, v div 10 ^ p, b)"
      "\<forall>c \<in> set ds. is_ascii_digit c"
      "if v mod 10 ^ p = 0 then \<not> b \<and> ds = []
       else b \<and> ds \<noteq> [] \<and> length ds \<le> p \<and> digits_val 0 ds * 10 ^ (p - length ds) = v mod 10 ^ p"
    using fmt_frac_from_skipping [of p buf v] by blast
  show thesis
  proof (rule that [of "if b then CHR ''.'' # ds else []"])
    show "rev (fst (fmt_frac buf v p)) = (if b then CHR ''.'' # ds else []) @ rev buf"
      using ds by (auto simp: fmt_frac_def split: if_splits)
    show "snd (fmt_frac buf v p) = v div 10 ^ p" using ds(1) by (simp add: fmt_frac_def)
    show "frac_text p (v mod 10 ^ p) (if b then CHR ''.'' # ds else [])"
      using ds by (auto simp: frac_text_def intro!: gr0I split: if_splits)
  qed
qed

section \<open>The parser reads the printer's pieces\<close>

definition ends_number :: "string \<Rightarrow> bool" where
  "ends_number r \<longleftrightarrow> r = [] \<or> \<not> is_ascii_digit (hd r)"

lemma digits_val_ge: "acc \<le> digits_val acc ds"
proof (induction ds arbitrary: acc)
  case Nil
  show ?case by simp
next
  case (Cons c ds)
  have "acc \<le> acc * 10 + digit_val c" by simp
  also have "\<dots> \<le> digits_val (acc * 10 + digit_val c) ds" by (rule Cons)
  finally show ?case by simp
qed

lemma leading_int_from_digits:
  assumes "\<forall>c \<in> set ds. is_ascii_digit c" "digits_val acc ds \<le> 2 ^ 63" "ends_number r"
  shows "leading_int_from acc (ds @ r) = Some (digits_val acc ds, r)"
  using assms
proof (induction ds arbitrary: acc)
  case Nil
  then show ?case by (cases r) (auto simp: ends_number_def)
next
  case (Cons c ds)
  have "acc * 10 + digit_val c \<le> digits_val acc (c # ds)" using digits_val_ge by simp
  with Cons.prems(2) have le: "acc * 10 + digit_val c \<le> 2 ^ 63" by linarith
  then have "acc \<le> 2 ^ 63 div 10" by linarith
  with le Cons show ?case by (auto simp: Let_def)
qed

lemma leading_fraction_from_digits:
  assumes "\<forall>c \<in> set ds. is_ascii_digit c" "acc < 10 ^ k" "k + length ds \<le> 9" "ends_number r"
  shows "leading_fraction_from acc (Fin (10 ^ k)) False (ds @ r) =
           (digits_val acc ds, Fin (10 ^ (k + length ds)), r)"
  using assms
proof (induction ds arbitrary: acc k)
  case Nil
  then show ?case by (cases r) (auto simp: ends_number_def)
next
  case (Cons c ds)
  have acc': "acc * 10 + digit_val c < 10 ^ Suc k"
    using Cons.prems digit_val_less [of c] by (simp add: Suc_le_eq)
  have "(10::nat) ^ Suc k \<le> 10 ^ 9" by (rule power_increasing) (use Cons.prems in auto)
  then have b: "acc * 10 + digit_val c \<le> 10 ^ 9" using acc' by linarith
  have "acc \<le> (2 ^ 63 - 1) div 10" using b by simp
  moreover have "acc * 10 + digit_val c \<le> 2 ^ 63" using b by simp
  moreover have "f64_mul (Fin (10 ^ k)) (Fin 10) = Fin (10 ^ Suc k)"
    by (rule f64_pow10_step) (use Cons.prems in simp)
  moreover have "leading_fraction_from (acc * 10 + digit_val c) (Fin (10 ^ Suc k)) False (ds @ r) =
      (digits_val (acc * 10 + digit_val c) ds, Fin (10 ^ (Suc k + length ds)), r)"
    by (rule Cons.IH) (use Cons.prems acc' in auto)
  ultimately show ?case using Cons.prems by (simp add: Let_def del: f64_mul.simps)
qed

lemma read_fraction_text:
  assumes "frac_text p f t" "p \<le> 9" "u \<noteq> []" "\<not> starts_number (hd u)"
  obtains fr k where "read_fraction (t @ u) = (fr, Fin (10 ^ k), t \<noteq> [], u)" "k \<le> p" "fr < 10 ^ k"
    "fr * 10 ^ (p - k) = f" "fr = 0 \<longleftrightarrow> f = 0"
proof (cases "t = []")
  case True
  with assms have "f = 0" by (auto simp: frac_text_def)
  moreover have "read_fraction (t @ u) = (0, Fin (10 ^ 0), t \<noteq> [], u)"
    using True assms by (cases u) (auto simp: read_fraction_def starts_number_def)
  ultimately show ?thesis using that [of 0 0] by simp
next
  case False
  with assms(1) obtain ds where ds: "t = CHR ''.'' # ds" "ds \<noteq> []" "\<forall>c \<in> set ds. is_ascii_digit c"
    "length ds \<le> p" "0 < digits_val 0 ds" "digits_val 0 ds * 10 ^ (p - length ds) = f"
    by (auto simp: frac_text_def)
  have "ends_number u" using assms by (auto simp: ends_number_def starts_number_def)
  then have "leading_fraction (ds @ u) = (digits_val 0 ds, Fin (10 ^ length ds), u)"
    using leading_fraction_from_digits [of ds 0 0 u] ds assms(2) by (simp add: leading_fraction_def)
  moreover have "digits_val 0 ds < 10 ^ length ds"
    using ds(3) by (rule digits_val_less)
  ultimately show ?thesis
    using ds that [of "digits_val 0 ds" "length ds"] by (auto simp: read_fraction_def)
qed

lemma takeWhile_unit:
  assumes "\<forall>c \<in> set u. \<not> starts_number c" "r = [] \<or> starts_number (hd r)"
  shows "takeWhile (\<lambda>c. \<not> starts_number c) (u @ r) = u"
    "dropWhile (\<lambda>c. \<not> starts_number c) (u @ r) = r"
  using assms by (cases r; auto simp: takeWhile_append dropWhile_append)+

lemma scale_number_exact:
  assumes "0 < U" "n * U + f \<le> 2 ^ 63" "k \<le> p" "p \<le> 9" "fr < 10 ^ k" "fr * 10 ^ (p - k) = f"
    "fr = 0 \<longleftrightarrow> f = 0" "f = 0 \<or> U = 10 ^ p"
  shows "scale_number orig n fr (Fin (10 ^ k)) U = Inr (n * U + f)"
proof -
  have "n * U \<le> 2 ^ 63" using assms(2) by simp
  then have "n \<le> 2 ^ 63 div U" using assms(1) by (simp add: less_eq_div_iff_mult_less_eq)
  then show ?thesis
    using assms f64_fraction_exact [of k p fr] by (auto simp: scale_number_def Let_def not_less)
qed

lemma not_digit_point: "\<not> is_ascii_digit (CHR ''.'')"
  by code_simp

lemma ends_number_frac_text:
  assumes "frac_text p f t" "u \<noteq> []" "\<not> is_ascii_digit (hd u)"
  shows "ends_number (t @ u)"
  using assms not_digit_point by (cases "t = []") (auto simp: frac_text_def ends_number_def)

lemma read_pair_text:
  assumes u: "unit_ns u = Some U" "u \<noteq> []" "\<forall>c \<in> set u. \<not> starts_number c"
    and r: "r = [] \<or> starts_number (hd r)"
    and f: "frac_text p f t" "p \<le> 9" "f = 0 \<or> U = 10 ^ p"
    and le: "n * U + f \<le> 2 ^ 63"
  shows "read_pair orig (dec_string n @ t @ u @ r) = Inr (n * U + f, r)"
proof -
  let ?s = "dec_string n @ t @ u @ r"
  have U: "0 < U" using u(1) by (rule unit_ns_pos)
  then have "n \<le> n * U" by simp
  with le have n: "n \<le> 2 ^ 63" by linarith
  have "ends_number (t @ u @ r)"
    using ends_number_frac_text [OF f(1), of "u @ r"] u by (simp add: starts_number_def)
  then have li: "leading_int ?s = Some (n, t @ u @ r)"
    using leading_int_from_digits [of "dec_string n" 0] n dec_string_digits
    by (auto simp: leading_int_def digits_val_dec_string)
  obtain fr k where rf: "read_fraction (t @ u @ r) = (fr, Fin (10 ^ k), t \<noteq> [], u @ r)"
    "k \<le> p" "fr < 10 ^ k" "fr * 10 ^ (p - k) = f" "fr = 0 \<longleftrightarrow> f = 0"
    by (rule read_fraction_text [OF f(1,2), of "u @ r"]) (use u in auto)
  have hd: "starts_number (hd ?s)"
    using dec_string_digits [of "hd (dec_string n)" n] by (simp add: starts_number_def)
  have "length ?s \<noteq> length (t @ u @ r)" by simp
  then show ?thesis
    using hd li rf(1) u takeWhile_unit [OF u(3) r]
      scale_number_exact [OF U le rf(2) f(2) rf(3,4,5) f(3), of orig]
    by (simp add: read_pair_def Let_def)
qed

lemma dur_loop_text:
  assumes "unit_ns u = Some U" "u \<noteq> []" "\<forall>c \<in> set u. \<not> starts_number c"
    and "r = [] \<or> starts_number (hd r)"
    and "frac_text p f t" "p \<le> 9" "f = 0 \<or> U = 10 ^ p"
    and le: "acc + (n * U + f) \<le> 2 ^ 63"
  shows "dur_loop orig acc (dec_string n @ t @ u @ r) = dur_loop orig (acc + (n * U + f)) r"
  using read_pair_text [OF assms(1-7), of n orig] le
  by (subst dur_loop.simps) simp


lemma dur_loop_Nil [simp]: "dur_loop orig acc [] = Inr acc"
  by (simp add: dur_loop.simps)

section \<open>Round trip\<close>

lemma starts_number_dec_string: "starts_number (hd (dec_string n @ r))"
  using dec_string_digits [of "hd (dec_string n)" n] by (simp add: starts_number_def)

lemma unit_names:
  "unit_ns ''ns'' = Some (10 ^ 0)" "unit_ns micro_s = Some (10 ^ 3)" "unit_ns ''ms'' = Some (10 ^ 6)"
  "unit_ns ''s'' = Some (10 ^ 9)" "unit_ns ''m'' = Some 60000000000"
  "unit_ns ''h'' = Some 3600000000000"
  by (simp_all add: unit_ns_def micro_s_def greek_mu_s_def)

lemma unit_letters:
  "\<forall>c \<in> set ''ns''. \<not> starts_number c" "\<forall>c \<in> set micro_s. \<not> starts_number c"
  "\<forall>c \<in> set ''ms''. \<not> starts_number c" "\<forall>c \<in> set ''s''. \<not> starts_number c"
  "\<forall>c \<in> set ''m''. \<not> starts_number c" "\<forall>c \<in> set ''h''. \<not> starts_number c"
  by code_simp+

lemma frac_text_0: "frac_text 0 0 []"
  by (simp add: frac_text_def)

text \<open>A number with unit \<open>10 ^ p\<close> nanoseconds, printed by the two buffer helpers.\<close>

lemma dur_loop_unit:
  assumes u: "unit_ns u = Some (10 ^ p)" "u \<noteq> []" "\<forall>c \<in> set u. \<not> starts_number c"
    and p: "p \<le> 9" and le: "acc + v \<le> 2 ^ 63"
  shows "dur_loop orig acc (rev (fmt_int (fst (fmt_frac (rev u) v p)) (snd (fmt_frac (rev u) v p))))
         = Inr (acc + v)"
proof -
  obtain t where t: "rev (fst (fmt_frac (rev u) v p)) = t @ u"
    "snd (fmt_frac (rev u) v p) = v div 10 ^ p" "frac_text p (v mod 10 ^ p) t"
    by (metis fmt_frac_text rev_rev_ident)
  have "dur_loop orig acc (dec_string (v div 10 ^ p) @ t @ u @ []) =
        dur_loop orig (acc + (v div 10 ^ p * 10 ^ p + v mod 10 ^ p)) []"
    by (rule dur_loop_text [OF u _ t(3) p]) (simp_all only: div_mult_mod_eq le refl simp_thms)
  moreover have "v div 10 ^ p * 10 ^ p + v mod 10 ^ p = v" by (rule div_mult_mod_eq)
  ultimately show ?thesis by (simp add: rev_fmt_int t)
qed

lemma dur_loop_sub_second:
  assumes "u < 1000000000"
  shows "dur_loop orig 0 (rev (sub_second u)) = Inr u"
proof -
  have le: "0 + u \<le> 2 ^ 63" using assms by simp
  have m: "[CHR ''s'', CHR 0xB5, CHR 0xC2] = rev micro_s" by (simp add: micro_s_def)
  have n: "micro_s \<noteq> []" by (simp add: micro_s_def)
  show ?thesis
    using dur_loop_unit [OF unit_names(1) _ unit_letters(1) _ le, of orig]
      dur_loop_unit [OF unit_names(2) n unit_letters(2) _ le, of orig]
      dur_loop_unit [OF unit_names(3) _ unit_letters(3) _ le, of orig]
    by (simp add: sub_second_def m split_def Let_def)
qed

lemma dur_loop_whole_seconds:
  assumes le: "u \<le> 2 ^ 63"
  shows "dur_loop orig 0 (rev (whole_seconds u)) = Inr u"
proof -
  define s where "s = u div 10 ^ 9"
  define f where "f = u mod 10 ^ 9"
  define m where "m = s div 60"
  define sec where "sec = s mod 60"
  obtain t where t': "rev (fst (fmt_frac ''s'' u 9)) = t @ rev ''s''"
    "snd (fmt_frac ''s'' u 9) = u div 10 ^ 9" "frac_text 9 (u mod 10 ^ 9) t"
    by (rule fmt_frac_text)
  have t: "rev (fst (fmt_frac ''s'' u 9)) = t @ ''s''" "snd (fmt_frac ''s'' u 9) = s" "frac_text 9 f t"
    using t' by (simp_all add: s_def f_def)
  have u: "u = s * 10 ^ 9 + f" unfolding s_def f_def by (rule div_mult_mod_eq [symmetric])
  have s: "s = m * 60 + sec" unfolding m_def sec_def by (rule div_mult_mod_eq [symmetric])
  have m: "m = m div 60 * 60 + m mod 60" by (rule div_mult_mod_eq [symmetric])
  have secs: "dur_loop orig acc (dec_string sec @ t @ ''s'') = Inr (acc + (sec * 10 ^ 9 + f))"
    if "acc + (sec * 10 ^ 9 + f) \<le> 2 ^ 63" for acc
    using dur_loop_text [OF unit_names(4) _ unit_letters(4) _ t(3) _ _ that, of "[]" orig]
    by (simp only: append_Nil2 dur_loop_Nil) simp
  have mins: "dur_loop orig acc (dec_string k @ ''m'' @ dec_string sec @ t @ ''s'') =
      Inr (acc + k * 60000000000 + (sec * 10 ^ 9 + f))"
    if "acc + k * 60000000000 + (sec * 10 ^ 9 + f) \<le> 2 ^ 63" for acc k
    using dur_loop_text [OF unit_names(5) _ unit_letters(5) _ frac_text_0,
        of "dec_string sec @ t @ ''s''" acc k orig] that
      secs [OF that] starts_number_dec_string [of sec "t @ ''s''"] by simp
  have hrs: "dur_loop orig acc (dec_string h @ ''h'' @ dec_string k @ ''m'' @ dec_string sec @ t @ ''s'') =
      Inr (acc + h * 3600000000000 + k * 60000000000 + (sec * 10 ^ 9 + f))"
    if "acc + h * 3600000000000 + k * 60000000000 + (sec * 10 ^ 9 + f) \<le> 2 ^ 63" for acc h k
    using dur_loop_text [OF unit_names(6) _ unit_letters(6) _ frac_text_0,
        of "dec_string k @ ''m'' @ dec_string sec @ t @ ''s''" acc h orig] that
      mins [OF that] starts_number_dec_string [of k "''m'' @ dec_string sec @ t @ ''s''"] by simp
  have txt_eq: "rev (whole_seconds u) =
      (if 0 < m then
         if 0 < m div 60 then
           dec_string (m div 60) @ ''h'' @ dec_string (m mod 60) @ ''m'' @ dec_string sec @ t @ ''s''
         else dec_string (m mod 60) @ ''m'' @ dec_string sec @ t @ ''s''
       else dec_string sec @ t @ ''s'')"
    by (simp add: whole_seconds_def split_def Let_def t rev_fmt_int flip: m_def sec_def)
  consider "m = 0" | "0 < m" "m div 60 = 0" | "0 < m div 60" by (cases "m = 0"; cases "m div 60 = 0") auto
  then show ?thesis
  proof cases
    case 1
    with u s have "sec * 10 ^ 9 + f = u" by simp
    with secs [of 0] le 1 show ?thesis by (simp add: txt_eq)
  next
    case 2
    then have "m mod 60 = m" using m by simp
    with u s have "m mod 60 * 60000000000 + (sec * 10 ^ 9 + f) = u" by simp
    with mins [of 0 "m mod 60"] le 2 show ?thesis by (simp add: txt_eq)
  next
    case 3
    define h k where hk: "h = m div 60" "k = m mod 60"
    have "m = h * 60 + k" using m by (simp only: hk)
    with u s have "h * 3600000000000 + k * 60000000000 + (sec * 10 ^ 9 + f) = u"
      by (simp add: algebra_simps)
    then have "m div 60 * 3600000000000 + m mod 60 * 60000000000 + (sec * 10 ^ 9 + f) = u"
      by (simp only: hk)
    moreover have "0 < m" using 3 by (cases "m = 0") simp_all
    ultimately show ?thesis using hrs [of 0 "m div 60" "m mod 60"] le 3 by (simp add: txt_eq)
  qed
qed

lemma magnitude_u64_eq:
  assumes "- (2 ^ 63) \<le> d" "d < 2 ^ 63"
  shows "magnitude_u64 d = nat \<bar>d\<bar>"
proof (cases "d < 0")
  case True
  have "d mod 2 ^ 64 = (d + 2 ^ 64) mod 2 ^ 64" by simp
  also have "\<dots> = d + 2 ^ 64" by (rule mod_pos_pos_trivial) (use assms True in auto)
  finally have m: "d mod 2 ^ 64 = d + 2 ^ 64" .
  have "(18446744073709551616::nat) - nat (d + 18446744073709551616) = nat (- d)"
    "nat (- d) < 18446744073709551616" using assms True by simp_all
  then show ?thesis using True m by (simp add: magnitude_u64_def Let_def)
next
  case False
  with assms show ?thesis by (simp add: magnitude_u64_def Let_def)
qed

lemma dur_loop_buffer:
  assumes "0 < u" "u \<le> 2 ^ 63"
  shows "dur_loop orig 0 (rev (if u < 1000000000 then sub_second u else whole_seconds u)) = Inr u"
  using assms dur_loop_sub_second dur_loop_whole_seconds by simp

text \<open>The text of a positive magnitude ends in the letter of its unit and starts with a digit.\<close>

lemma buffer_shape:
  "\<exists>n r. rev (if u < 1000000000 then sub_second u else whole_seconds u) = dec_string n @ r \<and> r \<noteq> []"
proof -
  have ne: "buf \<noteq> [] \<Longrightarrow> fst (fmt_frac buf v p) \<noteq> []" for buf v p
    by (metis fmt_frac_text Nil_is_append_conv rev_is_Nil_conv)
  have sn: "xs @ [x] \<noteq> []" for xs :: string and x by simp
  have "\<exists>b n. sub_second u = fmt_int b n \<and> b \<noteq> []"
    by (cases "u < 1000"; cases "u < 1000000"; simp add: sub_second_def Let_def split_def)
       (rule exI conjI refl ne list.distinct(2))+
  moreover have "\<exists>b n. whole_seconds u = fmt_int b n \<and> b \<noteq> []"
    by (cases "0 < snd (fmt_frac ''s'' u 9) div 60"; cases "0 < snd (fmt_frac ''s'' u 9) div 60 div 60";
        simp add: whole_seconds_def Let_def split_def)
       (rule exI conjI refl ne sn list.distinct(2))+
  ultimately obtain b n where "(if u < 1000000000 then sub_second u else whole_seconds u) = fmt_int b n"
    "b \<noteq> []" by (cases "u < 1000000000") auto
  then show ?thesis by (intro exI [of _ n] exI [of _ "rev b"]) (simp add: rev_fmt_int)
qed

lemma parse_format_text:
  assumes "0 < u" "u \<le> 2 ^ 63" and "\<not> neg \<Longrightarrow> u < 2 ^ 63"
    and t: "t = rev (if u < 1000000000 then sub_second u else whole_seconds u)"
  shows "parse_go_duration (if neg then CHR ''-'' # t else t) = Inr (if neg then - int u else int u)"
proof -
  obtain n r where sh: "t = dec_string n @ r" "r \<noteq> []" using buffer_shape t by blast
  have hd: "is_ascii_digit (hd t)" using sh dec_string_digits [of "hd (dec_string n)" n] by simp
  have ne: "t \<noteq> []" "t \<noteq> ''0''"
    using sh by (auto simp: append_eq_Cons_conv)
  have sign: "\<not> is_ascii_digit (CHR ''-'')" "\<not> is_ascii_digit (CHR ''+'')" by code_simp+
  then have sp: "split_sign (if neg then CHR ''-'' # t else t) = (neg, t)"
    using hd ne(1) by (cases t) (auto simp: split_sign_def)
  have "dur_loop orig 0 t = Inr u" for orig unfolding t using assms(1,2) by (rule dur_loop_buffer)
  with sp ne assms(2,3) show ?thesis
    by (cases neg) (auto simp: parse_go_duration_def wrapping_neg_i64_def u64_as_i64_def)
qed

lemma parse_format_i64:
  assumes "- (2 ^ 63) \<le> d" "d < 2 ^ 63"
  shows "parse_go_duration (format_go_duration d) = Inr d"
proof (cases "d = 0")
  case True
  have "parse_go_duration ''0s'' = Inr 0"
    by (simp add: parse_go_duration_def split_sign_def dur_loop.simps read_pair_def starts_number_def
        leading_int_def read_fraction_def unit_ns_def micro_s_def greek_mu_s_def scale_number_def
        is_ascii_digit_def byte_def digit_val_def u64_as_i64_def Let_def)
  with True show ?thesis by (simp add: format_go_duration_def magnitude_u64_def)
next
  case False
  define u where "u = magnitude_u64 d"
  have u: "u = nat \<bar>d\<bar>" unfolding u_def using assms by (rule magnitude_u64_eq)
  have "format_go_duration d =
      (if d < 0 then CHR ''-'' # rev (if u < 1000000000 then sub_second u else whole_seconds u)
       else rev (if u < 1000000000 then sub_second u else whole_seconds u))"
    using False u by (simp add: format_go_duration_def Let_def flip: u_def)
  then show ?thesis
    using parse_format_text [of u "d < 0"] assms False by (auto simp: u)
qed

section \<open>Properties\<close>

definition parse_dur_opt :: "string \<Rightarrow> int option" where
  "parse_dur_opt s = (case parse_go_duration s of Inl _ \<Rightarrow> None | Inr d \<Rightarrow> Some d)"

interpretation go_dur: codec format_go_duration parse_dur_opt "\<lambda>d. - (2 ^ 63) \<le> d \<and> d < 2 ^ 63"
  by unfold_locales (simp add: parse_dur_opt_def parse_format_i64)

text \<open>
  Round trip: every duration an \<open>i64\<close> of nanoseconds can hold, the minimum included, is read
  back exactly from the text it is printed as, and no two durations share a text. The parser works
  in \<open>u64\<close> arithmetic and through \<open>f64\<close> fractions; both are exact on printed texts.
\<close>

theorem go_duration_round_trip:
  assumes "- (2 ^ 63) \<le> d" "d < 2 ^ 63"
  shows "parse_go_duration (format_go_duration d) = Inr d \<and>
         (\<forall>e. - (2 ^ 63) \<le> e \<and> e < 2 ^ 63 \<and> format_go_duration e = format_go_duration d \<longrightarrow> e = d)"
  using assms parse_format_i64 go_dur.enc_inj by blast

theorem go_duration_round_trip_witness:
  "parse_go_duration (format_go_duration (- 5400000000123)) = Inr (- 5400000000123)"
  using go_duration_round_trip [of "- 5400000000123"] by simp

lemma parse_go_duration_bounded_parts:
  shows "parse_go_duration s = Inr d \<Longrightarrow> - (2 ^ 63) \<le> d \<and> d < 2 ^ 63"
    and "dur_loop orig tot r = Inr n \<Longrightarrow> tot \<le> 2 ^ 63 \<Longrightarrow> n \<le> 2 ^ 63"
  by (rule parse_go_duration_in_i64, assumption) (rule dur_loop_bound)

text \<open>
  Bounds: whatever the input, a duration that is returned fits an \<open>i64\<close>, and the accumulated
  total never exceeds \<open>2 ^ 63\<close>, so the \<open>u64\<close> accumulator of the loop cannot wrap.
\<close>

theorem parse_go_duration_bounded:
  shows "(parse_go_duration s = Inr d \<longrightarrow>
     - (2 ^ 63) \<le> d \<and> d < 2 ^ 63) \<and>
    (dur_loop orig tot r = Inr n \<and> tot \<le> 2 ^ 63 \<longrightarrow>
     n \<le> 2 ^ 63)"
  by (rule conjI, rule impI, erule parse_go_duration_bounded_parts(1),
      rule impI, elim conjE, rule parse_go_duration_bounded_parts(2), assumption+)

lemma parse_0s: "parse_go_duration (format_go_duration 1500) = Inr 1500"
  by (rule parse_format_i64) simp_all

theorem parse_go_duration_bounded_witness: "- (2 ^ 63) \<le> (1500::int) \<and> (1500::int) < 2 ^ 63"
  by (rule parse_go_duration_bounded [THEN conjunct1, rule_format, OF parse_0s])

end
