(* ===== verification/SysPolicy.thy ===== *)
theory SysPolicy
  imports Prefs BTree GoDuration StdNet
begin

text \<open>
  \<open>src/src/ipn/syspolicy.rs\<close>: the administrator's policy file. The theory follows the file: the
  table of known keys, the typed readers over the merged rows, the JSON store with its validation and
  its rendering, the registry with its change notification, the policy auth key, and the application
  of the policy to the preferences.

  The JSON parser is \<open>serde_json\<close>'s and is a parameter (\<open>json_of_bytes\<close>); a parsed document is the
  datatype \<open>jvalue\<close>, with an object as the sorted map \<open>serde_json::Map\<close> is. The process-global
  registry (\<open>REGISTERED\<close>, \<open>LAST_PUBLISHED\<close>) is the explicit record \<open>policy_registry\<close>.
\<close>

datatype jvalue =
    JNull | JBool bool | JNumber string | JString string | JArray "jvalue list"
  | JObject "(string \<times> jvalue) list"

type_synonym json_store = "jvalue btree"

section \<open>Keys and definitions\<close>

definition PKEY_ENCRYPT_STATE :: string where "PKEY_ENCRYPT_STATE = ''EncryptState''"
definition PKEY_HARDWARE_ATTESTATION :: string where "PKEY_HARDWARE_ATTESTATION = ''HardwareAttestation''"
definition PKEY_ALLOW_TAILSCALED_RESTART :: string where
  "PKEY_ALLOW_TAILSCALED_RESTART = ''AllowTailscaledRestart''"
definition PKEY_ALWAYS_ON :: string where "PKEY_ALWAYS_ON = ''AlwaysOn.Enabled''"
definition PKEY_ALWAYS_ON_OVERRIDE_WITH_REASON :: string where
  "PKEY_ALWAYS_ON_OVERRIDE_WITH_REASON = ''AlwaysOn.OverrideWithReason''"
definition PKEY_RECONNECT_AFTER :: string where "PKEY_RECONNECT_AFTER = ''ReconnectAfter''"
definition PKEY_AUTH_KEY :: string where "PKEY_AUTH_KEY = ''AuthKey''"
definition PKEY_EXIT_NODE_ID :: string where "PKEY_EXIT_NODE_ID = ''ExitNodeID''"
definition PKEY_EXIT_NODE_IP :: string where "PKEY_EXIT_NODE_IP = ''ExitNodeIP''"
definition PKEY_ALLOW_EXIT_NODE_OVERRIDE :: string where
  "PKEY_ALLOW_EXIT_NODE_OVERRIDE = ''ExitNode.AllowOverride''"
definition PKEY_ALLOWED_SUGGESTED_EXIT_NODES :: string where
  "PKEY_ALLOWED_SUGGESTED_EXIT_NODES = ''AllowedSuggestedExitNodes''"

named_theorems pkey_defs

lemmas pkey_all [pkey_defs] =
  PKEY_ENCRYPT_STATE_def PKEY_HARDWARE_ATTESTATION_def PKEY_ALLOW_TAILSCALED_RESTART_def
  PKEY_ALWAYS_ON_def PKEY_ALWAYS_ON_OVERRIDE_WITH_REASON_def PKEY_RECONNECT_AFTER_def
  PKEY_AUTH_KEY_def PKEY_EXIT_NODE_ID_def PKEY_EXIT_NODE_IP_def PKEY_ALLOW_EXIT_NODE_OVERRIDE_def
  PKEY_ALLOWED_SUGGESTED_EXIT_NODES_def

definition DEVICE_SCOPE :: string where "DEVICE_SCOPE = ''Device''"
definition JSON_FILE_SOURCE_NAME :: string where "JSON_FILE_SOURCE_NAME = ''JSONFile''"
definition REDACTED :: string where "REDACTED = ''<redacted>''"

datatype ValueType = TBoolean | TString | TStringList | TPreferenceOption | TVisibility | TDuration

definition wanted_json_type :: "ValueType \<Rightarrow> string" where
  "wanted_json_type ty = (case ty of TBoolean \<Rightarrow> ''bool'' | TStringList \<Rightarrow> ''array'' | _ \<Rightarrow> ''string'')"

definition DEFINITIONS :: "(string \<times> ValueType) list" where
  "DEFINITIONS =
     [(PKEY_ALLOWED_SUGGESTED_EXIT_NODES, TStringList),
      (PKEY_ALLOW_EXIT_NODE_OVERRIDE, TBoolean),
      (PKEY_ALLOW_TAILSCALED_RESTART, TBoolean),
      (PKEY_ALWAYS_ON, TBoolean),
      (PKEY_ALWAYS_ON_OVERRIDE_WITH_REASON, TBoolean),
      (''InstallUpdates'', TPreferenceOption),
      (PKEY_AUTH_KEY, TString),
      (''CheckUpdates'', TPreferenceOption),
      (''LoginURL'', TString),
      (''DeviceSerialNumber'', TString),
      (''EnableDNSRegistration'', TPreferenceOption),
      (''AllowIncomingConnections'', TPreferenceOption),
      (''AdvertiseExitNode'', TPreferenceOption),
      (''UnattendedMode'', TPreferenceOption),
      (''UseTailscaleDNSSettings'', TPreferenceOption),
      (''UseTailscaleSubnets'', TPreferenceOption),
      (''ExitNodeAllowLANAccess'', TPreferenceOption),
      (PKEY_EXIT_NODE_ID, TString),
      (PKEY_EXIT_NODE_IP, TString),
      (''FlushDNSOnSessionUnlock'', TBoolean),
      (PKEY_ENCRYPT_STATE, TBoolean),
      (''Hostname'', TString),
      (''LogSCMInteractions'', TBoolean),
      (''LogTarget'', TString),
      (''MachineCertificateSubject'', TString),
      (''PostureChecking'', TPreferenceOption),
      (PKEY_RECONNECT_AFTER, TDuration),
      (''Tailnet'', TString),
      (PKEY_HARDWARE_ATTESTATION, TBoolean),
      (''AdminConsole'', TVisibility),
      (''ApplyUpdates'', TVisibility),
      (''ExitNodesPicker'', TVisibility),
      (''KeyExpirationNotice'', TDuration),
      (''ManagedByCaption'', TString),
      (''ManagedByOrganizationName'', TString),
      (''ManagedByURL'', TString),
      (''NetworkDevices'', TVisibility),
      (''PreferencesMenu'', TVisibility),
      (''ResetToDefaults'', TVisibility),
      (''RunExitNode'', TVisibility),
      (''SuggestedExitNode'', TVisibility),
      (''TestMenu'', TVisibility),
      (''UpdateMenu'', TVisibility),
      (''OnboardingFlow'', TVisibility)]"

definition definition_of :: "string \<Rightarrow> (string \<times> ValueType) option" where
  "definition_of key = find (\<lambda>d. fst d = key) DEFINITIONS"

section \<open>Reading the merged rows\<close>

record PolicySetting =
  ps_key :: string
  ps_origin :: string
  ps_value :: "string option"
  ps_error :: "string option"

datatype PreferenceOption = Always | Never | UserDecides

fun should_enable :: "PreferenceOption \<Rightarrow> bool \<Rightarrow> bool" where
  "should_enable Always _ = True"
| "should_enable Never _ = False"
| "should_enable UserDecides current = current"

definition parse_preference :: "string \<Rightarrow> PreferenceOption" where
  "parse_preference rendered =
     (if rendered = ''always'' then Always else if rendered = ''never'' then Never else UserDecides)"

text \<open>The shared front half of the readers: the key's type must match, the row must hold a value.\<close>

definition configured_value :: "ValueType \<Rightarrow> PolicySetting list \<Rightarrow> string \<Rightarrow> string option" where
  "configured_value ty settings key =
     (case definition_of key of
        Some (_, t) \<Rightarrow>
          if t = ty then
            (case find (\<lambda>s. ps_key s = key) settings of None \<Rightarrow> None | Some s \<Rightarrow> ps_value s)
          else None
      | None \<Rightarrow> None)"

text \<open>\<open>str::parse::<bool>\<close>.\<close>

definition parse_bool :: "string \<Rightarrow> bool option" where
  "parse_bool s = (if s = ''true'' then Some True else if s = ''false'' then Some False else None)"

definition configured_boolean :: "PolicySetting list \<Rightarrow> string \<Rightarrow> bool option" where
  "configured_boolean settings key =
     (case configured_value TBoolean settings key of None \<Rightarrow> None | Some v \<Rightarrow> parse_bool v)"

definition boolean_setting :: "PolicySetting list \<Rightarrow> string \<Rightarrow> bool \<Rightarrow> bool" where
  "boolean_setting settings key d = unwrap_or (configured_boolean settings key) d"

definition configured_string :: "PolicySetting list \<Rightarrow> string \<Rightarrow> string option" where
  "configured_string settings key = configured_value TString settings key"

definition configured_preference :: "PolicySetting list \<Rightarrow> string \<Rightarrow> PreferenceOption option" where
  "configured_preference settings key =
     map_option parse_preference (configured_value TPreferenceOption settings key)"

definition configured_duration :: "PolicySetting list \<Rightarrow> string \<Rightarrow> int option" where
  "configured_duration settings key =
     (case configured_value TDuration settings key of
        None \<Rightarrow> None
      | Some v \<Rightarrow> (case parse_go_duration v of Inl _ \<Rightarrow> None | Inr d \<Rightarrow> Some d))"

definition reconnect_after_in :: "PolicySetting list \<Rightarrow> nat option" where
  "reconnect_after_in settings =
     (case configured_duration settings PKEY_RECONNECT_AFTER of
        None \<Rightarrow> None
      | Some ns \<Rightarrow> if 0 < ns then Some (nat ns) else None)"

record AlwaysOnKeys =
  aok_enabled :: "bool option"
  aok_override_with_reason :: "bool option"

definition always_on_keys_in :: "PolicySetting list \<Rightarrow> AlwaysOnKeys" where
  "always_on_keys_in settings =
     \<lparr>aok_enabled = configured_boolean settings PKEY_ALWAYS_ON,
      aok_override_with_reason = configured_boolean settings PKEY_ALWAYS_ON_OVERRIDE_WITH_REASON\<rparr>"

section \<open>The JSON policy store\<close>

definition go_type_name :: "jvalue \<Rightarrow> string" where
  "go_type_name v = (case v of
       JNull \<Rightarrow> ''<nil>''
     | JBool _ \<Rightarrow> ''bool''
     | JNumber _ \<Rightarrow> ''json.Number''
     | JString _ \<Rightarrow> ''string''
     | JArray _ \<Rightarrow> ''[]interface {}''
     | JObject _ \<Rightarrow> ''map[string]interface {}'')"

definition parse_json_store :: "(string \<Rightarrow> (string, jvalue) result) \<Rightarrow> string \<Rightarrow> (string, json_store) result" where
  "parse_json_store json_of_bytes bytes =
     (case json_of_bytes bytes of
        Inl e \<Rightarrow> Inl (''syspolicy: parsing JSON: '' @ e)
      | Inr (JObject m) \<Rightarrow> Inr m
      | Inr JNull \<Rightarrow> Inr []
      | Inr other \<Rightarrow> Inl (''syspolicy: parsing JSON: cannot unmarshal '' @ go_type_name other @
                           '' into a policy object''))"

definition type_mismatch :: "string \<Rightarrow> jvalue \<Rightarrow> ValueType \<Rightarrow> string" where
  "type_mismatch key v ty =
     ''type mismatch: '' @ debug_str key @ '' is '' @ go_type_name v @ '', want '' @ wanted_json_type ty"

definition as_string :: "jvalue \<Rightarrow> string \<Rightarrow> (string, string) result" where
  "as_string v key = (case v of JString s \<Rightarrow> Inr s | _ \<Rightarrow> Inl (type_mismatch key v TString))"

definition as_str_opt :: "jvalue \<Rightarrow> string option" where
  "as_str_opt v = (case v of JString s \<Rightarrow> Some s | _ \<Rightarrow> None)"

text \<open>The element loop of the string-list reader; \<open>i\<close> is the index it reports.\<close>

fun read_list_items :: "string \<Rightarrow> nat \<Rightarrow> jvalue list \<Rightarrow> (string, string list) result" where
  "read_list_items key i [] = Inr []"
| "read_list_items key i (x # xs) =
     (case as_str_opt x of
        Some s \<Rightarrow> rbind (read_list_items key (i + 1) xs) (\<lambda>r. Inr (s # r))
      | None \<Rightarrow> Inl (''type mismatch: '' @ debug_str key @ ''['' @ dec_string i @ ''] is '' @
                     go_type_name x @ '', want string''))"

definition read_value :: "jvalue \<Rightarrow> string \<Rightarrow> ValueType \<Rightarrow> (string, string) result" where
  "read_value v key ty =
     (case ty of
        TBoolean \<Rightarrow> (case v of JBool b \<Rightarrow> Inr (if b then ''true'' else ''false'')
                               | _ \<Rightarrow> Inl (type_mismatch key v ty))
      | TString \<Rightarrow> as_string v key
      | TStringList \<Rightarrow>
          (case v of
             JArray items \<Rightarrow> rbind (read_list_items key 0 items) (\<lambda>xs. Inr (''['' @ join '' '' xs @ '']''))
           | _ \<Rightarrow> Inl (type_mismatch key v ty))
      | TPreferenceOption \<Rightarrow>
          rbind (as_string v key) (\<lambda>s. Inr (if s = ''always'' then ''always''
                                            else if s = ''never'' then ''never'' else ''user-decides''))
      | TVisibility \<Rightarrow> rbind (as_string v key) (\<lambda>s. Inr (if s = ''hide'' then ''hide'' else ''show''))
      | TDuration \<Rightarrow>
          rbind (as_string v key) (\<lambda>s.
            case parse_go_duration s of Inl e \<Rightarrow> Inl (dur_error_text e) | Inr d \<Rightarrow> Inr (format_go_duration d)))"

definition validate_enum ::
  "jvalue \<Rightarrow> string \<Rightarrow> string list \<Rightarrow> string \<Rightarrow> string \<Rightarrow> (string, unit) result" where
  "validate_enum v key allowed type_name allowed_text =
     rbind (as_string v key) (\<lambda>s.
       if s \<in> set allowed then Inr ()
       else Inl (''type mismatch: '' @ debug_str s @ '' is not a valid '' @ type_name @ '' '' @ allowed_text))"

definition dq :: "string \<Rightarrow> string" where
  "dq s = [char_of (34::nat)] @ s @ [char_of (34::nat)]"

definition validate_one :: "string \<Rightarrow> jvalue \<Rightarrow> string option" where
  "validate_one key v =
     (case definition_of key of
        None \<Rightarrow> Some (''unknown policy setting '' @ debug_str key)
      | Some (_, ty) \<Rightarrow>
          (case (case ty of
                   TPreferenceOption \<Rightarrow>
                     validate_enum v key [''always'', ''never'', ''user-decides''] ''PreferenceOption''
                       (''('' @ dq ''always'' @ '', '' @ dq ''never'' @ '', or '' @ dq ''user-decides'' @ '')'')
                 | TVisibility \<Rightarrow>
                     validate_enum v key [''show'', ''hide''] ''Visibility''
                       (''('' @ dq ''show'' @ '' or '' @ dq ''hide'' @ '')'')
                 | _ \<Rightarrow> rbind (read_value v key ty) (\<lambda>_. Inr ())) of
             Inl problem \<Rightarrow> Some (debug_str key @ '': '' @ problem)
           | Inr _ \<Rightarrow> None))"

definition validate :: "json_store \<Rightarrow> (string, unit) result" where
  "validate store =
     (let problems = List.map_filter (\<lambda>(k, v). validate_one k v) store in
      if problems = [] then Inr () else Inl (join [char_of (10::nat)] problems))"

record PolicySource =
  src_settings :: "PolicySetting list"
  src_string_lists :: "(string \<times> string list) list"
  src_auth_key :: "string option"

definition read_row :: "string \<Rightarrow> json_store \<Rightarrow> string \<times> ValueType \<Rightarrow> PolicySetting option" where
  "read_row origin store d =
     (case bt_get store (fst d) of
        None \<Rightarrow> None
      | Some v \<Rightarrow>
          (case read_value v (fst d) (snd d) of
             Inr rendered \<Rightarrow>
               Some \<lparr>ps_key = fst d, ps_origin = origin,
                     ps_value = Some (if fst d = PKEY_AUTH_KEY then REDACTED else rendered), ps_error = None\<rparr>
           | Inl e \<Rightarrow> Some \<lparr>ps_key = fst d, ps_origin = origin, ps_value = None, ps_error = Some e\<rparr>))"

definition read_settings :: "json_store \<Rightarrow> string \<Rightarrow> PolicySetting list" where
  "read_settings store source_name =
     List.map_filter (read_row (source_name @ '' ('' @ DEVICE_SCOPE @ '')'') store) DEFINITIONS"

definition read_auth_key :: "json_store \<Rightarrow> string option" where
  "read_auth_key store =
     (case bt_get store PKEY_AUTH_KEY of None \<Rightarrow> None | Some v \<Rightarrow> as_str_opt v)"

text \<open>\<open>collect::<Option<Vec<_>>>\<close>.\<close>

fun collect_options :: "'a option list \<Rightarrow> 'a list option" where
  "collect_options [] = Some []"
| "collect_options (x # xs) =
     (case x of None \<Rightarrow> None | Some a \<Rightarrow> map_option ((#) a) (collect_options xs))"

definition read_string_lists :: "json_store \<Rightarrow> (string \<times> string list) list" where
  "read_string_lists store =
     fold (\<lambda>d out.
             case bt_get store (fst d) of
               Some (JArray items) \<Rightarrow>
                 (case collect_options (map as_str_opt items) of
                    Some values \<Rightarrow> bt_insert (fst d) values out
                  | None \<Rightarrow> out)
             | _ \<Rightarrow> out)
       (filter (\<lambda>d. snd d = TStringList) DEFINITIONS) []"

definition read_source :: "json_store \<Rightarrow> string \<Rightarrow> PolicySource" where
  "read_source store source_name =
     \<lparr>src_settings = read_settings store source_name,
      src_string_lists = read_string_lists store,
      src_auth_key = read_auth_key store\<rparr>"

section \<open>The registry\<close>

definition merge_sources :: "PolicySource list \<Rightarrow> PolicySetting list" where
  "merge_sources sources =
     map snd (fold (\<lambda>src m. fold (\<lambda>s m. bt_insert (ps_key s) s m) (src_settings src) m) sources [])"

record policy_registry =
  registered :: "PolicySource list"
  last_published :: "PolicySetting list"
  policy_ticks :: nat

definition registered_store_settings :: "policy_registry \<Rightarrow> PolicySetting list" where
  "registered_store_settings reg = merge_sources (registered reg)"

definition reload_and_publish :: "policy_registry \<Rightarrow> PolicySetting list \<times> policy_registry" where
  "reload_and_publish reg =
     (let new = registered_store_settings reg in
      (new, if last_published reg \<noteq> new
            then reg\<lparr>last_published := new, policy_ticks := policy_ticks reg + 1\<rparr>
            else reg))"

datatype LoadOutcome = NoFile | Registered nat

definition load_json_policy_file ::
  "(string \<Rightarrow> (string, jvalue) result) \<Rightarrow> string \<Rightarrow> string \<Rightarrow> string + string option \<Rightarrow> policy_registry \<Rightarrow>
     (string, LoadOutcome) result \<times> policy_registry" where
  "load_json_policy_file json_of_bytes source_name path data reg =
     (case data of
        Inr None \<Rightarrow> (Inr NoFile, reg)
      | Inl e \<Rightarrow> (Inl (''syspolicy: loading '' @ path @ '': '' @ e), reg)
      | Inr (Some bytes) \<Rightarrow>
          (case parse_json_store json_of_bytes bytes of
             Inl e \<Rightarrow> (Inl (''syspolicy: loading '' @ path @ '': '' @ e), reg)
           | Inr store \<Rightarrow>
               (case validate store of
                  Inl problems \<Rightarrow>
                    (Inl (''syspolicy: invalid '' @ path @ '':'' @ [char_of (10::nat)] @ problems), reg)
                | Inr _ \<Rightarrow>
                    (let source = read_source store source_name;
                         reg1 = reg\<lparr>registered := registered reg @ [source]\<rparr>
                     in (Inr (Registered (length (src_settings source))),
                         snd (reload_and_publish reg1))))))"

section \<open>Lemmas\<close>

lemma definition_of_key: "definition_of k = Some d \<Longrightarrow> fst d = k \<and> d \<in> set DEFINITIONS"
  by (auto simp: definition_of_def find_Some_iff)

lemma definitions_distinct: "distinct (map fst DEFINITIONS)"
  by (simp add: DEFINITIONS_def pkey_defs)

lemma definition_of_in:
  assumes "d \<in> set DEFINITIONS"
  shows "definition_of (fst d) = Some d"
proof (cases "definition_of (fst d)")
  case None
  with assms show ?thesis unfolding definition_of_def find_None_iff by blast
next
  case (Some e)
  then have "fst e = fst d" "e \<in> set DEFINITIONS" using definition_of_key by blast+
  moreover have "inj_on fst (set DEFINITIONS)" using definitions_distinct by (simp add: distinct_map)
  ultimately have "e = d" using assms by (simp add: inj_on_def)
  with Some show ?thesis by simp
qed

lemma read_row_key: "read_row org store d = Some r \<Longrightarrow> ps_key r = fst d \<and> ps_origin r = org"
  by (auto simp: read_row_def split: option.splits sum.splits)

lemma in_read_settings:
  "r \<in> set (read_settings store name) \<longleftrightarrow>
     (\<exists>d \<in> set DEFINITIONS. read_row (name @ '' ('' @ DEVICE_SCOPE @ '')'') store d = Some r)"
  by (simp add: read_settings_def in_map_filter)

lemma validate_enum_string: "is_ok (validate_enum v k allowed tn atext) \<Longrightarrow> is_ok (as_string v k)"
  by (cases "as_string v k") (simp_all add: validate_enum_def)

lemma read_enum_ok:
  "is_ok (as_string v k) \<Longrightarrow> is_ok (read_value v k TPreferenceOption)"
  "is_ok (as_string v k) \<Longrightarrow> is_ok (read_value v k TVisibility)"
  by (cases "as_string v k"; simp add: read_value_def)+

lemma rbind_unit_ok [simp]: "is_ok (rbind r (\<lambda>_. Inr ())) \<longleftrightarrow> is_ok r"
  by (cases r) simp_all

lemma validate_one_read_ok:
  assumes "validate_one k v = None" "definition_of k = Some (k', ty)"
  shows "is_ok (read_value v k ty)"
proof -
  have case_ok: "(case r of Inl p \<Rightarrow> Some (f p) | Inr _ \<Rightarrow> None) = None \<longleftrightarrow> is_ok r"
    for r :: "(string, unit) result" and f :: "string \<Rightarrow> string" by (cases r) simp_all
  show ?thesis
    using assms
    by (cases ty; simp only: validate_one_def option.case prod.case ValueType.case case_ok rbind_unit_ok)
       (blast intro: read_enum_ok validate_enum_string)+
qed

lemma validate_ok_iff: "validate store = Inr () \<longleftrightarrow> (\<forall>(k, v) \<in> set store. validate_one k v = None)"
proof -
  have "List.map_filter (\<lambda>(k, v). validate_one k v) store = [] \<longleftrightarrow>
        (\<forall>(k, v) \<in> set store. validate_one k v = None)"
    by (induction store) (auto simp: List.map_filter_simps split: option.splits)
  then show ?thesis by (simp add: validate_def Let_def)
qed

text \<open>The rows of one source have distinct keys, in the order of the table.\<close>

lemma read_settings_keys:
  "map ps_key (read_settings store name) = filter (\<lambda>k. bt_get store k \<noteq> None) (map fst DEFINITIONS)"
proof -
  have "map ps_key (List.map_filter (read_row org store) ds) =
        filter (\<lambda>k. bt_get store k \<noteq> None) (map fst ds)" for org ds
    by (induction ds)
       (auto simp: List.map_filter_simps read_row_def split: option.splits sum.splits)
  then show ?thesis by (simp only: read_settings_def)
qed

lemma find_read_settings:
  assumes "d \<in> set DEFINITIONS"
  shows "find (\<lambda>r. ps_key r = fst d) (read_settings store name) =
         read_row (name @ '' ('' @ DEVICE_SCOPE @ '')'') store d"
proof -
  have gen: "find (\<lambda>r. ps_key r = fst d) (List.map_filter (read_row org store) ds) = read_row org store d"
    if "d \<in> set ds" "distinct (map fst ds)" for org and ds :: "(string \<times> ValueType) list"
    using that
  proof (induction ds)
    case (Cons e ds)
    show ?case
    proof (cases "e = d")
      case True
      then show ?thesis
        using Cons.prems(2) read_row_key
        by (auto simp: List.map_filter_simps find_None_iff in_map_filter split: option.splits)
           (metis fst_conv image_iff)
    next
      case False
      with Cons.prems have "fst e \<noteq> fst d" "d \<in> set ds" by (auto simp: rev_image_eqI)
      with Cons read_row_key [of org store e] show ?thesis
        by (auto simp: List.map_filter_simps split: option.splits)
    qed
  qed simp
  show ?thesis unfolding read_settings_def by (rule gen [OF assms definitions_distinct])
qed

lemma configured_value_read:
  assumes "definition_of k = Some (k', ty)"
  shows "configured_value ty (read_settings store name) k =
     (case bt_get store k of
        None \<Rightarrow> None
      | Some v \<Rightarrow> (case read_value v k ty of
                    Inl _ \<Rightarrow> None | Inr t \<Rightarrow> Some (if k = PKEY_AUTH_KEY then REDACTED else t)))"
proof -
  have d: "(k, ty) \<in> set DEFINITIONS" using definition_of_key [OF assms] assms by auto
  show ?thesis
    using find_read_settings [OF d, of store name] assms
    by (auto simp: configured_value_def read_row_def split: option.splits sum.splits)
qed

section \<open>Properties\<close>

text \<open>
  The credential never reaches the report: the rows a store is reported as are the same whatever
  string the \<open>AuthKey\<close> of the document is, so no reader of the rows (the policy listing, a watch
  frame, the policy application) learns anything of it.
\<close>

theorem policy_auth_key_redacted:
  assumes "bt_wf store"
  shows "read_settings (bt_insert PKEY_AUTH_KEY (JString k1) store) name =
         read_settings (bt_insert PKEY_AUTH_KEY (JString k2) store) name"
proof -
  have "read_row org (bt_insert PKEY_AUTH_KEY (JString k1) store) d =
        read_row org (bt_insert PKEY_AUTH_KEY (JString k2) store) d"
    if "d \<in> set DEFINITIONS" for org d
  proof (cases "fst d = PKEY_AUTH_KEY")
    case True
    have "(PKEY_AUTH_KEY, TString) \<in> set DEFINITIONS" by (simp add: DEFINITIONS_def)
    with True that have "snd d = TString"
      using definition_of_in [OF that] definition_of_in [of "(PKEY_AUTH_KEY, TString)"] by simp
    with True show ?thesis
      using assms by (simp add: read_row_def bt.get_ins_same read_value_def as_string_def)
  next
    case False
    then show ?thesis using assms by (simp add: read_row_def bt.get_ins_other)
  qed
  then show ?thesis
    unfolding read_settings_def List.map_filter_def by (simp cong: map_cong filter_cong)
qed

theorem policy_auth_key_redacted_witness:
  "read_settings (bt_insert PKEY_AUTH_KEY (JString ''tskey-a'') [(''Hostname'', JString ''h'')]) ''JSONFile'' =
   read_settings (bt_insert PKEY_AUTH_KEY (JString ''tskey-b'') [(''Hostname'', JString ''h'')]) ''JSONFile''"
  by (rule policy_auth_key_redacted) (simp add: bt_wf_def)

lemma validated_policy_reads_parts:
  assumes "bt_wf store" "validate store = Inr ()"
  shows "set (map ps_key (read_settings store name)) = {k. bt_get store k \<noteq> None}"
    and "\<forall>r \<in> set (read_settings store name). ps_value r \<noteq> None \<and> ps_error r = None"
proof -
  have ok: "validate_one k v = None" if "bt_get store k = Some v" for k v
  proof -
    have "(k, v) \<in> set store" using that bt.in_iter_iff [OF assms(1), of k v] by simp
    with assms(2) show ?thesis by (auto simp: validate_ok_iff)
  qed
  have "k \<in> set (map fst DEFINITIONS)" if "bt_get store k \<noteq> None" for k
  proof -
    from that ok obtain v where "validate_one k v = None" by blast
    then obtain d where "definition_of k = Some d" by (cases "definition_of k") (auto simp: validate_one_def)
    then have "fst d = k" "d \<in> set DEFINITIONS" using definition_of_key by blast+
    then show ?thesis by (simp only: set_map) (rule image_eqI [of _ _ d], simp_all)
  qed
  then show "set (map ps_key (read_settings store name)) = {k. bt_get store k \<noteq> None}"
    by (auto simp only: read_settings_keys set_filter)
  show "\<forall>r \<in> set (read_settings store name). ps_value r \<noteq> None \<and> ps_error r = None"
  proof
    fix r assume "r \<in> set (read_settings store name)"
    then obtain d where d: "d \<in> set DEFINITIONS"
      and r: "read_row (name @ '' ('' @ DEVICE_SCOPE @ '')'') store d = Some r"
      by (auto simp: in_read_settings)
    then obtain v where v: "bt_get store (fst d) = Some v"
      by (auto simp: read_row_def split: option.splits)
    have "is_ok (read_value v (fst d) (snd d))"
      using validate_one_read_ok [OF ok [OF v], of "fst d" "snd d"] definition_of_in [OF d] by simp
    with r v show "ps_value r \<noteq> None \<and> ps_error r = None"
      by (auto simp: read_row_def is_ok_iff)
  qed
qed

text \<open>
  Validation is strong enough for every reader: a document that validates is read into exactly
  one row per key it configures, and every row holds a value and no error.
\<close>

theorem validated_policy_reads:
  assumes "bt_wf store" "validate store = Inr ()"
  shows "(set (map ps_key (read_settings store name)) = {k. bt_get store k \<noteq> None}) \<and>
    (\<forall>r \<in> set (read_settings store name). ps_value r \<noteq> None \<and> ps_error r = None)"
  by (rule conjI, rule validated_policy_reads_parts(1) [OF assms],
      rule validated_policy_reads_parts(2) [OF assms])

theorem validated_policy_reads_witness:
  "list_all (\<lambda>r. ps_value r \<noteq> None \<and> ps_error r = None)
     (read_settings [(''Hostname'', JString ''h''), (''TestMenu'', JString ''hide'')] ''JSONFile'')"
  unfolding list_all_iff by (rule validated_policy_reads [THEN conjunct2]) (code_simp, code_simp)

text \<open>
  A duration in the policy file means what it says: the file's text is parsed once, rendered
  into the row and parsed again by the consumer, and the consumer gets the first value. A
  \<open>ReconnectAfter\<close> bound is reported exactly when that value is positive.
\<close>

theorem policy_duration_exact:
  assumes "bt_get store PKEY_RECONNECT_AFTER = Some (JString text)" "parse_go_duration text = Inr d"
  shows "configured_duration (read_settings store name) PKEY_RECONNECT_AFTER = Some d \<and>
         reconnect_after_in (read_settings store name) = (if 0 < d then Some (nat d) else None)"
proof -
  have def: "definition_of PKEY_RECONNECT_AFTER = Some (PKEY_RECONNECT_AFTER, TDuration)"
    using definition_of_in [of "(PKEY_RECONNECT_AFTER, TDuration)"] by (simp add: DEFINITIONS_def)
  have "PKEY_RECONNECT_AFTER \<noteq> PKEY_AUTH_KEY" by (simp add: pkey_defs)
  then have "configured_value TDuration (read_settings store name) PKEY_RECONNECT_AFTER =
      Some (format_go_duration d)"
    using assms by (simp add: configured_value_read [OF def] read_value_def as_string_def)
  moreover have "parse_go_duration (format_go_duration d) = Inr d"
    using parse_go_duration_in_i64 [OF assms(2)] by (simp add: parse_format_i64)
  ultimately show ?thesis by (simp add: configured_duration_def reconnect_after_in_def)
qed

lemma parse_0_duration: "parse_go_duration ''0'' = Inr 0"
  by (simp add: parse_go_duration_def split_sign_def)

theorem policy_duration_exact_witness:
  "reconnect_after_in (read_settings [(PKEY_RECONNECT_AFTER, JString ''0'')] ''JSONFile'') = None"
  using policy_duration_exact [of "[(PKEY_RECONNECT_AFTER, JString ''0'')]" "''0''" 0 "''JSONFile''"]
  by (simp add: bt_get_def parse_0_duration)

text \<open>The merged rows: the last registration wins, one row per key, sorted by key.\<close>

definition all_rows :: "PolicySource list \<Rightarrow> PolicySetting list" where
  "all_rows sources = concat (map src_settings sources)"

lemma merge_sources_fold:
  "merge_sources sources =
     map snd (fold (\<lambda>(k, v). bt_insert k v) (map (\<lambda>s. (ps_key s, s)) (all_rows sources)) [])"
proof -
  have one: "fold (\<lambda>s m. bt_insert (ps_key s) s m) rows m =
        fold (\<lambda>(k, v). bt_insert k v) (map (\<lambda>s. (ps_key s, s)) rows) m" for rows m
    by (induction rows arbitrary: m) simp_all
  have "fold (\<lambda>src m. fold (\<lambda>s m. bt_insert (ps_key s) s m) (src_settings src) m) sources m =
        fold (\<lambda>(k, v). bt_insert k v) (map (\<lambda>s. (ps_key s, s)) (all_rows sources)) m" for m
    by (induction sources arbitrary: m) (simp_all add: all_rows_def one)
  then show ?thesis by (simp add: merge_sources_def)
qed

lemma map_of_keyed: "map_of (map (\<lambda>s. (ps_key s, s)) rows) k = find (\<lambda>s. ps_key s = k) rows"
  by (induction rows) auto

lemma find_values:
  assumes "\<forall>(k, v) \<in> set m. ps_key v = k"
  shows "find (\<lambda>s. ps_key s = k) (map snd m) = map_of m k"
  using assms by (induction m) auto

text \<open>
  Layering: in the effective policy the row of a key is the last row any registered source has
  for it, later sources over earlier ones, and the report is strictly sorted by key, so no key
  appears twice.
\<close>

theorem policy_merge_last_wins:
  "find (\<lambda>s. ps_key s = k) (merge_sources sources) =
     find (\<lambda>s. ps_key s = k) (rev (concat (map src_settings sources))) \<and>
   sorted_wrt (<) (map ps_key (merge_sources sources))"
proof -
  let ?es = "map (\<lambda>s. (ps_key s, s)) (all_rows sources)"
  define m where "m = fold (\<lambda>(k, v). bt_insert k v) ?es []"
  have wf: "bt_wf m" unfolding m_def by (rule bt.wf_fold_ins) simp
  have get: "map_of m = map_of (rev ?es)"
    using bt.get_fold_ins [OF bt_wf_Nil, of ?es] unfolding m_def [symmetric]
    by (simp add: bt_get_def fun_eq_iff map_add_def split: option.splits)
  have keyed: "ps_key v = k" if "(k, v) \<in> set m" for k v
  proof -
    have "map_of m k = Some v" using bt.in_iter_iff [OF wf, of k v] that by (simp add: bt_get_def)
    then show ?thesis using get by (auto dest: map_of_SomeD)
  qed
  then have "find (\<lambda>s. ps_key s = k) (map snd m) = map_of m k" by (intro find_values) auto
  moreover have "map ps_key (map snd m) = map fst m" using keyed by auto
  then have "sorted_wrt (<) (map ps_key (map snd m))" using wf by (simp only: bt_wf_def)
  moreover have "merge_sources sources = map snd m" by (simp add: merge_sources_fold m_def)
  ultimately show ?thesis
    using get by (simp only: all_rows_def rev_map map_of_keyed)
qed

lemma load_policy_all_or_nothing_parts:
  assumes "load_json_policy_file json name path bytes reg = (r, reg')"
    and "last_published reg = registered_store_settings reg"
  shows "\<not> is_ok r \<or> r = Inr NoFile \<Longrightarrow> reg' = reg"
    and "r = Inr (Registered n) \<Longrightarrow>
           \<exists>src. registered reg' = registered reg @ [src] \<and> length (src_settings src) = n"
    and "last_published reg' = registered_store_settings reg'"
    and "policy_ticks reg' = policy_ticks reg +
           (if registered_store_settings reg' = registered_store_settings reg then 0 else 1)"
  using assms
  by (auto simp: load_json_policy_file_def reload_and_publish_def registered_store_settings_def Let_def
      split: sum.splits option.splits if_splits)

text \<open>
  Loading a policy file is all or nothing: an error (unreadable, malformed or invalid) leaves the
  registry exactly as it was; a success adds one source; and the watchers are ticked at most once, and
  only when the effective policy moved, after which the published snapshot is the effective policy.
\<close>

theorem load_policy_all_or_nothing:
  assumes "load_json_policy_file json name path bytes reg = (r, reg')"
    and "last_published reg = registered_store_settings reg"
  shows "((\<not> is_ok r \<or> r = Inr NoFile) \<longrightarrow>
     reg' = reg) \<and>
    (r = Inr (Registered n) \<longrightarrow>
     (\<exists>src. registered reg' = registered reg @ [src] \<and> length (src_settings src) = n)) \<and>
    (last_published reg' = registered_store_settings reg') \<and>
    (policy_ticks reg' = policy_ticks reg +
           (if registered_store_settings reg' = registered_store_settings reg then 0 else 1))"
  by (rule conjI, rule impI, erule load_policy_all_or_nothing_parts(1) [OF assms],
      rule conjI, rule impI, erule load_policy_all_or_nothing_parts(2) [OF assms],
      rule conjI, rule load_policy_all_or_nothing_parts(3) [OF assms],
      rule load_policy_all_or_nothing_parts(4) [OF assms])

theorem load_policy_all_or_nothing_witness:
  "let reg = \<lparr>registered = [], last_published = [], policy_ticks = 0\<rparr>;
       res = load_json_policy_file (\<lambda>_. Inr (JBool True)) ''JSONFile'' ''p'' (Inr (Some ''true'')) reg
   in \<not> is_ok (fst res) \<and> snd res = reg"
proof -
  let ?reg = "\<lparr>registered = [], last_published = [], policy_ticks = 0\<rparr>"
  obtain r reg' where r: "load_json_policy_file (\<lambda>_. Inr (JBool True)) ''JSONFile'' ''p'' (Inr (Some ''true'')) ?reg = (r, reg')"
    by fastforce
  then have "\<not> is_ok r" by (auto simp: load_json_policy_file_def parse_json_store_def)
  with load_policy_all_or_nothing [OF r, THEN conjunct1, rule_format] r show ?thesis
    by (simp add: registered_store_settings_def merge_sources_def)
qed

end
