(* ===== verification/PolicyApply.thy ===== *)
theory PolicyApply
  imports SysPolicy
begin

text \<open>
  The second half of \<open>src/src/ipn/syspolicy.rs\<close>: the policy auth key, the allow-list of suggested
  exit nodes, and \<open>apply_settings_to_prefs\<close>, which pulls the preferences to what the policy demands
  and reports what it changed and what it could not honour. The application is interpreted as a
  \<open>reconciler\<close>: it is idempotent, so the daemon may run it at every reconcile point.
\<close>

section \<open>Readers over the sources\<close>

fun find_map :: "('a \<Rightarrow> 'b option) \<Rightarrow> 'a list \<Rightarrow> 'b option" where
  "find_map f [] = None"
| "find_map f (x # xs) = (case f x of Some b \<Rightarrow> Some b | None \<Rightarrow> find_map f xs)"

definition configured_string_list :: "PolicySource list \<Rightarrow> string \<Rightarrow> string list option" where
  "configured_string_list sources key = find_map (\<lambda>s. bt_get (src_string_lists s) key) (rev sources)"

definition allowed_suggestions_in :: "PolicySource list \<Rightarrow> string set option" where
  "allowed_suggestions_in sources =
     map_option set (configured_string_list sources PKEY_ALLOWED_SUGGESTED_EXIT_NODES)"

definition configured_auth_key :: "PolicySource list \<Rightarrow> string option" where
  "configured_auth_key sources = find_map src_auth_key (rev sources)"

record AuthKeyGate =
  gate_running :: bool
  gate_needs_login :: bool
  gate_enrolled :: bool
  gate_config_in_use :: bool

datatype skip_reason = AlreadyRunning | ConfigInUse | AlreadyEnrolled

datatype AuthKeyDecision = NotConfigured | Use string | Skipped skip_reason

definition auth_key_in :: "PolicySource list \<Rightarrow> AuthKeyGate \<Rightarrow> AuthKeyDecision" where
  "auth_key_in sources gate =
     (case configured_auth_key sources of
        None \<Rightarrow> NotConfigured
      | Some configured \<Rightarrow>
          (let key = trim configured in
           if key = [] then NotConfigured
           else if gate_running gate then Skipped AlreadyRunning
           else if gate_config_in_use gate then Skipped ConfigInUse
           else if gate_enrolled gate \<and> \<not> gate_needs_login gate then Skipped AlreadyEnrolled
           else Use key))"

section \<open>Applying the policy to the preferences\<close>

definition bool_text :: "bool \<Rightarrow> string" where
  "bool_text b = (if b then ''true'' else ''false'')"

record PreferencePolicy =
  pp_key :: string
  pp_pref :: string
  pp_get :: "prefs \<Rightarrow> bool"
  pp_set :: "prefs \<Rightarrow> bool \<Rightarrow> prefs \<times> string"

text \<open>The rows of \<open>PREFERENCE_POLICIES\<close>; the first one inverts in both directions.\<close>

definition pp_incoming :: PreferencePolicy where
  "pp_incoming =
     \<lparr>pp_key = ''AllowIncomingConnections'', pp_pref = ''shields_up'',
      pp_get = (\<lambda>p. \<not> shields_up p),
      pp_set = (\<lambda>p v. (p\<lparr>shields_up := \<not> v\<rparr>, bool_text (\<not> v)))\<rparr>"

definition pp_lan_access :: PreferencePolicy where
  "pp_lan_access =
     \<lparr>pp_key = ''ExitNodeAllowLANAccess'', pp_pref = ''exit_node_allow_lan_access'',
      pp_get = exit_node_allow_lan_access,
      pp_set = (\<lambda>p v. (p\<lparr>exit_node_allow_lan_access := v\<rparr>, bool_text v))\<rparr>"

definition pp_dns :: PreferencePolicy where
  "pp_dns =
     \<lparr>pp_key = ''UseTailscaleDNSSettings'', pp_pref = ''accept_dns'',
      pp_get = accept_dns,
      pp_set = (\<lambda>p v. (p\<lparr>accept_dns := v\<rparr>, bool_text v))\<rparr>"

definition pp_subnets :: PreferencePolicy where
  "pp_subnets =
     \<lparr>pp_key = ''UseTailscaleSubnets'', pp_pref = ''accept_routes'',
      pp_get = accept_routes,
      pp_set = (\<lambda>p v. (p\<lparr>accept_routes := v\<rparr>, bool_text v))\<rparr>"

definition pp_check_updates :: PreferencePolicy where
  "pp_check_updates =
     \<lparr>pp_key = ''CheckUpdates'', pp_pref = ''auto_update_check'',
      pp_get = auto_update_check,
      pp_set = (\<lambda>p v. (p\<lparr>auto_update_check := v\<rparr>, bool_text v))\<rparr>"

definition pp_install_updates :: PreferencePolicy where
  "pp_install_updates =
     \<lparr>pp_key = ''InstallUpdates'', pp_pref = ''auto_update_apply'',
      pp_get = (\<lambda>p. unwrap_or (auto_update_apply p) False),
      pp_set = (\<lambda>p v. (p\<lparr>auto_update_apply := Some v\<rparr>, bool_text v))\<rparr>"

definition pp_advertise_exit :: PreferencePolicy where
  "pp_advertise_exit =
     \<lparr>pp_key = ''AdvertiseExitNode'', pp_pref = ''advertise_exit_node'',
      pp_get = advertise_exit_node,
      pp_set = (\<lambda>p v. (p\<lparr>advertise_exit_node := v\<rparr>, bool_text v))\<rparr>"

definition PREFERENCE_POLICIES :: "PreferencePolicy list" where
  "PREFERENCE_POLICIES =
     [pp_incoming, pp_lan_access, pp_dns, pp_subnets,
      pp_check_updates, pp_install_updates, pp_advertise_exit]"

lemmas pp_defs = pp_incoming_def pp_lan_access_def pp_dns_def pp_subnets_def pp_check_updates_def pp_install_updates_def pp_advertise_exit_def

record PolicyChange =
  pc_key :: string
  pc_pref :: string
  pc_value :: string

text \<open>The reason of a refusal, by the site it is raised at; the texts carry no further data.\<close>

datatype refusal_reason = AutoExitNodeId string | StableNodeId string | NotAnIp string | NoUserSession

record PolicyRefusal =
  pr_key :: string
  pr_reason :: refusal_reason

record PolicyApplication =
  changed :: "PolicyChange list"
  refused :: "PolicyRefusal list"

definition is_quiet :: "PolicyApplication \<Rightarrow> bool" where
  "is_quiet a = (changed a = [] \<and> refused a = [])"

record PolicyOverrides =
  ov_always_on :: bool
  ov_exit_node :: bool

type_synonym apply_state = "prefs \<times> PolicyApplication"

definition push_change :: "string \<Rightarrow> string \<Rightarrow> string \<Rightarrow> PolicyApplication \<Rightarrow> PolicyApplication" where
  "push_change k pref v out =
     out\<lparr>changed := changed out @ [\<lparr>pc_key = k, pc_pref = pref, pc_value = v\<rparr>]\<rparr>"

definition push_refusal :: "string \<Rightarrow> refusal_reason \<Rightarrow> PolicyApplication \<Rightarrow> PolicyApplication" where
  "push_refusal k r out = out\<lparr>refused := refused out @ [\<lparr>pr_key = k, pr_reason = r\<rparr>]\<rparr>"

definition non_empty :: "string option \<Rightarrow> string option" where
  "non_empty x = (case x of Some s \<Rightarrow> if s = [] then None else Some s | None \<Rightarrow> None)"

definition apply_login_url :: "PolicySetting list \<Rightarrow> apply_state \<Rightarrow> apply_state" where
  "apply_login_url settings st =
     (case st of (p, out) \<Rightarrow>
        (case configured_string settings ''LoginURL'' of
           None \<Rightarrow> (p, out)
         | Some url \<Rightarrow>
             (let want = (if url = [] then None else Some url) in
              if control_url p \<noteq> want
              then (p\<lparr>control_url := want\<rparr>, push_change ''LoginURL'' ''control_url'' (unwrap_or want []) out)
              else (p, out))))"

definition apply_hostname :: "PolicySetting list \<Rightarrow> apply_state \<Rightarrow> apply_state" where
  "apply_hostname settings st =
     (case st of (p, out) \<Rightarrow>
        (case configured_string settings ''Hostname'' of
           None \<Rightarrow> (p, out)
         | Some h \<Rightarrow>
             (let want = (if h = [] then None else Some h) in
              if hostname p \<noteq> want
              then (p\<lparr>hostname := want\<rparr>, push_change ''Hostname'' ''hostname'' (unwrap_or want []) out)
              else (p, out))))"

definition apply_exit_node_policy :: "PolicySetting list \<Rightarrow> bool \<Rightarrow> apply_state \<Rightarrow> apply_state" where
  "apply_exit_node_policy settings override st =
     (case st of (p, out) \<Rightarrow>
        (case non_empty (configured_string settings PKEY_EXIT_NODE_ID) of
           Some nid \<Rightarrow>
             (p, push_refusal PKEY_EXIT_NODE_ID
                   (if starts_with nid ''auto:'' then AutoExitNodeId nid else StableNodeId nid) out)
         | None \<Rightarrow>
             (case non_empty (configured_string settings PKEY_EXIT_NODE_IP) of
                None \<Rightarrow> (p, out)
              | Some raw \<Rightarrow>
                  (case parse_ipaddr raw of
                     None \<Rightarrow> (p, push_refusal PKEY_EXIT_NODE_IP (NotAnIp raw) out)
                   | Some a \<Rightarrow>
                       if override then (p, out)
                       else (let want = show_ipaddr a in
                             if exit_node p \<noteq> Some want
                             then (p\<lparr>exit_node := Some want\<rparr>,
                                   push_change PKEY_EXIT_NODE_IP ''exit_node'' want out)
                             else (p, out))))))"

definition apply_always_on :: "PolicySetting list \<Rightarrow> bool \<Rightarrow> apply_state \<Rightarrow> apply_state" where
  "apply_always_on settings override st =
     (case st of (p, out) \<Rightarrow>
        if configured_boolean settings PKEY_ALWAYS_ON = Some True \<and> \<not> override \<and> \<not> want_running p
        then (p\<lparr>want_running := True\<rparr>, push_change PKEY_ALWAYS_ON ''want_running'' ''true'' out)
        else (p, out))"

definition apply_preference :: "PolicySetting list \<Rightarrow> PreferencePolicy \<Rightarrow> apply_state \<Rightarrow> apply_state" where
  "apply_preference settings pol st =
     (case st of (p, out) \<Rightarrow>
        (case configured_preference settings (pp_key pol) of
           None \<Rightarrow> (p, out)
         | Some option \<Rightarrow>
             (let current = pp_get pol p; wanted = should_enable option current in
              if wanted \<noteq> current
              then (case pp_set pol p wanted of (p', v) \<Rightarrow> (p', push_change (pp_key pol) (pp_pref pol) v out))
              else (p, out))))"

definition apply_unattended :: "PolicySetting list \<Rightarrow> apply_state \<Rightarrow> apply_state" where
  "apply_unattended settings st =
     (case st of (p, out) \<Rightarrow>
        (p, if configured_preference settings ''UnattendedMode'' \<noteq> None
            then push_refusal ''UnattendedMode'' NoUserSession out else out))"

definition apply_settings_to_prefs ::
  "PolicySetting list \<Rightarrow> prefs \<Rightarrow> PolicyOverrides \<Rightarrow> prefs \<times> PolicyApplication" where
  "apply_settings_to_prefs settings p overrides =
     apply_unattended settings
       (fold (apply_preference settings) PREFERENCE_POLICIES
         (apply_always_on settings (ov_always_on overrides)
           (apply_exit_node_policy settings (ov_exit_node overrides)
             (apply_hostname settings
               (apply_login_url settings (p, \<lparr>changed = [], refused = []\<rparr>))))))"

definition policy_exit_node_in :: "PolicySetting list \<Rightarrow> string option" where
  "policy_exit_node_in settings =
     (if non_empty (configured_string settings PKEY_EXIT_NODE_ID) \<noteq> None then None
      else case non_empty (configured_string settings PKEY_EXIT_NODE_IP) of
        None \<Rightarrow> None
      | Some raw \<Rightarrow> map_option show_ipaddr (parse_ipaddr raw))"

record ExitNodePolicy =
  enp_pinned :: "string option"
  enp_allow_override :: bool

definition exit_node_policy_in :: "PolicySetting list \<Rightarrow> ExitNodePolicy" where
  "exit_node_policy_in settings =
     \<lparr>enp_pinned = policy_exit_node_in settings,
      enp_allow_override = boolean_setting settings PKEY_ALLOW_EXIT_NODE_OVERRIDE False\<rparr>"

record ExitNodeKeys =
  enk_id :: "string option"
  enk_ip :: "string option"
  enk_allow_override :: "bool option"

definition exit_node_keys_in :: "PolicySetting list \<Rightarrow> ExitNodeKeys" where
  "exit_node_keys_in settings =
     \<lparr>enk_id = configured_string settings PKEY_EXIT_NODE_ID,
      enk_ip = configured_string settings PKEY_EXIT_NODE_IP,
      enk_allow_override = configured_boolean settings PKEY_ALLOW_EXIT_NODE_OVERRIDE\<rparr>"

definition pinned_prefs_in :: "PolicySetting list \<Rightarrow> string list" where
  "pinned_prefs_in settings =
     (if configured_string settings ''LoginURL'' \<noteq> None then [''control_url''] else []) @
     (if configured_string settings ''Hostname'' \<noteq> None then [''hostname''] else []) @
     (if policy_exit_node_in settings \<noteq> None then [''exit_node''] else []) @
     map pp_pref (filter (\<lambda>pol. case configured_preference settings (pp_key pol) of
                                  Some option \<Rightarrow> option \<noteq> UserDecides | None \<Rightarrow> False) PREFERENCE_POLICIES)"

section \<open>What the application does to each preference\<close>

definition policy_bool :: "PolicySetting list \<Rightarrow> string \<Rightarrow> bool \<Rightarrow> bool" where
  "policy_bool settings key current =
     (case configured_preference settings key of None \<Rightarrow> current | Some opt \<Rightarrow> should_enable opt current)"

definition policy_string :: "PolicySetting list \<Rightarrow> string \<Rightarrow> string option \<Rightarrow> string option" where
  "policy_string settings key current =
     (case configured_string settings key of None \<Rightarrow> current | Some s \<Rightarrow> if s = [] then None else Some s)"

definition policy_opt_bool :: "PolicySetting list \<Rightarrow> string \<Rightarrow> bool option \<Rightarrow> bool option" where
  "policy_opt_bool settings key current =
     (let v = policy_bool settings key (unwrap_or current False) in
      if v = unwrap_or current False then current else Some v)"

definition policy_exit_node :: "PolicySetting list \<Rightarrow> bool \<Rightarrow> string option \<Rightarrow> string option" where
  "policy_exit_node settings ov current =
     (if ov then current else or_else (policy_exit_node_in settings) current)"

definition policy_want_running :: "PolicySetting list \<Rightarrow> bool \<Rightarrow> bool \<Rightarrow> bool" where
  "policy_want_running settings ov current =
     (current \<or> configured_boolean settings PKEY_ALWAYS_ON = Some True \<and> \<not> ov)"

definition policy_prefs :: "PolicySetting list \<Rightarrow> PolicyOverrides \<Rightarrow> prefs \<Rightarrow> prefs" where
  "policy_prefs s ov p =
     p\<lparr>control_url := policy_string s ''LoginURL'' (control_url p),
       hostname := policy_string s ''Hostname'' (hostname p),
       exit_node := policy_exit_node s (ov_exit_node ov) (exit_node p),
       want_running := policy_want_running s (ov_always_on ov) (want_running p),
       shields_up := \<not> policy_bool s ''AllowIncomingConnections'' (\<not> shields_up p),
       exit_node_allow_lan_access := policy_bool s ''ExitNodeAllowLANAccess'' (exit_node_allow_lan_access p),
       accept_dns := policy_bool s ''UseTailscaleDNSSettings'' (accept_dns p),
       accept_routes := policy_bool s ''UseTailscaleSubnets'' (accept_routes p),
       auto_update_check := policy_bool s ''CheckUpdates'' (auto_update_check p),
       auto_update_apply := policy_opt_bool s ''InstallUpdates'' (auto_update_apply p),
       advertise_exit_node := policy_bool s ''AdvertiseExitNode'' (advertise_exit_node p)\<rparr>"

lemma apply_login_url_fst:
  "fst (apply_login_url s st) = fst st\<lparr>control_url := policy_string s ''LoginURL'' (control_url (fst st))\<rparr>"
  by (cases st) (simp add: apply_login_url_def policy_string_def Let_def split: option.split)

lemma apply_hostname_fst:
  "fst (apply_hostname s st) = fst st\<lparr>hostname := policy_string s ''Hostname'' (hostname (fst st))\<rparr>"
  by (cases st) (simp add: apply_hostname_def policy_string_def Let_def split: option.split)

lemma apply_exit_node_policy_fst:
  "fst (apply_exit_node_policy s ov st) =
     fst st\<lparr>exit_node := policy_exit_node s ov (exit_node (fst st))\<rparr>"
  by (cases st)
     (simp add: apply_exit_node_policy_def policy_exit_node_in_def policy_exit_node_def Let_def split: option.split)

lemma apply_always_on_fst:
  "fst (apply_always_on s ov st) =
     fst st\<lparr>want_running := policy_want_running s ov (want_running (fst st))\<rparr>"
  by (cases st; cases "want_running (fst st)") (auto simp: apply_always_on_def policy_want_running_def)

lemma apply_preference_fst:
  "fst (apply_preference s pol st) =
     (let cur = pp_get pol (fst st); v = policy_bool s (pp_key pol) cur in
      if v = cur then fst st else fst (pp_set pol (fst st) v))"
  by (cases st) (simp add: apply_preference_def policy_bool_def Let_def split: option.split prod.split)

lemma apply_unattended_fst: "fst (apply_unattended s st) = fst st"
  by (cases st) (simp add: apply_unattended_def)

lemma apply_incoming_fst:
  "fst (apply_preference s pp_incoming st) =
     fst st\<lparr>shields_up := \<not> policy_bool s ''AllowIncomingConnections'' (\<not> shields_up (fst st))\<rparr>"
  by (auto simp: apply_preference_fst pp_incoming_def Let_def)

lemma apply_lan_access_fst:
  "fst (apply_preference s pp_lan_access st) =
     fst st\<lparr>exit_node_allow_lan_access := policy_bool s ''ExitNodeAllowLANAccess'' (exit_node_allow_lan_access (fst st))\<rparr>"
  by (auto simp: apply_preference_fst pp_lan_access_def Let_def)

lemma apply_dns_fst:
  "fst (apply_preference s pp_dns st) =
     fst st\<lparr>accept_dns := policy_bool s ''UseTailscaleDNSSettings'' (accept_dns (fst st))\<rparr>"
  by (auto simp: apply_preference_fst pp_dns_def Let_def)

lemma apply_subnets_fst:
  "fst (apply_preference s pp_subnets st) =
     fst st\<lparr>accept_routes := policy_bool s ''UseTailscaleSubnets'' (accept_routes (fst st))\<rparr>"
  by (auto simp: apply_preference_fst pp_subnets_def Let_def)

lemma apply_check_updates_fst:
  "fst (apply_preference s pp_check_updates st) =
     fst st\<lparr>auto_update_check := policy_bool s ''CheckUpdates'' (auto_update_check (fst st))\<rparr>"
  by (auto simp: apply_preference_fst pp_check_updates_def Let_def)

lemma apply_install_updates_fst:
  "fst (apply_preference s pp_install_updates st) =
     fst st\<lparr>auto_update_apply := policy_opt_bool s ''InstallUpdates'' (auto_update_apply (fst st))\<rparr>"
  by (auto simp: apply_preference_fst pp_install_updates_def policy_opt_bool_def Let_def)

lemma apply_advertise_exit_fst:
  "fst (apply_preference s pp_advertise_exit st) =
     fst st\<lparr>advertise_exit_node := policy_bool s ''AdvertiseExitNode'' (advertise_exit_node (fst st))\<rparr>"
  by (auto simp: apply_preference_fst pp_advertise_exit_def Let_def)

lemmas apply_fst = apply_login_url_fst apply_hostname_fst apply_exit_node_policy_fst apply_always_on_fst
  apply_unattended_fst apply_incoming_fst apply_lan_access_fst apply_dns_fst apply_subnets_fst apply_check_updates_fst apply_install_updates_fst apply_advertise_exit_fst

lemma apply_settings_policy_prefs: "fst (apply_settings_to_prefs s p ov) = policy_prefs s ov p"
  by (simp add: apply_settings_to_prefs_def PREFERENCE_POLICIES_def apply_fst policy_prefs_def)

text \<open>A three-state answer is one of three functions of the current value.\<close>

lemma policy_bool_cases:
  obtains "\<And>b. policy_bool s k b = True" | "\<And>b. policy_bool s k b = False" | "\<And>b. policy_bool s k b = b"
proof (cases "configured_preference s k")
  case None
  then show ?thesis using that(3) by (simp add: policy_bool_def)
next
  case (Some opt)
  then show ?thesis using that by (cases opt) (simp_all add: policy_bool_def)
qed

lemma policy_bool_idem [simp]: "policy_bool s k (policy_bool s k b) = policy_bool s k b"
  by (rule policy_bool_cases [of s k]) simp_all

lemma policy_string_idem [simp]: "policy_string s k (policy_string s k x) = policy_string s k x"
  by (auto simp: policy_string_def split: option.splits)

lemma policy_opt_bool_idem [simp]: "policy_opt_bool s k (policy_opt_bool s k x) = policy_opt_bool s k x"
  by (rule policy_bool_cases [of s k]) (simp_all add: policy_opt_bool_def Let_def)

lemma policy_exit_node_idem [simp]: "policy_exit_node s ov (policy_exit_node s ov y) = policy_exit_node s ov y"
  by (simp add: policy_exit_node_def or_else_def split: option.split)

lemma policy_want_running_idem [simp]:
  "policy_want_running s ov (policy_want_running s ov b) = policy_want_running s ov b"
  by (auto simp: policy_want_running_def)

lemma policy_prefs_idem: "policy_prefs s ov (policy_prefs s ov p) = policy_prefs s ov p"
  by (simp add: policy_prefs_def)

interpretation sys_policy: reconciler "\<lambda>(s, ov) p. fst (apply_settings_to_prefs s p ov)"
  by unfold_locales (auto simp: apply_settings_policy_prefs policy_prefs_idem)

section \<open>What the report says\<close>

text \<open>
  The names of the policy-governed preferences on which two preference sets differ, in evaluation
  order. An unset auto-update opt-in counts as off, which is how the policy reads it.
\<close>

definition diff_name :: "string \<Rightarrow> bool \<Rightarrow> string list" where
  "diff_name n same = (if same then [] else [n])"

definition pref_diff :: "prefs \<Rightarrow> prefs \<Rightarrow> string list" where
  "pref_diff p q =
     diff_name ''control_url'' (control_url q = control_url p) @
     diff_name ''hostname'' (hostname q = hostname p) @
     diff_name ''exit_node'' (exit_node q = exit_node p) @
     diff_name ''want_running'' (want_running q = want_running p) @
     diff_name ''shields_up'' (shields_up q = shields_up p) @
     diff_name ''exit_node_allow_lan_access'' (exit_node_allow_lan_access q = exit_node_allow_lan_access p) @
     diff_name ''accept_dns'' (accept_dns q = accept_dns p) @
     diff_name ''accept_routes'' (accept_routes q = accept_routes p) @
     diff_name ''auto_update_check'' (auto_update_check q = auto_update_check p) @
     diff_name ''auto_update_apply'' (unwrap_or (auto_update_apply q) False = unwrap_or (auto_update_apply p) False) @
     diff_name ''advertise_exit_node'' (advertise_exit_node q = advertise_exit_node p)"

definition changed_prefs :: "apply_state \<Rightarrow> string list" where
  "changed_prefs st = map pc_pref (changed (snd st))"

lemma push_prefs [simp]:
  "map pc_pref (changed (push_change k f v out)) = map pc_pref (changed out) @ [f]"
  "changed (push_refusal k r out) = changed out"
  by (simp_all add: push_change_def push_refusal_def)

lemma apply_login_url_changed:
  "changed_prefs (apply_login_url s st) = changed_prefs st @
     diff_name ''control_url'' (policy_string s ''LoginURL'' (control_url (fst st)) = control_url (fst st))"
  by (cases st) (simp add: changed_prefs_def diff_name_def apply_login_url_def policy_string_def Let_def split: option.split)

lemma apply_hostname_changed:
  "changed_prefs (apply_hostname s st) = changed_prefs st @
     diff_name ''hostname'' (policy_string s ''Hostname'' (hostname (fst st)) = hostname (fst st))"
  by (cases st) (simp add: changed_prefs_def diff_name_def apply_hostname_def policy_string_def Let_def split: option.split)

lemma apply_exit_node_policy_changed:
  "changed_prefs (apply_exit_node_policy s ov st) = changed_prefs st @
     diff_name ''exit_node'' (policy_exit_node s ov (exit_node (fst st)) = exit_node (fst st))"
  by (cases st)
     (simp add: changed_prefs_def diff_name_def apply_exit_node_policy_def policy_exit_node_def policy_exit_node_in_def
        Let_def split: option.split)

lemma apply_always_on_changed:
  "changed_prefs (apply_always_on s ov st) = changed_prefs st @
     diff_name ''want_running'' (policy_want_running s ov (want_running (fst st)) = want_running (fst st))"
  by (cases st) (auto simp: changed_prefs_def diff_name_def apply_always_on_def policy_want_running_def)

lemma apply_unattended_changed: "changed_prefs (apply_unattended s st) = changed_prefs st"
  by (cases st) (simp add: changed_prefs_def diff_name_def apply_unattended_def)

lemma apply_preference_changed:
  "changed_prefs (apply_preference s pol st) = changed_prefs st @
     diff_name (pp_pref pol) (policy_bool s (pp_key pol) (pp_get pol (fst st)) = pp_get pol (fst st))"
  by (cases st)
     (simp add: changed_prefs_def diff_name_def apply_preference_def policy_bool_def Let_def split: option.split prod.split)

lemmas apply_changed = apply_login_url_changed apply_hostname_changed apply_exit_node_policy_changed
  apply_always_on_changed apply_unattended_changed apply_preference_changed

lemma policy_opt_bool_unwrap:
  "unwrap_or (policy_opt_bool s k x) False = policy_bool s k (unwrap_or x False)"
  by (auto simp: policy_opt_bool_def Let_def)

lemma changed_prefs_apply:
  "changed_prefs (apply_settings_to_prefs s p ov) = pref_diff p (policy_prefs s ov p)"
  by (simp add: apply_settings_to_prefs_def PREFERENCE_POLICIES_def apply_changed apply_fst
      pref_diff_def policy_prefs_def policy_opt_bool_unwrap)
     (auto simp: changed_prefs_def pp_defs diff_name_def)

lemma in_diff_name: "x \<in> set (diff_name n b) \<longleftrightarrow> x = n \<and> \<not> b"
  by (simp add: diff_name_def)

lemma set_pref_diff_refl [simp]: "pref_diff p p = []"
  by (simp add: pref_diff_def diff_name_def)

definition pins :: "PolicySetting list \<Rightarrow> string \<Rightarrow> bool" where
  "pins s k = (case configured_preference s k of Some opt \<Rightarrow> opt \<noteq> UserDecides | None \<Rightarrow> False)"

lemma policy_bool_unpinned: "\<not> pins s k \<Longrightarrow> policy_bool s k b = b"
  by (auto simp: policy_bool_def pins_def split: option.splits)

lemma policy_bool_pinned: "pins s k \<Longrightarrow> policy_bool s k b = policy_bool s k c"
  unfolding policy_bool_def pins_def
  by (cases "configured_preference s k"; cases "the (configured_preference s k)") simp_all

lemma pinned_prefs_iff:
  "x \<in> set (pinned_prefs_in s) \<longleftrightarrow>
     x = ''control_url'' \<and> configured_string s ''LoginURL'' \<noteq> None \<or>
     x = ''hostname'' \<and> configured_string s ''Hostname'' \<noteq> None \<or>
     x = ''exit_node'' \<and> policy_exit_node_in s \<noteq> None \<or>
     (\<exists>pol \<in> set PREFERENCE_POLICIES. pins s (pp_key pol) \<and> x = pp_pref pol)"
  by (auto simp: pinned_prefs_in_def pins_def image_iff)

lemma pinned_names:
  "''control_url'' \<in> set (pinned_prefs_in s) \<longleftrightarrow> configured_string s ''LoginURL'' \<noteq> None"
  "''hostname'' \<in> set (pinned_prefs_in s) \<longleftrightarrow> configured_string s ''Hostname'' \<noteq> None"
  "''exit_node'' \<in> set (pinned_prefs_in s) \<longleftrightarrow> policy_exit_node_in s \<noteq> None"
  "''want_running'' \<notin> set (pinned_prefs_in s)"
  "''shields_up'' \<in> set (pinned_prefs_in s) \<longleftrightarrow> pins s ''AllowIncomingConnections''"
  "''exit_node_allow_lan_access'' \<in> set (pinned_prefs_in s) \<longleftrightarrow> pins s ''ExitNodeAllowLANAccess''"
  "''accept_dns'' \<in> set (pinned_prefs_in s) \<longleftrightarrow> pins s ''UseTailscaleDNSSettings''"
  "''accept_routes'' \<in> set (pinned_prefs_in s) \<longleftrightarrow> pins s ''UseTailscaleSubnets''"
  "''auto_update_check'' \<in> set (pinned_prefs_in s) \<longleftrightarrow> pins s ''CheckUpdates''"
  "''auto_update_apply'' \<in> set (pinned_prefs_in s) \<longleftrightarrow> pins s ''InstallUpdates''"
  "''advertise_exit_node'' \<in> set (pinned_prefs_in s) \<longleftrightarrow> pins s ''AdvertiseExitNode''"
  by (simp_all add: pinned_prefs_iff PREFERENCE_POLICIES_def pp_defs)

lemma policy_string_unpinned: "configured_string s k = None \<Longrightarrow> policy_string s k x = x"
  by (simp add: policy_string_def)

lemma policy_string_pinned: "configured_string s k \<noteq> None \<Longrightarrow> policy_string s k x = policy_string s k y"
  by (auto simp: policy_string_def)

lemma in_pref_diff:
  "x \<in> set (pref_diff p q) \<longleftrightarrow>
     x = ''control_url'' \<and> control_url q \<noteq> control_url p \<or>
     x = ''hostname'' \<and> hostname q \<noteq> hostname p \<or>
     x = ''exit_node'' \<and> exit_node q \<noteq> exit_node p \<or>
     x = ''want_running'' \<and> want_running q \<noteq> want_running p \<or>
     x = ''shields_up'' \<and> shields_up q \<noteq> shields_up p \<or>
     x = ''exit_node_allow_lan_access'' \<and> exit_node_allow_lan_access q \<noteq> exit_node_allow_lan_access p \<or>
     x = ''accept_dns'' \<and> accept_dns q \<noteq> accept_dns p \<or>
     x = ''accept_routes'' \<and> accept_routes q \<noteq> accept_routes p \<or>
     x = ''auto_update_check'' \<and> auto_update_check q \<noteq> auto_update_check p \<or>
     x = ''auto_update_apply'' \<and>
       unwrap_or (auto_update_apply q) False \<noteq> unwrap_or (auto_update_apply p) False \<or>
     x = ''advertise_exit_node'' \<and> advertise_exit_node q \<noteq> advertise_exit_node p"
  by (simp only: pref_diff_def set_append Un_iff in_diff_name)

lemma policy_exit_node_unpinned: "policy_exit_node_in s = None \<Longrightarrow> policy_exit_node s ov x = x"
  by (simp add: policy_exit_node_def)

lemma policy_exit_node_pinned:
  "\<not> ov \<Longrightarrow> policy_exit_node_in s \<noteq> None \<Longrightarrow> policy_exit_node s ov x = policy_exit_node s ov y"
  by (auto simp: policy_exit_node_def)

lemma policy_prefs_fields:
  "control_url (policy_prefs s ov p) = policy_string s ''LoginURL'' (control_url p)"
  "hostname (policy_prefs s ov p) = policy_string s ''Hostname'' (hostname p)"
  "exit_node (policy_prefs s ov p) = policy_exit_node s (ov_exit_node ov) (exit_node p)"
  "want_running (policy_prefs s ov p) = policy_want_running s (ov_always_on ov) (want_running p)"
  "shields_up (policy_prefs s ov p) = (\<not> policy_bool s ''AllowIncomingConnections'' (\<not> shields_up p))"
  "exit_node_allow_lan_access (policy_prefs s ov p) =
     policy_bool s ''ExitNodeAllowLANAccess'' (exit_node_allow_lan_access p)"
  "accept_dns (policy_prefs s ov p) = policy_bool s ''UseTailscaleDNSSettings'' (accept_dns p)"
  "accept_routes (policy_prefs s ov p) = policy_bool s ''UseTailscaleSubnets'' (accept_routes p)"
  "auto_update_check (policy_prefs s ov p) = policy_bool s ''CheckUpdates'' (auto_update_check p)"
  "unwrap_or (auto_update_apply (policy_prefs s ov p)) False =
     policy_bool s ''InstallUpdates'' (unwrap_or (auto_update_apply p) False)"
  "advertise_exit_node (policy_prefs s ov p) = policy_bool s ''AdvertiseExitNode'' (advertise_exit_node p)"
  by (simp_all add: policy_prefs_def policy_opt_bool_unwrap)

lemma changed_is_pinned:
  assumes "x \<in> set (pref_diff p (policy_prefs s ov p))" "x \<noteq> ''want_running''"
  shows "x \<in> set (pinned_prefs_in s)"
  using assms(1) [unfolded in_pref_diff] assms(2)
  by (elim disjE; elim conjE; simp only: pinned_names policy_prefs_fields)
     (metis policy_bool_unpinned policy_string_unpinned policy_exit_node_unpinned)+

lemma pinned_agrees:
  assumes "\<not> ov_exit_node ov" "x \<in> set (pref_diff (policy_prefs s ov p) (policy_prefs s ov q))"
  shows "x \<notin> set (pinned_prefs_in s)"
  using assms(2) [unfolded in_pref_diff] assms(1)
  by (elim disjE; elim conjE; simp only: pinned_names policy_prefs_fields)
     (metis policy_bool_pinned policy_string_pinned policy_exit_node_pinned)+

section \<open>Properties\<close>

text \<open>
  Applying the policy is idempotent and quiet the second time: after one application, another one
  (under the same settings and standing overrides) changes no preference and reports no change. The
  reconcile points of the daemon can therefore run in any number.
\<close>

theorem policy_apply_idempotent:
  "fst (apply_settings_to_prefs s (fst (apply_settings_to_prefs s p ov)) ov) =
     fst (apply_settings_to_prefs s p ov) \<and>
   changed (snd (apply_settings_to_prefs s (fst (apply_settings_to_prefs s p ov)) ov)) = []"
proof -
  have "changed_prefs (apply_settings_to_prefs s (policy_prefs s ov p) ov) = []"
    by (simp add: changed_prefs_apply policy_prefs_idem)
  then show ?thesis
    using sys_policy.idem [of "(s, ov)" p]
    by (simp add: changed_prefs_def apply_settings_policy_prefs)
qed

text \<open>
  The report is exact: the preferences it lists are exactly the ones the application moved, in
  evaluation order, and the resulting preferences are the field-by-field policy answer
  \<open>policy_prefs\<close>, which leaves every other preference alone.
\<close>

theorem policy_report_exact:
  "fst (apply_settings_to_prefs s p ov) = policy_prefs s ov p \<and>
   map pc_pref (changed (snd (apply_settings_to_prefs s p ov))) =
     pref_diff p (fst (apply_settings_to_prefs s p ov))"
  using changed_prefs_apply [of s p ov] by (simp add: apply_settings_policy_prefs changed_prefs_def)

text \<open>
  The pinned list and the application are in lockstep: a preference the application moves is
  pinned (or is the connect intent of the always-on key), and two nodes under the same policy agree
  on every pinned preference afterwards, whatever they had before, unless an exit-node override
  stands.
\<close>

theorem policy_pinned_lockstep:
  "set (map pc_pref (changed (snd (apply_settings_to_prefs s p ov)))) \<subseteq>
     set (pinned_prefs_in s) \<union> {''want_running''} \<and>
   (ov_exit_node ov \<or>
    set (pinned_prefs_in s) \<inter>
      set (pref_diff (fst (apply_settings_to_prefs s p ov)) (fst (apply_settings_to_prefs s q ov))) = {})"
proof -
  have "set (map pc_pref (changed (snd (apply_settings_to_prefs s p ov)))) =
        set (pref_diff p (policy_prefs s ov p))"
    using changed_prefs_apply [of s p ov] by (simp add: changed_prefs_def flip: set_map)
  then show ?thesis
    using changed_is_pinned [of _ p s ov] pinned_agrees [of ov _ s p q]
    by (auto simp: apply_settings_policy_prefs)
qed

text \<open>
  The administrator's auth key is used only for a node that needs it: a decision to use a key
  returns the trimmed, non-empty key of the newest source that configures one, and the node is not
  running, no declarative config file is in use, and it is either not enrolled or asked to log in
  again. In all those cases it is used.
\<close>

theorem policy_auth_key_used_iff:
  "auth_key_in sources gate = Use k \<longleftrightarrow>
     (\<exists>raw. configured_auth_key sources = Some raw \<and> k = trim raw \<and> k \<noteq> [] \<and>
        \<not> gate_running gate \<and> \<not> gate_config_in_use gate \<and>
        (\<not> gate_enrolled gate \<or> gate_needs_login gate))"
  by (auto simp: auth_key_in_def Let_def split: option.splits if_splits)

theorem policy_auth_key_used_iff_witness:
  "auth_key_in [\<lparr>src_settings = [], src_string_lists = [], src_auth_key = Some '' tskey-1 ''\<rparr>]
     \<lparr>gate_running = False, gate_needs_login = True, gate_enrolled = True, gate_config_in_use = False\<rparr> =
   Use ''tskey-1''"
proof -
  have "configured_auth_key [\<lparr>src_settings = [], src_string_lists = [], src_auth_key = Some '' tskey-1 ''\<rparr>] =
        Some '' tskey-1 ''" "trim '' tskey-1 '' = ''tskey-1''"
    by code_simp+
  then show ?thesis by (simp add: policy_auth_key_used_iff)
qed

lemma find_map_append: "find_map f (xs @ ys) = or_else (find_map f xs) (find_map f ys)"
  by (induction xs) (auto split: option.splits)

text \<open>The last registration that configures a key answers for it.\<close>

lemma configured_auth_key_last:
  "configured_auth_key (srcs @ [src]) = or_else (src_auth_key src) (configured_auth_key srcs)"
  by (simp add: configured_auth_key_def or_else_def split: option.split)

end
