(* ===== verification/LocalApi.thy ===== *)
theory LocalApi
  imports BTree
begin

text \<open>
  The requests of the LocalAPI (\<open>src/src/localapi.rs\<close>, \<open>Request\<close>) and the two option records
  the server builds from them (\<open>src/src/ipn/mod.rs\<close>, \<open>UpOptions\<close> and \<open>SetOptions\<close>).
  An \<open>Option<T>\<close> field that is \<open>None\<close> means "leave the preference unchanged"; the doubled
  options distinguish unchanged, cleared and set.

  \<open>up_request\<close> extends \<open>up_options\<close> by the fields of \<open>Request::Up\<close> that are not options of
  the bring-up (the auth key and the workload-identity credentials), so the server's field-by-field
  copy is the truncation of the record.
\<close>

record up_options =
  up_hostname :: "string option"
  up_control_url :: "string option"
  up_tun :: "bool option"
  up_tun_name :: "string option"
  up_tun_mtu :: "16 word option"
  up_exit_node :: "string option option"
  up_advertise_exit_node :: "bool option"
  up_advertise_routes :: "string list option"
  up_advertise_tags :: "string list option"
  up_accept_routes :: "bool option"
  up_accept_dns :: "bool option"
  up_shields_up :: "bool option"
  up_ssh :: "bool option"
  up_operator :: "string option option"
  up_exit_node_allow_lan_access :: "bool option"
  up_advertise_connector :: "bool option"
  up_report_posture :: "bool option"
  up_reset :: bool
  up_force_reauth :: bool
  up_ephemeral :: "bool option"

record up_request = up_options +
  rq_authkey :: "string option"
  rq_client_id :: "string option"
  rq_client_secret :: "string option"
  rq_id_token :: "string option"
  rq_audience :: "string option"

record set_options =
  set_hostname :: "string option"
  set_accept_routes :: "bool option"
  set_accept_dns :: "bool option"
  set_shields_up :: "bool option"
  set_exit_node :: "string option option"
  set_advertise_exit_node :: "bool option"
  set_advertise_routes :: "string list option"
  set_advertise_tags :: "string list option"
  set_ssh :: "bool option"
  set_advertise_connector :: "bool option"
  set_auto_update :: "bool option"
  set_update_check :: "bool option"
  set_operator :: "string option option"
  set_nickname :: "string option option"
  set_report_posture :: "bool option"
  set_webclient :: "bool option"
  set_exit_node_allow_lan_access :: "bool option"

text \<open>\<open>#[derive(Default)]\<close> of the two structs.\<close>

definition up_default :: up_options where
  "up_default =
     \<lparr>up_hostname = None, up_control_url = None, up_tun = None, up_tun_name = None,
      up_tun_mtu = None, up_exit_node = None, up_advertise_exit_node = None,
      up_advertise_routes = None, up_advertise_tags = None, up_accept_routes = None,
      up_accept_dns = None, up_shields_up = None, up_ssh = None, up_operator = None,
      up_exit_node_allow_lan_access = None, up_advertise_connector = None,
      up_report_posture = None, up_reset = False, up_force_reauth = False, up_ephemeral = None\<rparr>"

definition set_default :: set_options where
  "set_default =
     \<lparr>set_hostname = None, set_accept_routes = None, set_accept_dns = None,
      set_shields_up = None, set_exit_node = None, set_advertise_exit_node = None,
      set_advertise_routes = None, set_advertise_tags = None, set_ssh = None,
      set_advertise_connector = None, set_auto_update = None, set_update_check = None,
      set_operator = None, set_nickname = None, set_report_posture = None,
      set_webclient = None, set_exit_node_allow_lan_access = None\<rparr>"

definition mentions_any_pref :: "up_options \<Rightarrow> bool" where
  "mentions_any_pref o1 =
     (up_hostname o1 \<noteq> None \<or> up_control_url o1 \<noteq> None \<or> up_tun o1 \<noteq> None \<or>
      up_tun_name o1 \<noteq> None \<or> up_tun_mtu o1 \<noteq> None \<or> up_exit_node o1 \<noteq> None \<or>
      up_advertise_exit_node o1 \<noteq> None \<or> up_advertise_routes o1 \<noteq> None \<or>
      up_advertise_tags o1 \<noteq> None \<or> up_accept_routes o1 \<noteq> None \<or> up_accept_dns o1 \<noteq> None \<or>
      up_ephemeral o1 \<noteq> None \<or> up_shields_up o1 \<noteq> None \<or> up_ssh o1 \<noteq> None \<or>
      up_operator o1 \<noteq> None \<or> up_exit_node_allow_lan_access o1 \<noteq> None \<or>
      up_advertise_connector o1 \<noteq> None \<or> up_report_posture o1 \<noteq> None)"

definition set_is_empty :: "set_options \<Rightarrow> bool" where
  "set_is_empty s =
     (set_hostname s = None \<and> set_accept_routes s = None \<and> set_accept_dns s = None \<and>
      set_shields_up s = None \<and> set_exit_node s = None \<and> set_advertise_exit_node s = None \<and>
      set_advertise_routes s = None \<and> set_advertise_tags s = None \<and> set_ssh s = None \<and>
      set_advertise_connector s = None \<and> set_auto_update s = None \<and> set_update_check s = None \<and>
      set_operator s = None \<and> set_nickname s = None \<and> set_report_posture s = None \<and>
      set_webclient s = None \<and> set_exit_node_allow_lan_access s = None)"

definition needs_rebuild :: "set_options \<Rightarrow> bool" where
  "needs_rebuild s =
     (set_shields_up s \<noteq> None \<or> set_ssh s \<noteq> None \<or> set_advertise_tags s \<noteq> None \<or>
      set_advertise_connector s \<noteq> None \<or> set_auto_update s \<noteq> None)"

section \<open>Requests\<close>

text \<open>
  The enumeration, variant by variant, with the fields in the source's order. The free-text reason of
  \<open>Down\<close> and \<open>Logout\<close> is its sequence of code points.
\<close>

datatype whois_proto = WhoisTcp | WhoisUdp

datatype conflict_policy = ConflictSkip | ConflictOverwrite | ConflictRename

text \<open>
  The serve configuration a \<open>SetServeConfig\<close> carries: per-port handlers keyed by the port as text, the
  ports published by Funnel and the web handlers, both keyed by \<open>host:port\<close>. The last three fields of a
  handler are an older place for web bodies, still read.
\<close>

record RedirectSpec =
  rs_to :: string
  rs_status :: nat

datatype WebMount = MountProxy string | MountText string | MountRedirect string nat

record TcpPortHandler =
  th_https :: bool
  th_http :: bool
  th_tcp_forward :: string
  th_terminate_tls :: string
  th_proxy_protocol :: int
  th_text :: "string option"
  th_redirect :: "RedirectSpec option"
  th_mounts :: "WebMount btree"

record HttpHandler =
  hh_path :: string
  hh_proxy :: string
  hh_text :: string
  hh_redirect :: string

record WebServerConfig =
  wsc_handlers :: "HttpHandler btree"

record ServeConfig =
  sc_tcp :: "TcpPortHandler btree"
  sc_allow_funnel :: "bool btree"
  sc_web :: "WebServerConfig btree"

datatype (plugins only: code) request =
    Status
  | Watch bool bool bool bool bool bool
  | Up up_request
  | Set set_options
  | Version
  | GetPrefs
  | ProfileList
  | Metrics
  | LockStatus
  | LockLog nat
  | LockInit string
  | LockSign string
  | LockDisable string
  | DnsStatus
  | DnsQuery string nat
  | Netcheck
  | SuggestExitNode
  | Services
  | SyspolicyList
  | SyspolicyReload
  | CheckIpForwarding
  | CheckPrefs "string option option" "bool option" "string list option" "bool option" "bool option"
  | Cert string "nat option"
  | BugReport "string option" bool
  | GetServeConfig
  | SetServeConfig ServeConfig
  | SwitchProfile string
  | CreateProfile string
  | SwitchToEmptyProfile
  | DeleteProfile string
  | Nc string nat
  | Down "nat list option"
  | Logout "nat list option"
  | Ip
  | Whois string "nat option" "whois_proto option"
  | IdToken string
  | Ping string "nat option"
  | FileCp string string "string option"
  | FileList
  | FileGet string string bool
  | FileGetDir string conflict_policy
  | FileTargets
  | DebugCapture string "nat option"
  | DebugRebind
  | DebugReStun
  | DebugStateDir
  | DebugPortmap nat string "string option" bool
  | ReloadConfig
  | Shutdown

section \<open>Properties\<close>

lemma set_is_empty_iff: "set_is_empty s \<longleftrightarrow> s = set_default"
  by (auto simp: set_is_empty_def set_default_def)

lemma mentions_any_pref_iff:
  "mentions_any_pref u \<longleftrightarrow> u\<lparr>up_reset := False, up_force_reauth := False\<rparr> \<noteq> up_default"
  by (cases u) (auto simp: mentions_any_pref_def up_default_def)

lemma needs_rebuild_not_empty: "needs_rebuild s \<Longrightarrow> \<not> set_is_empty s"
  by (auto simp: needs_rebuild_def set_is_empty_def)

end
