(* ===== verification/Gates.thy ===== *)
theory Gates
  imports PolicyApply LocalApi Routes
begin

text \<open>
  The pure gates in front of the lifecycle operations, each from its own source file: the control-URL
  change guard (\<open>ipn/control_url.rs\<close>), the exit-node edit gate (\<open>ipn/exitnodepolicy.rs\<close>), the
  always-on disconnect gate (\<open>ipn/alwayson.rs\<close>), the SSH knob (\<open>featureknob.rs\<close>), the auto-update
  refusal (\<open>ipn/selfupdate.rs\<close>) and the three small validators of \<open>ipn/mod.rs\<close> (advertised tags,
  the prospective route set and SSH posture, the \<open>auto:\<close> selector).
\<close>

section \<open>The control-URL guard\<close>

definition LOGIN_SERVER_SYNONYMS :: "string list" where
  "LOGIN_SERVER_SYNONYMS = [''https://login.tailscale.com'', ''https://controlplane.tailscale.com'']"

definition normalize_url :: "string option \<Rightarrow> string option" where
  "normalize_url url =
     (case url of None \<Rightarrow> None | Some u \<Rightarrow> if u \<in> set LOGIN_SERVER_SYNONYMS then None else Some u)"

definition change_blocked :: "string option \<Rightarrow> string option \<Rightarrow> bool \<Rightarrow> bool \<Rightarrow> bool" where
  "change_blocked current proposed running force_reauth =
     (case proposed of
        None \<Rightarrow> False
      | Some _ \<Rightarrow> normalize_url current \<noteq> normalize_url proposed \<and> running \<and> \<not> force_reauth)"

section \<open>The exit-node edit gate\<close>

datatype ExitNodeEditRefused = ManagedByPolicy

datatype ExitNodeEdit = Untouched | NoOverride | Override

definition check_exit_node_edit ::
  "string option option \<Rightarrow> ExitNodePolicy \<Rightarrow> (ExitNodeEditRefused, ExitNodeEdit) result" where
  "check_exit_node_edit named policy =
     (case named of
        None \<Rightarrow> Inr Untouched
      | Some wanted \<Rightarrow>
          (case enp_pinned policy of
             None \<Rightarrow> Inr NoOverride
           | Some pinned \<Rightarrow>
               if \<not> enp_allow_override policy then Inl ManagedByPolicy
               else (case wanted of
                       None \<Rightarrow> Inl ManagedByPolicy
                     | Some w \<Rightarrow> if w = pinned then Inr NoOverride else Inr Override)))"

section \<open>The always-on disconnect gate\<close>

text \<open>A reason is its sequence of code points (\<open>chars()\<close>).\<close>

type_synonym chars = "nat list"

datatype Actor = Operator "chars option" | Daemon

datatype DisconnectRefused = AlwaysOn | ReasonRequired

definition MAX_LOGGED_REASON :: nat where
  "MAX_LOGGED_REASON = 256"

text \<open>\<open>char::is_control\<close>: the Unicode category Cc.\<close>

definition is_control :: "nat \<Rightarrow> bool" where
  "is_control c = (c \<le> 31 \<or> 127 \<le> c \<and> c \<le> 159)"

definition sanitize_request_reason :: "chars \<Rightarrow> chars" where
  "sanitize_request_reason reason =
     map (\<lambda>c. if is_control c then 95 else c) (take MAX_LOGGED_REASON reason) @
     (if MAX_LOGGED_REASON < length reason then [0x2026] else [])"

text \<open>The audit record: who is disconnected, by whom (an empty user name is nobody), and why.\<close>

record audit_record =
  audit_profile :: string
  audit_username :: "string option"
  audit_reason :: chars

definition audit_details :: "string \<Rightarrow> string option \<Rightarrow> chars \<Rightarrow> audit_record" where
  "audit_details profile username reason =
     \<lparr>audit_profile = profile, audit_username = non_empty username,
      audit_reason = sanitize_request_reason reason\<rparr>"

definition decide ::
  "bool \<Rightarrow> bool \<Rightarrow> chars option \<Rightarrow> string \<Rightarrow> string option \<Rightarrow> (DisconnectRefused, audit_record option) result" where
  "decide always_on override_with_reason reason profile username =
     (if \<not> always_on then Inr None
      else if \<not> override_with_reason then Inl AlwaysOn
      else let r = unwrap_or reason [] in
        if r = [] then Inl ReasonRequired else Inr (Some (audit_details profile username r)))"

definition check_disconnect_policy ::
  "PolicySetting list \<Rightarrow> Actor \<Rightarrow> string \<Rightarrow> string option \<Rightarrow> (DisconnectRefused, audit_record option) result" where
  "check_disconnect_policy settings actor profile username =
     (case actor of
        Daemon \<Rightarrow> Inr None
      | Operator reason \<Rightarrow>
          decide (boolean_setting settings PKEY_ALWAYS_ON False)
            (boolean_setting settings PKEY_ALWAYS_ON_OVERRIDE_WITH_REASON False) reason profile username)"

section \<open>The SSH knob\<close>

definition SSH_SUPPORTED_OS :: "string list" where
  "SSH_SUPPORTED_OS = [''linux'', ''macos'', ''freebsd'', ''openbsd'', ''plan9'']"

definition parse_go_bool :: "string \<Rightarrow> bool option" where
  "parse_go_bool v =
     (if v \<in> set [''1'', ''t'', ''T'', ''TRUE'', ''true'', ''True''] then Some True
      else if v \<in> set [''0'', ''f'', ''F'', ''FALSE'', ''false'', ''False''] then Some False
      else None)"

definition can_sshd :: "string option \<Rightarrow> bool" where
  "can_sshd v =
     (case v of
        None \<Rightarrow> True
      | Some s \<Rightarrow> if s = [] then True
                  else (case parse_go_bool s of Some disabled \<Rightarrow> \<not> disabled | None \<Rightarrow> False))"

datatype ssh_refusal = SshUnsupportedOs string | SshAdminDisabled

definition can_run_tailscale_ssh_in :: "string \<Rightarrow> string option \<Rightarrow> (ssh_refusal, unit) result" where
  "can_run_tailscale_ssh_in os disable_ssh_server =
     (if os \<notin> set SSH_SUPPORTED_OS then Inl (SshUnsupportedOs os)
      else if \<not> can_sshd disable_ssh_server then Inl SshAdminDisabled
      else Inr ())"

section \<open>The auto-update refusal\<close>

definition host_release_triple :: "string \<Rightarrow> string \<Rightarrow> string option" where
  "host_release_triple os arch =
     (if os = ''linux'' \<and> arch = ''x86_64'' then Some ''x86_64-unknown-linux-gnu''
      else if os = ''linux'' \<and> arch = ''aarch64'' then Some ''aarch64-unknown-linux-gnu''
      else None)"

fun homebrew_formula_owning :: "string list \<Rightarrow> string option" where
  "homebrew_formula_owning [] = None"
| "homebrew_formula_owning (c # comps) =
     (if c \<noteq> ''Cellar'' then homebrew_formula_owning comps
      else case comps of formula # version # _ \<Rightarrow> Some formula | _ \<Rightarrow> None)"

datatype update_refusal = OwnedByHomebrew string | NoReleaseArtifact string

definition auto_update_refusal_for ::
  "string option \<Rightarrow> string option \<Rightarrow> string \<Rightarrow> update_refusal option" where
  "auto_update_refusal_for homebrew_formula release_triple platform =
     (case homebrew_formula of
        Some formula \<Rightarrow> Some (OwnedByHomebrew formula)
      | None \<Rightarrow> (case release_triple of None \<Rightarrow> Some (NoReleaseArtifact platform) | Some _ \<Rightarrow> None))"

datatype remedy = REMEDY_CLI | REMEDY_CONFIG

definition check_auto_update_pref ::
  "bool option \<Rightarrow> update_refusal option \<Rightarrow> remedy \<Rightarrow> (update_refusal \<times> remedy) option" where
  "check_auto_update_pref apply_pref host_refusal r =
     (if apply_pref \<noteq> Some True then None else map_option (\<lambda>reason. (reason, r)) host_refusal)"

section \<open>Validators of the lifecycle requests\<close>

datatype tag_error = TagNoPrefix string | TagEmptyName string | TagFirstNotLetter string | TagBadChar string

definition complete_tag :: "string \<Rightarrow> string" where
  "complete_tag t = (if CHR '':'' \<in> set t then t else ''tag:'' @ t)"

definition check_tag :: "string \<Rightarrow> (tag_error, string) result" where
  "check_tag t =
     (case strip_prefix t ''tag:'' of
        None \<Rightarrow> Inl (TagNoPrefix t)
      | Some name \<Rightarrow>
          (case name of
             [] \<Rightarrow> Inl (TagEmptyName t)
           | b # _ \<Rightarrow>
               if \<not> is_ascii_alphabetic b then Inl (TagFirstNotLetter t)
               else if list_ex (\<lambda>b. \<not> is_ascii_alphanumeric b \<and> b \<noteq> CHR ''-'') name then Inl (TagBadChar t)
               else Inr t))"

fun complete_and_validate_advertise_tags :: "string list \<Rightarrow> (tag_error, string list) result" where
  "complete_and_validate_advertise_tags [] = Inr []"
| "complete_and_validate_advertise_tags (t # ts) =
     rbind (check_tag (complete_tag t)) (\<lambda>c.
       rbind (complete_and_validate_advertise_tags ts) (\<lambda>cs. Inr (c # cs)))"

definition prospective_route_set ::
  "string list option \<Rightarrow> bool option \<Rightarrow> prefs \<Rightarrow> bool \<Rightarrow> string list \<times> bool" where
  "prospective_route_set named_routes named_advertise_exit_node current reset =
     (let base = (if reset then default_prefs else current) in
      (unwrap_or named_routes (advertise_routes base),
       unwrap_or named_advertise_exit_node (advertise_exit_node base)))"

definition prospective_ssh :: "bool option \<Rightarrow> prefs \<Rightarrow> bool \<Rightarrow> bool" where
  "prospective_ssh named_ssh current reset =
     (let base = (if reset then default_prefs else current) in unwrap_or named_ssh (ssh_enabled base))"

definition validate_exit_node_selector :: "string option \<Rightarrow> bool" where
  "validate_exit_node_selector selector =
     (case selector of Some sel \<Rightarrow> \<not> starts_with sel ''auto:'' | None \<Rightarrow> True)"

section \<open>Properties\<close>

lemma change_blocked_iff:
  "change_blocked current proposed running force \<longleftrightarrow>
     (\<exists>u. proposed = Some u \<and> normalize_url current \<noteq> normalize_url (Some u)) \<and> running \<and> \<not> force"
  by (auto simp: change_blocked_def split: option.splits)

lemma synonym_never_blocks:
  "u \<in> set LOGIN_SERVER_SYNONYMS \<Longrightarrow> current = None \<or> current = Some v \<and> v \<in> set LOGIN_SERVER_SYNONYMS \<Longrightarrow>
     \<not> change_blocked current (Some u) running force"
  by (auto simp: change_blocked_def normalize_url_def)

lemma exit_node_edit_gate_parts:
  assumes "enp_pinned policy = Some pinned"
  shows "is_ok (check_exit_node_edit named policy) \<longleftrightarrow>
           named = None \<or> (enp_allow_override policy \<and> (\<exists>w. named = Some (Some w)))"
    and "check_exit_node_edit named policy = Inr Override \<longleftrightarrow>
           enp_allow_override policy \<and> (\<exists>w. named = Some (Some w) \<and> w \<noteq> pinned)"
    and "check_exit_node_edit (Some None) policy = Inl ManagedByPolicy"
  using assms by (auto simp: check_exit_node_edit_def split: option.splits)

text \<open>
  A pinned exit node can be moved only with permission and never turned off: under a policy that
  pins one, an edit is permitted only if it does not name the exit node, or the administrator allows
  an override and the edit names a node; the exemption is granted exactly for a different node.
\<close>

theorem exit_node_edit_gate:
  assumes "enp_pinned policy = Some pinned"
  shows "(is_ok (check_exit_node_edit named policy) \<longleftrightarrow>
           named = None \<or> (enp_allow_override policy \<and> (\<exists>w. named = Some (Some w)))) \<and>
    (check_exit_node_edit named policy = Inr Override \<longleftrightarrow>
           enp_allow_override policy \<and> (\<exists>w. named = Some (Some w) \<and> w \<noteq> pinned)) \<and>
    (check_exit_node_edit (Some None) policy = Inl ManagedByPolicy)"
  by (rule conjI, rule exit_node_edit_gate_parts(1) [OF assms],
      rule conjI, rule exit_node_edit_gate_parts(2) [OF assms],
      rule exit_node_edit_gate_parts(3) [OF assms])

theorem exit_node_edit_gate_witness:
  "check_exit_node_edit (Some None) \<lparr>enp_pinned = Some ''100.64.0.1'', enp_allow_override = True\<rparr> =
     Inl ManagedByPolicy"
  by (rule exit_node_edit_gate [THEN conjunct2, THEN conjunct2]) simp

lemma disconnect_gate_parts:
  shows "is_ok (decide aon over reason profile user) \<longleftrightarrow>
           \<not> aon \<or> over \<and> reason \<noteq> None \<and> reason \<noteq> Some []"
    and "decide aon over reason profile user = Inr (Some rec) \<Longrightarrow>
           aon \<and> over \<and> length (audit_reason rec) \<le> 257 \<and> (\<forall>c \<in> set (audit_reason rec). \<not> is_control c)"
    and "check_disconnect_policy settings Daemon profile user = Inr None"
  by (auto simp: decide_def check_disconnect_policy_def unwrap_or_def audit_details_def Let_def
      sanitize_request_reason_def is_control_def MAX_LOGGED_REASON_def split: if_splits option.splits)

text \<open>
  The disconnect gate: with the always-on key set, an operator's disconnect goes through only
  with the override key and a non-empty reason, and then always with an audit record; the daemon's
  own reconcile is never refused and writes no record. The recorded reason has no control character
  and at most 257 code points.
\<close>

theorem disconnect_gate:
  shows "(is_ok (decide aon over reason profile user) \<longleftrightarrow>
           \<not> aon \<or> over \<and> reason \<noteq> None \<and> reason \<noteq> Some []) \<and>
    (decide aon over reason profile user = Inr (Some rec) \<longrightarrow>
     aon \<and> over \<and> length (audit_reason rec) \<le> 257 \<and> (\<forall>c \<in> set (audit_reason rec). \<not> is_control c)) \<and>
    (check_disconnect_policy settings Daemon profile user = Inr None)"
  by (rule conjI, rule disconnect_gate_parts(1),
      rule conjI, rule impI, erule disconnect_gate_parts(2),
      rule disconnect_gate_parts(3))

theorem disconnect_gate_witness:
  "list_all (\<lambda>c. \<not> is_control c) (audit_reason (audit_details ''default'' None [104, 10, 105]))"
proof -
  have "decide True True (Some [104, 10, 105]) ''default'' None =
        Inr (Some (audit_details ''default'' None [104, 10, 105]))"
    by (simp add: decide_def)
  from disconnect_gate [THEN conjunct2, THEN conjunct1, rule_format, OF this] show ?thesis
    by (simp add: list_all_iff)
qed

lemma can_sshd_fail_closed: "v \<noteq> [] \<Longrightarrow> parse_go_bool v \<noteq> Some False \<Longrightarrow> \<not> can_sshd (Some v)"
  by (auto simp: can_sshd_def split: option.splits)

lemma check_auto_update_pref_iff:
  "check_auto_update_pref a h r = None \<longleftrightarrow> a \<noteq> Some True \<or> h = None"
  by (auto simp: check_auto_update_pref_def)

definition good_tag :: "string \<Rightarrow> bool" where
  "good_tag t = (\<exists>b r. t = ''tag:'' @ b # r \<and> is_ascii_alphabetic b \<and>
     (\<forall>c \<in> set (b # r). is_ascii_alphanumeric c \<or> c = CHR ''-''))"

lemma check_tag_ok: "check_tag t = Inr c \<longleftrightarrow> c = t \<and> good_tag t"
  by (cases "strip_prefix t ''tag:''")
     (auto simp: check_tag_def good_tag_def strip_prefix_def prefix_def list_ex_iff
       split: list.splits if_splits)

lemma complete_good_tag: "good_tag t \<Longrightarrow> complete_tag t = t"
  by (auto simp: good_tag_def complete_tag_def)

text \<open>
  An accepted tag list is well formed and stable: every accepted tag is \<open>tag:\<close> followed by a
  letter and then letters, digits and dashes; completion adds the prefix only where there is no
  colon; and validating the accepted list again returns it unchanged.
\<close>

theorem advertise_tags_stable:
  assumes "complete_and_validate_advertise_tags ts = Inr cs"
  shows "cs = map complete_tag ts \<and> (\<forall>c \<in> set cs. good_tag c) \<and>
         complete_and_validate_advertise_tags cs = Inr cs"
  using assms
proof (induction ts arbitrary: cs)
  case (Cons t ts)
  then obtain c ds where c: "check_tag (complete_tag t) = Inr c"
    and ds: "complete_and_validate_advertise_tags ts = Inr ds" and cs: "cs = c # ds"
    by (cases "check_tag (complete_tag t)"; cases "complete_and_validate_advertise_tags ts") simp_all
  from c have g: "c = complete_tag t" "good_tag c" by (simp_all add: check_tag_ok)
  from g(2) have "check_tag (complete_tag c) = Inr c" by (simp only: complete_good_tag check_tag_ok)
  moreover have "complete_and_validate_advertise_tags ds = Inr ds" using Cons.IH [OF ds] by blast
  ultimately have "complete_and_validate_advertise_tags cs = Inr cs" by (simp add: cs)
  moreover have "cs = map complete_tag (t # ts)" "\<forall>c \<in> set cs. good_tag c"
    using Cons.IH [OF ds] g by (simp_all add: cs)
  ultimately show ?case by blast
qed simp

theorem advertise_tags_stable_witness:
  "complete_and_validate_advertise_tags [''tag:web'', ''tag:db-1''] = Inr [''tag:web'', ''tag:db-1'']"
proof -
  have "complete_and_validate_advertise_tags [''web'', ''tag:db-1''] = Inr [''tag:web'', ''tag:db-1'']"
    by code_simp
  from advertise_tags_stable [OF this] show ?thesis by blast
qed

end
