(* ===== verification/EngineConfig.thy ===== *)
theory EngineConfig
  imports Routes Prefs TunFlag Gates
begin

text \<open>
  \<open>src/src/ipn/config.rs\<close>: the one place where the preferences become the engine's construction
  config. The engine's \<open>Config\<close> is modelled by the fields the daemon sets on it. What the function
  takes from outside the daemon (the environment-aware default config, the key-file loader, the URL
  parser, the prefix parser, the build features, the platform and the uid) is the record
  \<open>build_env\<close>.
\<close>

record engine_config =
  cfg_key_state :: string
  cfg_requested_hostname :: "string option"
  cfg_ephemeral :: bool
  cfg_accept_routes :: bool
  cfg_accept_dns :: bool
  cfg_block_incoming :: bool
  cfg_exit_node :: "string option"
  cfg_advertise_exit_node :: bool
  cfg_advertise_routes :: "ipnet list"
  cfg_requested_tags :: "string list"
  cfg_advertise_app_connector :: bool
  cfg_auto_update_apply :: "bool option"
  cfg_auto_update_check :: bool
  cfg_operator_user :: "string option"
  cfg_node_nickname :: "string option"
  cfg_posture_checking :: bool
  cfg_run_web_client :: bool
  cfg_exit_node_allow_lan_access :: bool
  cfg_allow_http_key_fetch :: bool
  cfg_control_server_url :: string
  cfg_transport :: "(string option \<times> 16 word option) option"
  cfg_taildrop_dir :: "string option"
  cfg_wireguard_listen_port :: "nat option"
  cfg_client_id :: "string option"
  cfg_client_secret :: "string option"
  cfg_id_token :: "string option"
  cfg_audience :: "string option"

datatype config_error =
    KeyFileError string
  | InvalidAdvertiseRoute string
  | InvalidControlUrl string
  | BadUrlScheme string string
  | TunFeatureMissing
  | TunPrivilege candidate_error
  | SshRefused ssh_refusal
  | SshFeatureMissing
  | SshNeedsRoot

record build_env =
  default_from_env :: engine_config
  load_key_file :: "path \<Rightarrow> fs \<Rightarrow> (string, string) result \<times> fs"
  url_scheme :: "string \<Rightarrow> string option"
  be_ipnet :: ipnet_lib
  tun_feature :: bool
  ssh_feature :: bool
  env_goos :: string
  env_euid :: nat
  env_ssh_gate :: "(ssh_refusal, unit) result"
  env_default_tun_name :: "string option"

fun parse_routes :: "ipnet_lib \<Rightarrow> string list \<Rightarrow> (config_error, ipnet list) result" where
  "parse_routes lib [] = Inr []"
| "parse_routes lib (s # ss) =
     (case parse_ipnet lib s of
        None \<Rightarrow> Inl (InvalidAdvertiseRoute s)
      | Some n \<Rightarrow> rbind (parse_routes lib ss) (\<lambda>ns. Inr (n # ns)))"

definition config_fields :: "prefs \<Rightarrow> engine_config \<Rightarrow> engine_config" where
  "config_fields p c =
     c\<lparr>cfg_requested_hostname := hostname p,
       cfg_ephemeral := ephemeral p,
       cfg_accept_routes := accept_routes p,
       cfg_accept_dns := accept_dns p,
       cfg_block_incoming := shields_up p,
       cfg_exit_node := or_else (exit_node p) (cfg_exit_node c),
       cfg_advertise_exit_node := advertise_exit_node p\<rparr>"

definition config_carried :: "prefs \<Rightarrow> engine_config \<Rightarrow> engine_config" where
  "config_carried p c =
     c\<lparr>cfg_requested_tags := advertise_tags p,
       cfg_advertise_app_connector := advertise_app_connector p,
       cfg_auto_update_apply := auto_update_apply p,
       cfg_auto_update_check := auto_update_check p,
       cfg_operator_user := operator_user p,
       cfg_node_nickname := node_nickname p,
       cfg_posture_checking := posture_checking p,
       cfg_run_web_client := run_web_client p,
       cfg_exit_node_allow_lan_access := exit_node_allow_lan_access p\<rparr>"

definition config_control_url :: "build_env \<Rightarrow> prefs \<Rightarrow> engine_config \<Rightarrow> (config_error, engine_config) result" where
  "config_control_url env p c =
     (case control_url p of
        None \<Rightarrow> Inr c
      | Some s \<Rightarrow>
          (case url_scheme env s of
             None \<Rightarrow> Inl (InvalidControlUrl s)
           | Some sch \<Rightarrow>
               if sch = ''http'' \<or> sch = ''https''
               then Inr (c\<lparr>cfg_allow_http_key_fetch := (sch = ''http''), cfg_control_server_url := s\<rparr>)
               else Inl (BadUrlScheme s sch)))"

definition config_tun :: "build_env \<Rightarrow> prefs \<Rightarrow> engine_config \<Rightarrow> (config_error, engine_config) result" where
  "config_tun env p c =
     (if \<not> tun_enabled p then Inr c
      else if \<not> tun_feature env then Inl TunFeatureMissing
      else rbind (map_err TunPrivilege (kernel_tun_privilege (env_goos env) (env_euid env))) (\<lambda>_.
        Inr (c\<lparr>cfg_transport := Some (or_else (tun_name p) (env_default_tun_name env), tun_mtu p)\<rparr>)))"

definition config_ssh :: "build_env \<Rightarrow> prefs \<Rightarrow> engine_config \<Rightarrow> (config_error, engine_config) result" where
  "config_ssh env p c =
     (if \<not> ssh_enabled p then Inr c
      else rbind (map_err SshRefused (env_ssh_gate env)) (\<lambda>_.
        if \<not> ssh_feature env then Inl SshFeatureMissing
        else if env_euid env \<noteq> 0 then Inl SshNeedsRoot
        else Inr c))"

definition build_config ::
  "build_env \<Rightarrow> prefs \<Rightarrow> path \<Rightarrow> nat option \<Rightarrow> fs \<Rightarrow> (config_error, engine_config) result \<times> fs" where
  "build_config env p key_path listen_port f =
     (case load_key_file env key_path f of
        (Inl e, f') \<Rightarrow> (Inl (KeyFileError e), f')
      | (Inr key, f') \<Rightarrow>
          (rbind (parse_routes (be_ipnet env) (advertise_routes p)) (\<lambda>routes.
             let c1 = config_fields p ((default_from_env env)\<lparr>cfg_key_state := key\<rparr>);
                 c2 = config_carried p (c1\<lparr>cfg_advertise_routes := routes\<rparr>)
             in rbind (config_control_url env p c2) (\<lambda>c3.
                rbind (config_tun env p c3) (\<lambda>c4.
                rbind (config_ssh env p c4) (\<lambda>c5.
                  Inr (c5\<lparr>cfg_taildrop_dir := taildrop_dir p,
                          cfg_wireguard_listen_port := listen_port\<rparr>))))),
           f'))"

section \<open>Properties\<close>

lemma parse_routes_ok: "parse_routes lib ss = Inr ns \<longleftrightarrow> map (parse_ipnet lib) ss = map Some ns"
  by (induction ss arbitrary: ns) (auto simp: rbind_eq_Inr split: option.splits)

lemma config_ssh_ok:
  "config_ssh env p c = Inr c' \<longleftrightarrow>
     c' = c \<and> (ssh_enabled p \<longrightarrow> env_ssh_gate env = Inr () \<and> ssh_feature env \<and> env_euid env = 0)"
  by (auto simp: config_ssh_def rbind_eq_Inr split: if_splits)

lemma config_tun_ok:
  "config_tun env p c = Inr c' \<longleftrightarrow>
     c' = c\<lparr>cfg_transport := (if tun_enabled p
              then Some (or_else (tun_name p) (env_default_tun_name env), tun_mtu p) else cfg_transport c)\<rparr> \<and>
     (tun_enabled p \<longrightarrow> tun_feature env \<and> \<not> (env_goos env = ''darwin'' \<and> env_euid env \<noteq> 0))"
  by (auto simp: config_tun_def kernel_tun_privilege_def rbind_eq_Inr split: if_splits)

lemma config_control_url_ok:
  "config_control_url env p c = Inr c' \<Longrightarrow>
     c' = (case control_url p of None \<Rightarrow> c
           | Some s \<Rightarrow> c\<lparr>cfg_allow_http_key_fetch := (url_scheme env s = Some ''http''), cfg_control_server_url := s\<rparr>) \<and>
     (\<forall>s. control_url p = Some s \<longrightarrow> url_scheme env s = Some ''http'' \<or> url_scheme env s = Some ''https'')"
  by (auto simp: config_control_url_def split: option.splits if_splits)

lemma build_config_Inr:
  assumes "fst (build_config env p kp port f) = Inr c"
  obtains key routes c3 c4 where
    "parse_routes (be_ipnet env) (advertise_routes p) = Inr routes"
    "config_control_url env p
       (config_carried p ((config_fields p ((default_from_env env)\<lparr>cfg_key_state := key\<rparr>))
          \<lparr>cfg_advertise_routes := routes\<rparr>)) = Inr c3"
    "config_tun env p c3 = Inr c4" "config_ssh env p c4 = Inr c4"
    "c = c4\<lparr>cfg_taildrop_dir := taildrop_dir p, cfg_wireguard_listen_port := port\<rparr>"
  using assms
  by (cases "load_key_file env kp f"; cases "fst (load_key_file env kp f)")
     (auto simp: build_config_def rbind_eq_Inr config_ssh_ok Let_def)

lemma build_config_faithful_parts:
  assumes "fst (build_config env p kp port f) = Inr c"
  shows "cfg_requested_hostname c = hostname p" "cfg_ephemeral c = ephemeral p"
    "cfg_accept_routes c = accept_routes p" "cfg_accept_dns c = accept_dns p"
    "cfg_block_incoming c = shields_up p" "cfg_advertise_exit_node c = advertise_exit_node p"
    "cfg_requested_tags c = advertise_tags p" "cfg_auto_update_apply c = auto_update_apply p"
    "exit_node p \<noteq> None \<Longrightarrow> cfg_exit_node c = exit_node p"
    "map Some (cfg_advertise_routes c) = map (parse_ipnet (be_ipnet env)) (advertise_routes p)"
    "control_url p = Some u \<Longrightarrow> cfg_control_server_url c = u \<and>
       (cfg_allow_http_key_fetch c \<longleftrightarrow> url_scheme env u = Some ''http'') \<and>
       url_scheme env u \<in> {Some ''http'', Some ''https''}"
    "cfg_transport c = (if tun_enabled p then Some (or_else (tun_name p) (env_default_tun_name env), tun_mtu p)
                        else cfg_transport (default_from_env env))"
    "ssh_enabled p \<Longrightarrow> env_ssh_gate env = Inr () \<and> ssh_feature env \<and> env_euid env = 0"
proof -
  from assms obtain key routes c3 c4 where
    r: "parse_routes (be_ipnet env) (advertise_routes p) = Inr routes" and
    u: "config_control_url env p
       (config_carried p ((config_fields p ((default_from_env env)\<lparr>cfg_key_state := key\<rparr>))
          \<lparr>cfg_advertise_routes := routes\<rparr>)) = Inr c3" and
    t: "config_tun env p c3 = Inr c4" and s: "config_ssh env p c4 = Inr c4" and
    c: "c = c4\<lparr>cfg_taildrop_dir := taildrop_dir p, cfg_wireguard_listen_port := port\<rparr>"
    by (rule build_config_Inr)
  note facts = config_control_url_ok [OF u] t [unfolded config_tun_ok] c parse_routes_ok [of "be_ipnet env"] r
    config_fields_def config_carried_def
  show "cfg_requested_hostname c = hostname p" "cfg_ephemeral c = ephemeral p"
    "cfg_accept_routes c = accept_routes p" "cfg_accept_dns c = accept_dns p"
    "cfg_block_incoming c = shields_up p" "cfg_advertise_exit_node c = advertise_exit_node p"
    "cfg_requested_tags c = advertise_tags p" "cfg_auto_update_apply c = auto_update_apply p"
    using facts by (simp_all split: option.splits)
  show "exit_node p \<noteq> None \<Longrightarrow> cfg_exit_node c = exit_node p" using facts by (auto split: option.splits)
  show "map Some (cfg_advertise_routes c) = map (parse_ipnet (be_ipnet env)) (advertise_routes p)"
    using facts by (simp split: option.splits)
  show "control_url p = Some u \<Longrightarrow> cfg_control_server_url c = u \<and>
       (cfg_allow_http_key_fetch c \<longleftrightarrow> url_scheme env u = Some ''http'') \<and>
       url_scheme env u \<in> {Some ''http'', Some ''https''}" using facts by simp
  show "cfg_transport c = (if tun_enabled p then Some (or_else (tun_name p) (env_default_tun_name env), tun_mtu p)
                        else cfg_transport (default_from_env env))"
    using facts by (simp split: option.splits)
  show "ssh_enabled p \<Longrightarrow> env_ssh_gate env = Inr () \<and> ssh_feature env \<and> env_euid env = 0"
    using s by (simp add: config_ssh_ok)
qed

text \<open>
  A config that is built is faithful and safe: it carries the preferences verbatim, the plain-HTTP
  key fetch is enabled for a configured control URL exactly when its scheme is \<open>http\<close> (any scheme but
  \<open>http\<close> and \<open>https\<close> is refused), the kernel TUN transport is selected exactly when it was asked
  for (never a silent fall-back), and a config for an SSH-enabled node exists only where the host
  allows SSH, the build has it and the daemon is root.
\<close>

theorem build_config_faithful:
  assumes "fst (build_config env p kp port f) = Inr c"
  shows "(cfg_requested_hostname c = hostname p) \<and>
    (cfg_ephemeral c = ephemeral p) \<and>
    (cfg_accept_routes c = accept_routes p) \<and>
    (cfg_accept_dns c = accept_dns p) \<and>
    (cfg_block_incoming c = shields_up p) \<and>
    (cfg_advertise_exit_node c = advertise_exit_node p) \<and>
    (cfg_requested_tags c = advertise_tags p) \<and>
    (cfg_auto_update_apply c = auto_update_apply p) \<and>
    (exit_node p \<noteq> None \<longrightarrow>
     cfg_exit_node c = exit_node p) \<and>
    (map Some (cfg_advertise_routes c) = map (parse_ipnet (be_ipnet env)) (advertise_routes p)) \<and>
    (control_url p = Some u \<longrightarrow>
     (cfg_control_server_url c = u \<and>
       (cfg_allow_http_key_fetch c \<longleftrightarrow> url_scheme env u = Some ''http'') \<and>
       url_scheme env u \<in> {Some ''http'', Some ''https''})) \<and>
    (cfg_transport c = (if tun_enabled p then Some (or_else (tun_name p) (env_default_tun_name env), tun_mtu p)
                        else cfg_transport (default_from_env env))) \<and>
    (ssh_enabled p \<longrightarrow>
     env_ssh_gate env = Inr () \<and> ssh_feature env \<and> env_euid env = 0)"
  by (rule conjI, rule build_config_faithful_parts(1) [OF assms],
      rule conjI, rule build_config_faithful_parts(2) [OF assms],
      rule conjI, rule build_config_faithful_parts(3) [OF assms],
      rule conjI, rule build_config_faithful_parts(4) [OF assms],
      rule conjI, rule build_config_faithful_parts(5) [OF assms],
      rule conjI, rule build_config_faithful_parts(6) [OF assms],
      rule conjI, rule build_config_faithful_parts(7) [OF assms],
      rule conjI, rule build_config_faithful_parts(8) [OF assms],
      rule conjI, rule impI, erule build_config_faithful_parts(9) [OF assms],
      rule conjI, rule build_config_faithful_parts(10) [OF assms],
      rule conjI, rule impI, erule build_config_faithful_parts(11) [OF assms],
      rule conjI, rule build_config_faithful_parts(12) [OF assms],
      rule impI, erule build_config_faithful_parts(13) [OF assms])

text \<open>A build environment for the witnesses: an unprivileged Linux daemon without optional features.\<close>

definition demo_engine_config :: engine_config where
  "demo_engine_config =
     \<lparr>cfg_key_state = [], cfg_requested_hostname = None, cfg_ephemeral = False, cfg_accept_routes = False,
      cfg_accept_dns = True, cfg_block_incoming = False, cfg_exit_node = None, cfg_advertise_exit_node = False,
      cfg_advertise_routes = [], cfg_requested_tags = [], cfg_advertise_app_connector = False,
      cfg_auto_update_apply = None, cfg_auto_update_check = True, cfg_operator_user = None,
      cfg_node_nickname = None, cfg_posture_checking = False, cfg_run_web_client = False,
      cfg_exit_node_allow_lan_access = False, cfg_allow_http_key_fetch = False,
      cfg_control_server_url = ''https://controlplane.tailscale.com'', cfg_transport = None,
      cfg_taildrop_dir = None, cfg_wireguard_listen_port = None, cfg_client_id = None, cfg_client_secret = None,
      cfg_id_token = None, cfg_audience = None\<rparr>"

definition demo_build_env :: build_env where
  "demo_build_env =
     \<lparr>default_from_env = demo_engine_config,
      load_key_file = (\<lambda>kp f. case f kp of None \<Rightarrow> (Inr ''fresh'', f(kp \<mapsto> ''fresh'')) | Some k \<Rightarrow> (Inr k, f)),
      url_scheme = (\<lambda>s. if prefix ''http://'' s then Some ''http'' else if prefix ''https://'' s then Some ''https'' else None),
      be_ipnet = demo_ipnet, tun_feature = False, ssh_feature = False, env_goos = ''linux'', env_euid = 1000,
      env_ssh_gate = Inr (), env_default_tun_name = None\<rparr>"

theorem build_config_faithful_witness:
  "\<exists>c. fst (build_config demo_build_env (default_prefs\<lparr>control_url := Some ''http://hs:8080'', shields_up := True\<rparr>)
          [''k''] None (\<lambda>_. None)) = Inr c \<and> cfg_block_incoming c \<and> cfg_allow_http_key_fetch c"
proof -
  let ?p = "default_prefs\<lparr>control_url := Some ''http://hs:8080'', shields_up := True\<rparr>"
  have "is_ok (fst (build_config demo_build_env ?p [''k''] None (\<lambda>_. None)))"
    by (simp add: build_config_def demo_build_env_def default_prefs_def config_control_url_def config_tun_def
        config_ssh_def Let_def)
  then obtain c where c: "fst (build_config demo_build_env ?p [''k''] None (\<lambda>_. None)) = Inr c"
    by (auto simp: is_ok_iff)
  show ?thesis
    using build_config_faithful [OF c, of "''http://hs:8080''"] c by (auto simp: demo_build_env_def)
qed

end
