(* ===== verification/Profile.thy ===== *)
theory Profile
  imports Prefs BTree
begin

text \<open>
  \<open>src/src/ipn/profile.rs\<close>: the login profiles of a state directory. Every profile owns a preference
  file and a key file; \<open>current-profile\<close> points at the active one and \<open>profiles.json\<close> names them.
  The JSON codec of the metadata map is \<open>serde_json\<close>'s and a parameter; the random bytes of a new
  profile id are the argument of the drawing loop.
\<close>

definition DEFAULT_PROFILE_ID :: string where
  "DEFAULT_PROFILE_ID = ''default''"

record ProfileMeta =
  meta_name :: string

type_synonym profiles = "ProfileMeta btree"

record json_profiles =
  profiles_to_json :: "profiles \<Rightarrow> string"
  profiles_of_json :: "string \<Rightarrow> profiles option"

definition is_valid_profile_id :: "string \<Rightarrow> bool" where
  "is_valid_profile_id pid =
     (pid \<noteq> [] \<and> length pid \<le> 64 \<and>
      list_all (\<lambda>c. is_ascii_alphanumeric c \<or> c = CHR ''-'' \<or> c = CHR ''_'') pid)"

definition resolve_target_to_id :: "string \<Rightarrow> profiles \<Rightarrow> string option" where
  "resolve_target_to_id target meta =
     (if is_valid_profile_id target \<and> (target = DEFAULT_PROFILE_ID \<or> bt_contains_key meta target)
      then Some target
      else map_option fst (find (\<lambda>(pid, m). meta_name m = target \<and> is_valid_profile_id pid) meta))"

definition no_profile_named :: "string \<Rightarrow> string" where
  "no_profile_named target = ''No profile named '' @ debug_str target"

text \<open>Two random bytes as four lower-case hexadecimal digits.\<close>

definition hex4 :: "nat \<Rightarrow> nat \<Rightarrow> string" where
  "hex4 hi lo = [hex_char (hi div 16), hex_char (hi mod 16), hex_char (lo div 16), hex_char (lo mod 16)]"

text \<open>
  The loop of \<open>unused_profile_id\<close>, at most \<open>fuel\<close> draws; \<open>draws i\<close> is what the \<open>i\<close>-th draw
  returned, \<open>None\<close> an entropy error. The source's bound is 256.
\<close>

fun draw_profile_id :: "nat \<Rightarrow> nat \<Rightarrow> profiles \<Rightarrow> (nat \<Rightarrow> (nat \<times> nat) option) \<Rightarrow> (unit, string option) result" where
  "draw_profile_id 0 i meta draws = Inr None"
| "draw_profile_id (Suc fuel) i meta draws =
     (case draws i of
        None \<Rightarrow> Inl ()
      | Some (hi, lo) \<Rightarrow>
          if resolve_target_to_id (hex4 hi lo) meta = None then Inr (Some (hex4 hi lo))
          else draw_profile_id fuel (i + 1) meta draws)"

definition unused_profile_id :: "profiles \<Rightarrow> (nat \<Rightarrow> (nat \<times> nat) option) \<Rightarrow> (unit, string option) result" where
  "unused_profile_id meta draws = draw_profile_id 256 0 meta draws"

definition profile_paths :: "path \<Rightarrow> string \<Rightarrow> path \<times> path" where
  "profile_paths state_dir pid =
     (if pid = DEFAULT_PROFILE_ID then (state_dir @ [''prefs.json''], state_dir @ [''node.key.json''])
      else let dir = state_dir @ [''profiles'', pid] in (dir @ [''prefs.json''], dir @ [''node.key.json'']))"

definition current_profile_path :: "path \<Rightarrow> path" where
  "current_profile_path state_dir = state_dir @ [''current-profile'']"

definition profiles_file_path :: "path \<Rightarrow> path" where
  "profiles_file_path state_dir = state_dir @ [''profiles.json'']"

definition load_current_profile :: "io_env \<Rightarrow> path \<Rightarrow> fs \<Rightarrow> string" where
  "load_current_profile io state_dir f =
     (case fs_read io (current_profile_path state_dir) f of
        ReadOk s \<Rightarrow> (let pid = trim s in if is_valid_profile_id pid then pid else DEFAULT_PROFILE_ID)
      | ReadNotFound \<Rightarrow> DEFAULT_PROFILE_ID
      | ReadError \<Rightarrow> DEFAULT_PROFILE_ID)"

definition save_current_profile :: "io_env \<Rightarrow> path \<Rightarrow> string \<Rightarrow> fs \<Rightarrow> bool \<times> fs" where
  "save_current_profile io state_dir pid f =
     (if mkdir_fails io state_dir then (False, f)
      else atomic_write io (current_profile_path state_dir) pid f)"

definition load_profiles_file :: "io_env \<Rightarrow> json_profiles \<Rightarrow> path \<Rightarrow> fs \<Rightarrow> profiles" where
  "load_profiles_file io js state_dir f =
     (case fs_read io (profiles_file_path state_dir) f of
        ReadOk b \<Rightarrow> unwrap_or (profiles_of_json js b) []
      | ReadNotFound \<Rightarrow> []
      | ReadError \<Rightarrow> [])"

definition save_profiles_file :: "io_env \<Rightarrow> json_profiles \<Rightarrow> path \<Rightarrow> profiles \<Rightarrow> fs \<Rightarrow> bool \<times> fs" where
  "save_profiles_file io js state_dir meta f =
     (if mkdir_fails io state_dir then (False, f)
      else atomic_write io (profiles_file_path state_dir) (profiles_to_json js meta) f)"

section \<open>Properties\<close>

lemma default_id_valid: "is_valid_profile_id DEFAULT_PROFILE_ID"
  by code_simp

lemma resolve_target_valid: "resolve_target_to_id target meta = Some pid \<Longrightarrow> is_valid_profile_id pid"
  by (auto simp: resolve_target_to_id_def find_Some_iff split: if_splits)

lemma load_current_profile_valid: "is_valid_profile_id (load_current_profile io sd f)"
  by (auto simp: load_current_profile_def Let_def default_id_valid split: read_outcome.split)

lemma hex_char_alnum: "d < 16 \<Longrightarrow> is_ascii_alphanumeric (hex_char d)"
  by (simp add: hex_char_def is_ascii_alphanumeric_def is_ascii_digit_def is_ascii_alphabetic_def byte_char_of)

lemma hex4_valid: "hi < 256 \<Longrightarrow> lo < 256 \<Longrightarrow> is_valid_profile_id (hex4 hi lo)"
  by (simp add: is_valid_profile_id_def hex4_def hex_char_alnum)

lemma draw_profile_id_fresh:
  "draw_profile_id fuel i meta draws = Inr (Some pid) \<Longrightarrow> \<forall>j hi lo. draws j = Some (hi, lo) \<longrightarrow> hi < 256 \<and> lo < 256 \<Longrightarrow>
     is_valid_profile_id pid \<and> resolve_target_to_id pid meta = None"
  by (induction fuel i meta draws rule: draw_profile_id.induct)
     (auto split: option.splits prod.splits if_splits simp: hex4_valid)

text \<open>A valid id is a single path component: no separator, and not one of the two dot names.\<close>

lemma valid_id_component:
  assumes "is_valid_profile_id pid"
  shows "CHR ''/'' \<notin> set pid" "pid \<noteq> ''.''" "pid \<noteq> ''..''"
proof -
  have no: "\<not> is_ascii_alphanumeric (CHR ''/'')" "\<not> is_ascii_alphanumeric (CHR ''.'')" by code_simp+
  show "CHR ''/'' \<notin> set pid" using assms no by (auto simp: is_valid_profile_id_def list_all_iff)
  show "pid \<noteq> ''.''" "pid \<noteq> ''..''" using assms no by (auto simp: is_valid_profile_id_def)
qed

lemma profile_paths_inj:
  assumes "a \<noteq> b" "is_valid_profile_id a" "is_valid_profile_id b"
  shows "{fst (profile_paths sd a), snd (profile_paths sd a)} \<inter>
         {fst (profile_paths sd b), snd (profile_paths sd b)} = {}"
  using assms by (auto simp: profile_paths_def Let_def)

lemma profile_ids_safe_parts:
  shows "resolve_target_to_id target meta = Some pid \<Longrightarrow> is_valid_profile_id pid"
    and "unused_profile_id meta draws = Inr (Some pid) \<Longrightarrow>
           \<forall>j hi lo. draws j = Some (hi, lo) \<longrightarrow> hi < 256 \<and> lo < 256 \<Longrightarrow>
           is_valid_profile_id pid \<and> resolve_target_to_id pid meta = None"
    and "is_valid_profile_id (load_current_profile io sd f)"
    and "is_valid_profile_id pid \<Longrightarrow> CHR ''/'' \<notin> set pid \<and> pid \<noteq> ''.'' \<and> pid \<noteq> ''..''"
  by (auto simp: unused_profile_id_def
      intro: resolve_target_valid load_current_profile_valid dest: draw_profile_id_fresh valid_id_component)

text \<open>
  No profile operation escapes the state directory: every id a switch or removal target resolves
  to, every id a fresh profile is given and the id read from the pointer file (whatever it contains)
  is a single safe path component, and a fresh id resolves to no existing profile, neither as an id
  nor as a nickname.
\<close>

theorem profile_ids_safe:
  shows "(resolve_target_to_id target meta = Some pid \<longrightarrow>
     is_valid_profile_id pid) \<and>
    (unused_profile_id meta draws = Inr (Some pid) \<and> (\<forall>j hi lo. draws j = Some (hi, lo) \<longrightarrow> hi < 256 \<and> lo < 256) \<longrightarrow>
     is_valid_profile_id pid \<and> resolve_target_to_id pid meta = None) \<and>
    (is_valid_profile_id (load_current_profile io sd f)) \<and>
    (is_valid_profile_id pid \<longrightarrow>
     CHR ''/'' \<notin> set pid \<and> pid \<noteq> ''.'' \<and> pid \<noteq> ''..'')"
  by (rule conjI, rule impI, erule profile_ids_safe_parts(1),
      rule conjI, rule impI, elim conjE, rule profile_ids_safe_parts(2), assumption+,
      rule conjI, rule profile_ids_safe_parts(3),
      rule impI, erule profile_ids_safe_parts(4))

theorem profile_ids_safe_witness:
  "is_valid_profile_id ''work'' \<and> CHR ''/'' \<notin> set ''work''"
proof -
  have "resolve_target_to_id ''Work laptop'' [(''../x'', \<lparr>meta_name = ''Work laptop''\<rparr>), (''work'', \<lparr>meta_name = ''Work laptop''\<rparr>)]
        = Some ''work''"
    by code_simp
  from profile_ids_safe [THEN conjunct1, rule_format, OF this] show ?thesis by simp
qed

text \<open>
  Profiles do not share files: the preference and key files of two different profiles are four
  different paths, so saving one profile leaves the other's files alone.
\<close>

theorem profile_files_disjoint:
  assumes "a \<noteq> b" "is_valid_profile_id a" "is_valid_profile_id b"
  shows "{fst (profile_paths sd a), snd (profile_paths sd a)} \<inter>
         {fst (profile_paths sd b), snd (profile_paths sd b)} = {}"
  by (rule profile_paths_inj [OF assms])

theorem profile_files_disjoint_witness:
  "{fst (profile_paths [''var''] ''default''), snd (profile_paths [''var''] ''default'')} \<inter>
   {fst (profile_paths [''var''] ''work''), snd (profile_paths [''var''] ''work'')} = {}"
  by (rule profile_files_disjoint) code_simp+

end
