(* ===== verification/State.thy ===== *)
theory State
  imports Prelude
begin

text \<open>
  \<open>src/src/ipn/state.rs\<close>: the lifecycle state reported to clients. With a live engine the
  state is read off the engine's own device state (\<open>state_from_device\<close>); without one it is
  derived from the persisted intent (\<open>derive_state_from\<close>).

  The engine's \<open>DeviceState\<close> is a type of the engine library: its constructors are the ones the
  source matches on, with \<open>OtherDeviceState\<close> for the \<open>#[non_exhaustive]\<close> rest. A registration
  error is an opaque value of the engine; the daemon observes exactly two things of it, whether it
  is permanent and its text, and these two are its model.
\<close>

datatype state =
    NoState | NeedsLogin | NeedsMachineAuth | InUseOtherUser | Starting | Running | Stopped

definition as_str :: "state \<Rightarrow> string" where
  "as_str s = (case s of
       NoState \<Rightarrow> ''NoState''
     | NeedsLogin \<Rightarrow> ''NeedsLogin''
     | NeedsMachineAuth \<Rightarrow> ''NeedsMachineAuth''
     | InUseOtherUser \<Rightarrow> ''InUseOtherUser''
     | Starting \<Rightarrow> ''Starting''
     | Running \<Rightarrow> ''Running''
     | Stopped \<Rightarrow> ''Stopped'')"

record registration_error =
  is_permanent :: bool
  error_text :: string

datatype device_state =
    DevRunning
  | DevConnecting
  | DevNeedsLogin string
  | DevNeedsMachineAuth
  | DevReauthenticating
  | DevExpired
  | DevFailed registration_error
  | OtherDeviceState

definition derive_state_from :: "bool \<Rightarrow> bool \<Rightarrow> bool \<Rightarrow> bool \<Rightarrow> bool \<Rightarrow> state" where
  "derive_state_from has_device have_self_node want_running logged_out has_node_key =
     (if has_device then (if have_self_node then Running else Starting)
      else if logged_out then NeedsLogin
      else if want_running then NeedsLogin
      else if has_node_key then Stopped
      else NoState)"

fun state_from_device :: "device_state \<Rightarrow> state \<times> string option \<times> string option" where
  "state_from_device DevRunning = (Running, None, None)"
| "state_from_device DevConnecting = (Starting, None, None)"
| "state_from_device (DevNeedsLogin url) = (NeedsLogin, Some url, None)"
| "state_from_device DevNeedsMachineAuth = (NeedsMachineAuth, None, None)"
| "state_from_device DevReauthenticating = (Starting, None, None)"
| "state_from_device DevExpired = (NeedsLogin, None, None)"
| "state_from_device (DevFailed e) =
     (if is_permanent e then (NeedsLogin, None, Some (error_text e)) else (Starting, None, None))"
| "state_from_device OtherDeviceState = (Starting, None, None)"

text \<open>\<open>lowest_free_utun\<close> (macOS): the least index not used by an existing \<open>utunN\<close> interface.\<close>

fun parse_u32 :: "string \<Rightarrow> nat option" where
  "parse_u32 s =
     (let ds = (case s of c # cs \<Rightarrow> if c = CHR ''+'' then cs else s | [] \<Rightarrow> s) in
      if ds = [] \<or> \<not> list_all is_ascii_digit ds \<or> 2 ^ 32 \<le> digits_val 0 ds then None
      else Some (digits_val 0 ds))"

definition used_utun :: "string list \<Rightarrow> nat list" where
  "used_utun ifaces =
     List.map_filter (\<lambda>i. case strip_prefix i ''utun'' of None \<Rightarrow> None | Some n \<Rightarrow> parse_u32 n) ifaces"

text \<open>
  The source searches \<open>0..\<close> without a bound; \<open>length used + 1\<close> candidates always contain a free
  one, so the search over them is the same search.
\<close>

definition lowest_free_utun :: "string list \<Rightarrow> string" where
  "lowest_free_utun ifaces =
     (let used = used_utun ifaces in
      case find (\<lambda>n. n \<notin> set used) [0..<Suc (length used)] of
        Some n \<Rightarrow> ''utun'' @ dec_string n
      | None \<Rightarrow> [])"

definition default_tun_name :: "bool \<Rightarrow> string list \<Rightarrow> string option" where
  "default_tun_name macos ifaces = (if macos then Some (lowest_free_utun ifaces) else None)"

section \<open>Properties\<close>

lemma as_str_inj: "as_str a = as_str b \<longleftrightarrow> a = b"
  by (cases a; cases b) (simp_all add: as_str_def)

lemma state_from_device_coherent_parts:
  shows "(\<exists>s. state_from_device ds = (s, Some url, err)) \<longleftrightarrow> ds = DevNeedsLogin url \<and> err = None"
    and "(\<exists>s u. state_from_device ds = (s, u, Some msg)) \<longleftrightarrow>
           (\<exists>e. ds = DevFailed e \<and> is_permanent e \<and> error_text e = msg)"
    and "fst (state_from_device ds) = Running \<longleftrightarrow> ds = DevRunning"
    and "fst (state_from_device ds) = NeedsLogin \<longleftrightarrow>
           (\<exists>u. ds = DevNeedsLogin u) \<or> ds = DevExpired \<or> (\<exists>e. ds = DevFailed e \<and> is_permanent e)"
    and "fst (state_from_device ds) \<notin> {NoState, InUseOtherUser, Stopped}"
  by (cases ds; auto)+

text \<open>
  The engine-driven report is coherent: an auth URL is reported only with the state
  \<open>NeedsLogin\<close> and only for a pending interactive login, an error only with \<open>NeedsLogin\<close> and
  only for a permanent registration failure, and never both; a transient failure, a key rotation in
  progress and an unknown engine state are all \<open>Starting\<close>, with neither.
\<close>

theorem state_from_device_coherent:
  shows "((\<exists>s. state_from_device ds = (s, Some url, err)) \<longleftrightarrow> ds = DevNeedsLogin url \<and> err = None) \<and>
    ((\<exists>s u. state_from_device ds = (s, u, Some msg)) \<longleftrightarrow>
           (\<exists>e. ds = DevFailed e \<and> is_permanent e \<and> error_text e = msg)) \<and>
    (fst (state_from_device ds) = Running \<longleftrightarrow> ds = DevRunning) \<and>
    (fst (state_from_device ds) = NeedsLogin \<longleftrightarrow>
           (\<exists>u. ds = DevNeedsLogin u) \<or> ds = DevExpired \<or> (\<exists>e. ds = DevFailed e \<and> is_permanent e)) \<and>
    (fst (state_from_device ds) \<notin> {NoState, InUseOtherUser, Stopped})"
  by (rule conjI, rule state_from_device_coherent_parts(1),
      rule conjI, rule state_from_device_coherent_parts(2),
      rule conjI, rule state_from_device_coherent_parts(3),
      rule conjI, rule state_from_device_coherent_parts(4),
      rule state_from_device_coherent_parts(5))

text \<open>
  The persisted-intent derivation: a node with no engine that is not wanted up is \<open>Stopped\<close>
  exactly when it holds a node key and has not logged out; \<open>NeedsMachineAuth\<close> and
  \<open>InUseOtherUser\<close> are never derived.
\<close>

lemma derive_state_from_stopped:
  "derive_state_from dev self want out key = Stopped \<longleftrightarrow> \<not> dev \<and> \<not> out \<and> \<not> want \<and> key"
  by (simp add: derive_state_from_def)

lemma derive_state_from_range:
  "derive_state_from dev self want out key \<in> {NoState, NeedsLogin, Starting, Running, Stopped}"
  by (simp add: derive_state_from_def)

lemma used_utun_length: "length (used_utun ifaces) \<le> length ifaces"
  by (induction ifaces) (auto simp: used_utun_def List.map_filter_simps split: option.splits)

lemma exists_free: "\<exists>n \<in> set [0..<Suc (length xs)]. n \<notin> set (xs :: nat list)"
proof (rule ccontr)
  assume "\<not> ?thesis"
  then have "{0..<Suc (length xs)} \<subseteq> set xs" by (auto simp del: upt_Suc)
  then have "Suc (length xs) \<le> card (set xs)"
    by (metis card_atLeastLessThan card_mono diff_zero List.finite_set)
  then show False using card_length [of xs] by simp
qed

lemma find_upt_least:
  assumes "find P [0..<m] = Some n"
  shows "P n" "\<And>k. k < n \<Longrightarrow> \<not> P k"
  using assms by (auto simp: find_Some_iff)

text \<open>The interface name chosen on macOS is free, and every lower index is taken.\<close>

lemma lowest_free_utun_least:
  "\<exists>n. lowest_free_utun ifaces = ''utun'' @ dec_string n \<and> n \<notin> set (used_utun ifaces) \<and>
       (\<forall>k<n. k \<in> set (used_utun ifaces))"
proof -
  let ?P = "\<lambda>n. n \<notin> set (used_utun ifaces)" and ?xs = "[0..<Suc (length (used_utun ifaces))]"
  have "find ?P ?xs \<noteq> None"
    using exists_free [of "used_utun ifaces"] by (simp only: find_None_iff) blast
  then obtain n where n: "find ?P ?xs = Some n" by blast
  have "?P n" and "\<And>k. k < n \<Longrightarrow> \<not> ?P k"
    using find_upt_least [OF n] by blast+
  moreover have "lowest_free_utun ifaces = ''utun'' @ dec_string n"
    by (simp only: lowest_free_utun_def Let_def n option.case)
  ultimately show ?thesis by blast
qed

end
