(* ===== verification/ExitNode.thy ===== *)
theory ExitNode
  imports StdNet State
begin

text \<open>
  The resolution of an operator-supplied exit node against the netmap (\<open>ExitNodeFacts\<close>,
  \<open>peer_matches_exit_node_name\<close>, \<open>resolve_exit_node_arg\<close> of \<open>src/src/ipn/mod.rs\<close>), with one error
  constructor per refusal. The netmap view is the part of the status report the resolution reads.
\<close>

record PeerReport =
  peer_name :: string
  peer_ipv4 :: string
  peer_ipv6 :: "string option"
  peer_is_exit_node :: bool

record StatusReport =
  st_state :: string
  st_self_ipv4 :: "string option"
  st_self_ipv6 :: "string option"
  st_magic_dns_suffix :: "string option"
  st_peers :: "PeerReport list"

record ExitNodeFacts =
  facts_running :: bool
  facts_self_ips :: "ipaddr list"
  facts_magic_dns_suffix :: "string option"
  facts_peers :: "PeerReport list"

definition option_list :: "'a option \<Rightarrow> 'a list" where
  "option_list x = (case x of None \<Rightarrow> [] | Some a \<Rightarrow> [a])"

definition facts_default :: ExitNodeFacts where
  "facts_default = \<lparr>facts_running = False, facts_self_ips = [], facts_magic_dns_suffix = None, facts_peers = []\<rparr>"

definition from_status :: "StatusReport \<Rightarrow> ExitNodeFacts" where
  "from_status st =
     \<lparr>facts_running = (st_state st = as_str Running),
      facts_self_ips = List.map_filter parse_ipaddr (option_list (st_self_ipv4 st) @ option_list (st_self_ipv6 st)),
      facts_magic_dns_suffix = st_magic_dns_suffix st,
      facts_peers = st_peers st\<rparr>"

text \<open>\<open>strip_suffix('.').unwrap_or(s)\<close>.\<close>

definition strip_dot :: "string \<Rightarrow> string" where
  "strip_dot s = unwrap_or (strip_suffix s ''.'') s"

text \<open>\<open>str::get\<close> answers \<open>None\<close> when the cut is inside a multi-byte character.\<close>

definition is_char_boundary :: "string \<Rightarrow> nat \<Rightarrow> bool" where
  "is_char_boundary s i =
     (i = 0 \<or> i = length s \<or> i < length s \<and> \<not> (128 \<le> byte (s ! i) \<and> byte (s ! i) < 192))"

definition peer_matches_exit_node_name :: "PeerReport \<Rightarrow> string \<Rightarrow> string option \<Rightarrow> bool" where
  "peer_matches_exit_node_name peer arg magic_dns_suffix =
     (let want = strip_dot arg; fqdn = strip_dot (peer_name peer) in
      if eq_ignore_ascii_case want fqdn then True
      else case magic_dns_suffix of
        None \<Rightarrow> False
      | Some suffix0 \<Rightarrow>
          (let sfx = strip_dot suffix0 in
           if length fqdn < length sfx + 1 then False
           else let cut = length fqdn - (length sfx + 1) in
             if \<not> is_char_boundary fqdn cut then False
             else let base = take cut fqdn; tail = drop cut fqdn in
               base \<noteq> [] \<and>
               (case strip_prefix tail ''.'' of Some t \<Rightarrow> eq_ignore_ascii_case t sfx | None \<Rightarrow> False) \<and>
               eq_ignore_ascii_case want base))"

definition peer_tailnet_ips :: "PeerReport \<Rightarrow> ipaddr list" where
  "peer_tailnet_ips peer = List.map_filter parse_ipaddr (peer_ipv4 peer # option_list (peer_ipv6 peer))"

definition peer_has_ip :: "PeerReport \<Rightarrow> ipaddr \<Rightarrow> bool" where
  "peer_has_ip peer ip = (ip \<in> set (peer_tailnet_ips peer))"

datatype exit_node_error =
    EmptyExitNode
  | LocalIp string
  | NoNodeWithIp ipaddr
  | IpNotExitNode ipaddr
  | StartingUp
  | NoTailscaleIp string
  | NameNotExitNode string
  | InvalidExitNode string
  | AmbiguousExitNode string

text \<open>The match loop of the name branch: the number of matches and the last resolved address.\<close>

fun match_peers :: "string \<Rightarrow> string option \<Rightarrow> nat \<Rightarrow> ipaddr option \<Rightarrow> PeerReport list \<Rightarrow>
    (exit_node_error, nat \<times> ipaddr option) result" where
  "match_peers arg sfx matched resolved [] = Inr (matched, resolved)"
| "match_peers arg sfx matched resolved (peer # peers) =
     (if \<not> peer_matches_exit_node_name peer arg sfx then match_peers arg sfx matched resolved peers
      else case peer_tailnet_ips peer of
        [] \<Rightarrow> Inl (NoTailscaleIp arg)
      | peer_ip # _ \<Rightarrow>
          if \<not> peer_is_exit_node peer then Inl (NameNotExitNode arg)
          else match_peers arg sfx (matched + 1) (Some peer_ip) peers)"

definition resolve_exit_node_ip :: "string \<Rightarrow> ipaddr \<Rightarrow> ExitNodeFacts \<Rightarrow> (exit_node_error, unit) result" where
  "resolve_exit_node_ip arg ip facts =
     (if ip \<in> set (facts_self_ips facts) then Inl (LocalIp arg)
      else if \<not> facts_running facts then Inr ()
      else case find (\<lambda>p. peer_has_ip p ip) (facts_peers facts) of
        None \<Rightarrow> Inl (NoNodeWithIp ip)
      | Some p \<Rightarrow> if \<not> peer_is_exit_node p then Inl (IpNotExitNode ip) else Inr ())"

definition resolve_exit_node_arg :: "string \<Rightarrow> ExitNodeFacts \<Rightarrow> (exit_node_error, unit) result" where
  "resolve_exit_node_arg arg facts =
     (if arg = [] then Inl EmptyExitNode
      else case parse_ipaddr arg of
        Some ip \<Rightarrow> resolve_exit_node_ip arg ip facts
      | None \<Rightarrow>
          if facts_peers facts = [] then Inl StartingUp
          else case match_peers arg (facts_magic_dns_suffix facts) 0 None (facts_peers facts) of
            Inl e \<Rightarrow> Inl e
          | Inr (matched, resolved) \<Rightarrow>
              if matched = 0 then Inl (InvalidExitNode arg)
              else if matched = 1 then
                (if (case resolved of Some ip \<Rightarrow> ip \<in> set (facts_self_ips facts) | None \<Rightarrow> False)
                 then Inl (LocalIp arg) else Inr ())
              else Inl (AmbiguousExitNode arg))"

section \<open>Properties\<close>

abbreviation matching_peers :: "string \<Rightarrow> string option \<Rightarrow> PeerReport list \<Rightarrow> PeerReport list" where
  "matching_peers arg sfx peers \<equiv> filter (\<lambda>p. peer_matches_exit_node_name p arg sfx) peers"

lemma match_peers_ok:
  "match_peers arg sfx n r peers = Inr (m, r') \<longleftrightarrow>
     (\<forall>p \<in> set (matching_peers arg sfx peers). peer_is_exit_node p \<and> peer_tailnet_ips p \<noteq> []) \<and>
     m = n + length (matching_peers arg sfx peers) \<and>
     r' = (if matching_peers arg sfx peers = [] then r
           else Some (hd (peer_tailnet_ips (last (matching_peers arg sfx peers)))))"
proof (induction arg sfx n r peers rule: match_peers.induct)
  case (2 arg sfx n r peer peers)
  then show ?case by (cases "peer_tailnet_ips peer") auto
qed auto

text \<open>
  An exit node the daemon accepts can carry traffic. By address: it is not one of this machine's
  own, and once the node is running the first peer holding it advertises an exit node. By name:
  exactly one peer of the netmap answers to the name, it advertises an exit node, and its first
  tailnet address is not this machine's own. Conversely such a value is accepted.
\<close>

theorem resolve_exit_node_arg_sound:
  "resolve_exit_node_arg arg facts = Inr () \<longleftrightarrow>
     arg \<noteq> [] \<and>
     (case parse_ipaddr arg of
        Some ip \<Rightarrow>
          ip \<notin> set (facts_self_ips facts) \<and>
          (\<not> facts_running facts \<or>
           (\<exists>p. find (\<lambda>p. peer_has_ip p ip) (facts_peers facts) = Some p \<and> peer_is_exit_node p))
      | None \<Rightarrow>
          (\<exists>p ip rest. matching_peers arg (facts_magic_dns_suffix facts) (facts_peers facts) = [p] \<and>
             peer_is_exit_node p \<and> peer_tailnet_ips p = ip # rest \<and> ip \<notin> set (facts_self_ips facts)))"
proof (cases "parse_ipaddr arg")
  case (Some ip)
  then show ?thesis
    by (auto simp: resolve_exit_node_arg_def resolve_exit_node_ip_def split: option.splits if_splits)
next
  case None
  let ?ms = "matching_peers arg (facts_magic_dns_suffix facts) (facts_peers facts)"
  show ?thesis
  proof (cases "match_peers arg (facts_magic_dns_suffix facts) 0 None (facts_peers facts)")
    case (Inl e)
    then have "\<not> (\<exists>p ip rest. ?ms = [p] \<and> peer_is_exit_node p \<and> peer_tailnet_ips p = ip # rest)"
      using match_peers_ok [of arg "facts_magic_dns_suffix facts" 0 None "facts_peers facts"] by fastforce
    with None Inl show ?thesis by (auto simp: resolve_exit_node_arg_def)
  next
    case (Inr mr)
    obtain m r where mr: "mr = (m, r)" by (cases mr)
    with Inr have ok: "\<forall>p \<in> set ?ms. peer_is_exit_node p \<and> peer_tailnet_ips p \<noteq> []" "m = length ?ms"
      "r = (if ?ms = [] then None else Some (hd (peer_tailnet_ips (last ?ms))))"
      by (simp_all add: match_peers_ok)
    show ?thesis
    proof (cases "\<exists>p. ?ms = [p]")
      case True
      then obtain p where p: "?ms = [p]" by blast
      then have "facts_peers facts \<noteq> []" by auto
      with p ok None Inr mr show ?thesis
        by (cases "peer_tailnet_ips p") (auto simp: resolve_exit_node_arg_def)
    next
      case False
      then have "m \<noteq> 1" using ok(2) by (auto simp: length_Suc_conv)
      with False None Inr mr show ?thesis by (auto simp: resolve_exit_node_arg_def)
    qed
  qed
qed

definition demo_facts :: ExitNodeFacts where
  "demo_facts =
     \<lparr>facts_running = True, facts_self_ips = [V4 1], facts_magic_dns_suffix = Some ''ts.net'',
      facts_peers =
        [\<lparr>peer_name = ''db.ts.net'', peer_ipv4 = show_ipaddr (V4 2), peer_ipv6 = None, peer_is_exit_node = False\<rparr>,
         \<lparr>peer_name = ''gw.ts.net'', peer_ipv4 = show_ipaddr (V4 3), peer_ipv6 = None, peer_is_exit_node = True\<rparr>]\<rparr>"

lemma parse_shown: "parse_ipaddr (show_ipv4 2) = Some (V4 2)" "parse_ipaddr (show_ipv4 3) = Some (V4 3)"
  using parse_show_ipv4 [of 2] parse_show_ipv4 [of 3] by simp_all

lemma show_ipv4_nonempty: "show_ipv4 a \<noteq> []"
  by (simp add: show_ipv4_def)

theorem resolve_exit_node_arg_sound_witness:
  "resolve_exit_node_arg (show_ipaddr (V4 3)) demo_facts = Inr () \<and>
   resolve_exit_node_arg (show_ipaddr (V4 2)) demo_facts \<noteq> Inr ()"
  by (simp add: resolve_exit_node_arg_sound parse_shown demo_facts_def show_ipv4_nonempty peer_tailnet_ips_def
      peer_has_ip_def option_list_def List.map_filter_simps)

end
