(* ===== verification/RevertGuard.thy ===== *)
theory RevertGuard
  imports Gates
begin

text \<open>
  What an \<open>up\<close> or a \<open>set\<close> does to the preferences, and the guard in front of \<open>up\<close>.
  \<open>apply_up_overrides\<close> and \<open>apply_set_overrides\<close> are the override blocks of \<open>begin_up_gated\<close> and
  \<open>begin_set_gated\<close> (\<open>src/src/ipn/mod.rs\<close>): a named option replaces the preference, an unnamed one
  leaves it. \<open>check_accidental_reverts\<close> and \<open>drop_policy_pinned\<close> are \<open>src/src/ipn/revert_guard.rs\<close>.
\<close>

definition apply_up_overrides :: "up_options \<Rightarrow> prefs \<Rightarrow> prefs" where
  "apply_up_overrides u p =
     p\<lparr>hostname := or_else (up_hostname u) (hostname p),
       control_url := or_else (up_control_url u) (control_url p),
       tun_enabled := unwrap_or (up_tun u) (tun_enabled p),
       tun_name := or_else (up_tun_name u) (tun_name p),
       tun_mtu := or_else (up_tun_mtu u) (tun_mtu p),
       exit_node := unwrap_or (up_exit_node u) (exit_node p),
       advertise_exit_node := unwrap_or (up_advertise_exit_node u) (advertise_exit_node p),
       advertise_routes := unwrap_or (up_advertise_routes u) (advertise_routes p),
       advertise_tags := unwrap_or (up_advertise_tags u) (advertise_tags p),
       accept_routes := unwrap_or (up_accept_routes u) (accept_routes p),
       accept_dns := unwrap_or (up_accept_dns u) (accept_dns p),
       ephemeral := unwrap_or (up_ephemeral u) (ephemeral p),
       shields_up := unwrap_or (up_shields_up u) (shields_up p),
       ssh_enabled := unwrap_or (up_ssh u) (ssh_enabled p),
       operator_user := unwrap_or (up_operator u) (operator_user p),
       exit_node_allow_lan_access := unwrap_or (up_exit_node_allow_lan_access u) (exit_node_allow_lan_access p),
       advertise_app_connector := unwrap_or (up_advertise_connector u) (advertise_app_connector p),
       posture_checking := unwrap_or (up_report_posture u) (posture_checking p)\<rparr>"

definition apply_set_overrides :: "set_options \<Rightarrow> prefs \<Rightarrow> prefs" where
  "apply_set_overrides s p =
     p\<lparr>hostname := or_else (set_hostname s) (hostname p),
       accept_routes := unwrap_or (set_accept_routes s) (accept_routes p),
       accept_dns := unwrap_or (set_accept_dns s) (accept_dns p),
       shields_up := unwrap_or (set_shields_up s) (shields_up p),
       exit_node := unwrap_or (set_exit_node s) (exit_node p),
       advertise_exit_node := unwrap_or (set_advertise_exit_node s) (advertise_exit_node p),
       advertise_routes := unwrap_or (set_advertise_routes s) (advertise_routes p),
       advertise_tags := unwrap_or (set_advertise_tags s) (advertise_tags p),
       ssh_enabled := unwrap_or (set_ssh s) (ssh_enabled p),
       advertise_app_connector := unwrap_or (set_advertise_connector s) (advertise_app_connector p),
       auto_update_apply := or_else (set_auto_update s) (auto_update_apply p),
       auto_update_check := unwrap_or (set_update_check s) (auto_update_check p),
       operator_user := unwrap_or (set_operator s) (operator_user p),
       node_nickname := unwrap_or (set_nickname s) (node_nickname p),
       posture_checking := unwrap_or (set_report_posture s) (posture_checking p),
       run_web_client := unwrap_or (set_webclient s) (run_web_client p),
       exit_node_allow_lan_access := unwrap_or (set_exit_node_allow_lan_access s) (exit_node_allow_lan_access p)\<rparr>"

section \<open>The accidental-revert guard\<close>

record RevertedPref =
  rp_key :: string
  rp_value :: string

text \<open>One arm of the guard: the command does not mention the preference and it is not at its default.\<close>

definition revert_arm :: "bool \<Rightarrow> bool \<Rightarrow> string \<Rightarrow> string \<Rightarrow> RevertedPref list" where
  "revert_arm unmentioned non_default key val =
     (if unmentioned \<and> non_default then [\<lparr>rp_key = key, rp_value = val\<rparr>] else [])"

definition check_accidental_reverts :: "prefs \<Rightarrow> up_options \<Rightarrow> bool \<Rightarrow> RevertedPref list" where
  "check_accidental_reverts p u logged_in =
     (if \<not> logged_in then []
      else if \<not> mentions_any_pref u then []
      else let d = default_prefs in
        revert_arm (up_hostname u = None) (hostname p \<noteq> hostname d) ''hostname'' (unwrap_or (hostname p) []) @
        revert_arm (up_control_url u = None) (control_url p \<noteq> control_url d) ''control_url'' (unwrap_or (control_url p) []) @
        revert_arm (up_tun u = None) (tun_enabled p \<noteq> tun_enabled d) ''tun'' (bool_text (tun_enabled p)) @
        revert_arm (up_tun_name u = None) (tun_name p \<noteq> tun_name d) ''tun_name'' (unwrap_or (tun_name p) []) @
        revert_arm (up_tun_mtu u = None) (tun_mtu p \<noteq> tun_mtu d) ''tun_mtu'' (dec_string (unat (unwrap_or (tun_mtu p) 0))) @
        revert_arm (up_exit_node u = None) (exit_node p \<noteq> exit_node d) ''exit_node'' (unwrap_or (exit_node p) []) @
        revert_arm (up_advertise_exit_node u = None) (advertise_exit_node p \<noteq> advertise_exit_node d)
          ''advertise_exit_node'' (bool_text (advertise_exit_node p)) @
        revert_arm (up_advertise_routes u = None) (advertise_routes p \<noteq> advertise_routes d)
          ''advertise_routes'' (join '','' (advertise_routes p)) @
        revert_arm (up_advertise_tags u = None) (advertise_tags p \<noteq> advertise_tags d)
          ''advertise_tags'' (join '','' (advertise_tags p)) @
        revert_arm (up_accept_routes u = None) (accept_routes p \<noteq> accept_routes d)
          ''accept_routes'' (bool_text (accept_routes p)) @
        revert_arm (up_accept_dns u = None) (accept_dns p \<noteq> accept_dns d) ''accept_dns'' (bool_text (accept_dns p)) @
        revert_arm (up_shields_up u = None) (shields_up p \<noteq> shields_up d) ''shields_up'' (bool_text (shields_up p)) @
        revert_arm (up_ssh u = None) (ssh_enabled p \<noteq> ssh_enabled d) ''ssh'' (bool_text (ssh_enabled p)) @
        revert_arm (up_operator u = None) (operator_user p \<noteq> operator_user d) ''operator'' (unwrap_or (operator_user p) []) @
        revert_arm (up_exit_node_allow_lan_access u = None)
          (exit_node_allow_lan_access p \<noteq> exit_node_allow_lan_access d)
          ''exit_node_allow_lan_access'' (bool_text (exit_node_allow_lan_access p)) @
        revert_arm (up_advertise_connector u = None) (advertise_app_connector p \<noteq> advertise_app_connector d)
          ''advertise_connector'' (bool_text (advertise_app_connector p)) @
        revert_arm (up_report_posture u = None) (posture_checking p \<noteq> posture_checking d)
          ''report_posture'' (bool_text (posture_checking p)))"

definition drop_policy_pinned :: "RevertedPref list \<Rightarrow> string list \<Rightarrow> RevertedPref list" where
  "drop_policy_pinned reverts pinned =
     (if pinned = [] then reverts else filter (\<lambda>r. rp_key r \<notin> set pinned) reverts)"

section \<open>Properties\<close>

lemma revert_arm_Nil [simp]: "revert_arm a b k v = [] \<longleftrightarrow> (a \<longrightarrow> \<not> b)"
  by (simp add: revert_arm_def)

lemma override_agrees:
  "or_else x a = or_else x b \<longleftrightarrow> (x = None \<longrightarrow> a = b)"
  "or_else x a = x \<longleftrightarrow> (x = None \<longrightarrow> a = None)"
  "unwrap_or y c = unwrap_or y d \<longleftrightarrow> (y = None \<longrightarrow> c = d)"
  by (cases x; auto)+

lemma prefs_eq_iff:
  "(p :: prefs) = q \<longleftrightarrow>
     want_running p = want_running q \<and> logged_out p = logged_out q \<and> control_url p = control_url q \<and>
     hostname p = hostname q \<and> ephemeral p = ephemeral q \<and> accept_routes p = accept_routes q \<and>
     accept_dns p = accept_dns q \<and> shields_up p = shields_up q \<and> exit_node p = exit_node q \<and>
     advertise_exit_node p = advertise_exit_node q \<and> advertise_routes p = advertise_routes q \<and>
     advertise_tags p = advertise_tags q \<and> ssh_enabled p = ssh_enabled q \<and>
     advertise_app_connector p = advertise_app_connector q \<and> auto_update_apply p = auto_update_apply q \<and>
     auto_update_check p = auto_update_check q \<and> operator_user p = operator_user q \<and>
     node_nickname p = node_nickname q \<and> posture_checking p = posture_checking q \<and>
     run_web_client p = run_web_client q \<and>
     exit_node_allow_lan_access p = exit_node_allow_lan_access q \<and> taildrop_dir p = taildrop_dir q \<and>
     tun_enabled p = tun_enabled q \<and> tun_name p = tun_name q \<and> tun_mtu p = tun_mtu q \<and>
     has_logged_in p = has_logged_in q"
  by (cases p; cases q) auto

text \<open>
  The guard makes the patching \<open>up\<close> equal to a replacing one: for a node that has logged in and
  an \<open>up\<close> that names some preference, the guard lets it through exactly when applying its options to
  the current preferences and applying them to the preferences reset to their defaults give the same
  result. So an accepted \<open>up\<close> has the replace semantics it promises, a refused one would have lost a
  setting, and the guard and \<open>up --reset\<close> cover the same preferences.
\<close>

theorem revert_guard_exact:
  assumes "mentions_any_pref u"
  shows "check_accidental_reverts p u True = [] \<longleftrightarrow>
         apply_up_overrides u p = apply_up_overrides u (reset_up_managed_to_default p)"
proof -
  have merged: "apply_up_overrides u p = apply_up_overrides u (reset_up_managed_to_default p) \<longleftrightarrow>
     (up_hostname u = None \<longrightarrow> hostname p = None) \<and>
     (up_control_url u = None \<longrightarrow> control_url p = None) \<and>
     (up_tun u = None \<longrightarrow> tun_enabled p = False) \<and>
     (up_tun_name u = None \<longrightarrow> tun_name p = None) \<and>
     (up_tun_mtu u = None \<longrightarrow> tun_mtu p = None) \<and>
     (up_exit_node u = None \<longrightarrow> exit_node p = None) \<and>
     (up_advertise_exit_node u = None \<longrightarrow> advertise_exit_node p = False) \<and>
     (up_advertise_routes u = None \<longrightarrow> advertise_routes p = []) \<and>
     (up_advertise_tags u = None \<longrightarrow> advertise_tags p = []) \<and>
     (up_accept_routes u = None \<longrightarrow> accept_routes p = False) \<and>
     (up_accept_dns u = None \<longrightarrow> accept_dns p = True) \<and>
     (up_shields_up u = None \<longrightarrow> shields_up p = False) \<and>
     (up_ssh u = None \<longrightarrow> ssh_enabled p = False) \<and>
     (up_operator u = None \<longrightarrow> operator_user p = None) \<and>
     (up_exit_node_allow_lan_access u = None \<longrightarrow> exit_node_allow_lan_access p = False) \<and>
     (up_advertise_connector u = None \<longrightarrow> advertise_app_connector p = False) \<and>
     (up_report_posture u = None \<longrightarrow> posture_checking p = False)"
    by (simp add: prefs_eq_iff apply_up_overrides_def reset_up_managed_to_default_def default_prefs_def
        Let_def override_agrees)
       (rule iffI; elim conjE; intro conjI; assumption)
  have "check_accidental_reverts p u True = [] \<longleftrightarrow> \<dots>"
    using assms by (simp add: check_accidental_reverts_def default_prefs_def Let_def)
  then show ?thesis by (rule trans [OF _ merged [symmetric]])
qed

theorem revert_guard_exact_witness:
  "check_accidental_reverts (default_prefs\<lparr>shields_up := True\<rparr>) (up_default\<lparr>up_ssh := Some True\<rparr>) True \<noteq> [] \<and>
   apply_up_overrides (up_default\<lparr>up_ssh := Some True\<rparr>) (default_prefs\<lparr>shields_up := True\<rparr>) \<noteq>
   apply_up_overrides (up_default\<lparr>up_ssh := Some True\<rparr>)
     (reset_up_managed_to_default (default_prefs\<lparr>shields_up := True\<rparr>))"
proof -
  have m: "mentions_any_pref (up_default\<lparr>up_ssh := Some True\<rparr>)"
    by (simp add: mentions_any_pref_def)
  then have "check_accidental_reverts (default_prefs\<lparr>shields_up := True\<rparr>) (up_default\<lparr>up_ssh := Some True\<rparr>) True \<noteq> []"
    by (simp add: check_accidental_reverts_def default_prefs_def up_default_def Let_def)
  with revert_guard_exact [OF m] show ?thesis by blast
qed

lemma drop_policy_pinned_keys:
  "set (drop_policy_pinned rs pinned) = {r \<in> set rs. rp_key r \<notin> set pinned}"
  by (simp add: drop_policy_pinned_def)

lemma bare_up_unguarded: "\<not> mentions_any_pref u \<Longrightarrow> check_accidental_reverts p u b = []"
  by (simp add: check_accidental_reverts_def)

text \<open>A bare \<open>up\<close> changes no preference, so exempting it loses nothing.\<close>

lemma bare_up_identity: "\<not> mentions_any_pref u \<Longrightarrow> apply_up_overrides u p = p"
  by (simp add: mentions_any_pref_def apply_up_overrides_def)

lemma empty_set_identity: "set_is_empty s \<Longrightarrow> apply_set_overrides s p = p"
  by (simp add: set_is_empty_def apply_set_overrides_def)

end
