(* ===== verification/Conffile.thy ===== *)
theory Conffile
  imports Gates
begin

text \<open>
  \<open>src/src/conffile.rs\<close>: the declarative \<open>--config\<close> document. The JSON decoder, the URL and prefix
  parsers and the file reads are the fields of \<open>conf_env\<close>; everything after the bytes are decoded
  (the source classification, the \<open>optional:\<close> contract, the validation and the merge into the
  preferences) is translated. The merge works on preferences in place, so \<open>apply_to_prefs_gated\<close>
  returns the verdict together with the preferences it leaves behind, whatever the verdict.
\<close>

record AppConnectorPrefs =
  app_advertise :: bool

record AutoUpdatePrefs =
  au_check :: bool
  au_apply :: "bool option"

record ConfigVAlpha =
  cv_version :: string
  cv_locked :: "bool option"
  cv_server_url :: "string option"
  cv_auth_key :: "string option"
  cv_enabled :: "bool option"
  cv_operator_user :: "string option"
  cv_hostname :: "string option"
  cv_accept_dns :: "bool option"
  cv_accept_routes :: "bool option"
  cv_exit_node :: "string option"
  cv_allow_lan_while_using_exit_node :: "bool option"
  cv_advertise_routes :: "string list option"
  cv_advertise_exit_node :: "bool option"
  cv_disable_snat :: "bool option"
  cv_advertise_services :: "string list"
  cv_app_connector :: "AppConnectorPrefs option"
  cv_netfilter_mode :: "string option"
  cv_no_stateful_filtering :: "bool option"
  cv_posture_checking :: "bool option"
  cv_run_ssh_server :: "bool option"
  cv_run_web_client :: "bool option"
  cv_shields_up :: "bool option"
  cv_remote_config :: "bool option"
  cv_auto_update :: "AutoUpdatePrefs option"
  cv_serve_config_temp :: "string option"
  cv_static_endpoints :: "string list"
  cv_relay_server_port :: "16 word option"
  cv_relay_server_static_endpoints :: "string list"

text \<open>\<open>#[serde(default)]\<close>: the document that sets nothing.\<close>

definition config_default :: ConfigVAlpha where
  "config_default =
     \<lparr>cv_version = [], cv_locked = None, cv_server_url = None, cv_auth_key = None, cv_enabled = None,
      cv_operator_user = None, cv_hostname = None, cv_accept_dns = None, cv_accept_routes = None,
      cv_exit_node = None, cv_allow_lan_while_using_exit_node = None, cv_advertise_routes = None,
      cv_advertise_exit_node = None, cv_disable_snat = None, cv_advertise_services = [],
      cv_app_connector = None, cv_netfilter_mode = None, cv_no_stateful_filtering = None,
      cv_posture_checking = None, cv_run_ssh_server = None, cv_run_web_client = None,
      cv_shields_up = None, cv_remote_config = None, cv_auto_update = None,
      cv_serve_config_temp = None, cv_static_endpoints = [], cv_relay_server_port = None,
      cv_relay_server_static_endpoints = []\<rparr>"

record Config =
  conf_version :: string
  conf_parsed :: ConfigVAlpha

text \<open>
  \<open>read_bytes\<close> is \<open>std::fs::read\<close> and \<open>read_text\<close> is \<open>read_to_string\<close> of an operator-named path
  (\<open>None\<close> on any error); \<open>probe_version\<close> and \<open>parse_valpha\<close> are the two \<open>serde_json\<close> decodings.
\<close>

record conf_env =
  read_bytes :: "string \<Rightarrow> string option"
  read_text :: "string \<Rightarrow> string option"
  probe_version :: "string \<Rightarrow> string option"
  parse_valpha :: "string \<Rightarrow> ConfigVAlpha option"
  conf_url_scheme :: "string \<Rightarrow> string option"
  conf_ipnet :: ipnet_lib

datatype conf_error =
    NoConfig string
  | ConfigNotJson
  | ConfigNoVersion
  | ConfigUnsupportedVersion string
  | ConfigBadServerUrl string
  | ConfigBadServerScheme string string
  | ConfigBadRoutes "RouteError list" "RouteError list"
  | ConfigEmptyExitNode
  | ConfigAutoExitNode string
  | ConfigAutoUpdate "update_refusal \<times> remedy"
  | AuthKeyFileUnreadable string
  | AuthKeyFileEmpty string

fun is_no_config :: "conf_error \<Rightarrow> bool" where
  "is_no_config (NoConfig _) = True"
| "is_no_config _ = False"

section \<open>Sources\<close>

datatype ConfigSource = File string | VmUserData

definition VM_USER_DATA_PATH :: string where
  "VM_USER_DATA_PATH = ''vm:user-data''"

definition OPTIONAL_PREFIX :: string where
  "OPTIONAL_PREFIX = ''optional:''"

definition parse_ConfigSource :: "string \<Rightarrow> ConfigSource" where
  "parse_ConfigSource v = (if v = VM_USER_DATA_PATH then VmUserData else File v)"

fun display_ConfigSource :: "ConfigSource \<Rightarrow> string" where
  "display_ConfigSource (File p) = p"
| "display_ConfigSource VmUserData = VM_USER_DATA_PATH"

record ConfigFlag =
  flag_optional :: bool
  flag_source :: ConfigSource

definition parse_ConfigFlag :: "string \<Rightarrow> ConfigFlag option" where
  "parse_ConfigFlag v =
     (if v = [] then None
      else Some (case strip_prefix v OPTIONAL_PREFIX of
        Some rest \<Rightarrow> \<lparr>flag_optional = True, flag_source = parse_ConfigSource rest\<rparr>
      | None \<Rightarrow> \<lparr>flag_optional = False, flag_source = parse_ConfigSource v\<rparr>))"

definition load_config :: "conf_env \<Rightarrow> ConfigSource \<Rightarrow> (conf_error, Config) result" where
  "load_config env source =
     (case source of
        VmUserData \<Rightarrow> Inl (NoConfig VM_USER_DATA_PATH)
      | File p \<Rightarrow>
          (case read_bytes env p of
             None \<Rightarrow> Inl (NoConfig (display_ConfigSource source))
           | Some raw \<Rightarrow>
               (case probe_version env raw of
                  None \<Rightarrow> Inl ConfigNotJson
                | Some v \<Rightarrow>
                    if v = [] then Inl ConfigNoVersion
                    else if v \<noteq> ''alpha0'' then Inl (ConfigUnsupportedVersion v)
                    else (case parse_valpha env raw of
                            None \<Rightarrow> Inl ConfigNotJson
                          | Some c \<Rightarrow> Inr \<lparr>conf_version = v, conf_parsed = c\<rparr>))))"

definition load_flag :: "conf_env \<Rightarrow> ConfigFlag \<Rightarrow> (conf_error, Config option) result" where
  "load_flag env flag =
     (case load_config env (flag_source flag) of
        Inr c \<Rightarrow> Inr (Some c)
      | Inl e \<Rightarrow> if flag_optional flag \<and> is_no_config e then Inr None else Inl e)"

section \<open>The merge\<close>

definition check_server_url :: "conf_env \<Rightarrow> ConfigVAlpha \<Rightarrow> (conf_error, unit) result" where
  "check_server_url env c =
     (case cv_server_url c of
        None \<Rightarrow> Inr ()
      | Some url \<Rightarrow>
          (case conf_url_scheme env url of
             None \<Rightarrow> Inl (ConfigBadServerUrl url)
           | Some sch \<Rightarrow> if sch = ''http'' \<or> sch = ''https'' then Inr () else Inl (ConfigBadServerScheme url sch)))"

text \<open>The set the document leaves behind, with the refusals split by whose rule each is.\<close>

definition check_routes :: "conf_env \<Rightarrow> ConfigVAlpha \<Rightarrow> prefs \<Rightarrow> (conf_error, unit) result" where
  "check_routes env c p =
     (case calc_advertise_routes (conf_ipnet env)
             (unwrap_or (cv_advertise_routes c) (advertise_routes p))
             (unwrap_or (cv_advertise_exit_node c) (advertise_exit_node p)) of
        Inr _ \<Rightarrow> Inr ()
      | Inl errs \<Rightarrow> Inl (ConfigBadRoutes (filter refused_by_go_config_path errs)
                                        (filter (\<lambda>e. \<not> refused_by_go_config_path e) errs)))"

definition check_exit_node :: "ConfigVAlpha \<Rightarrow> (conf_error, unit) result" where
  "check_exit_node c =
     (case cv_exit_node c of
        None \<Rightarrow> Inr ()
      | Some exit \<Rightarrow>
          (let e = trim exit in
           if e = [] then Inl ConfigEmptyExitNode
           else if starts_with e ''auto:'' then Inl (ConfigAutoExitNode exit)
           else Inr ()))"

definition check_auto_update :: "ConfigVAlpha \<Rightarrow> update_refusal option \<Rightarrow> (conf_error, unit) result" where
  "check_auto_update c host_refusal =
     (case cv_auto_update c of
        None \<Rightarrow> Inr ()
      | Some au \<Rightarrow>
          (case check_auto_update_pref (au_apply au) host_refusal REMEDY_CONFIG of
             None \<Rightarrow> Inr ()
           | Some e \<Rightarrow> Inl (ConfigAutoUpdate e)))"

definition check_config :: "conf_env \<Rightarrow> ConfigVAlpha \<Rightarrow> update_refusal option \<Rightarrow> prefs \<Rightarrow> (conf_error, unit) result" where
  "check_config env c host_refusal p =
     rbind (check_server_url env c) (\<lambda>_.
     rbind (check_routes env c p) (\<lambda>_.
     rbind (check_exit_node c) (\<lambda>_. check_auto_update c host_refusal)))"

definition merge_config :: "ConfigVAlpha \<Rightarrow> prefs \<Rightarrow> prefs" where
  "merge_config c p =
     p\<lparr>want_running := unwrap_or (cv_enabled c) True,
       control_url := or_else (cv_server_url c) (control_url p),
       hostname := or_else (cv_hostname c) (hostname p),
       accept_dns := unwrap_or (cv_accept_dns c) (accept_dns p),
       accept_routes := unwrap_or (cv_accept_routes c) (accept_routes p),
       exit_node := or_else (cv_exit_node c) (exit_node p),
       advertise_routes := unwrap_or (cv_advertise_routes c) (advertise_routes p),
       shields_up := unwrap_or (cv_shields_up c) (shields_up p),
       ssh_enabled := unwrap_or (cv_run_ssh_server c) (ssh_enabled p),
       advertise_exit_node := unwrap_or (cv_advertise_exit_node c) (advertise_exit_node p),
       operator_user := (case cv_operator_user c of
           None \<Rightarrow> operator_user p | Some op \<Rightarrow> if op = [] then None else Some op),
       exit_node_allow_lan_access := unwrap_or (cv_allow_lan_while_using_exit_node c) (exit_node_allow_lan_access p),
       posture_checking := unwrap_or (cv_posture_checking c) (posture_checking p),
       run_web_client := unwrap_or (cv_run_web_client c) (run_web_client p),
       advertise_app_connector := (case cv_app_connector c of
           None \<Rightarrow> advertise_app_connector p | Some app \<Rightarrow> app_advertise app),
       auto_update_check := (case cv_auto_update c of None \<Rightarrow> auto_update_check p | Some au \<Rightarrow> au_check au),
       auto_update_apply := (case cv_auto_update c of None \<Rightarrow> auto_update_apply p | Some au \<Rightarrow> au_apply au)\<rparr>"

definition resolve_auth_key :: "conf_env \<Rightarrow> string \<Rightarrow> (conf_error, string) result" where
  "resolve_auth_key env value =
     (case strip_prefix value ''file:'' of
        Some path \<Rightarrow>
          (case read_text env path of
             None \<Rightarrow> Inl (AuthKeyFileUnreadable path)
           | Some contents \<Rightarrow>
               (let key = trim contents in if key = [] then Inl (AuthKeyFileEmpty path) else Inr key))
      | None \<Rightarrow> Inr value)"

definition config_auth_key :: "conf_env \<Rightarrow> ConfigVAlpha \<Rightarrow> (conf_error, string option) result" where
  "config_auth_key env c =
     (case cv_auth_key c of
        None \<Rightarrow> Inr None
      | Some k \<Rightarrow> if k = [] then Inr None else rbind (resolve_auth_key env k) (\<lambda>key. Inr (Some key)))"

definition apply_to_prefs_gated ::
  "conf_env \<Rightarrow> Config \<Rightarrow> update_refusal option \<Rightarrow> prefs \<Rightarrow> (conf_error, string option) result \<times> prefs" where
  "apply_to_prefs_gated env cfg host_refusal p =
     (let c = conf_parsed cfg in
      case check_config env c host_refusal p of
        Inl e \<Rightarrow> (Inl e, p)
      | Inr _ \<Rightarrow> (config_auth_key env c, merge_config c p))"

definition unmapped_fields :: "ConfigVAlpha \<Rightarrow> string list" where
  "unmapped_fields c =
     (if cv_locked c = Some True then [''Locked''] else []) @
     (if cv_disable_snat c \<noteq> None then [''DisableSNAT''] else []) @
     (if cv_advertise_services c \<noteq> [] then [''AdvertiseServices''] else []) @
     (if cv_netfilter_mode c \<noteq> None then [''NetfilterMode''] else []) @
     (if cv_no_stateful_filtering c \<noteq> None then [''NoStatefulFiltering''] else []) @
     (if cv_remote_config c \<noteq> None then [''RemoteConfig''] else []) @
     (if cv_serve_config_temp c \<noteq> None then [''ServeConfigTemp''] else []) @
     (if cv_static_endpoints c \<noteq> [] then [''StaticEndpoints''] else []) @
     (if cv_relay_server_port c \<noteq> None then [''RelayServerPort''] else []) @
     (if cv_relay_server_static_endpoints c \<noteq> [] then [''RelayServerStaticEndpoints''] else [])"

section \<open>Properties\<close>

lemma check_config_ok:
  "check_config env c host p = Inr u \<longleftrightarrow>
     check_server_url env c = Inr () \<and> check_routes env c p = Inr () \<and>
     check_exit_node c = Inr () \<and> check_auto_update c host = Inr ()"
  by (auto simp: check_config_def rbind_eq_Inr)

lemma check_config_no_auth:
  "check_config env c host p = Inl e \<Longrightarrow> e \<noteq> AuthKeyFileUnreadable path \<and> e \<noteq> AuthKeyFileEmpty path"
  by (auto simp: check_config_def check_server_url_def check_routes_def check_exit_node_def
      check_auto_update_def rbind_def Let_def split: sum.splits option.splits if_splits)

lemma config_auth_key_Inl:
  "config_auth_key env c = Inl e \<Longrightarrow> \<exists>path. e = AuthKeyFileUnreadable path \<or> e = AuthKeyFileEmpty path"
  by (auto simp: config_auth_key_def resolve_auth_key_def rbind_def Let_def
      split: sum.splits option.splits if_splits)

lemma merge_config_idem: "merge_config c (merge_config c p) = merge_config c p"
  by (simp add: merge_config_def unwrap_or_def or_else_def split: option.split)

lemma merge_config_routes:
  "check_routes env c (merge_config c p) = check_routes env c p"
  by (simp add: check_routes_def merge_config_def unwrap_or_def split: option.split)

lemma check_routes_ok:
  "check_routes env c p = Inr () \<longleftrightarrow>
     is_ok (calc_advertise_routes (conf_ipnet env) (advertise_routes (merge_config c p))
              (advertise_exit_node (merge_config c p)))"
  by (auto simp: check_routes_def merge_config_def is_ok_iff split: sum.splits)

lemma config_optional_contract_parts:
  shows "load_flag env flag = Inr None \<longleftrightarrow>
           flag_optional flag \<and>
           (flag_source flag = VmUserData \<or> (\<exists>p. flag_source flag = File p \<and> read_bytes env p = None))"
    and "load_flag env flag = Inr (Some cfg) \<Longrightarrow>
           conf_version cfg = ''alpha0'' \<and> load_config env (flag_source flag) = Inr cfg"
  by (auto simp: load_flag_def load_config_def Let_def split: sum.splits ConfigSource.splits option.splits if_splits)

text \<open>
  The \<open>optional:\<close> contract: a source marked optional boots unconfigured exactly when nothing
  could be read from it; a document that was read is never ignored, and an unmarked source is never
  skipped. Whatever is loaded declares the one supported version.
\<close>

theorem config_optional_contract:
  shows "(load_flag env flag = Inr None \<longleftrightarrow>
           flag_optional flag \<and>
           (flag_source flag = VmUserData \<or> (\<exists>p. flag_source flag = File p \<and> read_bytes env p = None))) \<and>
    (load_flag env flag = Inr (Some cfg) \<longrightarrow>
     conf_version cfg = ''alpha0'' \<and> load_config env (flag_source flag) = Inr cfg)"
  by (rule conjI, rule config_optional_contract_parts(1),
      rule impI, erule config_optional_contract_parts(2))

lemma config_apply_contract_parts:
  assumes "apply_to_prefs_gated env cfg host p = (r, p')"
  shows "r = Inr key \<Longrightarrow>
           p' = merge_config (conf_parsed cfg) p \<and>
           is_ok (calc_advertise_routes (conf_ipnet env) (advertise_routes p') (advertise_exit_node p')) \<and>
           apply_to_prefs_gated env cfg host p' = (r, p')"
    and "check_config env (conf_parsed cfg) host p = Inl e \<Longrightarrow> r = Inl e \<and> p' = p"
proof -
  show "check_config env (conf_parsed cfg) host p = Inl e \<Longrightarrow> r = Inl e \<and> p' = p"
    using assms by (simp add: apply_to_prefs_gated_def)
  assume r: "r = Inr key"
  have ok: "check_config env (conf_parsed cfg) host p = Inr ()"
    using assms r by (cases "check_config env (conf_parsed cfg) host p") (auto simp: apply_to_prefs_gated_def Let_def)
  with assms have p': "p' = merge_config (conf_parsed cfg) p" "r = config_auth_key env (conf_parsed cfg)"
    by (auto simp: apply_to_prefs_gated_def Let_def)
  have again: "check_config env (conf_parsed cfg) host p' = Inr ()"
    using ok by (simp only: check_config_ok p' merge_config_routes)
  have "is_ok (calc_advertise_routes (conf_ipnet env) (advertise_routes p') (advertise_exit_node p'))"
    using ok by (simp add: check_config_ok check_routes_ok p')
  moreover have "apply_to_prefs_gated env cfg host p' = (r, p')"
    using again p' by (simp add: apply_to_prefs_gated_def Let_def merge_config_idem)
  ultimately show "p' = merge_config (conf_parsed cfg) p \<and>
      is_ok (calc_advertise_routes (conf_ipnet env) (advertise_routes p') (advertise_exit_node p')) \<and>
      apply_to_prefs_gated env cfg host p' = (r, p')"
    using p' by blast
qed

text \<open>
  A document is merged completely or refused: success leaves exactly the merged preferences, whose
  advertised route set is valid; a refusal by any of the validation rules leaves the preferences as
  they were; merging an accepted document again changes nothing.
\<close>

theorem config_apply_contract:
  assumes "apply_to_prefs_gated env cfg host p = (r, p')"
  shows "(r = Inr key \<longrightarrow>
     p' = merge_config (conf_parsed cfg) p \<and>
           is_ok (calc_advertise_routes (conf_ipnet env) (advertise_routes p') (advertise_exit_node p')) \<and>
           apply_to_prefs_gated env cfg host p' = (r, p')) \<and>
    (check_config env (conf_parsed cfg) host p = Inl e \<longrightarrow>
     r = Inl e \<and> p' = p)"
  by (rule conjI, rule impI, erule config_apply_contract_parts(1) [OF assms],
      rule impI, erule config_apply_contract_parts(2) [OF assms])

text \<open>An environment for the witnesses: no file can be read.\<close>

definition demo_conf_env :: conf_env where
  "demo_conf_env =
     \<lparr>read_bytes = (\<lambda>_. None), read_text = (\<lambda>_. None), probe_version = (\<lambda>_. None), parse_valpha = (\<lambda>_. None),
      conf_url_scheme = (\<lambda>_. None), conf_ipnet = demo_ipnet\<rparr>"

theorem config_optional_contract_witness:
  "conf_version \<lparr>conf_version = ''alpha0'', conf_parsed = config_default\<rparr> = ''alpha0''"
proof -
  let ?env = "demo_conf_env\<lparr>read_bytes := (\<lambda>_. Some ''{}''), probe_version := (\<lambda>_. Some ''alpha0''),
                parse_valpha := (\<lambda>_. Some config_default)\<rparr>"
  have "load_flag ?env \<lparr>flag_optional = True, flag_source = File ''c.json''\<rparr> =
        Inr (Some \<lparr>conf_version = ''alpha0'', conf_parsed = config_default\<rparr>)"
    by (simp add: load_flag_def load_config_def)
  from config_optional_contract [THEN conjunct2, rule_format, OF this] show ?thesis by simp
qed

definition demo_config :: Config where
  "demo_config = \<lparr>conf_version = ''alpha0'', conf_parsed = config_default\<lparr>cv_enabled := Some False\<rparr>\<rparr>"

lemma demo_config_ok:
  "apply_to_prefs_gated demo_conf_env demo_config None (default_prefs\<lparr>want_running := True\<rparr>) =
     (Inr None, default_prefs)"
  by (simp add: apply_to_prefs_gated_def demo_config_def check_config_def check_server_url_def check_routes_def
      check_exit_node_def check_auto_update_def config_default_def default_prefs_def demo_conf_env_def
      calc_advertise_routes_spec route_acc_Nil composed_routes_def pairing_errors_def config_auth_key_def
      merge_config_def rbind_def)

theorem config_apply_contract_witness:
  "apply_to_prefs_gated demo_conf_env demo_config None default_prefs = (Inr None, default_prefs)"
  using config_apply_contract [OF demo_config_ok, THEN conjunct1, rule_format, of None] by simp

lemma config_auth_key_failure_mutates_parts:
  assumes "apply_to_prefs_gated env cfg host p = (Inl e, p')" "p' \<noteq> p"
  shows "p' = merge_config (conf_parsed cfg) p"
    and "want_running p' = unwrap_or (cv_enabled (conf_parsed cfg)) True"
    and "\<exists>path. e = AuthKeyFileUnreadable path \<or> e = AuthKeyFileEmpty path"
proof -
  have "check_config env (conf_parsed cfg) host p = Inr ()"
    using assms by (cases "check_config env (conf_parsed cfg) host p") (auto simp: apply_to_prefs_gated_def Let_def)
  with assms have *: "p' = merge_config (conf_parsed cfg) p" "config_auth_key env (conf_parsed cfg) = Inl e"
    by (auto simp: apply_to_prefs_gated_def Let_def)
  then show "p' = merge_config (conf_parsed cfg) p"
    and "want_running p' = unwrap_or (cv_enabled (conf_parsed cfg)) True"
    and "\<exists>path. e = AuthKeyFileUnreadable path \<or> e = AuthKeyFileEmpty path"
    by (simp_all add: merge_config_def config_auth_key_Inl)
qed

text \<open>
  The one refusal that is not atomic: when the document passes every validation rule but its
  \<open>AuthKey\<close> names a file that cannot be read (or is empty), the call fails after the merge, and the
  preferences it leaves are the merged ones, the running intent included.
\<close>

theorem config_auth_key_failure_mutates:
  assumes "apply_to_prefs_gated env cfg host p = (Inl e, p')" "p' \<noteq> p"
  shows "(p' = merge_config (conf_parsed cfg) p) \<and>
    (want_running p' = unwrap_or (cv_enabled (conf_parsed cfg)) True) \<and>
    (\<exists>path. e = AuthKeyFileUnreadable path \<or> e = AuthKeyFileEmpty path)"
  by (rule conjI, rule config_auth_key_failure_mutates_parts(1) [OF assms],
      rule conjI, rule config_auth_key_failure_mutates_parts(2) [OF assms],
      rule config_auth_key_failure_mutates_parts(3) [OF assms])

lemma demo_config_bad_key:
  "apply_to_prefs_gated demo_conf_env (demo_config\<lparr>conf_parsed := (conf_parsed demo_config)\<lparr>cv_auth_key := Some ''file:/k''\<rparr>\<rparr>)
     None (default_prefs\<lparr>want_running := True\<rparr>) = (Inl (AuthKeyFileUnreadable ''/k''), default_prefs)"
  by (simp add: apply_to_prefs_gated_def demo_config_def check_config_def check_server_url_def check_routes_def
      check_exit_node_def check_auto_update_def config_default_def default_prefs_def demo_conf_env_def
      calc_advertise_routes_spec route_acc_Nil composed_routes_def pairing_errors_def config_auth_key_def
      resolve_auth_key_def strip_prefix_def merge_config_def rbind_def)

theorem config_auth_key_failure_mutates_witness:
  "\<not> want_running (default_prefs :: prefs) \<and>
   fst (apply_to_prefs_gated demo_conf_env
     (demo_config\<lparr>conf_parsed := (conf_parsed demo_config)\<lparr>cv_auth_key := Some ''file:/k''\<rparr>\<rparr>)
     None (default_prefs\<lparr>want_running := True\<rparr>)) = Inl (AuthKeyFileUnreadable ''/k'')"
  using config_auth_key_failure_mutates [OF demo_config_bad_key, THEN conjunct2, THEN conjunct1] demo_config_bad_key
  by (simp add: demo_config_def config_default_def default_prefs_def)

end
