(* ===== verification/Backend.thy ===== *)
theory Backend
  imports EngineConfig Profile ExitNode RevertGuard Conffile
begin

text \<open>
  \<open>src/src/ipn/mod.rs\<close>: the daemon's \<open>Backend\<close> and its operations, each taking the backend and the
  file system and returning both with the operation's result. One operation is one lock acquisition
  of the source, so an operation is atomic here; the interleaving of the operations is the subject of
  the theory \<open>Lifecycle\<close>.

  The engine is a library: a device is the config and the key it was built with and the list of live
  setter calls it has accepted. What the daemon observes of it (its connection state, its netmap, its
  own name, whether a setter fails) and everything else from outside (the I/O environment, the codecs,
  the effective policy, the host gates, the clock) is the record \<open>daemon_env\<close>.
\<close>

datatype LiveSetOp =
    LiveExitNode "string option"
  | LiveHostname string
  | LiveAcceptRoutes bool
  | LiveAcceptDns bool
  | LiveAdvertiseRoutes "ipnet list"
  | LiveAdvertiseExitNode bool

record engine =
  eng_config :: engine_config
  eng_authkey :: "string option"
  eng_ops :: "LiveSetOp list"

record ReconnectTimer =
  rt_seq :: nat
  rt_profile :: string
  rt_after :: nat
  rt_deadline :: nat

text \<open>The tasks bound to an installed device, which \<open>stop_device\<close> ends.\<close>

datatype device_task = SshTask | LinkMonitor | SuggestionTask | ServeSupervisor

record backend =
  be_prefs :: prefs
  be_state_dir :: path
  be_current_profile :: string
  be_prefs_path :: path
  be_key_path :: path
  be_config_source :: "ConfigSource option"
  be_listen_port :: "nat option"
  be_device :: "engine option"
  be_tasks :: "device_task list"
  be_ever_configured :: bool
  be_generation :: nat
  be_boot_attempted_up :: bool
  be_has_node_key :: bool
  be_override_always_on :: bool
  be_reconnect :: "ReconnectTimer option"
  be_reconnect_seq :: nat
  be_always_on_keys :: AlwaysOnKeys
  be_override_exit_node_policy :: bool
  be_exit_node_keys :: ExitNodeKeys
  be_netmap_name :: "string option"
  be_suggested_exit_node :: string

record daemon_env =
  de_io :: io_env
  de_prefs_json :: json_prefs
  de_profiles_json :: json_profiles
  de_settings :: "PolicySetting list"
  de_sources :: "PolicySource list"
  de_build :: build_env
  de_key_parses :: "string \<Rightarrow> bool"
  de_auto_update_gate :: "update_refusal option"
  de_device_state :: "engine \<Rightarrow> device_state"
  de_netmap :: "engine \<Rightarrow> StatusReport option"
  de_self_fqdn :: "engine \<Rightarrow> string option"
  de_setter_fails :: "engine \<Rightarrow> LiveSetOp \<Rightarrow> bool"
  de_host_key_ok :: bool
  de_now :: nat
  de_conf :: conf_env

datatype be_error =
    RoutesRefused string
  | TagRefused tag_error
  | ExitNodeManaged
  | AutoSelector string
  | ExitNodeRefused exit_node_error
  | SshGate ssh_refusal
  | AutoUpdateRefused "update_refusal \<times> remedy"
  | DiscardKeyFailed path
  | PrefsSaveFailed path
  | RegisterFailed string
  | ConfigFailed config_error
  | EngineFailed
  | SetterFailed LiveSetOp
  | RenameFailed string
  | DisconnectRefusedBy DisconnectRefused
  | NoSuchProfile string
  | BadProfileId string
  | ProfileExists string
  | DefaultNotRemovable
  | RandomnessFailed
  | NoUnusedId
  | RemoveFailed path
  | PrefsLoadFailed string
  | ProfilesSaveFailed
  | PointerSaveFailed
  | ConfigFileFailed conf_error

type_synonym 'a be_result = "(be_error, 'a) result"

section \<open>State and policy\<close>

definition derive_state :: "backend \<Rightarrow> bool \<Rightarrow> state" where
  "derive_state b have_self_node =
     derive_state_from (be_device b \<noteq> None) have_self_node (want_running (be_prefs b))
       (logged_out (be_prefs b)) (be_has_node_key b)"

definition wants_running :: "backend \<Rightarrow> bool" where
  "wants_running b = (want_running (be_prefs b) \<and> \<not> logged_out (be_prefs b))"

definition key_file_has_node_key :: "daemon_env \<Rightarrow> path \<Rightarrow> fs \<Rightarrow> bool" where
  "key_file_has_node_key env key_path f =
     (case fs_read (de_io env) key_path f of ReadOk b \<Rightarrow> de_key_parses env b | _ \<Rightarrow> False)"

definition bump_generation :: "backend \<Rightarrow> backend" where
  "bump_generation b = b\<lparr>be_generation := be_generation b + 1\<rparr>"

definition reconcile_sys_policy :: "daemon_env \<Rightarrow> backend \<Rightarrow> backend" where
  "reconcile_sys_policy env b =
     b\<lparr>be_prefs := fst (apply_settings_to_prefs (de_settings env) (be_prefs b)
         \<lparr>ov_always_on = be_override_always_on b, ov_exit_node = be_override_exit_node_policy b\<rparr>)\<rparr>"

definition start_reconnect_timer :: "daemon_env \<Rightarrow> nat \<Rightarrow> backend \<Rightarrow> backend" where
  "start_reconnect_timer env after b =
     (let s = be_reconnect_seq b + 1 in
      b\<lparr>be_reconnect_seq := s,
        be_reconnect := Some \<lparr>rt_seq = s, rt_profile = be_current_profile b, rt_after = after,
                              rt_deadline = de_now env + after\<rparr>\<rparr>)"

definition is_reconnect_armed :: "backend \<Rightarrow> bool" where
  "is_reconnect_armed b = (be_reconnect b \<noteq> None)"

definition stop_reconnect_timer :: "backend \<Rightarrow> backend" where
  "stop_reconnect_timer b = (if is_reconnect_armed b then b\<lparr>be_reconnect := None\<rparr> else b)"

definition on_permitted_disconnect :: "daemon_env \<Rightarrow> nat option \<Rightarrow> backend \<Rightarrow> backend" where
  "on_permitted_disconnect env reconnect_after b =
     (let b1 = b\<lparr>be_override_always_on := True\<rparr> in
      case reconnect_after of None \<Rightarrow> b1 | Some after \<Rightarrow> start_reconnect_timer env after b1)"

definition reset_always_on_override :: "backend \<Rightarrow> backend" where
  "reset_always_on_override b = stop_reconnect_timer (b\<lparr>be_override_always_on := False\<rparr>)"

definition sys_policy_changed :: "AlwaysOnKeys \<Rightarrow> backend \<Rightarrow> bool \<times> backend" where
  "sys_policy_changed current b =
     (if current = be_always_on_keys b then (False, b)
      else (True, reset_always_on_override (b\<lparr>be_always_on_keys := current\<rparr>)))"

definition check_exit_node_policy :: "daemon_env \<Rightarrow> string option option \<Rightarrow> ExitNodeEdit be_result" where
  "check_exit_node_policy env named =
     map_err (\<lambda>_. ExitNodeManaged) (check_exit_node_edit named (exit_node_policy_in (de_settings env)))"

definition reset_exit_node_policy_override :: "backend \<Rightarrow> backend" where
  "reset_exit_node_policy_override b = b\<lparr>be_override_exit_node_policy := False\<rparr>"

definition record_exit_node_edit :: "ExitNodeEdit \<Rightarrow> backend \<Rightarrow> backend" where
  "record_exit_node_edit edit b =
     (case edit of
        Untouched \<Rightarrow> b
      | NoOverride \<Rightarrow> reset_exit_node_policy_override b
      | Override \<Rightarrow> b\<lparr>be_override_exit_node_policy := True\<rparr>)"

definition exit_node_policy_changed :: "ExitNodeKeys \<Rightarrow> backend \<Rightarrow> bool \<times> backend" where
  "exit_node_policy_changed current b =
     (if current = be_exit_node_keys b then (False, b)
      else (True, reset_exit_node_policy_override (b\<lparr>be_exit_node_keys := current\<rparr>)))"

definition claim_due_reconnect :: "ReconnectTimer \<Rightarrow> backend \<Rightarrow> bool \<times> backend" where
  "claim_due_reconnect armed b =
     (if be_reconnect b \<noteq> Some armed then (False, b)
      else if rt_profile armed \<noteq> be_current_profile b then (False, b\<lparr>be_reconnect := None\<rparr>)
      else (True, b\<lparr>be_reconnect := None\<rparr>))"

definition forget_suggested_exit_node :: "backend \<Rightarrow> backend" where
  "forget_suggested_exit_node b = b\<lparr>be_suggested_exit_node := []\<rparr>"

section \<open>The device\<close>

definition current_netmap_name :: "daemon_env \<Rightarrow> backend \<Rightarrow> string option \<times> backend" where
  "current_netmap_name env b =
     (let b1 = (case be_device b of
                  None \<Rightarrow> b
                | Some dev \<Rightarrow>
                    (case de_self_fqdn env dev of
                       None \<Rightarrow> b
                     | Some fqdn \<Rightarrow> if fqdn = [] then b else b\<lparr>be_netmap_name := Some fqdn\<rparr>))
      in (be_netmap_name b1, b1))"

definition stop_device :: "daemon_env \<Rightarrow> backend \<Rightarrow> backend" where
  "stop_device env b =
     (let b1 = (if be_device b \<noteq> None then snd (current_netmap_name env b) else b) in
      b1\<lparr>be_tasks := [], be_device := None\<rparr>)"

definition status :: "daemon_env \<Rightarrow> backend \<Rightarrow> StatusReport" where
  "status env b =
     (let st = (case be_device b of
                  Some dev \<Rightarrow> fst (state_from_device (de_device_state env dev))
                | None \<Rightarrow> derive_state b False);
          none = \<lparr>st_state = as_str st, st_self_ipv4 = None, st_self_ipv6 = None,
                  st_magic_dns_suffix = None, st_peers = []\<rparr>
      in case be_device b of
           None \<Rightarrow> none
         | Some dev \<Rightarrow>
             if st \<noteq> Running then none
             else (case de_netmap env dev of None \<Rightarrow> none | Some nm \<Rightarrow> nm\<lparr>st_state := as_str st\<rparr>))"

definition exit_node_facts :: "daemon_env \<Rightarrow> backend \<Rightarrow> ExitNodeFacts" where
  "exit_node_facts env b = from_status (status env b)"

definition check_exit_node_arg :: "daemon_env \<Rightarrow> backend \<Rightarrow> string \<Rightarrow> unit be_result" where
  "check_exit_node_arg env b sel =
     (if \<not> validate_exit_node_selector (Some sel) then Inl (AutoSelector sel)
      else map_err ExitNodeRefused (resolve_exit_node_arg sel (exit_node_facts env b)))"

definition check_ssh_prefs_gated :: "bool option \<Rightarrow> bool \<Rightarrow> (ssh_refusal, unit) result \<Rightarrow> backend \<Rightarrow> unit be_result" where
  "check_ssh_prefs_gated named_ssh reset ssh_gate b =
     (if prospective_ssh named_ssh (be_prefs b) reset then map_err SshGate ssh_gate else Inr ())"

definition prospective_auto_update :: "bool option \<Rightarrow> backend \<Rightarrow> bool option" where
  "prospective_auto_update named b = or_else named (auto_update_apply (be_prefs b))"

section \<open>Persistence\<close>

definition load_profiles :: "daemon_env \<Rightarrow> backend \<Rightarrow> fs \<Rightarrow> profiles" where
  "load_profiles env b f = load_profiles_file (de_io env) (de_profiles_json env) (be_state_dir b) f"

definition save_profiles :: "daemon_env \<Rightarrow> backend \<Rightarrow> profiles \<Rightarrow> fs \<Rightarrow> bool \<times> fs" where
  "save_profiles env b meta f = save_profiles_file (de_io env) (de_profiles_json env) (be_state_dir b) meta f"

text \<open>A profile is listed in \<open>profiles.json\<close> once it has logged in.\<close>

definition register_current_profile :: "daemon_env \<Rightarrow> backend \<Rightarrow> fs \<Rightarrow> unit be_result \<times> fs" where
  "register_current_profile env b f =
     (if \<not> has_logged_in (be_prefs b) \<or> be_current_profile b = DEFAULT_PROFILE_ID then (Inr (), f)
      else let meta = load_profiles env b f in
        if bt_contains_key meta (be_current_profile b) then (Inr (), f)
        else case save_profiles env b
                    (bt_insert (be_current_profile b) \<lparr>meta_name = unwrap_or (node_nickname (be_prefs b)) []\<rparr> meta) f of
          (ok, f') \<Rightarrow> (if ok then Inr () else Inl (RegisterFailed (be_current_profile b)), f'))"

definition persist_prefs :: "daemon_env \<Rightarrow> backend \<Rightarrow> fs \<Rightarrow> unit be_result \<times> fs" where
  "persist_prefs env b f =
     (case save_prefs (de_io env) (de_prefs_json env) (be_prefs_path b) (be_prefs b) f of
        (False, f') \<Rightarrow> (Inl (PrefsSaveFailed (be_prefs_path b)), f')
      | (True, f') \<Rightarrow> register_current_profile env b f')"

definition discard_node_key :: "daemon_env \<Rightarrow> backend \<Rightarrow> fs \<Rightarrow> unit be_result \<times> backend \<times> fs" where
  "discard_node_key env b f =
     (case fs_remove (de_io env) (be_key_path b) f of
        (Removed, f') \<Rightarrow> (Inr (), b\<lparr>be_has_node_key := False\<rparr>, f')
      | (NotFound, f') \<Rightarrow> (Inr (), b\<lparr>be_has_node_key := False\<rparr>, f')
      | (RemoveError, f') \<Rightarrow> (Inl (DiscardKeyFailed (be_key_path b)), b, f'))"

section \<open>Profiles\<close>

record ProfileEntry =
  pe_id :: string
  pe_name :: string
  pe_current :: bool

definition list_profiles :: "daemon_env \<Rightarrow> backend \<Rightarrow> fs \<Rightarrow> ProfileEntry list" where
  "list_profiles env b f =
     (let meta = load_profiles env b f in
      \<lparr>pe_id = DEFAULT_PROFILE_ID,
       pe_name = unwrap_or (non_empty (map_option meta_name (bt_get meta DEFAULT_PROFILE_ID))) DEFAULT_PROFILE_ID,
       pe_current = (be_current_profile b = DEFAULT_PROFILE_ID)\<rparr> #
      map (\<lambda>(pid, m). \<lparr>pe_id = pid, pe_name = (if meta_name m = [] then pid else meta_name m),
                       pe_current = (be_current_profile b = pid)\<rparr>)
        (filter (\<lambda>(pid, m). pid \<noteq> DEFAULT_PROFILE_ID) meta))"

definition current_profile_name :: "daemon_env \<Rightarrow> backend \<Rightarrow> fs \<Rightarrow> string" where
  "current_profile_name env b f =
     (case find pe_current (list_profiles env b f) of
        Some p \<Rightarrow> pe_name p | None \<Rightarrow> be_current_profile b)"

definition rename_current_profile :: "daemon_env \<Rightarrow> string \<Rightarrow> backend \<Rightarrow> fs \<Rightarrow> unit be_result \<times> fs" where
  "rename_current_profile env name b f =
     (let meta = load_profiles env b f in
      if \<not> has_logged_in (be_prefs b) \<and> be_current_profile b \<noteq> DEFAULT_PROFILE_ID \<and>
         \<not> bt_contains_key meta (be_current_profile b)
      then (Inr (), f)
      else case save_profiles env b (bt_insert (be_current_profile b) \<lparr>meta_name = name\<rparr> meta) f of
        (ok, f') \<Rightarrow> (if ok then Inr () else Inl (RenameFailed (be_current_profile b)), f'))"

text \<open>The UTF-8 bytes of the em dash in the report lines.\<close>

definition em_dash :: string where
  "em_dash = map char_of [0xE2, 0x80, 0x94 :: nat]"

datatype SwitchOutcome = AlreadyCurrent string | Switched string state

datatype DeleteOutcome = ProfileRemoved string | StillCurrent string

definition report_switch :: "SwitchOutcome \<Rightarrow> string" where
  "report_switch out =
     (case out of
        AlreadyCurrent pid \<Rightarrow> ''already on profile '' @ debug_str pid
      | Switched pid st \<Rightarrow>
          if st = NeedsLogin \<or> st = NoState
          then ''switched to profile '' @ debug_str pid @ '' (logged out '' @ em_dash @ '' run `tnet up` to log in)''
          else ''switched to profile '' @ debug_str pid @ '' (run `tnet up` to connect)'')"

definition report_delete :: "DeleteOutcome \<Rightarrow> string" where
  "report_delete out =
     (case out of
        ProfileRemoved pid \<Rightarrow> ''removed profile '' @ debug_str pid
      | StillCurrent pid \<Rightarrow>
          ''already on profile '' @ debug_str pid @ ''; not removed '' @ em_dash @ '' switch away first to remove it'')"

text \<open>The part of \<open>activate_profile\<close> after every write succeeded: the in-memory swap.\<close>

definition commit_profile :: "daemon_env \<Rightarrow> string \<Rightarrow> prefs \<Rightarrow> bool \<Rightarrow> bool \<Rightarrow> backend \<Rightarrow> backend" where
  "commit_profile env target p ever_configured has_node_key b =
     reconcile_sys_policy env (forget_suggested_exit_node
       (reset_exit_node_policy_override (reset_always_on_override
         (b\<lparr>be_prefs := p,
            be_prefs_path := fst (profile_paths (be_state_dir b) target),
            be_key_path := snd (profile_paths (be_state_dir b) target),
            be_ever_configured := ever_configured,
            be_current_profile := target,
            be_boot_attempted_up := False,
            be_has_node_key := has_node_key\<rparr>))))"

definition register_target :: "daemon_env \<Rightarrow> string \<Rightarrow> bool \<Rightarrow> backend \<Rightarrow> fs \<Rightarrow> bool \<times> fs" where
  "register_target env target register b f =
     (if register \<and> target \<noteq> DEFAULT_PROFILE_ID
      then save_profiles env b (bt_or_insert target \<lparr>meta_name = []\<rparr> (load_profiles env b f)) f
      else (True, f))"

definition activate_profile ::
  "daemon_env \<Rightarrow> string \<Rightarrow> bool \<Rightarrow> backend \<Rightarrow> fs \<Rightarrow> SwitchOutcome be_result \<times> backend \<times> fs" where
  "activate_profile env target register b f =
     (if target = be_current_profile b then (Inr (AlreadyCurrent target), b, f)
      else let b1 = (bump_generation (stop_device env b))\<lparr>be_netmap_name := None\<rparr>;
               prefs_path = fst (profile_paths (be_state_dir b) target);
               key_path = snd (profile_paths (be_state_dir b) target)
        in case load_prefs (de_io env) (de_prefs_json env) prefs_path f of
             None \<Rightarrow> (Inl (PrefsLoadFailed target), b1, f)
           | Some p \<Rightarrow>
               (case register_target env target register b1 f of
                  (False, f1) \<Rightarrow> (Inl ProfilesSaveFailed, b1, f1)
                | (True, f1) \<Rightarrow>
                    (case save_current_profile (de_io env) (be_state_dir b1) target f1 of
                       (False, f2) \<Rightarrow> (Inl PointerSaveFailed, b1, f2)
                     | (True, f2) \<Rightarrow>
                         (let b2 = commit_profile env target p (f prefs_path \<noteq> None)
                                     (key_file_has_node_key env key_path f) b1
                          in (Inr (Switched target (derive_state b2 False)), b2, f2)))))"

definition switch_profile ::
  "daemon_env \<Rightarrow> string \<Rightarrow> backend \<Rightarrow> fs \<Rightarrow> SwitchOutcome be_result \<times> backend \<times> fs" where
  "switch_profile env target b f =
     (case resolve_target_to_id target (load_profiles env b f) of
        None \<Rightarrow> (Inl (NoSuchProfile target), b, f)
      | Some resolved \<Rightarrow> activate_profile env resolved True b f)"

definition create_profile ::
  "daemon_env \<Rightarrow> string \<Rightarrow> backend \<Rightarrow> fs \<Rightarrow> SwitchOutcome be_result \<times> backend \<times> fs" where
  "create_profile env pid b f =
     (if \<not> is_valid_profile_id pid then (Inl (BadProfileId pid), b, f)
      else case resolve_target_to_id pid (load_profiles env b f) of
        Some existing \<Rightarrow> (Inl (ProfileExists existing), b, f)
      | None \<Rightarrow> activate_profile env pid True b f)"

definition remove_profile_files :: "daemon_env \<Rightarrow> string \<Rightarrow> backend \<Rightarrow> fs \<Rightarrow> unit be_result \<times> fs" where
  "remove_profile_files env pid b f =
     (let (pp, kp) = profile_paths (be_state_dir b) pid in
      case fs_remove (de_io env) pp f of
        (RemoveError, f1) \<Rightarrow> (Inl (RemoveFailed pp), f1)
      | (_, f1) \<Rightarrow>
          (case fs_remove (de_io env) kp f1 of
             (RemoveError, f2) \<Rightarrow> (Inl (RemoveFailed kp), f2)
           | (_, f2) \<Rightarrow> (Inr (), f2)))"

definition delete_profile ::
  "daemon_env \<Rightarrow> string \<Rightarrow> backend \<Rightarrow> fs \<Rightarrow> DeleteOutcome be_result \<times> fs" where
  "delete_profile env target b f =
     (case resolve_target_to_id target (load_profiles env b f) of
        None \<Rightarrow> (Inl (NoSuchProfile target), f)
      | Some pid \<Rightarrow>
          if pid = be_current_profile b then (Inr (StillCurrent pid), f)
          else if pid = DEFAULT_PROFILE_ID then (Inl DefaultNotRemovable, f)
          else (case remove_profile_files env pid b f of
            (Inl e, f1) \<Rightarrow> (Inl e, f1)
          | (Inr _, f1) \<Rightarrow>
              (let meta = load_profiles env b f1 in
               if bt_contains_key meta pid
               then (case save_profiles env b (bt_remove pid meta) f1 of
                       (False, f2) \<Rightarrow> (Inl ProfilesSaveFailed, f2)
                     | (True, f2) \<Rightarrow> (Inr (ProfileRemoved pid), f2))
               else (Inr (ProfileRemoved pid), f1))))"

definition reset_to_empty_profile ::
  "daemon_env \<Rightarrow> backend \<Rightarrow> fs \<Rightarrow> SwitchOutcome be_result \<times> backend \<times> fs" where
  "reset_to_empty_profile env b f =
     (let meta = load_profiles env b f;
          named = (case bt_get meta (be_current_profile b) of Some m \<Rightarrow> meta_name m \<noteq> [] | None \<Rightarrow> False)
      in if \<not> be_ever_configured b \<and> \<not> named \<and> be_device b = None
         then (Inr (AlreadyCurrent (be_current_profile b)), b, f)
         else let b1 = (bump_generation (stop_device env b))\<lparr>be_netmap_name := None\<rparr>
           in case (if named then save_profiles env b1 (bt_insert (be_current_profile b) \<lparr>meta_name = []\<rparr> meta) f
                    else (True, f)) of
                (False, f1) \<Rightarrow> (Inl ProfilesSaveFailed, b1, f1)
              | (True, f1) \<Rightarrow>
                  (case fs_remove (de_io env) (be_prefs_path b1) f1 of
                     (RemoveError, f2) \<Rightarrow> (Inl (RemoveFailed (be_prefs_path b1)), b1, f2)
                   | (_, f2) \<Rightarrow>
                       (let b2 = reconcile_sys_policy env (forget_suggested_exit_node
                                   (reset_exit_node_policy_override (reset_always_on_override
                                     (b1\<lparr>be_prefs := default_prefs, be_ever_configured := False,
                                         be_boot_attempted_up := False\<rparr>))))
                        in (Inr (Switched (be_current_profile b2) (derive_state b2 False)), b2, f2))))"

definition switch_to_empty_profile_drawing ::
  "daemon_env \<Rightarrow> (nat \<Rightarrow> (nat \<times> nat) option) \<Rightarrow> backend \<Rightarrow> fs \<Rightarrow> SwitchOutcome be_result \<times> backend \<times> fs" where
  "switch_to_empty_profile_drawing env draws b f =
     (if \<not> has_logged_in (be_prefs b) then reset_to_empty_profile env b f
      else let meta = bt_or_insert (be_current_profile b) \<lparr>meta_name = []\<rparr> (load_profiles env b f) in
        case unused_profile_id meta draws of
          Inl _ \<Rightarrow> (Inl RandomnessFailed, b, f)
        | Inr None \<Rightarrow> (Inl NoUnusedId, b, f)
        | Inr (Some pid) \<Rightarrow>
            (case remove_profile_files env pid b f of
               (Inl e, f1) \<Rightarrow> (Inl e, b, f1)
             | (Inr _, f1) \<Rightarrow> activate_profile env pid False b f1))"

definition load_backend :: "daemon_env \<Rightarrow> path \<Rightarrow> fs \<Rightarrow> backend be_result" where
  "load_backend env state_dir f =
     (let cur = load_current_profile (de_io env) state_dir f;
          (pp, kp) = profile_paths state_dir cur
      in case load_prefs (de_io env) (de_prefs_json env) pp f of
           None \<Rightarrow> Inl (PrefsLoadFailed cur)
         | Some p \<Rightarrow> Inr (reconcile_sys_policy env
             \<lparr>be_prefs = p, be_state_dir = state_dir, be_current_profile = cur, be_prefs_path = pp, be_key_path = kp,
              be_config_source = None, be_listen_port = None, be_device = None, be_tasks = [],
              be_ever_configured = (f pp \<noteq> None), be_generation = 0, be_boot_attempted_up = False,
              be_has_node_key = key_file_has_node_key env kp f, be_override_always_on = False,
              be_reconnect = None, be_reconnect_seq = 0, be_always_on_keys = always_on_keys_in (de_settings env),
              be_override_exit_node_policy = False, be_exit_node_keys = exit_node_keys_in (de_settings env),
              be_netmap_name = None, be_suggested_exit_node = []\<rparr>))"

section \<open>Closed forms\<close>

text \<open>The operations above as record updates, collected in \<open>be_simps\<close> for the proofs about whole operations.\<close>

named_theorems be_simps

lemma reconcile_alt [be_simps]:
  "reconcile_sys_policy env b =
     b\<lparr>be_prefs := policy_prefs (de_settings env)
         \<lparr>ov_always_on = be_override_always_on b, ov_exit_node = be_override_exit_node_policy b\<rparr> (be_prefs b)\<rparr>"
  by (simp add: reconcile_sys_policy_def apply_settings_policy_prefs)

definition name_at_stop :: "daemon_env \<Rightarrow> backend \<Rightarrow> string option" where
  "name_at_stop env b =
     (case be_device b of
        None \<Rightarrow> be_netmap_name b
      | Some dev \<Rightarrow> or_else (non_empty (de_self_fqdn env dev)) (be_netmap_name b))"

lemma stop_device_alt [be_simps]:
  "stop_device env b = b\<lparr>be_netmap_name := name_at_stop env b, be_tasks := [], be_device := None\<rparr>"
  by (simp add: stop_device_def current_netmap_name_def name_at_stop_def non_empty_def Let_def split: option.split)

lemma reset_always_on_alt [be_simps]:
  "reset_always_on_override b = b\<lparr>be_override_always_on := False, be_reconnect := None\<rparr>"
  by (simp add: reset_always_on_override_def stop_reconnect_timer_def is_reconnect_armed_def)

lemma record_exit_node_edit_alt [be_simps]:
  "record_exit_node_edit edit b =
     b\<lparr>be_override_exit_node_policy := (edit = Override \<or> edit = Untouched \<and> be_override_exit_node_policy b)\<rparr>"
  by (cases edit) (simp_all add: record_exit_node_edit_def reset_exit_node_policy_override_def)

declare reset_exit_node_policy_override_def [be_simps] bump_generation_def [be_simps]
  forget_suggested_exit_node_def [be_simps]

lemma policy_prefs_keeps [simp]:
  "logged_out (policy_prefs s ov p) = logged_out p"
  "has_logged_in (policy_prefs s ov p) = has_logged_in p"
  "node_nickname (policy_prefs s ov p) = node_nickname p"
  "advertise_routes (policy_prefs s ov p) = advertise_routes p"
  "advertise_tags (policy_prefs s ov p) = advertise_tags p"
  "ssh_enabled (policy_prefs s ov p) = ssh_enabled p"
  "want_running p \<Longrightarrow> want_running (policy_prefs s ov p)"
  by (simp_all add: policy_prefs_def policy_want_running_def)

lemma apply_set_overrides_keeps [simp]:
  "want_running (apply_set_overrides o1 p) = want_running p"
  "logged_out (apply_set_overrides o1 p) = logged_out p"
  "has_logged_in (apply_set_overrides o1 p) = has_logged_in p"
  by (simp_all add: apply_set_overrides_def)

lemma commit_profile_alt [be_simps]:
  "commit_profile env target p ec nk b =
     b\<lparr>be_prefs := policy_prefs (de_settings env) \<lparr>ov_always_on = False, ov_exit_node = False\<rparr> p,
       be_prefs_path := fst (profile_paths (be_state_dir b) target),
       be_key_path := snd (profile_paths (be_state_dir b) target),
       be_ever_configured := ec, be_current_profile := target, be_boot_attempted_up := False,
       be_has_node_key := nk, be_override_always_on := False, be_reconnect := None,
       be_override_exit_node_policy := False, be_suggested_exit_node := []\<rparr>"
  by (simp add: commit_profile_def be_simps)

section \<open>Properties of the reconnect timer\<close>

lemma reconnect_fires_once_parts:
  shows "fst (claim_due_reconnect a b) \<longleftrightarrow> be_reconnect b = Some a \<and> rt_profile a = be_current_profile b"
    and "fst (claim_due_reconnect a b) \<Longrightarrow> \<not> fst (claim_due_reconnect a' (snd (claim_due_reconnect a b)))"
    and "be_reconnect b \<noteq> Some a \<Longrightarrow> snd (claim_due_reconnect a b) = b"
    and "\<not> fst (claim_due_reconnect a (reset_always_on_override b))"
    and "fst (claim_due_reconnect a (start_reconnect_timer env after b)) \<Longrightarrow> rt_seq a = be_reconnect_seq b + 1"
  by (auto simp: claim_due_reconnect_def be_simps start_reconnect_timer_def Let_def split: if_splits)

text \<open>
  The automatic reconnect fires at most once and only for the arming it was scheduled for: a claim
  succeeds exactly for the live arming of the current profile, a successful claim disarms it (so a
  second claim of the same arming fails), a superseded arming changes nothing, and after an override
  reset (a connect, a profile switch, a policy change) no earlier arming can fire.
\<close>

theorem reconnect_fires_once:
  shows "(fst (claim_due_reconnect a b) \<longleftrightarrow> be_reconnect b = Some a \<and> rt_profile a = be_current_profile b) \<and>
    (fst (claim_due_reconnect a b) \<longrightarrow>
     \<not> fst (claim_due_reconnect a' (snd (claim_due_reconnect a b)))) \<and>
    (be_reconnect b \<noteq> Some a \<longrightarrow>
     snd (claim_due_reconnect a b) = b) \<and>
    (\<not> fst (claim_due_reconnect a (reset_always_on_override b))) \<and>
    (fst (claim_due_reconnect a (start_reconnect_timer env after b)) \<longrightarrow>
     rt_seq a = be_reconnect_seq b + 1)"
  by (rule conjI, rule reconnect_fires_once_parts(1),
      rule conjI, rule impI, erule reconnect_fires_once_parts(2),
      rule conjI, rule impI, erule reconnect_fires_once_parts(3),
      rule conjI, rule reconnect_fires_once_parts(4),
      rule impI, erule reconnect_fires_once_parts(5))

section \<open>A concrete daemon for the witnesses\<close>

definition demo_profiles_json :: json_profiles where
  "demo_profiles_json = \<lparr>profiles_to_json = (\<lambda>m. if m = [] then ''{}'' else fst (hd m)),
     profiles_of_json = (\<lambda>s. Some (if s = ''{}'' then [] else [(s, \<lparr>meta_name = []\<rparr>)]))\<rparr>"

definition demo_env :: daemon_env where
  "demo_env =
     \<lparr>de_io = demo_io, de_prefs_json = demo_codec, de_profiles_json = demo_profiles_json, de_settings = [],
      de_sources = [], de_build = demo_build_env, de_key_parses = (\<lambda>_. True), de_auto_update_gate = None,
      de_device_state = (\<lambda>_. DevRunning), de_netmap = (\<lambda>_. None), de_self_fqdn = (\<lambda>_. None),
      de_setter_fails = (\<lambda>_ _. False), de_host_key_ok = True, de_now = 0, de_conf = demo_conf_env\<rparr>"

definition demo_backend :: backend where
  "demo_backend =
     \<lparr>be_prefs = default_prefs, be_state_dir = [''var''], be_current_profile = DEFAULT_PROFILE_ID,
      be_prefs_path = [''var'', ''prefs.json''], be_key_path = [''var'', ''node.key.json''],
      be_config_source = None, be_listen_port = None, be_device = None, be_tasks = [],
      be_ever_configured = False, be_generation = 0, be_boot_attempted_up = False, be_has_node_key = False,
      be_override_always_on = False, be_reconnect = None, be_reconnect_seq = 0,
      be_always_on_keys = always_on_keys_in [], be_override_exit_node_policy = False,
      be_exit_node_keys = exit_node_keys_in [], be_netmap_name = None, be_suggested_exit_node = []\<rparr>"

theorem reconnect_fires_once_witness:
  "let a = \<lparr>rt_seq = 1, rt_profile = DEFAULT_PROFILE_ID, rt_after = 5, rt_deadline = 5\<rparr>;
       b = start_reconnect_timer demo_env 5 demo_backend
   in fst (claim_due_reconnect a b) \<and> \<not> fst (claim_due_reconnect a (snd (claim_due_reconnect a b)))"
proof -
  let ?a = "\<lparr>rt_seq = 1, rt_profile = DEFAULT_PROFILE_ID, rt_after = 5, rt_deadline = 5\<rparr>"
  let ?b = "start_reconnect_timer demo_env 5 demo_backend"
  have "fst (claim_due_reconnect ?a ?b)"
    by (simp add: claim_due_reconnect_def start_reconnect_timer_def demo_env_def demo_backend_def Let_def)
  with reconnect_fires_once [THEN conjunct2, THEN conjunct1, rule_format, OF this, of ?a] show ?thesis by (simp only: Let_def) simp
qed

section \<open>Properties of the profile operations\<close>

text \<open>The part of the backend that says which profile is active.\<close>

definition profile_identity :: "backend \<Rightarrow> string \<times> path \<times> path \<times> prefs \<times> bool \<times> bool" where
  "profile_identity b =
     (be_current_profile b, be_prefs_path b, be_key_path b, be_prefs b, be_ever_configured b, be_has_node_key b)"

lemma save_current_profile_result:
  "save_current_profile io sd pid f = (ok, f') \<Longrightarrow>
     f' (current_profile_path sd) = (if ok then Some pid else f (current_profile_path sd))"
  by (auto simp: save_current_profile_def split: if_splits dest: atomic_write_result)

lemma pointer_not_profiles:
  "current_profile_path sd \<noteq> profiles_file_path sd"
  "current_profile_path sd \<noteq> tmp_path io (profiles_file_path sd)"
  by (simp_all add: current_profile_path_def profiles_file_path_def tmp_path_def parent_dir_def file_name_def)

lemma register_target_pointer:
  "register_target env target reg b f = (ok, f') \<Longrightarrow>
     f' (current_profile_path (be_state_dir b)) = f (current_profile_path (be_state_dir b))"
  by (auto simp: register_target_def save_profiles_def save_profiles_file_def pointer_not_profiles
      split: if_splits dest: atomic_write_other [where q = "current_profile_path (be_state_dir b)"])

lemma activate_profile_coherent_parts:
  assumes "activate_profile env target reg b f = (r, b', f')" "target \<noteq> be_current_profile b"
  shows "r = Inl e \<Longrightarrow> profile_identity b' = profile_identity b \<and>
           f' (current_profile_path (be_state_dir b)) = f (current_profile_path (be_state_dir b))"
    and "r = Inr out \<Longrightarrow> be_current_profile b' = target \<and>
           f' (current_profile_path (be_state_dir b)) = Some target \<and>
           (\<exists>p. load_prefs (de_io env) (de_prefs_json env) (be_prefs_path b') f = Some p \<and>
                be_prefs b' = policy_prefs (de_settings env) \<lparr>ov_always_on = False, ov_exit_node = False\<rparr> p) \<and>
           be_reconnect b' = None \<and> \<not> be_override_always_on b' \<and> \<not> be_override_exit_node_policy b'"
    and "be_device b' = None \<and> be_tasks b' = [] \<and> be_generation b' = be_generation b + 1"
proof -
  let ?b1 = "(bump_generation (stop_device env b))\<lparr>be_netmap_name := None\<rparr>"
  note base = assms(1) [unfolded activate_profile_def] assms(2)
  have sd: "be_state_dir ?b1 = be_state_dir b" by (simp add: be_simps)
  show "be_device b' = None \<and> be_tasks b' = [] \<and> be_generation b' = be_generation b + 1"
    using base by (auto simp: be_simps Let_def split: option.splits prod.splits bool.splits)
  show "profile_identity b' = profile_identity b \<and>
      f' (current_profile_path (be_state_dir b)) = f (current_profile_path (be_state_dir b))" if "r = Inl e"
    using base that register_target_pointer [of env target reg ?b1 f]
    by (auto simp: be_simps profile_identity_def Let_def sd split: option.splits prod.splits bool.splits
        dest!: save_current_profile_result)
  show "be_current_profile b' = target \<and>
      f' (current_profile_path (be_state_dir b)) = Some target \<and>
      (\<exists>p. load_prefs (de_io env) (de_prefs_json env) (be_prefs_path b') f = Some p \<and>
           be_prefs b' = policy_prefs (de_settings env) \<lparr>ov_always_on = False, ov_exit_node = False\<rparr> p) \<and>
      be_reconnect b' = None \<and> \<not> be_override_always_on b' \<and> \<not> be_override_exit_node_policy b'" if "r = Inr out"
    using base that
    by (auto simp: be_simps Let_def split: option.splits prod.splits bool.splits dest!: save_current_profile_result)
qed

text \<open>
  A profile switch is all or nothing: if it fails, whichever write failed, the backend is still on
  the old profile with its preferences and the pointer file is unchanged; if it succeeds, the backend
  and the pointer file name the same profile, the preferences are the ones stored for it with the
  policy applied, and no exemption of the old profile survives. Either way a switch to another profile
  ends with no device and a newer generation.
\<close>

theorem activate_profile_coherent:
  assumes "activate_profile env target reg b f = (r, b', f')" "target \<noteq> be_current_profile b"
  shows "(r = Inl e \<longrightarrow>
     profile_identity b' = profile_identity b \<and>
           f' (current_profile_path (be_state_dir b)) = f (current_profile_path (be_state_dir b))) \<and>
    (r = Inr out \<longrightarrow>
     be_current_profile b' = target \<and>
           f' (current_profile_path (be_state_dir b)) = Some target \<and>
           (\<exists>p. load_prefs (de_io env) (de_prefs_json env) (be_prefs_path b') f = Some p \<and>
                be_prefs b' = policy_prefs (de_settings env) \<lparr>ov_always_on = False, ov_exit_node = False\<rparr> p) \<and>
           be_reconnect b' = None \<and> \<not> be_override_always_on b' \<and> \<not> be_override_exit_node_policy b') \<and>
    (be_device b' = None \<and> be_tasks b' = [] \<and> be_generation b' = be_generation b + 1)"
  by (rule conjI, rule impI, erule activate_profile_coherent_parts(1) [OF assms],
      rule conjI, rule impI, erule activate_profile_coherent_parts(2) [OF assms],
      rule activate_profile_coherent_parts(3) [OF assms])

theorem activate_profile_coherent_witness:
  "case activate_profile demo_env ''work'' True demo_backend (\<lambda>_. None) of
     (r, b', f') \<Rightarrow> is_ok r \<and> be_current_profile b' = ''work'' \<and> f' (current_profile_path [''var'']) = Some ''work''"
proof -
  obtain r b' f' where a: "activate_profile demo_env ''work'' True demo_backend (\<lambda>_. None) = (r, b', f')"
    by (metis prod_cases3)
  have "is_ok r"
    using a by (auto simp: activate_profile_def demo_backend_def demo_env_def DEFAULT_PROFILE_ID_def Let_def
        load_prefs_def fs_read_def register_target_def save_profiles_def save_profiles_file_def
        save_current_profile_def atomic_write_def atomic_write_trace_def demo_io_def fs_write_def fs_rename_def
        be_simps)
  then obtain out where "r = Inr out" by (auto simp: is_ok_iff)
  have "''work'' \<noteq> be_current_profile demo_backend"
    by (simp add: demo_backend_def DEFAULT_PROFILE_ID_def)
  from activate_profile_coherent [OF a this, of _ out] \<open>r = Inr out\<close> a show ?thesis
    by (simp add: demo_backend_def)
qed

end
