(* ===== verification/BackendOps.thy ===== *)
theory BackendOps
  imports Backend
begin

text \<open>
  The lifecycle operations of \<open>src/src/ipn/mod.rs\<close>: \<open>down\<close>, \<open>logout\<close>, the two locked phases of a
  bring-up (\<open>begin_up_gated\<close>, \<open>finish_up\<close>), the locked phase of a \<open>set\<close> (\<open>begin_set_gated\<close>), the
  dry run \<open>check_prefs_gated\<close>, and the \<open>--config\<close> and \<open>--tun\<close> paths, with every early return of
  the source. The engine handshake \<open>build_device\<close> runs without the lock: its result is an argument
  of \<open>finish_up\<close>.
\<close>

section \<open>Disconnecting\<close>

definition check_disconnect :: "daemon_env \<Rightarrow> Actor \<Rightarrow> backend \<Rightarrow> fs \<Rightarrow> audit_record option be_result" where
  "check_disconnect env actor b f =
     (if \<not> want_running (be_prefs b) then Inr None
      else map_err DisconnectRefusedBy
             (check_disconnect_policy (de_settings env) actor (current_profile_name env b f) None))"

definition after_disconnect :: "daemon_env \<Rightarrow> bool \<Rightarrow> backend \<Rightarrow> backend" where
  "after_disconnect env was_running b =
     reset_exit_node_policy_override
       (if was_running then on_permitted_disconnect env (reconnect_after_in (de_settings env)) b else b)"

definition down :: "daemon_env \<Rightarrow> Actor \<Rightarrow> backend \<Rightarrow> fs \<Rightarrow> unit be_result \<times> backend \<times> fs" where
  "down env actor b f =
     (case check_disconnect env actor b f of
        Inl e \<Rightarrow> (Inl e, b, f)
      | Inr _ \<Rightarrow>
          (let was_running = want_running (be_prefs b);
               b1 = bump_generation (stop_device env b);
               b2 = b1\<lparr>be_prefs := (be_prefs b1)\<lparr>want_running := False\<rparr>, be_ever_configured := True\<rparr>;
               b3 = after_disconnect env was_running b2;
               (r, f1) = persist_prefs env b3 f
           in (r, b3, f1)))"

definition logout_prefs :: "prefs \<Rightarrow> prefs" where
  "logout_prefs p = p\<lparr>want_running := False, logged_out := True, has_logged_in := False\<rparr>"

definition record_logout :: "daemon_env \<Rightarrow> bool \<Rightarrow> backend \<Rightarrow> backend" where
  "record_logout env was_running b =
     after_disconnect env was_running (b\<lparr>be_prefs := logout_prefs (be_prefs b), be_ever_configured := True\<rparr>)"

definition logout :: "daemon_env \<Rightarrow> Actor \<Rightarrow> backend \<Rightarrow> fs \<Rightarrow> unit be_result \<times> backend \<times> fs" where
  "logout env actor b f =
     (case check_disconnect env actor b f of
        Inl e \<Rightarrow> (Inl e, b, f)
      | Inr _ \<Rightarrow>
          (let was_running = want_running (be_prefs b);
               b1 = forget_suggested_exit_node ((bump_generation (stop_device env b))\<lparr>be_netmap_name := None\<rparr>)
           in case discard_node_key env b1 f of
                (Inl e, b2, f1) \<Rightarrow> (Inl e, b2, f1)
              | (Inr _, b2, f1) \<Rightarrow>
                  (let b3 = record_logout env was_running b2; (r, f2) = persist_prefs env b3 f1 in (r, b3, f2))))"

section \<open>Bringing up\<close>

record WifCreds =
  wif_client_id :: "string option"
  wif_client_secret :: "string option"
  wif_id_token :: "string option"
  wif_audience :: "string option"

definition wif_from_wire ::
  "string option \<Rightarrow> string option \<Rightarrow> string option \<Rightarrow> string option \<Rightarrow> WifCreds option" where
  "wif_from_wire client_id client_secret id_token audience =
     (if client_id = None \<and> client_secret = None \<and> id_token = None \<and> audience = None then None
      else Some \<lparr>wif_client_id = client_id, wif_client_secret = client_secret,
                 wif_id_token = id_token, wif_audience = audience\<rparr>)"

definition apply_wif :: "WifCreds option \<Rightarrow> engine_config \<Rightarrow> engine_config" where
  "apply_wif wif c =
     (case wif of None \<Rightarrow> c
      | Some w \<Rightarrow> c\<lparr>cfg_client_id := wif_client_id w, cfg_client_secret := wif_client_secret w,
                    cfg_id_token := wif_id_token w, cfg_audience := wif_audience w\<rparr>)"

record PendingUp =
  pu_config :: engine_config
  pu_generation :: nat

definition auth_key_gate :: "daemon_env \<Rightarrow> backend \<Rightarrow> AuthKeyGate" where
  "auth_key_gate env b =
     (let engine_state = map_option (\<lambda>dev. fst (state_from_device (de_device_state env dev))) (be_device b) in
      \<lparr>gate_running = (engine_state = Some Running), gate_needs_login = (engine_state = Some NeedsLogin),
       gate_enrolled = has_logged_in (be_prefs b), gate_config_in_use = (be_config_source b \<noteq> None)\<rparr>)"

definition policy_auth_key :: "daemon_env \<Rightarrow> backend \<Rightarrow> string option" where
  "policy_auth_key env b =
     (case auth_key_in (de_sources env) (auth_key_gate env b) of
        Use key \<Rightarrow> Some key | NotConfigured \<Rightarrow> None | Skipped _ \<Rightarrow> None)"

definition up_revert_guard :: "daemon_env \<Rightarrow> up_options \<Rightarrow> backend \<Rightarrow> RevertedPref list" where
  "up_revert_guard env opts b =
     drop_policy_pinned (check_accidental_reverts (be_prefs b) opts (has_logged_in (be_prefs b)))
       (pinned_prefs_in (de_settings env))"

definition up_control_url_guard :: "daemon_env \<Rightarrow> up_options \<Rightarrow> backend \<Rightarrow> bool" where
  "up_control_url_guard env opts b =
     change_blocked (control_url (be_prefs b)) (up_control_url opts)
       (case be_device b of
          None \<Rightarrow> False
        | Some dev \<Rightarrow> fst (state_from_device (de_device_state env dev)) = Running)
       (up_force_reauth opts)"

definition complete_tags :: "string list option \<Rightarrow> string list option be_result" where
  "complete_tags named =
     (case named of
        None \<Rightarrow> Inr None
      | Some tags \<Rightarrow> rbind (map_err TagRefused (complete_and_validate_advertise_tags tags)) (\<lambda>cs. Inr (Some cs)))"

definition check_named_exit_node :: "daemon_env \<Rightarrow> backend \<Rightarrow> string option option \<Rightarrow> unit be_result" where
  "check_named_exit_node env b named =
     (case named of Some (Some sel) \<Rightarrow> check_exit_node_arg env b sel | _ \<Rightarrow> Inr ())"

definition check_route_set ::
  "daemon_env \<Rightarrow> backend \<Rightarrow> string list option \<Rightarrow> bool option \<Rightarrow> bool \<Rightarrow> unit be_result" where
  "check_route_set env b named_routes named_exit reset =
     (let (routes, exit) = prospective_route_set named_routes named_exit (be_prefs b) reset in
      map_err RoutesRefused (validate_advertise_routes (be_ipnet (de_build env)) routes exit))"

text \<open>The refusals of \<open>begin_up_gated\<close>, in its order; the result is the completed options and the exit-node verdict.\<close>

definition begin_up_checks :: "daemon_env \<Rightarrow> up_options \<Rightarrow> backend \<Rightarrow> (up_options \<times> ExitNodeEdit) be_result" where
  "begin_up_checks env opts b =
     rbind (check_route_set env b (up_advertise_routes opts) (up_advertise_exit_node opts) (up_reset opts)) (\<lambda>_.
     rbind (complete_tags (up_advertise_tags opts)) (\<lambda>tags.
     rbind (check_exit_node_policy env (up_exit_node opts)) (\<lambda>edit.
     rbind (check_named_exit_node env b (up_exit_node opts)) (\<lambda>_.
     rbind (check_ssh_prefs_gated (up_ssh opts) (up_reset opts) (env_ssh_gate (de_build env)) b) (\<lambda>_.
     Inr (opts\<lparr>up_advertise_tags := tags\<rparr>, edit))))))"

definition up_prefs :: "up_options \<Rightarrow> prefs \<Rightarrow> prefs" where
  "up_prefs opts p =
     (apply_up_overrides opts (if up_reset opts then reset_up_managed_to_default p else p))
       \<lparr>want_running := True, logged_out := False\<rparr>"

text \<open>Everything between the teardown and the persist: reset, overrides, intent, exemptions, policy.\<close>

definition apply_up :: "daemon_env \<Rightarrow> up_options \<Rightarrow> ExitNodeEdit \<Rightarrow> backend \<Rightarrow> backend" where
  "apply_up env opts edit b =
     reconcile_sys_policy env (record_exit_node_edit edit (reset_exit_node_policy_override
       (reset_always_on_override
         (b\<lparr>be_prefs := up_prefs opts (be_prefs b), be_ever_configured := True\<rparr>))))"

definition build_be_config :: "daemon_env \<Rightarrow> backend \<Rightarrow> fs \<Rightarrow> engine_config be_result \<times> fs" where
  "build_be_config env b f =
     (case build_config (de_build env) (be_prefs b) (be_key_path b) (be_listen_port b) f of
        (r, f') \<Rightarrow> (map_err ConfigFailed r, f'))"

text \<open>The end of \<open>begin_up_gated\<close>: persist, build the config, become the current generation.\<close>

definition start_up ::
  "daemon_env \<Rightarrow> WifCreds option \<Rightarrow> backend \<Rightarrow> fs \<Rightarrow> PendingUp be_result \<times> backend \<times> fs" where
  "start_up env wif b f =
     (case persist_prefs env b f of
        (Inl e, f1) \<Rightarrow> (Inl e, b, f1)
      | (Inr _, f1) \<Rightarrow>
          (case build_be_config env b f1 of
             (Inl e, f2) \<Rightarrow> (Inl e, b, f2)
           | (Inr c, f2) \<Rightarrow>
               (let b1 = bump_generation (b\<lparr>be_has_node_key := True\<rparr>) in
                (Inr \<lparr>pu_config = apply_wif wif c, pu_generation = be_generation b1\<rparr>, b1, f2))))"

definition begin_up_gated ::
  "daemon_env \<Rightarrow> up_options \<Rightarrow> WifCreds option \<Rightarrow> backend \<Rightarrow> fs \<Rightarrow> PendingUp be_result \<times> backend \<times> fs" where
  "begin_up_gated env opts wif b f =
     (case begin_up_checks env opts b of
        Inl e \<Rightarrow> (Inl e, b, f)
      | Inr (opts', edit) \<Rightarrow>
          (let b1 = stop_device env b in
           case (if up_force_reauth opts then discard_node_key env b1 f else (Inr (), b1, f)) of
             (Inl e, b2, f1) \<Rightarrow> (Inl e, b2, f1)
           | (Inr _, b2, f1) \<Rightarrow> start_up env wif (apply_up env opts' edit b2) f1))"

text \<open>
  The tasks of an installed device; the SSH server needs the feature, the preference and a host key,
  the link monitor, the suggestion loop and the serve supervisor are always spawned.
\<close>

definition spawn_tasks :: "daemon_env \<Rightarrow> backend \<Rightarrow> device_task list" where
  "spawn_tasks env b =
     (if ssh_feature (de_build env) \<and> ssh_enabled (be_prefs b) \<and> de_host_key_ok env then [SshTask] else []) @
     [LinkMonitor, SuggestionTask, ServeSupervisor]"

text \<open>\<open>Ok(Some orphan)\<close> hands a superseded device back; \<open>Ok(None)\<close> means installed (or a stale failure).\<close>

definition finish_up ::
  "daemon_env \<Rightarrow> PendingUp \<Rightarrow> engine be_result \<Rightarrow> backend \<Rightarrow> engine option be_result \<times> backend" where
  "finish_up env pending built b =
     (if pu_generation pending \<noteq> be_generation b
      then (Inr (case built of Inr dev \<Rightarrow> Some dev | Inl _ \<Rightarrow> None), b)
      else case built of
        Inl e \<Rightarrow> (Inl e, b)
      | Inr dev \<Rightarrow>
          (let b1 = bump_generation (b\<lparr>be_device := Some dev\<rparr>);
               b2 = b1\<lparr>be_tasks := be_tasks b1 @ spawn_tasks env b1\<rparr>
           in (Inr None, b2\<lparr>be_prefs := (be_prefs b2)\<lparr>has_logged_in := True\<rparr>\<rparr>)))"

text \<open>\<open>Device::new_with_secret\<close> on a pending config: a device built from that config and key, or a failure.\<close>

definition build_device :: "bool \<Rightarrow> PendingUp \<Rightarrow> string option \<Rightarrow> engine be_result" where
  "build_device engine_ok pending authkey =
     (if engine_ok then Inr \<lparr>eng_config = pu_config pending, eng_authkey = authkey, eng_ops = []\<rparr>
      else Inl EngineFailed)"

text \<open>The locked part of \<open>drive_up\<close> after the handshake: install, then persist the login flag.\<close>

definition settle_up ::
  "daemon_env \<Rightarrow> PendingUp \<Rightarrow> engine be_result \<Rightarrow> backend \<Rightarrow> fs \<Rightarrow> engine option be_result \<times> backend \<times> fs" where
  "settle_up env pending built b f =
     (case finish_up env pending built b of
        (Inl e, b1) \<Rightarrow> (Inl e, b1, f)
      | (Inr None, b1) \<Rightarrow> (Inr None, b1, snd (persist_prefs env b1 f))
      | (Inr (Some orphan), b1) \<Rightarrow> (Inr (Some orphan), b1, f))"

section \<open>Live edits\<close>

datatype SetAction = PersistedOnly | Live "LiveSetOp list" | Rebuild

record SetOutcome =
  so_action :: SetAction
  so_rename_error :: "be_error option"

definition begin_set_checks :: "daemon_env \<Rightarrow> set_options \<Rightarrow> backend \<Rightarrow> (set_options \<times> ExitNodeEdit) be_result" where
  "begin_set_checks env opts b =
     rbind (check_route_set env b (set_advertise_routes opts) (set_advertise_exit_node opts) False) (\<lambda>_.
     rbind (complete_tags (set_advertise_tags opts)) (\<lambda>tags.
     rbind (check_exit_node_policy env (set_exit_node opts)) (\<lambda>edit.
     rbind (check_named_exit_node env b (set_exit_node opts)) (\<lambda>_.
     rbind (check_ssh_prefs_gated (set_ssh opts) False (env_ssh_gate (de_build env)) b) (\<lambda>_.
     case check_auto_update_pref (prospective_auto_update (set_auto_update opts) b) (de_auto_update_gate env) REMEDY_CLI of
       Some e \<Rightarrow> Inl (AutoUpdateRefused e)
     | None \<Rightarrow> Inr (opts\<lparr>set_advertise_tags := tags\<rparr>, edit))))))"

definition apply_set :: "daemon_env \<Rightarrow> set_options \<Rightarrow> ExitNodeEdit \<Rightarrow> backend \<Rightarrow> backend" where
  "apply_set env opts edit b =
     reconcile_sys_policy env (record_exit_node_edit edit
       (b\<lparr>be_prefs := apply_set_overrides opts (be_prefs b), be_ever_configured := True\<rparr>))"

text \<open>
  The live setters a \<open>set\<close> owes the engine: one per named preference, with the value the
  preferences hold after the policy, in the source's order.
\<close>

definition live_ops :: "daemon_env \<Rightarrow> set_options \<Rightarrow> prefs \<Rightarrow> LiveSetOp list" where
  "live_ops env opts p =
     (if set_exit_node opts \<noteq> None then [LiveExitNode (exit_node p)] else []) @
     (if set_hostname opts \<noteq> None then [LiveHostname (unwrap_or (hostname p) [])] else []) @
     (if set_accept_routes opts \<noteq> None then [LiveAcceptRoutes (accept_routes p)] else []) @
     (if set_accept_dns opts \<noteq> None then [LiveAcceptDns (accept_dns p)] else []) @
     (if set_advertise_routes opts \<noteq> None
      then [LiveAdvertiseRoutes (map (\<lambda>s. the (parse_ipnet (be_ipnet (de_build env)) s)) (advertise_routes p))]
      else []) @
     (if set_advertise_exit_node opts \<noteq> None then [LiveAdvertiseExitNode (advertise_exit_node p)] else [])"

text \<open>Issuing them one by one: the first that fails is the error, and the earlier ones stay issued.\<close>

fun issue_ops :: "daemon_env \<Rightarrow> LiveSetOp list \<Rightarrow> engine \<Rightarrow> unit be_result \<times> engine" where
  "issue_ops env [] dev = (Inr (), dev)"
| "issue_ops env (op # ops) dev =
     (if de_setter_fails env dev op then (Inl (SetterFailed op), dev)
      else issue_ops env ops (dev\<lparr>eng_ops := eng_ops dev @ [op]\<rparr>))"

definition reconcile_set :: "daemon_env \<Rightarrow> set_options \<Rightarrow> backend \<Rightarrow> SetAction be_result \<times> backend" where
  "reconcile_set env opts b =
     (case be_device b of
        None \<Rightarrow> (Inr PersistedOnly, b)
      | Some dev \<Rightarrow>
          if needs_rebuild opts then (Inr Rebuild, b)
          else (let ops = live_ops env opts (be_prefs b); (r, dev') = issue_ops env ops dev in
                (rbind r (\<lambda>_. Inr (Live ops)), b\<lparr>be_device := Some dev'\<rparr>)))"

definition begin_set_gated ::
  "daemon_env \<Rightarrow> set_options \<Rightarrow> backend \<Rightarrow> fs \<Rightarrow> SetOutcome be_result \<times> backend \<times> fs" where
  "begin_set_gated env opts b f =
     (case begin_set_checks env opts b of
        Inl e \<Rightarrow> (Inl e, b, f)
      | Inr (opts', edit) \<Rightarrow>
          (let b1 = apply_set env opts' edit b in
           case persist_prefs env b1 f of
             (Inl e, f1) \<Rightarrow> (Inl e, b1, f1)
           | (Inr _, f1) \<Rightarrow>
               (let (renamed, f2) = (case set_nickname opts of
                       Some name \<Rightarrow> rename_current_profile env (unwrap_or name []) b1 f1
                     | None \<Rightarrow> (Inr (), f1));
                    (action, b2) = reconcile_set env opts b1
                in (rbind action (\<lambda>a. Inr \<lparr>so_action = a,
                      so_rename_error = (case renamed of Inl e \<Rightarrow> Some e | Inr _ \<Rightarrow> None)\<rparr>), b2, f2))))"

section \<open>The dry run\<close>

datatype posture_error =
    PostureSelector string
  | PostureExitNode exit_node_error
  | PostureConflict
  | PostureSshFeature
  | PostureSsh ssh_refusal
  | PostureAutoUpdate "update_refusal \<times> remedy"
  | PostureRoute RouteError

record CheckPrefsEnv =
  cpe_ssh_gate :: "(ssh_refusal, unit) result"
  cpe_exit_node_facts :: ExitNodeFacts
  cpe_auto_update_gate :: "update_refusal option"
  cpe_ssh_feature :: bool
  cpe_ipnet :: ipnet_lib

definition posture_exit_node :: "CheckPrefsEnv \<Rightarrow> string option option \<Rightarrow> string option \<Rightarrow> posture_error list" where
  "posture_exit_node env named prospective =
     (if \<not> validate_exit_node_selector prospective then [PostureSelector (unwrap_or prospective [])]
      else case named of
        Some (Some sel) \<Rightarrow>
          (case resolve_exit_node_arg sel (cpe_exit_node_facts env) of Inl e \<Rightarrow> [PostureExitNode e] | Inr _ \<Rightarrow> [])
      | _ \<Rightarrow> [])"

definition posture_ssh :: "CheckPrefsEnv \<Rightarrow> bool \<Rightarrow> posture_error list" where
  "posture_ssh env ssh =
     (if \<not> ssh then []
      else (if \<not> cpe_ssh_feature env then [PostureSshFeature] else []) @
           (case cpe_ssh_gate env of Inl e \<Rightarrow> [PostureSsh e] | Inr _ \<Rightarrow> []))"

definition posture_errors ::
  "CheckPrefsEnv \<Rightarrow> string option option \<Rightarrow> bool option \<Rightarrow> string list option \<Rightarrow> bool option \<Rightarrow> bool option \<Rightarrow>
   backend \<Rightarrow> posture_error list" where
  "posture_errors env named_exit_node named_advertise named_routes named_ssh named_auto_update b =
     (let p = be_prefs b;
          prospective_exit_node = unwrap_or named_exit_node (exit_node p);
          prospective_advertise_exit = unwrap_or named_advertise (advertise_exit_node p);
          prospective_routes = unwrap_or named_routes (advertise_routes p)
      in posture_exit_node env named_exit_node prospective_exit_node @
         (if prospective_exit_node \<noteq> None \<and> prospective_advertise_exit then [PostureConflict] else []) @
         posture_ssh env (prospective_ssh named_ssh p False) @
         (case check_auto_update_pref (prospective_auto_update named_auto_update b) (cpe_auto_update_gate env) REMEDY_CLI of
            Some e \<Rightarrow> [PostureAutoUpdate e] | None \<Rightarrow> []) @
         (case calc_advertise_routes (cpe_ipnet env) prospective_routes prospective_advertise_exit of
            Inl errs \<Rightarrow> map PostureRoute errs | Inr _ \<Rightarrow> []))"

definition check_prefs_gated ::
  "CheckPrefsEnv \<Rightarrow> string option option \<Rightarrow> bool option \<Rightarrow> string list option \<Rightarrow> bool option \<Rightarrow> bool option \<Rightarrow>
   backend \<Rightarrow> (posture_error list, unit) result" where
  "check_prefs_gated env named_exit_node named_advertise named_routes named_ssh named_auto_update b =
     (let errs = posture_errors env named_exit_node named_advertise named_routes named_ssh named_auto_update b in
      if errs = [] then Inr () else Inl errs)"

text \<open>\<open>check_prefs\<close>: the host's own verdicts; the netmap is consulted only for a named selector.\<close>

definition check_prefs ::
  "daemon_env \<Rightarrow> string option option \<Rightarrow> bool option \<Rightarrow> string list option \<Rightarrow> bool option \<Rightarrow> bool option \<Rightarrow>
   backend \<Rightarrow> (posture_error list, unit) result" where
  "check_prefs env named_exit_node named_advertise named_routes named_ssh named_auto_update b =
     check_prefs_gated
       \<lparr>cpe_ssh_gate = env_ssh_gate (de_build env),
        cpe_exit_node_facts = (case named_exit_node of Some (Some _) \<Rightarrow> exit_node_facts env b | _ \<Rightarrow> facts_default),
        cpe_auto_update_gate = de_auto_update_gate env,
        cpe_ssh_feature = ssh_feature (de_build env), cpe_ipnet = be_ipnet (de_build env)\<rparr>
       named_exit_node named_advertise named_routes named_ssh named_auto_update b"

section \<open>\<open>--config\<close> and \<open>--tun\<close>\<close>

definition apply_config :: "daemon_env \<Rightarrow> Config \<Rightarrow> backend \<Rightarrow> fs \<Rightarrow> string option be_result \<times> backend \<times> fs" where
  "apply_config env cfg b f =
     (case apply_to_prefs_gated (de_conf env) cfg (de_auto_update_gate env) (be_prefs b) of
        (Inl e, p) \<Rightarrow> (Inl (ConfigFileFailed e), b\<lparr>be_prefs := p\<rparr>, f)
      | (Inr key, p) \<Rightarrow>
          (let b1 = reconcile_sys_policy env (b\<lparr>be_prefs := p, be_ever_configured := True\<rparr>) in
           case persist_prefs env b1 f of
             (Inl e, f1) \<Rightarrow> (Inl e, b1, f1)
           | (Inr _, f1) \<Rightarrow> (Inr key, b1, f1)))"

datatype ReloadAction = ReloadPersistedOnly | ReloadRebuild | ReloadBringDown

definition reload_config :: "daemon_env \<Rightarrow> backend \<Rightarrow> fs \<Rightarrow> ReloadAction option be_result \<times> backend \<times> fs" where
  "reload_config env b f =
     (case be_config_source b of
        None \<Rightarrow> (Inr None, b, f)
      | Some source \<Rightarrow>
          (case load_config (de_conf env) source of
             Inl e \<Rightarrow> (Inl (ConfigFileFailed e), b, f)
           | Inr cfg \<Rightarrow>
               (case apply_config env cfg b f of
                  (Inl e, b1, f1) \<Rightarrow> (Inl e, b1, f1)
                | (Inr _, b1, f1) \<Rightarrow>
                    (Inr (Some (if be_device b1 = None then ReloadPersistedOnly
                                else if want_running (be_prefs b1) then ReloadRebuild
                                else ReloadBringDown)), b1, f1))))"

definition apply_tun_flag :: "daemon_env \<Rightarrow> TunTransport \<Rightarrow> backend \<Rightarrow> fs \<Rightarrow> bool be_result \<times> backend \<times> fs" where
  "apply_tun_flag env transport b f =
     (let (enabled, name) = (case transport of
             Netstack \<Rightarrow> (False, tun_name (be_prefs b)) | Tun n \<Rightarrow> (True, n))
      in if tun_enabled (be_prefs b) = enabled \<and> tun_name (be_prefs b) = name then (Inr False, b, f)
         else let b1 = b\<lparr>be_prefs := (be_prefs b)\<lparr>tun_enabled := enabled, tun_name := name\<rparr>\<rparr> in
           case persist_prefs env b1 f of
             (Inl e, f1) \<Rightarrow> (Inl e, b1, f1)
           | (Inr _, f1) \<Rightarrow> (Inr True, b1, f1))"

section \<open>Closed forms\<close>

lemma apply_up_alt [be_simps]:
  "apply_up env opts edit b =
     b\<lparr>be_prefs := policy_prefs (de_settings env) \<lparr>ov_always_on = False, ov_exit_node = (edit = Override)\<rparr>
         (up_prefs opts (be_prefs b)),
       be_ever_configured := True, be_override_always_on := False, be_reconnect := None,
       be_override_exit_node_policy := (edit = Override)\<rparr>"
  by (simp add: apply_up_def be_simps)

lemma apply_set_alt [be_simps]:
  "apply_set env opts edit b =
     b\<lparr>be_prefs := policy_prefs (de_settings env)
         \<lparr>ov_always_on = be_override_always_on b,
          ov_exit_node = (edit = Override \<or> edit = Untouched \<and> be_override_exit_node_policy b)\<rparr>
         (apply_set_overrides opts (be_prefs b)),
       be_ever_configured := True,
       be_override_exit_node_policy := (edit = Override \<or> edit = Untouched \<and> be_override_exit_node_policy b)\<rparr>"
  by (simp add: apply_set_def be_simps)

lemma after_disconnect_alt [be_simps]:
  "after_disconnect env was b =
     b\<lparr>be_override_always_on := (was \<or> be_override_always_on b),
       be_reconnect_seq := be_reconnect_seq b + (if was \<and> reconnect_after_in (de_settings env) \<noteq> None then 1 else 0),
       be_reconnect := (if was then (case reconnect_after_in (de_settings env) of
           None \<Rightarrow> be_reconnect b
         | Some d \<Rightarrow> Some \<lparr>rt_seq = be_reconnect_seq b + 1, rt_profile = be_current_profile b, rt_after = d,
                           rt_deadline = de_now env + d\<rparr>) else be_reconnect b),
       be_override_exit_node_policy := False\<rparr>"
  by (simp add: after_disconnect_def on_permitted_disconnect_def start_reconnect_timer_def be_simps Let_def
      split: option.split)

lemma up_prefs_intent [simp]: "want_running (up_prefs o1 p)" "\<not> logged_out (up_prefs o1 p)"
  by (simp_all add: up_prefs_def)

lemma discard_node_key_cases:
  "discard_node_key env b f = (r, b', f') \<Longrightarrow>
     (r = Inr () \<and> b' = b\<lparr>be_has_node_key := False\<rparr> \<and> f' = f(be_key_path b := None)) \<or>
     (r = Inl (DiscardKeyFailed (be_key_path b)) \<and> b' = b \<and> f' = f)"
  by (auto simp: discard_node_key_def fs_remove_def fun_upd_idem_iff split: option.splits if_splits)

text \<open>The paths of a backend are the ones of its current profile.\<close>

definition paths_wf :: "backend \<Rightarrow> bool" where
  "paths_wf b = ((be_prefs_path b, be_key_path b) = profile_paths (be_state_dir b) (be_current_profile b))"

lemma prefs_path_not_profiles:
  "paths_wf b \<Longrightarrow> be_prefs_path b \<noteq> profiles_file_path (be_state_dir b) \<and>
     be_prefs_path b \<noteq> tmp_path io (profiles_file_path (be_state_dir b))"
  by (auto simp: paths_wf_def profile_paths_def profiles_file_path_def tmp_path_def parent_dir_def
      file_name_def Let_def split: if_splits)

lemma key_path_distinct:
  "paths_wf b \<Longrightarrow> be_key_path b \<noteq> be_prefs_path b \<and> be_key_path b \<noteq> tmp_path io (be_prefs_path b) \<and>
     be_key_path b \<noteq> profiles_file_path (be_state_dir b) \<and>
     be_key_path b \<noteq> tmp_path io (profiles_file_path (be_state_dir b))"
  by (auto simp: paths_wf_def profile_paths_def profiles_file_path_def tmp_path_def parent_dir_def
      file_name_def Let_def split: if_splits)

lemma save_profiles_frame:
  "save_profiles env b meta f = (ok, f') \<Longrightarrow> q \<noteq> profiles_file_path (be_state_dir b) \<Longrightarrow>
     q \<noteq> tmp_path (de_io env) (profiles_file_path (be_state_dir b)) \<Longrightarrow> f' q = f q"
  by (auto simp: save_profiles_def save_profiles_file_def split: if_splits dest: atomic_write_other)

lemma register_current_profile_frame:
  "register_current_profile env b f = (r, f') \<Longrightarrow> q \<noteq> profiles_file_path (be_state_dir b) \<Longrightarrow>
     q \<noteq> tmp_path (de_io env) (profiles_file_path (be_state_dir b)) \<Longrightarrow> f' q = f q"
  by (auto simp: register_current_profile_def Let_def split: if_splits prod.splits dest: save_profiles_frame)

lemma persist_prefs_file:
  assumes "persist_prefs env b f = (r, f')" "paths_wf b"
  shows "r = Inr u \<Longrightarrow> f' (be_prefs_path b) = Some (prefs_to_json (de_prefs_json env) (be_prefs b))"
    and "r = Inl (PrefsSaveFailed p) \<Longrightarrow> f' (be_prefs_path b) = f (be_prefs_path b)"
    and "f' (be_key_path b) = f (be_key_path b)"
proof -
  obtain ok f1 where s: "save_prefs (de_io env) (de_prefs_json env) (be_prefs_path b) (be_prefs b) f = (ok, f1)"
    by fastforce
  have prefs: "f1 (be_prefs_path b) = (if ok then Some (prefs_to_json (de_prefs_json env) (be_prefs b)) else f (be_prefs_path b))"
    by (rule save_prefs_result [OF s])
  have key: "f1 (be_key_path b) = f (be_key_path b)"
    using key_path_distinct [OF assms(2)] by (blast intro: save_prefs_other [OF s])
  have after: "f' q = f1 q" if "q = be_prefs_path b \<or> q = be_key_path b" for q
  proof (cases ok)
    case True
    then have "register_current_profile env b f1 = (r, f')" using assms(1) s by (simp add: persist_prefs_def)
    with that prefs_path_not_profiles [OF assms(2)] key_path_distinct [OF assms(2)] show ?thesis
      by (metis register_current_profile_frame)
  qed (use assms(1) s in \<open>simp add: persist_prefs_def\<close>)
  have err: "r = Inl (PrefsSaveFailed p) \<Longrightarrow> \<not> ok" for p
    using assms(1) s
    by (auto simp: persist_prefs_def register_current_profile_def Let_def split: bool.splits if_splits prod.splits)
  have ok: "r = Inr u \<Longrightarrow> ok" for u
    using assms(1) s by (auto simp: persist_prefs_def split: bool.splits)
  show "r = Inr u \<Longrightarrow> f' (be_prefs_path b) = Some (prefs_to_json (de_prefs_json env) (be_prefs b))"
    using after prefs ok by simp
  show "r = Inl (PrefsSaveFailed p) \<Longrightarrow> f' (be_prefs_path b) = f (be_prefs_path b)"
    using after prefs err by simp
  show "f' (be_key_path b) = f (be_key_path b)" using after key by simp
qed

lemma persist_prefs_logged_out:
  "\<not> has_logged_in (be_prefs b) \<Longrightarrow> persist_prefs env b f = (Inl e, f') \<Longrightarrow> e = PrefsSaveFailed (be_prefs_path b)"
  by (auto simp: persist_prefs_def register_current_profile_def split: prod.splits bool.splits)

section \<open>Properties\<close>

lemma down_contract_parts:
  assumes "down env actor b f = (r, b', f')"
  shows "check_disconnect env actor b f = Inl e \<Longrightarrow> r = Inl e \<and> b' = b \<and> f' = f"
    and "check_disconnect env actor b f = Inr a \<Longrightarrow>
           be_device b' = None \<and> be_tasks b' = [] \<and> be_generation b' = be_generation b + 1 \<and>
           be_prefs b' = (be_prefs b)\<lparr>want_running := False\<rparr> \<and> \<not> be_override_exit_node_policy b'"
    and "check_disconnect env actor b f = Inr a \<Longrightarrow> want_running (be_prefs b) \<Longrightarrow>
           reconnect_after_in (de_settings env) = Some d \<Longrightarrow>
           be_override_always_on b' \<and>
           (\<exists>t. be_reconnect b' = Some t \<and> rt_profile t = be_current_profile b \<and> rt_deadline t = de_now env + d)"
    and "r = Inr u \<Longrightarrow> paths_wf b \<Longrightarrow>
           f' (be_prefs_path b) = Some (prefs_to_json (de_prefs_json env) (be_prefs b'))"
proof -
  show "check_disconnect env actor b f = Inl e \<Longrightarrow> r = Inl e \<and> b' = b \<and> f' = f"
    using assms by (simp add: down_def)
  show "check_disconnect env actor b f = Inr a \<Longrightarrow>
      be_device b' = None \<and> be_tasks b' = [] \<and> be_generation b' = be_generation b + 1 \<and>
      be_prefs b' = (be_prefs b)\<lparr>want_running := False\<rparr> \<and> \<not> be_override_exit_node_policy b'"
    using assms by (auto simp: down_def Let_def be_simps split: prod.splits)
  show "check_disconnect env actor b f = Inr a \<Longrightarrow> want_running (be_prefs b) \<Longrightarrow>
      reconnect_after_in (de_settings env) = Some d \<Longrightarrow>
      be_override_always_on b' \<and>
      (\<exists>t. be_reconnect b' = Some t \<and> rt_profile t = be_current_profile b \<and> rt_deadline t = de_now env + d)"
    using assms by (auto simp: down_def Let_def be_simps split: prod.splits)
  assume r: "r = Inr u" and wf: "paths_wf b"
  from r assms have p: "persist_prefs env b' f = (Inr u, f')" and path: "be_prefs_path b' = be_prefs_path b"
    and "paths_wf b' = paths_wf b"
    by (auto simp: down_def Let_def be_simps paths_wf_def split: prod.splits sum.splits)
  with wf persist_prefs_file(1) [OF p] show "f' (be_prefs_path b) = Some (prefs_to_json (de_prefs_json env) (be_prefs b'))"
    by simp
qed

text \<open>
  A disconnect is refused without a trace or carried out completely: a refusal leaves the backend
  and the files as they were; otherwise the engine and its tasks are gone, the generation is newer (so
  a bring-up in flight is stale), the intent is down and nothing else of the preferences moved, and if
  the node was up the always-on exemption stands and the configured reconnect is armed for this
  profile and this deadline. A reported success means the new intent is the contents of the
  preference file.
\<close>

theorem down_contract:
  assumes "down env actor b f = (r, b', f')"
  shows "(check_disconnect env actor b f = Inl e \<longrightarrow>
     r = Inl e \<and> b' = b \<and> f' = f) \<and>
    (check_disconnect env actor b f = Inr a \<longrightarrow>
     be_device b' = None \<and> be_tasks b' = [] \<and> be_generation b' = be_generation b + 1 \<and>
           be_prefs b' = (be_prefs b)\<lparr>want_running := False\<rparr> \<and> \<not> be_override_exit_node_policy b') \<and>
    (check_disconnect env actor b f = Inr a \<and> want_running (be_prefs b) \<and> reconnect_after_in (de_settings env) = Some d \<longrightarrow>
     be_override_always_on b' \<and>
           (\<exists>t. be_reconnect b' = Some t \<and> rt_profile t = be_current_profile b \<and> rt_deadline t = de_now env + d)) \<and>
    (r = Inr u \<and> paths_wf b \<longrightarrow>
     f' (be_prefs_path b) = Some (prefs_to_json (de_prefs_json env) (be_prefs b')))"
  by (rule conjI, rule impI, erule down_contract_parts(1) [OF assms],
      rule conjI, rule impI, erule down_contract_parts(2) [OF assms],
      rule conjI, rule impI, elim conjE, rule down_contract_parts(3) [OF assms], assumption+,
      rule impI, elim conjE, rule down_contract_parts(4) [OF assms], assumption+)

lemma record_logout_keeps [simp]:
  "be_prefs (record_logout env was b) = logout_prefs (be_prefs b)"
  "be_device (record_logout env was b) = be_device b"
  "be_prefs_path (record_logout env was b) = be_prefs_path b"
  "be_key_path (record_logout env was b) = be_key_path b"
  "be_state_dir (record_logout env was b) = be_state_dir b"
  "be_current_profile (record_logout env was b) = be_current_profile b"
  "be_generation (record_logout env was b) = be_generation b"
  "be_tasks (record_logout env was b) = be_tasks b"
  by (simp_all add: record_logout_def be_simps)

text \<open>The three ways a logout ends: refused, stopped at the key, or with the preferences written.\<close>

lemma logout_cases:
  assumes "logout env actor b f = (r, b', f')" "paths_wf b"
  shows "(b' = b \<and> f' = f \<and> \<not> is_ok r) \<or>
      (be_prefs b' = be_prefs b \<and> f' = f \<and> \<not> is_ok r) \<or>
      (\<exists>f1. f1 = f(be_key_path b := None) \<and> persist_prefs env b' f1 = (r, f') \<and> paths_wf b' \<and>
        be_prefs b' = logout_prefs (be_prefs b) \<and> be_device b' = None \<and>
        be_prefs_path b' = be_prefs_path b \<and> be_key_path b' = be_key_path b)"
proof (cases "check_disconnect env actor b f")
  case (Inl e)
  then show ?thesis using assms(1) by (auto simp: logout_def)
next
  case (Inr a)
  let ?b1 = "forget_suggested_exit_node ((bump_generation (stop_device env b))\<lparr>be_netmap_name := None\<rparr>)"
  obtain r1 b2 f1 where d: "discard_node_key env ?b1 f = (r1, b2, f1)" by (metis prod_cases3)
  have b1: "be_prefs ?b1 = be_prefs b" "be_device ?b1 = None" "be_prefs_path ?b1 = be_prefs_path b"
    "be_key_path ?b1 = be_key_path b" "be_state_dir ?b1 = be_state_dir b"
    "be_current_profile ?b1 = be_current_profile b"
    by (simp_all add: be_simps)
  from discard_node_key_cases [OF d] show ?thesis
  proof
    assume "r1 = Inl (DiscardKeyFailed (be_key_path ?b1)) \<and> b2 = ?b1 \<and> f1 = f"
    then have "r = Inl (DiscardKeyFailed (be_key_path ?b1))" "b' = ?b1" "f' = f"
      using assms(1) Inr d by (auto simp: logout_def Let_def)
    then show ?thesis using b1 by simp
  next
    assume ok: "r1 = Inr () \<and> b2 = ?b1\<lparr>be_has_node_key := False\<rparr> \<and> f1 = f(be_key_path ?b1 := None)"
    let ?b3 = "record_logout env (want_running (be_prefs b)) b2"
    from ok have "b' = ?b3" "persist_prefs env ?b3 f1 = (r, f')"
      using assms(1) Inr d by (simp_all add: logout_def Let_def split: prod.splits)
    moreover have "paths_wf ?b3" using assms(2) ok b1 by (simp add: paths_wf_def)
    ultimately show ?thesis using ok b1 by (intro disjI2 exI [of _ f1]) simp
  qed
qed

lemma logout_key_first_parts:
  assumes "logout env actor b f = (r, b', f')" "paths_wf b"
  shows "f' (be_prefs_path b) \<noteq> f (be_prefs_path b) \<Longrightarrow> f' (be_key_path b) = None"
    and "f' (be_key_path b) \<noteq> None \<Longrightarrow> be_prefs b' = be_prefs b \<and> f' (be_prefs_path b) = f (be_prefs_path b)"
    and "r = Inr u \<Longrightarrow> f' (be_key_path b) = None \<and> be_device b' = None \<and> \<not> wants_running b' \<and>
           logged_out (be_prefs b') \<and> derive_state b' False = NeedsLogin \<and>
           f' (be_prefs_path b) = Some (prefs_to_json (de_prefs_json env) (be_prefs b'))"
proof -
  note cases = logout_cases [OF assms]
  have key: "f' (be_key_path b) = f (be_key_path b) \<and> f' (be_prefs_path b) = f (be_prefs_path b) \<and> be_prefs b' = be_prefs b
      \<or> f' (be_key_path b) = None"
    using cases
  proof (elim disjE exE conjE)
    fix f1 assume "persist_prefs env b' f1 = (r, f')" "paths_wf b'" "f1 = f(be_key_path b := None)"
      "be_key_path b' = be_key_path b"
    then show ?thesis using persist_prefs_file(3) [of env b' f1 r f'] by simp
  qed (simp_all add: be_simps)
  then show "f' (be_prefs_path b) \<noteq> f (be_prefs_path b) \<Longrightarrow> f' (be_key_path b) = None" by blast
  from key show "f' (be_key_path b) \<noteq> None \<Longrightarrow> be_prefs b' = be_prefs b \<and> f' (be_prefs_path b) = f (be_prefs_path b)"
    by metis
  assume "r = Inr u"
  with cases obtain f1 where p: "persist_prefs env b' f1 = (Inr u, f')" "paths_wf b'"
    "be_prefs b' = logout_prefs (be_prefs b)" "be_device b' = None" "f1 = f(be_key_path b := None)"
    "be_prefs_path b' = be_prefs_path b" "be_key_path b' = be_key_path b"
    by auto
  with persist_prefs_file(1,3) [OF p(1,2)] show "f' (be_key_path b) = None \<and> be_device b' = None \<and> \<not> wants_running b' \<and>
      logged_out (be_prefs b') \<and> derive_state b' False = NeedsLogin \<and>
      f' (be_prefs_path b) = Some (prefs_to_json (de_prefs_json env) (be_prefs b'))"
    by (simp add: logout_prefs_def wants_running_def derive_state_def derive_state_from_def)
qed


theorem down_contract_witness:
  "be_device (fst (snd (down demo_env (Operator None) demo_backend (\<lambda>_. None)))) = None \<and>
   be_generation (fst (snd (down demo_env (Operator None) demo_backend (\<lambda>_. None)))) = 1"
proof -
  obtain r b' f' where d: "down demo_env (Operator None) demo_backend (\<lambda>_. None) = (r, b', f')"
    by (metis prod_cases3)
  have "check_disconnect demo_env (Operator None) demo_backend (\<lambda>_. None) = Inr None"
    by (simp add: check_disconnect_def demo_backend_def default_prefs_def)
  from down_contract [OF d, THEN conjunct2, THEN conjunct1, rule_format, OF this] d show ?thesis by (simp add: demo_backend_def)
qed

lemma demo_paths_wf: "paths_wf demo_backend"
  by (simp add: paths_wf_def demo_backend_def profile_paths_def)


section \<open>Properties of a bring-up\<close>

lemma apply_up_has_node_key [simp]:
  "apply_up env opts edit (b\<lparr>be_has_node_key := k\<rparr>) = (apply_up env opts edit b)\<lparr>be_has_node_key := k\<rparr>"
  by (simp add: be_simps)

lemma start_up_cases:
  assumes "start_up env wif b f = (r, b', f')"
  obtains (failed) e where "r = Inl e" "b' = b"
    "\<And>e'. e = ConfigFailed e' \<Longrightarrow> \<exists>f1. persist_prefs env b f = (Inr (), f1) \<and>
       build_config (de_build env) (be_prefs b) (be_key_path b) (be_listen_port b) f1 = (Inl e', f')"
  | (started) c f1 where "r = Inr \<lparr>pu_config = apply_wif wif c, pu_generation = be_generation b'\<rparr>"
    "b' = bump_generation (b\<lparr>be_has_node_key := True\<rparr>)"
    "fst (build_config (de_build env) (be_prefs b) (be_key_path b) (be_listen_port b) f1) = Inr c"
proof -
  obtain r1 f1 where p: "persist_prefs env b f = (r1, f1)" by fastforce
  obtain r2 f2 where c: "build_config (de_build env) (be_prefs b) (be_key_path b) (be_listen_port b) f1 = (r2, f2)"
    by fastforce
  show ?thesis
  proof (cases r1)
    case (Inl e)
    with p have "\<forall>e'. e \<noteq> ConfigFailed e'"
      by (auto simp: persist_prefs_def register_current_profile_def Let_def split: prod.splits bool.splits if_splits)
    then show ?thesis using assms p Inl by (intro failed [of e]) (simp_all add: start_up_def)
  next
    case r1: (Inr u)
    show ?thesis
    proof (cases r2)
      case (Inl e)
      then show ?thesis using assms p c r1
        by (intro failed [of "ConfigFailed e"]) (simp_all add: start_up_def build_be_config_def)
    next
      case (Inr cfg)
      then show ?thesis using assms p c r1
        by (intro started [of cfg f1]) (auto simp: start_up_def build_be_config_def Let_def)
    qed
  qed
qed

text \<open>After the checks, a bring-up either fails to discard the key or reaches \<open>start_up\<close>.\<close>

lemma begin_up_checked:
  assumes "begin_up_gated env opts wif b f = (r, b', f')" "begin_up_checks env opts b = Inr (opts', edit)"
  obtains (reauth) "r = Inl (DiscardKeyFailed (be_key_path b))" "b' = stop_device env b"
  | (start) f1 where "up_force_reauth opts \<or> f1 = f"
      "start_up env wif ((apply_up env opts' edit (stop_device env b))
         \<lparr>be_has_node_key := (be_has_node_key b \<and> \<not> up_force_reauth opts)\<rparr>) f1 = (r, b', f')"
proof (cases "up_force_reauth opts")
  case False
  have "apply_up env opts' edit (stop_device env b)\<lparr>be_has_node_key := be_has_node_key b\<rparr> =
        apply_up env opts' edit (stop_device env b)"
    by (simp add: be_simps)
  then show ?thesis using assms False by (intro start [of f]) (simp_all add: begin_up_gated_def)
next
  case True
  obtain r1 b2 f1 where d: "discard_node_key env (stop_device env b) f = (r1, b2, f1)" by (metis prod_cases3)
  have kp: "be_key_path (stop_device env b) = be_key_path b" by (simp add: be_simps)
  from discard_node_key_cases [OF d] show ?thesis
  proof
    assume "r1 = Inr () \<and> b2 = stop_device env b\<lparr>be_has_node_key := False\<rparr> \<and>
      f1 = f(be_key_path (stop_device env b) := None)"
    then show ?thesis using assms True d by (intro start [of f1]) (simp_all add: begin_up_gated_def)
  next
    assume "r1 = Inl (DiscardKeyFailed (be_key_path (stop_device env b))) \<and> b2 = stop_device env b \<and> f1 = f"
    then show ?thesis using assms True d by (intro reauth) (simp_all add: begin_up_gated_def kp)
  qed
qed

lemma begin_up_contract_parts:
  assumes "begin_up_gated env opts wif b f = (r, b', f')"
  shows "begin_up_checks env opts b = Inl e \<Longrightarrow> r = Inl e \<and> b' = b \<and> f' = f"
    and "r = Inr pu \<Longrightarrow> wants_running b' \<and> be_device b' = None \<and> be_tasks b' = [] \<and>
           be_generation b' = be_generation b + 1 \<and> pu_generation pu = be_generation b' \<and>
           be_reconnect b' = None \<and> \<not> be_override_always_on b'"
    and "r = Inr pu \<Longrightarrow> \<exists>opts' edit c f1. begin_up_checks env opts b = Inr (opts', edit) \<and>
           be_prefs b' = policy_prefs (de_settings env) \<lparr>ov_always_on = False, ov_exit_node = (edit = Override)\<rparr>
             (up_prefs opts' (be_prefs b)) \<and>
           fst (build_config (de_build env) (be_prefs b') (be_key_path b) (be_listen_port b) f1) = Inr c \<and>
           pu_config pu = apply_wif wif c"
    and "begin_up_checks env opts b = Inr x \<Longrightarrow> r = Inl e \<Longrightarrow>
           be_device b' = None \<and> be_generation b' = be_generation b"
proof -
  show "begin_up_checks env opts b = Inl e \<Longrightarrow> r = Inl e \<and> b' = b \<and> f' = f"
    using assms by (simp add: begin_up_gated_def)
  show "be_device b' = None \<and> be_generation b' = be_generation b"
    if c: "begin_up_checks env opts b = Inr x" and r: "r = Inl e"
  proof -
    obtain opts' edit where x: "x = (opts', edit)" by (cases x)
    show ?thesis
    proof (cases rule: begin_up_checked [OF assms c [unfolded x]])
      case reauth: 1
      then show ?thesis by (simp add: be_simps)
    next
      case (2 f1)
      from start_up_cases [OF 2(2)] r show ?thesis by cases (auto simp: be_simps)
    qed
  qed
  assume r: "r = Inr pu"
  then obtain opts' edit where c: "begin_up_checks env opts b = Inr (opts', edit)"
    using assms by (cases "begin_up_checks env opts b") (auto simp: begin_up_gated_def)
  let ?B = "apply_up env opts' edit (stop_device env b)"
  from begin_up_checked [OF assms c] r obtain f1 where
    "start_up env wif (?B\<lparr>be_has_node_key := (be_has_node_key b \<and> \<not> up_force_reauth opts)\<rparr>) f1 = (r, b', f')"
    by cases auto
  from start_up_cases [OF this] r obtain cfg f2 where
    b': "b' = bump_generation (?B\<lparr>be_has_node_key := True\<rparr>)"
    and cfg: "fst (build_config (de_build env) (be_prefs ?B) (be_key_path ?B) (be_listen_port ?B) f2) = Inr cfg"
    and pu: "pu = \<lparr>pu_config = apply_wif wif cfg, pu_generation = be_generation b'\<rparr>"
    by cases auto
  show "wants_running b' \<and> be_device b' = None \<and> be_tasks b' = [] \<and>
      be_generation b' = be_generation b + 1 \<and> pu_generation pu = be_generation b' \<and>
      be_reconnect b' = None \<and> \<not> be_override_always_on b'"
    using b' pu by (simp add: wants_running_def be_simps)
  from cfg b' have "fst (build_config (de_build env) (be_prefs b') (be_key_path b) (be_listen_port b) f2) = Inr cfg"
    by (simp add: be_simps)
  with b' pu c show "\<exists>opts' edit c f1. begin_up_checks env opts b = Inr (opts', edit) \<and>
      be_prefs b' = policy_prefs (de_settings env) \<lparr>ov_always_on = False, ov_exit_node = (edit = Override)\<rparr>
        (up_prefs opts' (be_prefs b)) \<and>
      fst (build_config (de_build env) (be_prefs b') (be_key_path b) (be_listen_port b) f1) = Inr c \<and>
      pu_config pu = apply_wif wif c"
    by (intro exI [of _ opts'] exI [of _ edit] exI [of _ cfg] exI [of _ f2]) (simp add: be_simps)
qed

text \<open>
  C5. A bring-up is refused without a trace or starts completely: a refusal by any of the checks leaves
  backend, engine and files alone. A bring-up that started has torn the old engine down, is the current
  generation, intends to run and is not logged out, holds no exemption older than this command, has
  the policy in force over the command's own options, and carries the config built from exactly those
  preferences. One that failed after the checks leaves no engine and does not supersede an earlier
  attempt.
\<close>

theorem begin_up_contract:
  assumes "begin_up_gated env opts wif b f = (r, b', f')"
  shows "(begin_up_checks env opts b = Inl e \<longrightarrow>
     r = Inl e \<and> b' = b \<and> f' = f) \<and>
    (r = Inr pu \<longrightarrow>
     wants_running b' \<and> be_device b' = None \<and> be_tasks b' = [] \<and>
           be_generation b' = be_generation b + 1 \<and> pu_generation pu = be_generation b' \<and>
           be_reconnect b' = None \<and> \<not> be_override_always_on b') \<and>
    (r = Inr pu \<longrightarrow>
     (\<exists>opts' edit c f1. begin_up_checks env opts b = Inr (opts', edit) \<and>
           be_prefs b' = policy_prefs (de_settings env) \<lparr>ov_always_on = False, ov_exit_node = (edit = Override)\<rparr>
             (up_prefs opts' (be_prefs b)) \<and>
           fst (build_config (de_build env) (be_prefs b') (be_key_path b) (be_listen_port b) f1) = Inr c \<and>
           pu_config pu = apply_wif wif c)) \<and>
    (begin_up_checks env opts b = Inr x \<and> r = Inl e \<longrightarrow>
     be_device b' = None \<and> be_generation b' = be_generation b)"
  by (rule conjI, rule impI, erule begin_up_contract_parts(1) [OF assms],
      rule conjI, rule impI, erule begin_up_contract_parts(2) [OF assms],
      rule conjI, rule impI, erule begin_up_contract_parts(3) [OF assms],
      rule impI, elim conjE, rule begin_up_contract_parts(4) [OF assms], assumption+)

lemma configured_value_Nil [simp]: "configured_value t [] k = None"
  by (simp add: configured_value_def split: option.split prod.split)

text \<open>An empty policy changes nothing.\<close>

lemma policy_prefs_Nil [simp]: "policy_prefs [] ov p = p"
  by (simp add: policy_prefs_def policy_string_def policy_bool_def policy_opt_bool_def policy_exit_node_def
      policy_exit_node_in_def policy_want_running_def configured_string_def configured_boolean_def
      configured_preference_def non_empty_def)

lemmas demo_simps = demo_backend_def demo_env_def demo_io_def demo_build_env_def default_prefs_def up_default_def

lemma demo_up_checks: "begin_up_checks demo_env up_default demo_backend = Inr (up_default, Untouched)"
  by (simp add: begin_up_checks_def check_route_set_def prospective_route_set_def demo_simps
      validate_advertise_routes_def calc_advertise_routes_spec route_acc_Nil composed_routes_def pairing_errors_def
      complete_tags_def check_exit_node_policy_def check_exit_node_edit_def check_named_exit_node_def
      check_ssh_prefs_gated_def prospective_ssh_def Let_def)

lemma demo_no_reauth: "\<not> up_force_reauth up_default"
  by (simp add: up_default_def)

lemma demo_persist:
  "be_current_profile b = DEFAULT_PROFILE_ID \<Longrightarrow> fst (persist_prefs demo_env b f) = Inr ()"
  by (simp add: persist_prefs_def save_prefs_def atomic_write_def atomic_write_trace_def fs_write_def fs_rename_def
      demo_env_def demo_io_def register_current_profile_def Let_def)

lemma demo_build_ok:
  "advertise_routes p = [] \<Longrightarrow> \<not> tun_enabled p \<Longrightarrow> \<not> ssh_enabled p \<Longrightarrow> control_url p = None \<Longrightarrow>
     is_ok (fst (build_config demo_build_env p kp port f))"
  by (simp add: build_config_def demo_build_env_def config_control_url_def config_tun_def config_ssh_def Let_def
      split: option.split)

lemma demo_build_bad_url:
  "advertise_routes p = [] \<Longrightarrow> control_url p = Some ''ftp://x'' \<Longrightarrow>
     \<exists>f'. build_config demo_build_env p kp port f = (Inl (InvalidControlUrl ''ftp://x''), f') \<and> f' kp \<noteq> None"
  by (cases "f kp") (simp_all add: build_config_def demo_build_env_def config_control_url_def Let_def)

lemma demo_up_prefs:
  "be_prefs (apply_up demo_env opts Untouched (stop_device demo_env demo_backend)) = up_prefs opts default_prefs"
  "be_current_profile (apply_up env opts edit (stop_device env b)) = be_current_profile b"
  "be_key_path (apply_up env opts edit (stop_device env b)) = be_key_path b"
  "be_listen_port (apply_up env opts edit (stop_device env b)) = be_listen_port b"
  by (simp_all add: be_simps) (simp add: demo_env_def demo_backend_def)

text \<open>The demonstration daemon's bring-up, up to the config.\<close>

lemma demo_begin_up:
  assumes "begin_up_checks demo_env opts demo_backend = Inr (opts, Untouched)" "\<not> up_force_reauth opts"
  obtains b1 f1 where "be_prefs b1 = up_prefs opts default_prefs" "be_key_path b1 = [''var'', ''node.key.json'']"
    "persist_prefs demo_env b1 f = (Inr (), f1)" "\<not> be_has_node_key b1"
    "begin_up_gated demo_env opts wif demo_backend f = start_up demo_env wif b1 f"
proof (rule that)
  let ?b1 = "apply_up demo_env opts Untouched (stop_device demo_env demo_backend)"
  show "be_prefs ?b1 = up_prefs opts default_prefs" by (rule demo_up_prefs)
  show "be_key_path ?b1 = [''var'', ''node.key.json'']" unfolding demo_up_prefs by (simp add: demo_backend_def)
  have "be_current_profile ?b1 = DEFAULT_PROFILE_ID" unfolding demo_up_prefs by (simp add: demo_backend_def)
  then show "persist_prefs demo_env ?b1 f = (Inr (), snd (persist_prefs demo_env ?b1 f))"
    by (metis demo_persist prod.collapse)
  show "\<not> be_has_node_key ?b1" by (simp add: be_simps) (simp add: demo_backend_def)
  show "begin_up_gated demo_env opts wif demo_backend f = start_up demo_env wif ?b1 f"
    using assms by (simp add: begin_up_gated_def)
qed

theorem begin_up_contract_witness:
  "case begin_up_gated demo_env up_default None demo_backend (\<lambda>_. None) of
     (r, b', f') \<Rightarrow> is_ok r \<and> wants_running b' \<and> be_generation b' = 1"
proof -
  obtain r b' f' where d: "begin_up_gated demo_env up_default None demo_backend (\<lambda>_. None) = (r, b', f')"
    by (metis prod_cases3)
  obtain b1 f1 where b1: "be_prefs b1 = up_prefs up_default default_prefs"
    "persist_prefs demo_env b1 (\<lambda>_. None) = (Inr (), f1)"
    "begin_up_gated demo_env up_default None demo_backend (\<lambda>_. None) = start_up demo_env None b1 (\<lambda>_. None)"
    by (rule demo_begin_up [OF demo_up_checks demo_no_reauth])
  have "is_ok (fst (build_config demo_build_env (be_prefs b1) (be_key_path b1) (be_listen_port b1) f1))"
    by (rule demo_build_ok) (simp_all add: b1 up_prefs_def apply_up_overrides_def up_default_def default_prefs_def)
  then have "is_ok r"
    using d b1 by (auto simp: start_up_def build_be_config_def is_ok_iff demo_env_def Let_def split: prod.splits)
  then obtain pu where "r = Inr pu" by (auto simp: is_ok_iff)
  from begin_up_contract [OF d, THEN conjunct2, THEN conjunct1, rule_format, OF this] d \<open>is_ok r\<close> show ?thesis by (simp add: demo_backend_def)
qed

lemma refused_config_leaves_key_cache_parts:
  assumes "begin_up_gated env opts wif b f = (Inl (ConfigFailed e), b', f')" "\<not> up_force_reauth opts"
  shows "be_has_node_key b' = be_has_node_key b"
    and "\<exists>f1. f' = snd (load_key_file (de_build env) (be_key_path b') f1)"
proof -
  have "begin_up_checks env opts b \<noteq> Inl (ConfigFailed e)"
    by (auto simp: begin_up_checks_def check_route_set_def complete_tags_def check_exit_node_policy_def
        check_named_exit_node_def check_exit_node_arg_def check_ssh_prefs_gated_def map_err_def rbind_def Let_def
        split: sum.splits option.splits prod.splits if_splits)
  then obtain opts' edit where c: "begin_up_checks env opts b = Inr (opts', edit)"
    using assms(1) by (cases "begin_up_checks env opts b") (auto simp: begin_up_gated_def)
  let ?B = "(apply_up env opts' edit (stop_device env b))\<lparr>be_has_node_key := (be_has_node_key b \<and> \<not> up_force_reauth opts)\<rparr>"
  obtain f1 where "start_up env wif ?B f1 = (Inl (ConfigFailed e), b', f')"
    by (cases rule: begin_up_checked [OF assms(1) c]) auto
  then obtain f2 where b': "b' = ?B"
    and bc: "build_config (de_build env) (be_prefs ?B) (be_key_path ?B) (be_listen_port ?B) f2 = (Inl e, f')"
    by (cases rule: start_up_cases) auto
  show "be_has_node_key b' = be_has_node_key b" using b' assms(2) by simp
  show "\<exists>f1. f' = snd (load_key_file (de_build env) (be_key_path b') f1)"
  proof (rule exI [of _ f2])
    show "f' = snd (load_key_file (de_build env) (be_key_path b') f2)"
      using bc unfolding b' [symmetric] by (auto simp: build_config_def split: prod.splits sum.splits)
  qed
qed

text \<open>
  A bring-up whose config is refused has already run the engine's key loader, which creates a
  missing key file, but the cached fact that the node holds a key keeps its old value. On a node that
  had no key the cache and the disk then disagree until the daemon restarts.
\<close>

theorem refused_config_leaves_key_cache:
  assumes "begin_up_gated env opts wif b f = (Inl (ConfigFailed e), b', f')" "\<not> up_force_reauth opts"
  shows "(be_has_node_key b' = be_has_node_key b) \<and>
    (\<exists>f1. f' = snd (load_key_file (de_build env) (be_key_path b') f1))"
  by (rule conjI, rule refused_config_leaves_key_cache_parts(1) [OF assms],
      rule refused_config_leaves_key_cache_parts(2) [OF assms])

theorem refused_config_leaves_key_cache_witness:
  "case begin_up_gated demo_env (up_default\<lparr>up_control_url := Some ''ftp://x''\<rparr>) None demo_backend (\<lambda>_. None) of
     (r, b', f') \<Rightarrow> \<not> is_ok r \<and> \<not> be_has_node_key b' \<and> key_file_has_node_key demo_env (be_key_path b') f'"
proof -
  let ?o = "up_default\<lparr>up_control_url := Some ''ftp://x''\<rparr>"
  have c: "begin_up_checks demo_env ?o demo_backend = Inr (?o, Untouched)"
    using demo_up_checks by (simp add: begin_up_checks_def rbind_eq_Inr up_default_def)
  obtain b1 f1 where b1: "be_prefs b1 = up_prefs ?o default_prefs" "be_key_path b1 = [''var'', ''node.key.json'']"
    "persist_prefs demo_env b1 (\<lambda>_. None) = (Inr (), f1)" "\<not> be_has_node_key b1"
    "begin_up_gated demo_env ?o None demo_backend (\<lambda>_. None) = start_up demo_env None b1 (\<lambda>_. None)"
    by (rule demo_begin_up [OF c]) (simp add: up_default_def)
  have "advertise_routes (be_prefs b1) = []" "control_url (be_prefs b1) = Some ''ftp://x''"
    by (simp_all add: b1 up_prefs_def apply_up_overrides_def up_default_def default_prefs_def)
  from demo_build_bad_url [OF this] obtain f' where
    f': "build_config demo_build_env (be_prefs b1) (be_key_path b1) (be_listen_port b1) f1 =
         (Inl (InvalidControlUrl ''ftp://x''), f')" "f' (be_key_path b1) \<noteq> None" by blast
  then have d: "begin_up_gated demo_env ?o None demo_backend (\<lambda>_. None) =
      (Inl (ConfigFailed (InvalidControlUrl ''ftp://x'')), b1, f')"
    using b1 by (simp add: start_up_def build_be_config_def demo_env_def)
  have "be_has_node_key b1 = be_has_node_key demo_backend"
    by (rule refused_config_leaves_key_cache [OF d, THEN conjunct1]) (simp add: up_default_def)
  with d f' show ?thesis
    by (auto simp: key_file_has_node_key_def fs_read_def demo_env_def demo_io_def demo_backend_def)
qed

end
