(* ===== verification/LiveEdit.thy ===== *)
theory LiveEdit
  imports BackendOps
begin

text \<open>
  What a \<open>set\<close> leaves behind: the properties of \<open>begin_set_gated\<close> and of its dry run
  \<open>check_prefs\<close>. The effective configuration of a running engine is its construction config with the
  live setters it accepted applied in order; a \<open>set\<close> on a running node must keep it equal to the
  preferences.
\<close>

section \<open>The engine's effective settings\<close>

fun apply_live_op :: "LiveSetOp \<Rightarrow> engine_config \<Rightarrow> engine_config" where
  "apply_live_op (LiveExitNode x) c = c\<lparr>cfg_exit_node := x\<rparr>"
| "apply_live_op (LiveHostname h) c = c\<lparr>cfg_requested_hostname := Some h\<rparr>"
| "apply_live_op (LiveAcceptRoutes v) c = c\<lparr>cfg_accept_routes := v\<rparr>"
| "apply_live_op (LiveAcceptDns v) c = c\<lparr>cfg_accept_dns := v\<rparr>"
| "apply_live_op (LiveAdvertiseRoutes rs) c = c\<lparr>cfg_advertise_routes := rs\<rparr>"
| "apply_live_op (LiveAdvertiseExitNode v) c = c\<lparr>cfg_advertise_exit_node := v\<rparr>"

definition effective :: "engine \<Rightarrow> engine_config" where
  "effective dev = fold apply_live_op (eng_ops dev) (eng_config dev)"

text \<open>
  The engine runs with the preferences: every setting the daemon can change on it agrees. The live
  hostname setter takes a plain string, so no hostname and the empty one count as the same.
\<close>

definition in_sync :: "daemon_env \<Rightarrow> engine \<Rightarrow> prefs \<Rightarrow> bool" where
  "in_sync env dev p =
     (let c = effective dev in
      cfg_exit_node c = exit_node p \<and>
      unwrap_or (cfg_requested_hostname c) [] = unwrap_or (hostname p) [] \<and>
      cfg_accept_routes c = accept_routes p \<and> cfg_accept_dns c = accept_dns p \<and>
      map Some (cfg_advertise_routes c) = map (parse_ipnet (be_ipnet (de_build env))) (advertise_routes p) \<and>
      cfg_advertise_exit_node c = advertise_exit_node p \<and>
      cfg_block_incoming c = shields_up p \<and> cfg_requested_tags c = advertise_tags p \<and>
      cfg_advertise_app_connector c = advertise_app_connector p \<and> cfg_auto_update_apply c = auto_update_apply p)"

lemma issue_ops_ok:
  "issue_ops env ops dev = (Inr u, dev') \<Longrightarrow> dev' = dev\<lparr>eng_ops := eng_ops dev @ ops\<rparr>"
  by (induction env ops dev rule: issue_ops.induct) (auto split: if_splits)

lemma issue_ops_prefix:
  "issue_ops env ops dev = (r, dev') \<Longrightarrow> \<exists>n \<le> length ops. dev' = dev\<lparr>eng_ops := eng_ops dev @ take n ops\<rparr>"
proof (induction env ops dev rule: issue_ops.induct)
  case (2 env op ops dev)
  show ?case
  proof (cases "de_setter_fails env dev op")
    case True
    with 2(2) show ?thesis by (intro exI [of _ 0]) auto
  next
    case False
    with 2 obtain n where "n \<le> length ops" "dev' = dev\<lparr>eng_ops := (eng_ops dev @ [op]) @ take n ops\<rparr>" by auto
    then show ?thesis by (intro exI [of _ "Suc n"]) auto
  qed
qed auto

section \<open>What the checks give\<close>

lemma complete_tags_shape: "complete_tags named = Inr tags \<Longrightarrow> (tags = None) = (named = None)"
  by (auto simp: complete_tags_def rbind_eq_Inr split: option.splits)

lemma begin_set_checks_ok:
  assumes "begin_set_checks env opts b = Inr (opts', edit)"
  obtains tags where "opts' = opts\<lparr>set_advertise_tags := tags\<rparr>" "(tags = None) = (set_advertise_tags opts = None)"
    "check_route_set env b (set_advertise_routes opts) (set_advertise_exit_node opts) False = Inr ()"
    "check_exit_node_edit (set_exit_node opts) (exit_node_policy_in (de_settings env)) = Inr edit"
  using assms complete_tags_shape
  by (auto simp: begin_set_checks_def check_exit_node_policy_def rbind_eq_Inr split: option.splits)

lemma check_exit_node_edit_untouched:
  "check_exit_node_edit named pol = Inr edit \<Longrightarrow> (edit = Untouched) = (named = None)"
  by (auto simp: check_exit_node_edit_def split: option.splits if_splits)

lemma live_ops_tags [simp]: "live_ops env (opts\<lparr>set_advertise_tags := t\<rparr>) p = live_ops env opts p"
  by (simp add: live_ops_def)

section \<open>Properties\<close>

lemma begin_set_split:
  assumes "begin_set_gated env opts b f = (r, b', f')" "begin_set_checks env opts b = Inr (opts', edit)"
  obtains (unsaved) e where "r = Inl e" "b' = apply_set env opts' edit b"
  | (saved) action rn where "reconcile_set env opts (apply_set env opts' edit b) = (action, b')"
      "r = rbind action (\<lambda>a. Inr \<lparr>so_action = a, so_rename_error = rn\<rparr>)"
  using assms
  by (cases "persist_prefs env (apply_set env opts' edit b) f"; cases "fst (persist_prefs env (apply_set env opts' edit b) f)")
     (auto simp: begin_set_gated_def Let_def split: prod.splits)

lemma reconcile_set_keeps:
  "reconcile_set env opts b = (action, b') \<Longrightarrow>
     \<exists>d. b' = b\<lparr>be_device := d\<rparr> \<and> (d = None) = (be_device b = None)"
  by (auto simp: reconcile_set_def Let_def split: option.splits if_splits prod.splits intro: exI [of _ "be_device b"])

lemma begin_set_outcome:
  assumes "begin_set_gated env opts b f = (Inr out, b', f')"
  shows "case be_device b of
      None \<Rightarrow> so_action out = PersistedOnly \<and> be_device b' = None
    | Some dev \<Rightarrow>
        if needs_rebuild opts then so_action out = Rebuild \<and> be_device b' = Some dev
        else so_action out = Live (live_ops env opts (be_prefs b')) \<and>
             be_device b' = Some (dev\<lparr>eng_ops := eng_ops dev @ live_ops env opts (be_prefs b')\<rparr>)"
proof -
  obtain opts' edit where c: "begin_set_checks env opts b = Inr (opts', edit)"
    using assms by (cases "begin_set_checks env opts b") (auto simp: begin_set_gated_def)
  let ?b1 = "apply_set env opts' edit b"
  from begin_set_split [OF assms c] obtain action rn where rec: "reconcile_set env opts ?b1 = (action, b')"
    and "rbind action (\<lambda>a. Inr \<lparr>so_action = a, so_rename_error = rn\<rparr>) = Inr out"
    by cases auto
  then have out: "action = Inr (so_action out)" by (auto simp: rbind_eq_Inr)
  have dev: "be_device ?b1 = be_device b" by (simp add: be_simps)
  show ?thesis
    using rec out dev
    by (auto simp: reconcile_set_def Let_def rbind_eq_Inr split: option.splits if_splits prod.splits
        dest: issue_ops_ok)
qed

lemma begin_set_contract_parts:
  assumes "begin_set_gated env opts b f = (r, b', f')"
  shows "begin_set_checks env opts b = Inl e \<Longrightarrow> r = Inl e \<and> b' = b \<and> f' = f"
    and "be_generation b' = be_generation b \<and> logged_out (be_prefs b') = logged_out (be_prefs b) \<and>
         (want_running (be_prefs b) \<longrightarrow> want_running (be_prefs b')) \<and>
         (be_device b' = None \<longleftrightarrow> be_device b = None)"
    and "r = Inr out \<Longrightarrow>
           (case be_device b of
              None \<Rightarrow> so_action out = PersistedOnly \<and> be_device b' = None
            | Some dev \<Rightarrow>
                if needs_rebuild opts then so_action out = Rebuild \<and> be_device b' = Some dev
                else so_action out = Live (live_ops env opts (be_prefs b')) \<and>
                     be_device b' = Some (dev\<lparr>eng_ops := eng_ops dev @ live_ops env opts (be_prefs b')\<rparr>))"
proof -
  show "begin_set_checks env opts b = Inl e \<Longrightarrow> r = Inl e \<and> b' = b \<and> f' = f"
    using assms by (simp add: begin_set_gated_def)
  have keeps: "be_generation b' = be_generation b \<and> logged_out (be_prefs b') = logged_out (be_prefs b) \<and>
      (want_running (be_prefs b) \<longrightarrow> want_running (be_prefs b')) \<and>
      (be_device b' = None \<longleftrightarrow> be_device b = None)"
  proof (cases "begin_set_checks env opts b")
    case (Inr x)
    obtain opts' edit where x: "x = (opts', edit)" by (cases x)
    show ?thesis
    proof (cases rule: begin_set_split [OF assms Inr [unfolded x]])
      case (2 action rn)
      then obtain d where "b' = (apply_set env opts' edit b)\<lparr>be_device := d\<rparr>"
        "(d = None) = (be_device (apply_set env opts' edit b) = None)" by (metis reconcile_set_keeps)
      then show ?thesis by (simp add: be_simps)
    qed (simp add: be_simps)
  qed (use assms in \<open>simp add: begin_set_gated_def\<close>)
  then show "be_generation b' = be_generation b \<and> logged_out (be_prefs b') = logged_out (be_prefs b) \<and>
      (want_running (be_prefs b) \<longrightarrow> want_running (be_prefs b')) \<and>
      (be_device b' = None \<longleftrightarrow> be_device b = None)" .
  show "r = Inr out \<Longrightarrow>
      (case be_device b of
         None \<Rightarrow> so_action out = PersistedOnly \<and> be_device b' = None
       | Some dev \<Rightarrow>
           if needs_rebuild opts then so_action out = Rebuild \<and> be_device b' = Some dev
           else so_action out = Live (live_ops env opts (be_prefs b')) \<and>
                be_device b' = Some (dev\<lparr>eng_ops := eng_ops dev @ live_ops env opts (be_prefs b')\<rparr>))"
    using assms by (simp only: begin_set_outcome)
qed


section \<open>The engine stays in step\<close>

lemma fold_live_ops:
  "cfg_exit_node (fold apply_live_op (live_ops env o1 p) c) = (if set_exit_node o1 \<noteq> None then exit_node p else cfg_exit_node c)"
  "cfg_requested_hostname (fold apply_live_op (live_ops env o1 p) c) =
     (if set_hostname o1 \<noteq> None then Some (unwrap_or (hostname p) []) else cfg_requested_hostname c)"
  "cfg_accept_routes (fold apply_live_op (live_ops env o1 p) c) =
     (if set_accept_routes o1 \<noteq> None then accept_routes p else cfg_accept_routes c)"
  "cfg_accept_dns (fold apply_live_op (live_ops env o1 p) c) =
     (if set_accept_dns o1 \<noteq> None then accept_dns p else cfg_accept_dns c)"
  "cfg_advertise_routes (fold apply_live_op (live_ops env o1 p) c) =
     (if set_advertise_routes o1 \<noteq> None
      then map (\<lambda>s. the (parse_ipnet (be_ipnet (de_build env)) s)) (advertise_routes p) else cfg_advertise_routes c)"
  "cfg_advertise_exit_node (fold apply_live_op (live_ops env o1 p) c) =
     (if set_advertise_exit_node o1 \<noteq> None then advertise_exit_node p else cfg_advertise_exit_node c)"
  by (simp_all add: live_ops_def)

lemma fold_live_ops_rest:
  "cfg_block_incoming (fold apply_live_op ops c) = cfg_block_incoming c"
  "cfg_requested_tags (fold apply_live_op ops c) = cfg_requested_tags c"
  "cfg_advertise_app_connector (fold apply_live_op ops c) = cfg_advertise_app_connector c"
  "cfg_auto_update_apply (fold apply_live_op ops c) = cfg_auto_update_apply c"
proof (induction ops arbitrary: c)
  case (Cons op ops)
  {
    case 1 show ?case by (cases op) (simp_all add: Cons.IH)
  next
    case 2 show ?case by (cases op) (simp_all add: Cons.IH)
  next
    case 3 show ?case by (cases op) (simp_all add: Cons.IH)
  next
    case 4 show ?case by (cases op) (simp_all add: Cons.IH)
  }
qed simp_all

lemma check_route_set_parses:
  assumes "check_route_set env b (Some rs) named_exit reset = Inr ()" "s \<in> set rs"
  shows "parse_ipnet (be_ipnet (de_build env)) s \<noteq> None"
proof -
  have "is_ok (calc_advertise_routes (be_ipnet (de_build env)) rs (snd (prospective_route_set (Some rs) named_exit (be_prefs b) reset)))"
    using assms(1)
    by (auto simp: check_route_set_def prospective_route_set_def validate_advertise_routes_def Let_def is_ok_iff
        split: sum.splits)
  then have "route_errors (be_ipnet (de_build env)) rs = []"
    by (auto simp: calc_advertise_routes_spec Let_def is_ok_iff split: if_splits)
  then have "judge_route (be_ipnet (de_build env)) s \<noteq> Inl e" for e
    using assms(2) route_errors_set [of "be_ipnet (de_build env)" rs] by auto
  then obtain n where "judge_route (be_ipnet (de_build env)) s = Inr n"
    by (cases "judge_route (be_ipnet (de_build env)) s") auto
  then show ?thesis by (simp add: judge_route_Inr)
qed

text \<open>An unnamed preference is not moved by re-applying a policy that was in force.\<close>

lemma set_unnamed_fixed:
  assumes pol: "policy_prefs s ov p = p"
    and ov: "ov_always_on ov' = ov_always_on ov" "set_exit_node o1 = None \<Longrightarrow> ov_exit_node ov' = ov_exit_node ov"
  shows "set_exit_node o1 = None \<Longrightarrow> exit_node (policy_prefs s ov' (apply_set_overrides o1 p)) = exit_node p"
    and "set_hostname o1 = None \<Longrightarrow> hostname (policy_prefs s ov' (apply_set_overrides o1 p)) = hostname p"
    and "set_accept_routes o1 = None \<Longrightarrow> accept_routes (policy_prefs s ov' (apply_set_overrides o1 p)) = accept_routes p"
    and "set_accept_dns o1 = None \<Longrightarrow> accept_dns (policy_prefs s ov' (apply_set_overrides o1 p)) = accept_dns p"
    and "set_advertise_exit_node o1 = None \<Longrightarrow>
           advertise_exit_node (policy_prefs s ov' (apply_set_overrides o1 p)) = advertise_exit_node p"
    and "set_shields_up o1 = None \<Longrightarrow> shields_up (policy_prefs s ov' (apply_set_overrides o1 p)) = shields_up p"
    and "set_auto_update o1 = None \<Longrightarrow>
           auto_update_apply (policy_prefs s ov' (apply_set_overrides o1 p)) = auto_update_apply p"
proof -
  note f = arg_cong [OF pol, of exit_node] arg_cong [OF pol, of hostname] arg_cong [OF pol, of accept_routes]
    arg_cong [OF pol, of accept_dns] arg_cong [OF pol, of advertise_exit_node] arg_cong [OF pol, of shields_up]
    arg_cong [OF pol, of auto_update_apply]
  show "set_exit_node o1 = None \<Longrightarrow> exit_node (policy_prefs s ov' (apply_set_overrides o1 p)) = exit_node p"
    using f(1) ov by (simp add: policy_prefs_def apply_set_overrides_def)
  show "set_hostname o1 = None \<Longrightarrow> hostname (policy_prefs s ov' (apply_set_overrides o1 p)) = hostname p"
    using f(2) by (simp add: policy_prefs_def apply_set_overrides_def)
  show "set_accept_routes o1 = None \<Longrightarrow> accept_routes (policy_prefs s ov' (apply_set_overrides o1 p)) = accept_routes p"
    using f(3) by (simp add: policy_prefs_def apply_set_overrides_def)
  show "set_accept_dns o1 = None \<Longrightarrow> accept_dns (policy_prefs s ov' (apply_set_overrides o1 p)) = accept_dns p"
    using f(4) by (simp add: policy_prefs_def apply_set_overrides_def)
  show "set_advertise_exit_node o1 = None \<Longrightarrow>
      advertise_exit_node (policy_prefs s ov' (apply_set_overrides o1 p)) = advertise_exit_node p"
    using f(5) by (simp add: policy_prefs_def apply_set_overrides_def)
  show "set_shields_up o1 = None \<Longrightarrow> shields_up (policy_prefs s ov' (apply_set_overrides o1 p)) = shields_up p"
    using f(6) by (simp add: policy_prefs_def apply_set_overrides_def)
  show "set_auto_update o1 = None \<Longrightarrow>
      auto_update_apply (policy_prefs s ov' (apply_set_overrides o1 p)) = auto_update_apply p"
    using f(7) by (simp add: policy_prefs_def apply_set_overrides_def)
qed

text \<open>
  What a live edit moves: of the preferences the engine runs with, only the named ones, and the stored
  routes are the requested ones, which parse.
\<close>

definition live_moves :: "daemon_env \<Rightarrow> set_options \<Rightarrow> prefs \<Rightarrow> prefs \<Rightarrow> bool" where
  "live_moves env opts p P \<longleftrightarrow>
     (set_exit_node opts = None \<longrightarrow> exit_node P = exit_node p) \<and>
     (set_hostname opts = None \<longrightarrow> hostname P = hostname p) \<and>
     (set_accept_routes opts = None \<longrightarrow> accept_routes P = accept_routes p) \<and>
     (set_accept_dns opts = None \<longrightarrow> accept_dns P = accept_dns p) \<and>
     (set_advertise_exit_node opts = None \<longrightarrow> advertise_exit_node P = advertise_exit_node p) \<and>
     shields_up P = shields_up p \<and> auto_update_apply P = auto_update_apply p \<and>
     advertise_tags P = advertise_tags p \<and> advertise_app_connector P = advertise_app_connector p \<and>
     (if set_advertise_routes opts = None then advertise_routes P = advertise_routes p
      else \<forall>s \<in> set (advertise_routes P). Some (the (parse_ipnet (be_ipnet (de_build env)) s)) =
             parse_ipnet (be_ipnet (de_build env)) s)"

lemma live_set_moves:
  assumes set: "begin_set_gated env opts b f = (Inr out, b', f')" and live: "\<not> needs_rebuild opts"
    and pol: "policy_prefs (de_settings env)
        \<lparr>ov_always_on = be_override_always_on b, ov_exit_node = be_override_exit_node_policy b\<rparr> (be_prefs b) = be_prefs b"
  shows "live_moves env opts (be_prefs b) (be_prefs b')"
proof -
  obtain opts' edit where c: "begin_set_checks env opts b = Inr (opts', edit)"
    using set by (cases "begin_set_checks env opts b") (auto simp: begin_set_gated_def)
  from c obtain tags where opts': "opts' = opts\<lparr>set_advertise_tags := tags\<rparr>" "(tags = None) = (set_advertise_tags opts = None)"
    and routes: "check_route_set env b (set_advertise_routes opts) (set_advertise_exit_node opts) False = Inr ()"
    and edit: "check_exit_node_edit (set_exit_node opts) (exit_node_policy_in (de_settings env)) = Inr edit"
    by (rule begin_set_checks_ok)
  let ?ov' = "\<lparr>ov_always_on = be_override_always_on b,
     ov_exit_node = (edit = Override \<or> edit = Untouched \<and> be_override_exit_node_policy b)\<rparr>"
  from begin_set_split [OF set c] obtain action where "reconcile_set env opts (apply_set env opts' edit b) = (action, b')"
    by cases auto
  then have p': "be_prefs b' = policy_prefs (de_settings env) ?ov' (apply_set_overrides opts' (be_prefs b))"
    by (auto simp: be_simps dest!: reconcile_set_keeps)
  have nb: "set_shields_up opts' = None" "set_auto_update opts' = None" "set_advertise_tags opts' = None"
    "set_advertise_connector opts' = None"
    using live opts' by (auto simp: needs_rebuild_def)
  have routes_eq: "advertise_routes (be_prefs b') = unwrap_or (set_advertise_routes opts) (advertise_routes (be_prefs b))"
    using opts' by (simp add: p' policy_prefs_def apply_set_overrides_def)
  then have "\<forall>s \<in> set (advertise_routes (be_prefs b')). Some (the (parse_ipnet (be_ipnet (de_build env)) s)) =
      parse_ipnet (be_ipnet (de_build env)) s" if "set_advertise_routes opts \<noteq> None"
    using check_route_set_parses [of env b "the (set_advertise_routes opts)"] routes that by auto
  with routes_eq show ?thesis
    unfolding live_moves_def
    using set_unnamed_fixed [OF pol, of ?ov' opts'] check_exit_node_edit_untouched [OF edit] opts' nb
    by (auto simp: p' policy_prefs_def apply_set_overrides_def)
qed

text \<open>
  C8. No accepted live edit is left out: if a running engine has the settings the preferences say, and
  the policy was in force on them, then after a successful \<open>set\<close> that needs no rebuild the engine
  again has the settings of the new preferences (the ones that were persisted, after the policy).
\<close>

theorem live_set_keeps_sync:
  assumes set: "begin_set_gated env opts b f = (Inr out, b', f')"
    and dev: "be_device b = Some dev" "\<not> needs_rebuild opts" "in_sync env dev (be_prefs b)"
    and pol: "policy_prefs (de_settings env)
        \<lparr>ov_always_on = be_override_always_on b, ov_exit_node = be_override_exit_node_policy b\<rparr> (be_prefs b) = be_prefs b"
  shows "\<exists>dev'. be_device b' = Some dev' \<and> in_sync env dev' (be_prefs b')"
proof -
  let ?dev' = "dev\<lparr>eng_ops := eng_ops dev @ live_ops env opts (be_prefs b')\<rparr>"
  have "be_device b' = Some ?dev'"
    using begin_set_outcome [OF set] dev by simp
  moreover have eff: "effective ?dev' = fold apply_live_op (live_ops env opts (be_prefs b')) (effective dev)"
    by (simp add: effective_def)
  have "in_sync env ?dev' (be_prefs b')"
    unfolding in_sync_def Let_def eff fold_live_ops fold_live_ops_rest
    using dev(3) [unfolded in_sync_def Let_def] live_set_moves [OF set dev(2) pol, unfolded live_moves_def]
    by (intro conjI; simp split: if_splits)
  ultimately show ?thesis by blast
qed

text \<open>A running engine of the demonstration daemon, with the default preferences.\<close>

definition demo_engine :: engine where
  "demo_engine = \<lparr>eng_config = demo_engine_config, eng_authkey = None, eng_ops = []\<rparr>"

definition demo_running :: backend where
  "demo_running = demo_backend\<lparr>be_device := Some demo_engine, be_prefs := default_prefs\<lparr>want_running := True\<rparr>,
     be_generation := 2\<rparr>"

definition demo_set :: set_options where
  "demo_set = set_default\<lparr>set_hostname := Some ''laptop'', set_accept_routes := Some True\<rparr>"

lemma demo_set_checks: "begin_set_checks demo_env demo_set demo_running = Inr (demo_set, Untouched)"
  by (simp add: begin_set_checks_def check_route_set_def prospective_route_set_def demo_simps demo_running_def
      demo_set_def set_default_def validate_advertise_routes_def calc_advertise_routes_spec route_acc_Nil
      composed_routes_def pairing_errors_def complete_tags_def check_exit_node_policy_def check_exit_node_edit_def
      check_named_exit_node_def check_ssh_prefs_gated_def prospective_ssh_def check_auto_update_pref_def
      prospective_auto_update_def Let_def)

lemma demo_set_ok: "is_ok (fst (begin_set_gated demo_env demo_set demo_running f))"
proof -
  let ?b1 = "apply_set demo_env demo_set Untouched demo_running"
  have "be_current_profile ?b1 = DEFAULT_PROFILE_ID" by (simp add: be_simps demo_running_def demo_backend_def)
  from demo_persist [OF this, of f] obtain f1 where p: "persist_prefs demo_env ?b1 f = (Inr (), f1)"
    by (cases "persist_prefs demo_env ?b1 f") auto
  have all: "fst (issue_ops demo_env ops dev) = Inr ()" for ops dev
    by (induction ops arbitrary: dev) (simp_all add: demo_env_def)
  have "be_device ?b1 = Some demo_engine" by (simp add: be_simps demo_running_def)
  then have "is_ok (fst (reconcile_set demo_env demo_set ?b1))"
    using all by (auto simp: reconcile_set_def needs_rebuild_def demo_set_def set_default_def Let_def
        split: prod.splits) (metis fst_conv is_ok_simps(1) rbind_simps(2))
  then show ?thesis using p demo_set_checks
    by (auto simp: begin_set_gated_def is_ok_iff demo_set_def set_default_def Let_def split: prod.splits)
qed


theorem live_set_keeps_sync_witness:
  "case begin_set_gated demo_env demo_set demo_running (\<lambda>_. None) of
     (r, b', f') \<Rightarrow> is_ok r \<and> (\<exists>dev. be_device b' = Some dev \<and> in_sync demo_env dev (be_prefs b'))"
proof -
  obtain r b' f' where d: "begin_set_gated demo_env demo_set demo_running (\<lambda>_. None) = (r, b', f')"
    by (metis prod_cases3)
  from demo_set_ok [of "\<lambda>_. None"] d obtain out where r: "r = Inr out" by (auto simp: is_ok_iff)
  have "\<exists>dev'. be_device b' = Some dev' \<and> in_sync demo_env dev' (be_prefs b')"
  proof (rule live_set_keeps_sync [OF d [unfolded r]])
    show "be_device demo_running = Some demo_engine" by (simp add: demo_running_def)
    show "\<not> needs_rebuild demo_set" by (simp add: needs_rebuild_def demo_set_def set_default_def)
    show "in_sync demo_env demo_engine (be_prefs demo_running)"
      by (simp add: in_sync_def effective_def demo_engine_def demo_engine_config_def demo_running_def default_prefs_def)
  qed (simp add: demo_env_def)
  with d r show ?thesis by simp
qed

section \<open>The dry run\<close>

lemma check_route_set_iff:
  "check_route_set env b named_routes named_exit False = Inr () \<longleftrightarrow>
     is_ok (calc_advertise_routes (be_ipnet (de_build env)) (unwrap_or named_routes (advertise_routes (be_prefs b)))
       (unwrap_or named_exit (advertise_exit_node (be_prefs b))))"
  by (auto simp: check_route_set_def prospective_route_set_def validate_advertise_routes_def Let_def is_ok_iff
      split: sum.splits)

text \<open>
  The dry run predicts the real command: if \<open>check_prefs\<close> accepts a change, then the \<open>set\<close> that
  makes exactly this change is refused by none of its own checks, except by an administrator's policy
  that pins the exit node.
\<close>

theorem check_prefs_predicts_set:
  assumes "check_prefs env en ae routes ssh au b = Inr ()"
  shows "is_ok (begin_set_checks env (set_default\<lparr>set_exit_node := en, set_advertise_exit_node := ae,
           set_advertise_routes := routes, set_ssh := ssh, set_auto_update := au\<rparr>) b) \<longleftrightarrow>
         is_ok (check_exit_node_policy env en)"
proof -
  let ?env = "\<lparr>cpe_ssh_gate = env_ssh_gate (de_build env),
        cpe_exit_node_facts = (case en of Some (Some _) \<Rightarrow> exit_node_facts env b | _ \<Rightarrow> facts_default),
        cpe_auto_update_gate = de_auto_update_gate env,
        cpe_ssh_feature = ssh_feature (de_build env), cpe_ipnet = be_ipnet (de_build env)\<rparr>"
  have errs: "posture_errors ?env en ae routes ssh au b = []"
    using assms by (auto simp: check_prefs_def check_prefs_gated_def Let_def split: if_splits)
  have routes: "check_route_set env b routes ae False = Inr ()"
    using errs
    by (auto simp: posture_errors_def check_route_set_iff calc_advertise_routes_spec Let_def split: sum.splits if_splits)
  have sel: "check_named_exit_node env b en = Inr ()"
    using errs
    by (auto simp: posture_errors_def posture_exit_node_def check_named_exit_node_def check_exit_node_arg_def
        Let_def split: option.splits if_splits sum.splits)
  have ssh: "check_ssh_prefs_gated ssh False (env_ssh_gate (de_build env)) b = Inr ()"
    using errs by (auto simp: posture_errors_def posture_ssh_def check_ssh_prefs_gated_def Let_def split: sum.splits if_splits)
  have au: "check_auto_update_pref (prospective_auto_update au b) (de_auto_update_gate env) REMEDY_CLI = None"
    using errs by (auto simp: posture_errors_def Let_def split: option.splits)
  show ?thesis
    by (cases "check_exit_node_policy env en")
       (simp_all add: begin_set_checks_def complete_tags_def set_default_def routes sel ssh au)
qed

theorem check_prefs_predicts_set_witness:
  "is_ok (begin_set_checks demo_env (set_default\<lparr>set_advertise_routes := Some [''10.0.0.0/8'']\<rparr>) demo_backend)"
proof -
  have "is_ok (calc_advertise_routes demo_ipnet [''10.0.0.0/8''] False)" by code_simp
  then have "check_prefs demo_env None None (Some [''10.0.0.0/8'']) None None demo_backend = Inr ()"
    by (auto simp: check_prefs_def check_prefs_gated_def posture_errors_def posture_exit_node_def posture_ssh_def
        demo_simps prospective_ssh_def prospective_auto_update_def check_auto_update_pref_def
        validate_exit_node_selector_def is_ok_iff Let_def)
  from check_prefs_predicts_set [OF this] show ?thesis
    by (simp add: check_exit_node_policy_def check_exit_node_edit_def set_default_def)
qed

section \<open>Policy and the advertised routes\<close>

lemma begin_set_prefs:
  assumes "begin_set_gated env opts b f = (Inr out, b', f')"
  obtains opts' edit ov where "begin_set_checks env opts b = Inr (opts', edit)"
    "be_prefs b' = policy_prefs (de_settings env) ov (apply_set_overrides opts' (be_prefs b))"
proof -
  obtain opts' edit where c: "begin_set_checks env opts b = Inr (opts', edit)"
    using assms by (cases "begin_set_checks env opts b") (auto simp: begin_set_gated_def)
  from begin_set_split [OF assms c] obtain action where "reconcile_set env opts (apply_set env opts' edit b) = (action, b')"
    by cases auto
  then show ?thesis using c by (intro that) (auto simp: be_simps dest!: reconcile_set_keeps)
qed

lemma accepted_set_routes_parts:
  assumes "begin_set_gated env opts b f = (Inr out, b', f')"
  shows "\<not> pins (de_settings env) ''AdvertiseExitNode'' \<Longrightarrow>
           is_ok (calc_advertise_routes (be_ipnet (de_build env)) (advertise_routes (be_prefs b'))
             (advertise_exit_node (be_prefs b')))"
    and "\<not> policy_bool (de_settings env) ''AdvertiseExitNode'' True \<Longrightarrow>
         opts = set_default\<lparr>set_advertise_routes := Some [s], set_advertise_exit_node := Some True\<rparr> \<Longrightarrow>
         judge_route (be_ipnet (de_build env)) s = Inr n \<Longrightarrow> n = all_ipv4 \<or> n = all_ipv6 \<Longrightarrow>
           \<exists>m. calc_advertise_routes (be_ipnet (de_build env)) (advertise_routes (be_prefs b'))
                 (advertise_exit_node (be_prefs b')) = Inl [LoneDefault n m]"
proof -
  from assms obtain opts' edit ov where c: "begin_set_checks env opts b = Inr (opts', edit)"
    and p: "be_prefs b' = policy_prefs (de_settings env) ov (apply_set_overrides opts' (be_prefs b))"
    by (rule begin_set_prefs)
  from c obtain tags where o': "opts' = opts\<lparr>set_advertise_tags := tags\<rparr>"
    and r: "check_route_set env b (set_advertise_routes opts) (set_advertise_exit_node opts) False = Inr ()"
    by (rule begin_set_checks_ok)
  have P: "advertise_routes (be_prefs b') = unwrap_or (set_advertise_routes opts) (advertise_routes (be_prefs b))"
    "advertise_exit_node (be_prefs b') = policy_bool (de_settings env) ''AdvertiseExitNode''
       (unwrap_or (set_advertise_exit_node opts) (advertise_exit_node (be_prefs b)))"
    by (simp_all add: p o' policy_prefs_def apply_set_overrides_def)
  show "is_ok (calc_advertise_routes (be_ipnet (de_build env)) (advertise_routes (be_prefs b'))
      (advertise_exit_node (be_prefs b')))" if "\<not> pins (de_settings env) ''AdvertiseExitNode''"
    using r that by (simp add: P check_route_set_iff policy_bool_unpinned)
  assume "\<not> policy_bool (de_settings env) ''AdvertiseExitNode'' True"
    "opts = set_default\<lparr>set_advertise_routes := Some [s], set_advertise_exit_node := Some True\<rparr>"
    "judge_route (be_ipnet (de_build env)) s = Inr n" "n = all_ipv4 \<or> n = all_ipv6"
  then show "\<exists>m. calc_advertise_routes (be_ipnet (de_build env)) (advertise_routes (be_prefs b'))
      (advertise_exit_node (be_prefs b')) = Inl [LoneDefault n m]"
    by (auto simp: P set_default_def calc_advertise_routes_spec route_errors_Cons route_acc_Nil composed_routes_def
        route_nets_Cons pairing_errors_def all_ipv4_def all_ipv6_def)
qed

text \<open>
  The route rules and the policy: a \<open>set\<close> that succeeds leaves a valid route set when the policy
  does not decide whether this node advertises an exit node. When it forbids that, the order of the
  two steps shows: the rules are asked of the requested pair, the policy then withdraws the exit-node
  half, and the single default route that is left, which the rules refuse, is what was stored.
\<close>

theorem accepted_set_routes:
  assumes "begin_set_gated env opts b f = (Inr out, b', f')"
  shows "(\<not> pins (de_settings env) ''AdvertiseExitNode'' \<longrightarrow>
     is_ok (calc_advertise_routes (be_ipnet (de_build env)) (advertise_routes (be_prefs b'))
             (advertise_exit_node (be_prefs b')))) \<and>
    (\<not> policy_bool (de_settings env) ''AdvertiseExitNode'' True \<and> opts = set_default\<lparr>set_advertise_routes := Some [s], set_advertise_exit_node := Some True\<rparr> \<and> judge_route (be_ipnet (de_build env)) s = Inr n \<and> (n = all_ipv4 \<or> n = all_ipv6) \<longrightarrow>
     (\<exists>m. calc_advertise_routes (be_ipnet (de_build env)) (advertise_routes (be_prefs b'))
                 (advertise_exit_node (be_prefs b')) = Inl [LoneDefault n m]))"
  by (rule conjI, rule impI, erule accepted_set_routes_parts(1) [OF assms],
      rule impI, elim conjE, rule accepted_set_routes_parts(2) [OF assms], assumption+)

definition never_env :: daemon_env where
  "never_env = demo_env\<lparr>de_settings :=
     [\<lparr>ps_key = ''AdvertiseExitNode'', ps_origin = ''JSONFile'', ps_value = Some ''never'', ps_error = None\<rparr>]\<rparr>"

definition default_route_set :: set_options where
  "default_route_set = set_default\<lparr>set_advertise_routes := Some [''::/0''], set_advertise_exit_node := Some True\<rparr>"

lemma never_policy: "configured_preference (de_settings never_env) ''AdvertiseExitNode'' = Some Never"
  unfolding never_env_def by (simp add: demo_env_def) code_simp

lemma default_route_checks: "begin_set_checks never_env default_route_set demo_backend = Inr (default_route_set, Untouched)"
proof -
  have "is_ok (calc_advertise_routes demo_ipnet [''::/0''] True)" by code_simp
  then have "check_route_set never_env demo_backend (Some [''::/0'']) (Some True) False = Inr ()"
    by (simp add: check_route_set_iff never_env_def demo_env_def demo_build_env_def)
  then show ?thesis
    by (simp add: begin_set_checks_def default_route_set_def set_default_def complete_tags_def
        check_exit_node_policy_def check_exit_node_edit_def check_named_exit_node_def check_ssh_prefs_gated_def
        prospective_ssh_def check_auto_update_pref_def prospective_auto_update_def demo_backend_def default_prefs_def)
qed

lemma persist_prefs_settings: "persist_prefs (env\<lparr>de_settings := s\<rparr>) b f = persist_prefs env b f"
  by (simp add: persist_prefs_def register_current_profile_def load_profiles_def save_profiles_def Let_def
      split: prod.split bool.split)

theorem accepted_set_routes_witness:
  "\<exists>b' f' m. snd (begin_set_gated never_env default_route_set demo_backend (\<lambda>_. None)) = (b', f') \<and>
     calc_advertise_routes demo_ipnet (advertise_routes (be_prefs b')) (advertise_exit_node (be_prefs b')) =
       Inl [LoneDefault all_ipv6 m]"
proof -
  let ?b1 = "apply_set never_env default_route_set Untouched demo_backend"
  have "be_current_profile ?b1 = DEFAULT_PROFILE_ID" "be_device ?b1 = None"
    by (simp_all add: be_simps demo_backend_def)
  then have "fst (persist_prefs never_env ?b1 (\<lambda>_. None)) = Inr ()"
    by (simp add: never_env_def persist_prefs_settings demo_persist)
  then obtain out b' f' where d: "begin_set_gated never_env default_route_set demo_backend (\<lambda>_. None) = (Inr out, b', f')"
    using default_route_checks \<open>be_device ?b1 = None\<close>
    by (cases "persist_prefs never_env ?b1 (\<lambda>_. None)")
       (auto simp: begin_set_gated_def reconcile_set_def default_route_set_def set_default_def)
  have j: "judge_route demo_ipnet ''::/0'' = Inr all_ipv6" by code_simp
  have lib: "be_ipnet (de_build never_env) = demo_ipnet" by (simp add: never_env_def demo_env_def demo_build_env_def)
  have "\<not> policy_bool (de_settings never_env) ''AdvertiseExitNode'' True"
    by (simp add: policy_bool_def never_policy)
  with accepted_set_routes [OF d, THEN conjunct2, of "''::/0''" all_ipv6] j d show ?thesis
    by (auto simp: lib default_route_set_def)
qed

end
