(* ===== verification/Serve.thy ===== *)
theory Serve
  imports LocalApi Profile StdNet
begin

text \<open>
  \<open>src/src/ipn/serve.rs\<close>: the serve and Funnel configuration. It classifies the handler of a port,
  refuses an update that would change what a live port serves, maps the configuration to the engine's
  own shape with the ports the engine refuses, and keeps the Funnel switches. The engine's plan check
  (\<open>ServeState::serve_plan\<close>) is a parameter: \<open>None\<close> for a state it accepts, else its reason. Strings are
  UTF-8 bytes.
\<close>

section \<open>Handlers and ports\<close>

text \<open>\<open>str::parse::<u16>\<close>: an optional plus sign, then decimal digits, leading zeros included.\<close>

definition parse_u16 :: "string \<Rightarrow> nat option" where
  "parse_u16 s =
     (let ds = (case s of c # cs \<Rightarrow> if c = CHR ''+'' then cs else s | [] \<Rightarrow> s) in
      if ds = [] \<or> \<not> list_all is_ascii_digit ds \<or> 65536 \<le> digits_val 0 ds then None
      else Some (digits_val 0 ds))"

definition port_suffix :: "string \<Rightarrow> string" where
  "port_suffix p = CHR '':'' # p"

definition is_web_serve :: "TcpPortHandler \<Rightarrow> bool" where
  "is_web_serve h \<longleftrightarrow>
     (th_https h \<or> th_http h) \<and> th_tcp_forward h \<noteq> [] \<or> th_text h \<noteq> None \<or> th_redirect h \<noteq> None \<or> th_mounts h \<noteq> []"

definition port_is_web_serve :: "ServeConfig \<Rightarrow> string \<Rightarrow> TcpPortHandler \<Rightarrow> bool" where
  "port_is_web_serve cfg port_str h =
     (if is_web_serve h then True
      else if th_https h \<or> th_http h then list_ex (\<lambda>(k, _). suffix (port_suffix port_str) k) (sc_web cfg)
      else False)"

definition web_proxy_backend :: "ServeConfig \<Rightarrow> nat \<Rightarrow> string option" where
  "web_proxy_backend cfg port =
     (let port_str = dec_string port;
          from_web = (case find (\<lambda>(k, _). suffix (port_suffix port_str) k) (sc_web cfg) of
              None \<Rightarrow> None
            | Some (_, wsc) \<Rightarrow>
                (case bt_get (wsc_handlers wsc) ''/'' of
                   None \<Rightarrow> None
                 | Some root \<Rightarrow> if hh_proxy root = [] then None else Some (hh_proxy root)))
      in case bt_get (sc_tcp cfg) port_str of
           Some h \<Rightarrow> if is_web_serve h \<and> th_tcp_forward h \<noteq> [] then Some (th_tcp_forward h) else from_web
         | None \<Rightarrow> from_web)"

definition is_plain_tcp_forward :: "TcpPortHandler \<Rightarrow> bool" where
  "is_plain_tcp_forward h \<longleftrightarrow>
     th_tcp_forward h \<noteq> [] \<and> \<not> th_https h \<and> \<not> th_http h \<and> th_terminate_tls h = []"

section \<open>The engine's configuration\<close>

record engine_tcp =
  et_https :: bool
  et_http :: bool
  et_tcp_forward :: string
  et_terminate_tls :: string
  et_proxy_protocol :: int

record ServeState =
  ss_tcp :: "nat \<rightharpoonup> engine_tcp"
  ss_web :: "string \<times> nat \<rightharpoonup> HttpHandler btree"

definition empty_state :: ServeState where
  "empty_state = \<lparr>ss_tcp = Map.empty, ss_web = Map.empty\<rparr>"

definition empty_tcp :: engine_tcp where
  "empty_tcp = \<lparr>et_https = False, et_http = False, et_tcp_forward = [], et_terminate_tls = [], et_proxy_protocol = 0\<rparr>"

definition empty_handler :: HttpHandler where
  "empty_handler = \<lparr>hh_path = [], hh_proxy = [], hh_text = [], hh_redirect = []\<rparr>"

text \<open>The engine's \<open>ServeConfigError\<close>: the two reasons this file gives itself, and the engine's own text.\<close>

datatype ServeConfigError = RedirectControlChar | RedirectStatus nat | EngineReason string

record RefusedPort =
  rp_port :: nat
  rp_error :: ServeConfigError

record EngineServe =
  es_state :: ServeState
  es_refused :: "RefusedPort list"

text \<open>\<open>chars().any(char::is_control)\<close> on UTF-8: C0 and DEL are single bytes, C1 is the lead byte C2 with 80 to 9F.\<close>

fun has_control :: "string \<Rightarrow> bool" where
  "has_control [] = False"
| "has_control (c # cs) =
     (byte c < 32 \<or> byte c = 127 \<or>
      byte c = 194 \<and> (case cs of d # _ \<Rightarrow> 128 \<le> byte d \<and> byte d < 160 | [] \<Rightarrow> False) \<or>
      has_control cs)"

definition check_redirect_target :: "string \<Rightarrow> (ServeConfigError, unit) result" where
  "check_redirect_target to = (if has_control to then Inl RedirectControlChar else Inr ())"

definition engine_http_handler :: "HttpHandler \<Rightarrow> (ServeConfigError, HttpHandler) result" where
  "engine_http_handler h =
     rbind (if hh_redirect h \<noteq> [] then check_redirect_target (hh_redirect h) else Inr ()) (\<lambda>_.
     Inr \<lparr>hh_path = hh_path h, hh_proxy = hh_proxy h, hh_text = hh_text h, hh_redirect = hh_redirect h\<rparr>)"

definition legacy_redirect :: "string \<Rightarrow> nat \<Rightarrow> (ServeConfigError, HttpHandler) result" where
  "legacy_redirect to status =
     (if \<not> (300 \<le> status \<and> status \<le> 399) then Inl (RedirectStatus status)
      else rbind (check_redirect_target to) (\<lambda>_.
        Inr (empty_handler\<lparr>hh_redirect := dec_string status @ '':'' @ to\<rparr>)))"

definition mount_handler :: "WebMount \<Rightarrow> (ServeConfigError, HttpHandler) result" where
  "mount_handler m = (case m of
       MountProxy to \<Rightarrow> Inr (empty_handler\<lparr>hh_proxy := to\<rparr>)
     | MountText body \<Rightarrow> Inr (empty_handler\<lparr>hh_text := body\<rparr>)
     | MountRedirect to status \<Rightarrow> legacy_redirect to status)"

text \<open>The two collecting loops: the first handler that is refused is the result.\<close>

fun collect_handlers ::
  "('h \<Rightarrow> (ServeConfigError, HttpHandler) result) \<Rightarrow> 'h btree \<Rightarrow> (ServeConfigError, HttpHandler btree) result" where
  "collect_handlers conv [] = Inr []"
| "collect_handlers conv ((mount, m) # ms) =
     rbind (conv m) (\<lambda>handler. rbind (collect_handlers conv ms) (\<lambda>rest. Inr (bt_insert mount handler rest)))"

definition legacy_web_handlers :: "TcpPortHandler \<Rightarrow> (ServeConfigError, HttpHandler btree) result" where
  "legacy_web_handlers h =
     (if th_mounts h \<noteq> [] then collect_handlers mount_handler (th_mounts h)
      else case th_text h of
        Some body \<Rightarrow> Inr [(''/'', empty_handler\<lparr>hh_text := body\<rparr>)]
      | None \<Rightarrow>
          (case th_redirect h of
             Some r \<Rightarrow> rbind (legacy_redirect (rs_to r) (rs_status r)) (\<lambda>handler. Inr [(''/'', handler)])
           | None \<Rightarrow>
               if (th_https h \<or> th_http h) \<and> th_tcp_forward h \<noteq> []
               then Inr [(''/'', empty_handler\<lparr>hh_proxy := th_tcp_forward h\<rparr>)]
               else Inr []))"

definition host_port :: "string \<Rightarrow> nat \<Rightarrow> string" where
  "host_port host port = host @ port_suffix (dec_string port)"

definition engine_port ::
  "ServeConfig \<Rightarrow> string \<Rightarrow> nat \<Rightarrow> TcpPortHandler \<Rightarrow> (ServeConfigError, ServeState option) result" where
  "engine_port cfg host port h =
     (if is_plain_tcp_forward h then Inr None
      else if th_terminate_tls h \<noteq> [] \<and> \<not> th_https h \<and> \<not> th_http h then
        Inr (Some (empty_state\<lparr>ss_tcp := [port \<mapsto> empty_tcp\<lparr>et_tcp_forward := th_tcp_forward h,
          et_terminate_tls := th_terminate_tls h, et_proxy_protocol := th_proxy_protocol h\<rparr>]\<rparr>))
      else if \<not> (th_https h \<or> th_http h \<or> is_web_serve h) then Inr None
      else
        rbind (case bt_get (sc_web cfg) (host_port host port) of
                 Some wsc \<Rightarrow> collect_handlers engine_http_handler (wsc_handlers wsc)
               | None \<Rightarrow> legacy_web_handlers h) (\<lambda>handlers.
        Inr (Some \<lparr>ss_tcp = [port \<mapsto> empty_tcp\<lparr>et_https := (th_https h \<or> \<not> th_http h),
                                                 et_http := (th_http h \<and> \<not> th_https h)\<rparr>],
                   ss_web = (if handlers = [] then Map.empty else [(host, port) \<mapsto> handlers])\<rparr>)))"

definition trim_end_dots :: "string \<Rightarrow> string" where
  "trim_end_dots s = rev (dropWhile (\<lambda>c. c = CHR ''.'') (rev s))"

definition check_port ::
  "(ServeState \<Rightarrow> string option) \<Rightarrow> ServeConfig \<Rightarrow> string \<Rightarrow> nat \<Rightarrow> TcpPortHandler \<Rightarrow>
     (ServeConfigError, ServeState option) result" where
  "check_port plan cfg host port h =
     rbind (engine_port cfg host port h) (\<lambda>one.
       case one of
         None \<Rightarrow> Inr None
       | Some st \<Rightarrow> (case plan st of None \<Rightarrow> Inr (Some st) | Some reason \<Rightarrow> Inl (EngineReason reason)))"

definition serve_port_step ::
  "(ServeState \<Rightarrow> string option) \<Rightarrow> ServeConfig \<Rightarrow> string \<Rightarrow> string \<times> TcpPortHandler \<Rightarrow> EngineServe \<Rightarrow> EngineServe" where
  "serve_port_step plan cfg host entry out =
     (case parse_u16 (fst entry) of
        None \<Rightarrow> out
      | Some port \<Rightarrow>
          (case check_port plan cfg host port (snd entry) of
             Inr (Some one) \<Rightarrow>
               out\<lparr>es_state := \<lparr>ss_tcp = ss_tcp (es_state out) ++ ss_tcp one, ss_web = ss_web (es_state out) ++ ss_web one\<rparr>\<rparr>
           | Inr None \<Rightarrow> out
           | Inl e \<Rightarrow> out\<lparr>es_refused := es_refused out @ [\<lparr>rp_port = port, rp_error = e\<rparr>]\<rparr>))"

definition build_web_serve_state :: "(ServeState \<Rightarrow> string option) \<Rightarrow> ServeConfig \<Rightarrow> string \<Rightarrow> EngineServe" where
  "build_web_serve_state plan cfg name =
     fold (serve_port_step plan cfg (trim_end_dots name)) (sc_tcp cfg) \<lparr>es_state = empty_state, es_refused = []\<rparr>"

section \<open>Updates\<close>

datatype ServeType = SHttps | SHttp | STcp | STlsTerminatedTcp | SUnknown

definition serve_type :: "TcpPortHandler \<Rightarrow> ServeType" where
  "serve_type h =
     (if th_http h then SHttp
      else if th_https h then SHttps
      else if th_terminate_tls h \<noteq> [] then STlsTerminatedTcp
      else if th_tcp_forward h \<noteq> [] then STcp
      else if th_text h \<noteq> None \<or> th_redirect h \<noteq> None \<or> th_mounts h \<noteq> [] then SHttps
      else SUnknown)"

text \<open>A refused update: the wanted type, the port and the type it is serving.\<close>

datatype serve_conflict = Conflict ServeType nat ServeType

definition port_conflict :: "ServeConfig \<Rightarrow> string \<times> TcpPortHandler \<Rightarrow> serve_conflict option" where
  "port_conflict existing entry =
     (case parse_u16 (fst entry) of
        None \<Rightarrow> None
      | Some port \<Rightarrow>
          (case find (\<lambda>(k, h). parse_u16 k = Some port \<and> serve_type (snd entry) \<noteq> serve_type h) (sc_tcp existing) of
             None \<Rightarrow> None
           | Some (_, h) \<Rightarrow> Some (Conflict (serve_type (snd entry)) port (serve_type h))))"

fun first_conflict :: "ServeConfig \<Rightarrow> TcpPortHandler btree \<Rightarrow> serve_conflict option" where
  "first_conflict existing [] = None"
| "first_conflict existing (e # es) =
     (case port_conflict existing e of Some c \<Rightarrow> Some c | None \<Rightarrow> first_conflict existing es)"

definition validate_serve_config_update :: "ServeConfig \<Rightarrow> ServeConfig \<Rightarrow> (serve_conflict, unit) result" where
  "validate_serve_config_update existing incoming =
     (case first_conflict existing (sc_tcp incoming) of Some c \<Rightarrow> Inl c | None \<Rightarrow> Inr ())"

definition default_handler :: TcpPortHandler where
  "default_handler = \<lparr>th_https = False, th_http = False, th_tcp_forward = [], th_terminate_tls = [],
     th_proxy_protocol = 0, th_text = None, th_redirect = None, th_mounts = []\<rparr>"

definition set_tcp_forward :: "ServeConfig \<Rightarrow> nat \<Rightarrow> string \<Rightarrow> ServeConfig" where
  "set_tcp_forward cfg port forward_to =
     cfg\<lparr>sc_tcp := bt_insert (dec_string port) (default_handler\<lparr>th_tcp_forward := forward_to\<rparr>) (sc_tcp cfg)\<rparr>"

section \<open>Funnel\<close>

definition funnel_host_port :: "string \<Rightarrow> nat \<Rightarrow> string" where
  "funnel_host_port host port = trim_end_dots host @ port_suffix (dec_string port)"

definition set_funnel :: "ServeConfig \<Rightarrow> string \<Rightarrow> nat \<Rightarrow> bool \<Rightarrow> ServeConfig" where
  "set_funnel cfg host port on =
     (if on then cfg\<lparr>sc_allow_funnel := bt_insert (funnel_host_port host port) True (sc_allow_funnel cfg)\<rparr>
      else cfg\<lparr>sc_allow_funnel := filter (\<lambda>(hp, _). \<not> suffix (port_suffix (dec_string port)) hp) (sc_allow_funnel cfg)\<rparr>)"

text \<open>\<open>rsplit_once(':')\<close>: split at the last colon.\<close>

definition rsplit_colon :: "string \<Rightarrow> (string \<times> string) option" where
  "rsplit_colon s =
     (let r = rev s; p = rev (takeWhile (\<lambda>c. c \<noteq> CHR '':'') r) in
      case dropWhile (\<lambda>c. c \<noteq> CHR '':'') r of [] \<Rightarrow> None | _ # h \<Rightarrow> Some (rev h, p))"

definition funnel_key :: "string \<Rightarrow> (string \<times> nat) option" where
  "funnel_key hp =
     (case rsplit_colon hp of
        None \<Rightarrow> None
      | Some (h, p) \<Rightarrow> (case parse_u16 p of None \<Rightarrow> None | Some n \<Rightarrow> if n = 0 then None else Some (h, n)))"

definition funnel_host_ports :: "ServeConfig \<Rightarrow> (string \<times> nat) list" where
  "funnel_host_ports cfg = List.map_filter funnel_key (map fst (filter snd (sc_allow_funnel cfg)))"

text \<open>The \<open>BTreeSet\<close> of ports, in order.\<close>

definition funnel_ports :: "ServeConfig \<Rightarrow> nat list" where
  "funnel_ports cfg =
     sort (remdups (filter (\<lambda>p. p \<noteq> 0) (List.map_filter
       (\<lambda>(hp, _). case rsplit_colon hp of Some (_, p) \<Rightarrow> parse_u16 p | None \<Rightarrow> None)
       (filter snd (sc_allow_funnel cfg)))))"

definition is_loopback :: "ipaddr \<Rightarrow> bool" where
  "is_loopback ip = (case ip of V4 a \<Rightarrow> drop_bit 24 a = 127 | V6 a \<Rightarrow> a = 1)"

definition backend_is_nonloopback :: "string \<Rightarrow> bool" where
  "backend_is_nonloopback backend =
     (case parse_ipaddr backend of
        Some ip \<Rightarrow> \<not> is_loopback ip
      | None \<Rightarrow>
          (let host = (case strip_prefix backend ''['' of
                 Some rest \<Rightarrow> takeWhile (\<lambda>c. c \<noteq> CHR '']'') rest
               | None \<Rightarrow> (case rsplit_colon backend of Some (h, _) \<Rightarrow> h | None \<Rightarrow> backend))
           in if eq_ignore_ascii_case host ''localhost'' then False
              else case parse_ipaddr host of Some ip \<Rightarrow> \<not> is_loopback ip | None \<Rightarrow> True))"

definition funnel_nonloopback_backends :: "ServeConfig \<Rightarrow> (nat \<times> string) list" where
  "funnel_nonloopback_backends cfg =
     List.map_filter (\<lambda>port. case web_proxy_backend cfg port of
         Some backend \<Rightarrow> if backend_is_nonloopback backend then Some (port, backend) else None
       | None \<Rightarrow> None) (funnel_ports cfg)"

section \<open>Persistence\<close>

definition config_path :: "path \<Rightarrow> string \<Rightarrow> path" where
  "config_path state_dir profile_id =
     (if profile_id = DEFAULT_PROFILE_ID then state_dir @ [''serve-config.json'']
      else state_dir @ [''profiles'', profile_id, ''serve-config.json''])"

record json_serve =
  serve_to_json :: "ServeConfig \<Rightarrow> string"
  serve_of_json :: "string \<Rightarrow> ServeConfig option"

definition serve_default :: ServeConfig where
  "serve_default = \<lparr>sc_tcp = [], sc_allow_funnel = [], sc_web = []\<rparr>"

definition load_serve :: "io_env \<Rightarrow> json_serve \<Rightarrow> path \<Rightarrow> string \<Rightarrow> fs \<Rightarrow> ServeConfig" where
  "load_serve io js state_dir profile_id f =
     (case fs_read io (config_path state_dir profile_id) f of
        ReadOk bytes \<Rightarrow> unwrap_or (serve_of_json js bytes) serve_default
      | ReadNotFound \<Rightarrow> serve_default
      | ReadError \<Rightarrow> serve_default)"

definition save_serve :: "io_env \<Rightarrow> json_serve \<Rightarrow> path \<Rightarrow> string \<Rightarrow> ServeConfig \<Rightarrow> fs \<Rightarrow> bool \<times> fs" where
  "save_serve io js state_dir profile_id cfg f =
     (let path = config_path state_dir profile_id in
      if mkdir_fails io (parent_dir path) then (False, f)
      else atomic_write io path (serve_to_json js cfg) f)"

section \<open>Updates never change what a port serves\<close>

text \<open>The serve types a configuration gives a port, over every spelling of its number.\<close>

definition served_types :: "ServeConfig \<Rightarrow> nat \<Rightarrow> ServeType set" where
  "served_types cfg p = {serve_type h | k h. (k, h) \<in> set (sc_tcp cfg) \<and> parse_u16 k = Some p}"

lemma served_typesI: "(k, h) \<in> set (sc_tcp cfg) \<Longrightarrow> parse_u16 k = Some p \<Longrightarrow> serve_type h \<in> served_types cfg p"
  by (auto simp: served_types_def)

lemma find_SomeD: "find P xs = Some x \<Longrightarrow> x \<in> set xs \<and> P x"
  by (auto simp: find_Some_iff)

lemma port_conflict_None:
  "port_conflict existing (k, h) = None \<longleftrightarrow>
     (\<forall>p s. parse_u16 k = Some p \<longrightarrow> s \<in> served_types existing p \<longrightarrow> s = serve_type h)"
  by (fastforce simp: port_conflict_def served_types_def find_None_iff split: option.splits dest: find_SomeD)

lemma port_conflict_Some:
  assumes "port_conflict existing (k, h) = Some (Conflict w p s)"
  shows "parse_u16 k = Some p \<and> w = serve_type h \<and> s \<in> served_types existing p \<and> w \<noteq> s"
  using assms
  by (auto simp: port_conflict_def split: option.splits dest!: find_SomeD intro: served_typesI)

lemma first_conflict_None:
  "first_conflict existing es = None \<longleftrightarrow> (\<forall>e \<in> set es. port_conflict existing e = None)"
  by (induction es) (auto split: option.splits)

lemma first_conflict_Some:
  "first_conflict existing es = Some c \<Longrightarrow> \<exists>e \<in> set es. port_conflict existing e = Some c"
  by (induction es) (auto split: option.splits)

text \<open>
  A serve update is accepted exactly when no port changes the kind of serve it carries. Ports are
  compared as numbers, so every spelling of a port (leading zeros, a plus sign) counts as that port, on
  both sides. A refusal names a real conflict: a port, the kind the update wants for it and a different
  kind it is serving.
\<close>

theorem validate_update_exact:
  "case validate_serve_config_update existing incoming of
     Inr _ \<Rightarrow> \<not> (\<exists>p w s. w \<in> served_types incoming p \<and> s \<in> served_types existing p \<and> w \<noteq> s)
   | Inl (Conflict w p s) \<Rightarrow> w \<in> served_types incoming p \<and> s \<in> served_types existing p \<and> w \<noteq> s"
proof (cases "first_conflict existing (sc_tcp incoming)")
  case None
  then have "\<forall>(k, h) \<in> set (sc_tcp incoming). \<forall>p s. parse_u16 k = Some p \<longrightarrow> s \<in> served_types existing p \<longrightarrow> s = serve_type h"
    by (auto simp: first_conflict_None port_conflict_None)
  with None show ?thesis
    by (fastforce simp: validate_serve_config_update_def served_types_def [of incoming])
next
  case (Some c)
  then obtain k h where e: "(k, h) \<in> set (sc_tcp incoming)" "port_conflict existing (k, h) = Some c"
    using first_conflict_Some by fastforce
  obtain w p s where "c = Conflict w p s" by (cases c)
  with e port_conflict_Some [of existing k h w p s] show ?thesis
    by (auto simp: validate_serve_config_update_def Some intro: served_typesI)
qed

section \<open>What reaches the engine\<close>

text \<open>
  Every port of the engine's configuration comes from one entry that the engine's own check accepted; a
  plain TCP forward, which the daemon serves itself, is never among them.
\<close>

definition clean_handlers :: "HttpHandler btree \<Rightarrow> bool" where
  "clean_handlers hs = list_all (\<lambda>(_, h). \<not> has_control (hh_redirect h)) hs"

lemma has_control_skip:
  "list_all (\<lambda>c. 32 \<le> byte c \<and> byte c < 127) xs \<Longrightarrow> has_control (xs @ ys) = has_control ys"
  by (induction xs) auto

lemma digits_printable: "list_all (\<lambda>c. 32 \<le> byte c \<and> byte c < 127) (dec_string n)"
  using dec_string_digits [of _ n] by (fastforce simp: list_all_iff is_ascii_digit_def)

lemma legacy_redirect_clean: "legacy_redirect to status = Inr h \<Longrightarrow> \<not> has_control (hh_redirect h)"
  using has_control_skip [OF digits_printable, of status "CHR '':'' # to"]
  by (auto simp: legacy_redirect_def check_redirect_target_def empty_handler_def byte_def split: if_splits)

lemma mount_handler_clean: "mount_handler m = Inr h \<Longrightarrow> \<not> has_control (hh_redirect h)"
  by (cases m) (auto simp: mount_handler_def empty_handler_def dest: legacy_redirect_clean)

lemma engine_http_handler_clean: "engine_http_handler m = Inr h \<Longrightarrow> \<not> has_control (hh_redirect h)"
  by (auto simp: engine_http_handler_def check_redirect_target_def split: if_splits)

lemma set_bt_insert: "set (bt_insert k v m) \<subseteq> insert (k, v) (set m)"
  by (induction k v m rule: bt_insert.induct) auto

lemma collect_handlers_clean:
  assumes "\<And>m h. conv m = Inr h \<Longrightarrow> \<not> has_control (hh_redirect h)"
  shows "collect_handlers conv ms = Inr hs \<Longrightarrow> clean_handlers hs"
proof (induction ms arbitrary: hs)
  case (Cons x ms)
  obtain mount m where x: "x = (mount, m)" by (cases x)
  with Cons obtain h rest where "conv m = Inr h" "clean_handlers rest" "hs = bt_insert mount h rest"
    by (auto simp: rbind_eq_Inr)
  then show ?case
    using set_bt_insert [of mount h rest] assms [of m h] by (fastforce simp: clean_handlers_def list_all_iff)
qed (simp add: clean_handlers_def)

lemma legacy_web_handlers_clean: "legacy_web_handlers h = Inr hs \<Longrightarrow> clean_handlers hs"
  using collect_handlers_clean [OF mount_handler_clean]
  by (auto simp: legacy_web_handlers_def rbind_eq_Inr clean_handlers_def empty_handler_def
      dest: legacy_redirect_clean split: if_splits option.splits)

lemma port_handlers_clean:
  assumes "(case w of Some wsc \<Rightarrow> collect_handlers engine_http_handler (wsc_handlers wsc)
            | None \<Rightarrow> legacy_web_handlers h) = Inr hs"
  shows "clean_handlers hs"
  using assms legacy_web_handlers_clean collect_handlers_clean [OF engine_http_handler_clean]
  by (cases w) auto

lemma engine_port_shape:
  assumes "engine_port cfg host p h = Inr (Some one)"
  shows "\<not> is_plain_tcp_forward h \<and> dom (ss_tcp one) = {p} \<and> dom (ss_web one) \<subseteq> {(host, p)} \<and>
         (\<forall>q hs. ss_web one q = Some hs \<longrightarrow> clean_handlers hs)"
proof (cases "th_terminate_tls h \<noteq> [] \<and> \<not> th_https h \<and> \<not> th_http h")
  case True
  with assms show ?thesis by (auto simp: engine_port_def empty_state_def split: if_splits)
next
  case False
  with assms obtain hs where "(case bt_get (sc_web cfg) (host_port host p) of
        Some wsc \<Rightarrow> collect_handlers engine_http_handler (wsc_handlers wsc) | None \<Rightarrow> legacy_web_handlers h) = Inr hs"
      and one: "\<not> is_plain_tcp_forward h"
        "dom (ss_tcp one) = {p} \<and> ss_web one = (if hs = [] then Map.empty else [(host, p) \<mapsto> hs])"
    unfolding engine_port_def by (simp only: if_False) (auto simp: rbind_eq_Inr split: if_splits)
  from port_handlers_clean [OF this(1)] one show ?thesis by (auto split: if_splits)
qed

lemma check_port_shape:
  assumes "check_port plan cfg host p h = Inr (Some one)"
  shows "plan one = None \<and> engine_port cfg host p h = Inr (Some one)"
  using assms by (auto simp: check_port_def rbind_eq_Inr split: option.splits)

definition accepted_entry :: "(ServeState \<Rightarrow> string option) \<Rightarrow> ServeConfig \<Rightarrow> string \<Rightarrow> nat \<Rightarrow> engine_tcp \<Rightarrow> bool" where
  "accepted_entry plan cfg host p t \<longleftrightarrow>
     (\<exists>k h one. (k, h) \<in> set (sc_tcp cfg) \<and> parse_u16 k = Some p \<and> \<not> is_plain_tcp_forward h \<and>
        engine_port cfg host p h = Inr (Some one) \<and> plan one = None \<and> ss_tcp one p = Some t)"

definition serve_sound :: "(ServeState \<Rightarrow> string option) \<Rightarrow> ServeConfig \<Rightarrow> string \<Rightarrow> ServeState \<Rightarrow> bool" where
  "serve_sound plan cfg host st \<longleftrightarrow>
     (\<forall>p t. ss_tcp st p = Some t \<longrightarrow> accepted_entry plan cfg host p t) \<and>
     (\<forall>hp hs. ss_web st hp = Some hs \<longrightarrow> clean_handlers hs)"

lemma check_port_sound:
  assumes "e \<in> set (sc_tcp cfg)" "parse_u16 (fst e) = Some q" "check_port plan cfg host q (snd e) = Inr (Some one)"
  shows "serve_sound plan cfg host one"
proof -
  note acc = check_port_shape [OF assms(3)]
  note shape = engine_port_shape [OF conjunct2 [OF acc]]
  have "accepted_entry plan cfg host p t" if "ss_tcp one p = Some t" for p t
  proof -
    from shape that have "p = q" by (metis domI singletonD)
    with assms acc shape that show ?thesis unfolding accepted_entry_def by (metis prod.collapse)
  qed
  with shape show ?thesis by (simp add: serve_sound_def)
qed

lemma step_sound:
  assumes "e \<in> set (sc_tcp cfg)" "serve_sound plan cfg host (es_state out)"
  shows "serve_sound plan cfg host (es_state (serve_port_step plan cfg host e out))"
proof (cases "\<exists>q one. parse_u16 (fst e) = Some q \<and> check_port plan cfg host q (snd e) = Inr (Some one)")
  case True
  then obtain q one where q: "parse_u16 (fst e) = Some q" "check_port plan cfg host q (snd e) = Inr (Some one)"
    by blast
  with check_port_sound [OF assms(1) q] assms(2) show ?thesis
    by (simp add: serve_port_step_def serve_sound_def map_add_Some_iff) blast
next
  case False
  then have "es_state (serve_port_step plan cfg host e out) = es_state out"
    by (auto simp: serve_port_step_def split: option.splits sum.splits)
  with assms(2) show ?thesis by simp
qed

text \<open>
  C18. Whatever the configuration holds, every port the engine is given comes from an entry of that port
  which is not a plain TCP forward and which the engine's own check accepted, and no redirect the engine
  may write into a \<open>Location\<close> header carries a control character.
\<close>

theorem engine_serve_safe:
  "serve_sound plan cfg (trim_end_dots name) (es_state (build_web_serve_state plan cfg name))"
  unfolding build_web_serve_state_def
  by (rule fold_invariant [where Q = "\<lambda>e. e \<in> set (sc_tcp cfg)"])
     (simp_all add: step_sound, simp add: serve_sound_def empty_state_def)

text \<open>What a configuration does for one port: its entry in the engine's tables, or the reason it was refused.\<close>

type_synonym port_view = "engine_tcp option \<times> (string \<Rightarrow> HttpHandler btree option) \<times> ServeConfigError set"

definition at_port :: "EngineServe \<Rightarrow> nat \<Rightarrow> port_view" where
  "at_port out q = (ss_tcp (es_state out) q, (\<lambda>h. ss_web (es_state out) (h, q)),
     {e. \<lparr>rp_port = q, rp_error = e\<rparr> \<in> set (es_refused out)})"

definition nothing :: port_view where
  "nothing = (None, (\<lambda>_. None), {})"

fun contribution :: "nat \<Rightarrow> (ServeConfigError, ServeState option) result \<Rightarrow> port_view" where
  "contribution q (Inr (Some one)) = (ss_tcp one q, (\<lambda>h. ss_web one (h, q)), {})"
| "contribution q (Inr None) = nothing"
| "contribution q (Inl e) = (None, (\<lambda>_. None), {e})"

definition entry_of :: "TcpPortHandler btree \<Rightarrow> nat \<Rightarrow> TcpPortHandler option" where
  "entry_of es q = map_option snd (find (\<lambda>e. parse_u16 (fst e) = Some q) es)"

definition no_alias :: "TcpPortHandler btree \<Rightarrow> bool" where
  "no_alias es = distinct (List.map_filter (\<lambda>e. parse_u16 (fst e)) es)"

lemma step_other_port:
  assumes "parse_u16 (fst e) \<noteq> Some q"
  shows "at_port (serve_port_step plan cfg host e out) q = at_port out q"
proof (cases "\<exists>p one. parse_u16 (fst e) = Some p \<and> check_port plan cfg host p (snd e) = Inr (Some one)")
  case True
  then obtain p one where p: "parse_u16 (fst e) = Some p" "check_port plan cfg host p (snd e) = Inr (Some one)"
    by blast
  note shape = engine_port_shape [OF conjunct2 [OF check_port_shape [OF p(2)]]]
  from assms p(1) have "p \<noteq> q" by auto
  with shape have "ss_tcp one q = None" "\<And>h. ss_web one (h, q) = None" by auto
  with p show ?thesis by (simp add: at_port_def serve_port_step_def map_add_def)
next
  case False
  with assms show ?thesis by (auto simp: at_port_def serve_port_step_def split: option.splits sum.splits)
qed

lemma step_this_port:
  assumes "parse_u16 (fst e) = Some q" "at_port out q = nothing"
  shows "at_port (serve_port_step plan cfg host e out) q = contribution q (check_port plan cfg host q (snd e))"
  using assms
  by (auto simp: at_port_def nothing_def serve_port_step_def map_add_def fun_eq_iff split: option.splits sum.splits)

lemma fold_other_port:
  "q \<notin> set (List.map_filter (\<lambda>e. parse_u16 (fst e)) es) \<Longrightarrow>
     at_port (fold (serve_port_step plan cfg host) es out) q = at_port out q"
  by (induction es arbitrary: out) (auto simp: map_filter_simps step_other_port split: option.splits)

lemma fold_at_port:
  assumes "no_alias es" "at_port out q = nothing"
  shows "at_port (fold (serve_port_step plan cfg host) es out) q =
     (case entry_of es q of None \<Rightarrow> nothing | Some h \<Rightarrow> contribution q (check_port plan cfg host q h))"
  using assms
proof (induction es arbitrary: out)
  case Nil
  then show ?case by (simp add: entry_of_def)
next
  case (Cons e es)
  from Cons.prems(1) have es: "no_alias es"
    by (simp add: no_alias_def map_filter_simps split: option.splits)
  show ?case
  proof (cases "parse_u16 (fst e) = Some q")
    case True
    with Cons.prems(1) have "q \<notin> set (List.map_filter (\<lambda>e. parse_u16 (fst e)) es)"
      by (simp add: no_alias_def map_filter_simps)
    with True Cons.prems(2) show ?thesis
      by (simp add: entry_of_def fold_other_port step_this_port)
  next
    case False
    with Cons.IH [OF es] Cons.prems(2) show ?thesis
      by (simp add: entry_of_def step_other_port)
  qed
qed

text \<open>
  When no port is spelled twice, the mapping to the engine is exact port by port, whatever the other
  ports hold: a port's entry in the engine's tables is the one its own handler maps to if the engine
  accepts that, the port is refused with the reason of its own handler if not, and a plain TCP forward or
  an empty handler contributes nothing. So one refused handler never takes another port down.
\<close>

theorem build_web_serve_exact:
  assumes "no_alias (sc_tcp cfg)"
  shows "at_port (build_web_serve_state plan cfg name) q =
     (case entry_of (sc_tcp cfg) q of
        None \<Rightarrow> nothing
      | Some h \<Rightarrow> contribution q (check_port plan cfg (trim_end_dots name) q h))"
  unfolding build_web_serve_state_def
  by (rule fold_at_port [OF assms]) (simp add: at_port_def nothing_def empty_state_def)

definition demo_web :: ServeConfig where
  "demo_web = \<lparr>sc_tcp = [(''443'', default_handler\<lparr>th_https := True\<rparr>), (''80'', default_handler\<lparr>th_http := True\<rparr>),
       (''x'', default_handler)],
     sc_allow_funnel = [(''h.ts.net:0443'', True), (''h.ts.net:443'', True), (''h.ts.net:80'', False)],
     sc_web = [(''h.ts.net:443'', \<lparr>wsc_handlers = [(''/'', empty_handler\<lparr>hh_proxy := ''127.0.0.1:3000''\<rparr>)]\<rparr>)]\<rparr>"

definition demo_plan :: "ServeState \<Rightarrow> string option" where
  "demo_plan st = (if ss_tcp st 80 \<noteq> None then Some ''plain HTTP'' else None)"

lemma demo_parse:
  "parse_u16 ''443'' = Some 443" "parse_u16 ''80'' = Some 80" "parse_u16 ''x'' = None" "parse_u16 ''0443'' = Some 443"
  by (simp_all add: parse_u16_def Let_def is_ascii_digit_def byte_def digit_val_def)

lemma demo_dec: "dec_string 443 = ''443''" "dec_string 80 = ''80''"
  by code_simp+

theorem build_web_serve_exact_witness:
  "at_port (build_web_serve_state demo_plan demo_web ''h.ts.net.'') 80 = (None, (\<lambda>_. None), {EngineReason ''plain HTTP''}) \<and>
   fst (at_port (build_web_serve_state demo_plan demo_web ''h.ts.net.'') 443) = Some (empty_tcp\<lparr>et_https := True\<rparr>)"
proof -
  have na: "no_alias (sc_tcp demo_web)"
    by (simp add: no_alias_def demo_web_def map_filter_simps demo_parse)
  have t: "trim_end_dots ''h.ts.net.'' = ''h.ts.net''" by (simp add: trim_end_dots_def)
  have "entry_of (sc_tcp demo_web) 80 = Some (default_handler\<lparr>th_http := True\<rparr>)"
    "entry_of (sc_tcp demo_web) 443 = Some (default_handler\<lparr>th_https := True\<rparr>)"
    by (simp_all add: entry_of_def demo_web_def demo_parse)
  moreover have "contribution 80 (check_port demo_plan demo_web ''h.ts.net'' 80 (default_handler\<lparr>th_http := True\<rparr>)) =
      (None, (\<lambda>_. None), {EngineReason ''plain HTTP''})"
    "fst (contribution 443 (check_port demo_plan demo_web ''h.ts.net'' 443 (default_handler\<lparr>th_https := True\<rparr>))) =
      Some (empty_tcp\<lparr>et_https := True\<rparr>)"
    by (simp_all add: check_port_def engine_port_def is_plain_tcp_forward_def default_handler_def host_port_def
        port_suffix_def demo_dec demo_web_def bt_get_def engine_http_handler_def empty_handler_def
        legacy_web_handlers_def demo_plan_def empty_tcp_def)
  ultimately show ?thesis
    by (simp add: t build_web_serve_exact [OF na])
qed

section \<open>Funnel switches\<close>

lemma rsplit_colon_Some: "rsplit_colon s = Some (h, p) \<longleftrightarrow> s = h @ CHR '':'' # p \<and> CHR '':'' \<notin> set p"
proof
  assume a: "rsplit_colon s = Some (h, p)"
  let ?c = "\<lambda>c. c \<noteq> CHR '':''"
  from a obtain r where d: "dropWhile ?c (rev s) = CHR '':'' # r" and h: "h = rev r" and p: "p = rev (takeWhile ?c (rev s))"
    by (auto simp: rsplit_colon_def Let_def dropWhile_eq_Cons_conv split: list.splits)
  have "rev s = takeWhile ?c (rev s) @ CHR '':'' # r" using d by (metis takeWhile_dropWhile_id)
  then have "s = rev (takeWhile ?c (rev s) @ CHR '':'' # r)" by (metis rev_rev_ident)
  with h p show "s = h @ CHR '':'' # p \<and> CHR '':'' \<notin> set p" by (auto dest: set_takeWhileD)
next
  assume "s = h @ CHR '':'' # p \<and> CHR '':'' \<notin> set p"
  then have "rev s = rev p @ CHR '':'' # rev h" "\<forall>c \<in> set (rev p). c \<noteq> CHR '':''" by auto
  then show "rsplit_colon s = Some (h, p)"
    by (simp add: rsplit_colon_def Let_def takeWhile_append dropWhile_append)
qed

lemma parse_u16_no_colon: "parse_u16 q = Some p \<Longrightarrow> CHR '':'' \<notin> set q"
  by (cases q) (auto simp: parse_u16_def Let_def list_all_iff is_ascii_digit_def byte_def split: if_splits)

lemma not_digit_plus: "is_ascii_digit c \<Longrightarrow> c \<noteq> CHR ''+''"
  by (auto simp: is_ascii_digit_def byte_def)

lemma parse_u16_digits:
  assumes "ds \<noteq> []" "list_all is_ascii_digit ds" "digits_val 0 ds < 65536"
  shows "parse_u16 ds = Some (digits_val 0 ds)"
proof -
  from assms(1,2) obtain c cs where "ds = c # cs" "c \<noteq> CHR ''+''"
    by (cases ds) (auto simp: not_digit_plus)
  with assms show ?thesis by (simp add: parse_u16_def)
qed

lemma parse_u16_dec_string: "p < 65536 \<Longrightarrow> parse_u16 (dec_string p) = Some p"
  using parse_u16_digits [of "dec_string p"] dec_string_digits [of _ p]
  by (simp add: digits_val_dec_string list_all_iff)

lemma funnel_key_port:
  "(case rsplit_colon hp of Some (_, p) \<Rightarrow> parse_u16 p | None \<Rightarrow> None) = Some n \<longleftrightarrow>
     (\<exists>h q. hp = h @ port_suffix q \<and> parse_u16 q = Some n)"
proof
  assume "\<exists>h q. hp = h @ port_suffix q \<and> parse_u16 q = Some n"
  then obtain h q where q: "hp = h @ port_suffix q" "parse_u16 q = Some n" by blast
  then have "rsplit_colon hp = Some (h, q)" by (simp add: rsplit_colon_Some port_suffix_def parse_u16_no_colon)
  with q show "(case rsplit_colon hp of Some (_, p) \<Rightarrow> parse_u16 p | None \<Rightarrow> None) = Some n" by simp
qed (fastforce simp: rsplit_colon_Some port_suffix_def split: option.splits)

lemma in_funnel_ports:
  "p \<in> set (funnel_ports cfg) \<longleftrightarrow>
     p \<noteq> 0 \<and> (\<exists>h q. (h @ port_suffix q, True) \<in> set (sc_allow_funnel cfg) \<and> parse_u16 q = Some p)"
  by (simp add: funnel_ports_def in_map_filter funnel_key_port split_beta) fastforce

lemma suffix_port:
  assumes "CHR '':'' \<notin> set q" "CHR '':'' \<notin> set r"
  shows "suffix (port_suffix r) (h @ port_suffix q) \<longleftrightarrow> q = r"
proof
  assume "suffix (port_suffix r) (h @ port_suffix q)"
  then obtain h' where "h' @ CHR '':'' # r = h @ CHR '':'' # q" by (auto simp: suffix_def port_suffix_def)
  then have "rsplit_colon (h @ CHR '':'' # q) = Some (h', r)" using assms(2) by (simp add: rsplit_colon_Some)
  moreover have "rsplit_colon (h @ CHR '':'' # q) = Some (h, q)" using assms(1) by (simp add: rsplit_colon_Some)
  ultimately show "q = r" by simp
qed (simp add: suffix_def)

lemma dec_string_no_colon: "CHR '':'' \<notin> set (dec_string p)"
  using dec_string_digits [of "CHR '':''" p] by (auto simp: is_ascii_digit_def byte_def)

text \<open>A port that is switched on under a spelling other than its plain decimal digits.\<close>

definition alias_armed :: "ServeConfig \<Rightarrow> nat \<Rightarrow> bool" where
  "alias_armed cfg p \<longleftrightarrow>
     (\<exists>h q. (h @ port_suffix q, True) \<in> set (sc_allow_funnel cfg) \<and> parse_u16 q = Some p \<and> q \<noteq> dec_string p)"

lemma funnel_on:
  assumes "bt_wf (sc_allow_funnel cfg)" "p < 65536" "p \<noteq> 0"
  shows "set (funnel_ports (set_funnel cfg host p True)) = insert p (set (funnel_ports cfg))"
proof -
  let ?k = "trim_end_dots host @ port_suffix (dec_string p)"
  let ?m = "bt_insert ?k True (sc_allow_funnel cfg)"
  have set_m: "(k, True) \<in> set ?m \<longleftrightarrow> k = ?k \<or> (k, True) \<in> set (sc_allow_funnel cfg)" for k
    using bt.in_iter_iff [OF bt_wf_insert [OF assms(1)]] bt.in_iter_iff [OF assms(1)] bt_get_insert [OF assms(1)]
    by (metis fun_upd_apply)
  have "h = trim_end_dots host \<and> q = dec_string p"
    if "h @ port_suffix q = ?k" "parse_u16 q = Some r" for h q r
    using that parse_u16_no_colon [OF that(2)] dec_string_no_colon [of p]
    by (metis port_suffix_def rsplit_colon_Some option.inject prod.inject)
  then have key: "r = p" if "h @ port_suffix q = ?k" "parse_u16 q = Some r" for h q r
    using that parse_u16_dec_string [OF assms(2)] by fastforce
  have "r \<in> set (funnel_ports (set_funnel cfg host p True)) \<longleftrightarrow>
      r \<noteq> 0 \<and> (\<exists>h q. (h @ port_suffix q = ?k \<or> (h @ port_suffix q, True) \<in> set (sc_allow_funnel cfg)) \<and> parse_u16 q = Some r)" for r
    unfolding in_funnel_ports by (simp add: set_funnel_def funnel_host_port_def set_m)
  moreover have "\<exists>h q. h @ port_suffix q = ?k \<and> parse_u16 q = Some p"
    using parse_u16_dec_string [OF assms(2)] by blast
  ultimately have "r \<in> set (funnel_ports (set_funnel cfg host p True)) \<longleftrightarrow> r = p \<or> r \<in> set (funnel_ports cfg)" for r
    unfolding in_funnel_ports [of r cfg] using key assms(3) by metis
  then show ?thesis by blast
qed

text \<open>
  C20. Switching Funnel on for a port adds that port and nothing else. Switching it off leaves every other
  port as it was and removes the port under whatever host it was recorded, but only where the port is
  spelled in plain decimal digits: an entry such as \<open>host:0443\<close> survives, and since the reader parses the
  number, port 443 is then still published.
\<close>

theorem set_funnel_exact:
  assumes "bt_wf (sc_allow_funnel cfg)" "p < 65536" "p \<noteq> 0"
  shows "set (funnel_ports (set_funnel cfg host p True)) = insert p (set (funnel_ports cfg)) \<and>
         set (funnel_ports (set_funnel cfg host p False)) =
           set (funnel_ports cfg) - (if alias_armed cfg p then {} else {p})"
proof
  show "set (funnel_ports (set_funnel cfg host p False)) =
          set (funnel_ports cfg) - (if alias_armed cfg p then {} else {p})"
  proof (rule set_eqI)
    fix r
    have "r \<in> set (funnel_ports (set_funnel cfg host p False)) \<longleftrightarrow>
        r \<noteq> 0 \<and> (\<exists>h q. (h @ port_suffix q, True) \<in> set (sc_allow_funnel cfg) \<and> parse_u16 q = Some r \<and> q \<noteq> dec_string p)"
      using suffix_port [OF _ dec_string_no_colon] parse_u16_no_colon
      unfolding in_funnel_ports by (fastforce simp: set_funnel_def)
    with parse_u16_dec_string [OF assms(2)]
    show "r \<in> set (funnel_ports (set_funnel cfg host p False)) \<longleftrightarrow>
        r \<in> set (funnel_ports cfg) - (if alias_armed cfg p then {} else {p})"
      unfolding Diff_iff in_funnel_ports alias_armed_def
      by (cases "r = p") (use assms(3) in \<open>auto split: if_splits\<close>)
  qed
qed (rule funnel_on [OF assms])

theorem set_funnel_exact_witness:
  "443 \<in> set (funnel_ports (set_funnel demo_web ''h.ts.net'' 443 False)) \<and>
   bt_wf (sc_allow_funnel demo_web) \<and> 80 \<in> set (funnel_ports (set_funnel demo_web ''h.ts.net'' 80 True))"
proof -
  have wf: "bt_wf (sc_allow_funnel demo_web)" by (simp add: bt_wf_def demo_web_def less_char_def)
  have a: "(''h.ts.net'' @ port_suffix ''0443'', True) \<in> set (sc_allow_funnel demo_web)"
    by (simp add: demo_web_def port_suffix_def)
  then have "alias_armed demo_web 443" unfolding alias_armed_def using demo_parse(4) demo_dec by fastforce
  moreover have "443 \<in> set (funnel_ports demo_web)" unfolding in_funnel_ports using a demo_parse(4) by fastforce
  ultimately show ?thesis
    using set_funnel_exact [OF wf, of 443 "''h.ts.net''"] set_funnel_exact [OF wf, of 80 "''h.ts.net''"] wf by simp
qed

end
