(* ===== verification/ServeOps.thy ===== *)
theory ServeOps
  imports Serve BackendOps
begin

text \<open>
  The serve operations of the backend (\<open>src/src/ipn/mod.rs\<close>): reading and replacing the profile's serve
  configuration, and what the serve supervisor does when it starts. The supervisor arms three lanes: its
  own accept loops for plain TCP forwards, the engine's web serve, and one loop per published Funnel port.

  Parameters, since they are the engine's: the plan check, the two \<open>self_node\<close> answers the supervisor asks
  for, and which of its \<open>set_serve_config\<close> and \<open>listen_funnel\<close> calls fail. A failed \<open>set_serve_config\<close> leaves
  the engine's configuration as it was.
\<close>

record serve_env =
  sv_plan :: "ServeState \<Rightarrow> string option"
  sv_json :: json_serve
  sv_self_web :: "string option"
  sv_self_funnel :: "string option"
  sv_set_fails :: "ServeState \<Rightarrow> bool"
  sv_listen_fails :: "string \<Rightarrow> nat \<Rightarrow> string \<Rightarrow> bool"

section \<open>The supervisor\<close>

datatype serve_loop = ForwardLoop nat string | FunnelLoop nat string

definition forward_loops :: "ServeConfig \<Rightarrow> serve_loop list" where
  "forward_loops cfg =
     List.map_filter (\<lambda>(port_str, h). case parse_u16 port_str of
         None \<Rightarrow> None
       | Some port \<Rightarrow> if is_plain_tcp_forward h then Some (ForwardLoop port (th_tcp_forward h)) else None) (sc_tcp cfg)"

definition has_web :: "ServeConfig \<Rightarrow> bool" where
  "has_web cfg = list_ex (\<lambda>(_, h). th_https h \<or> th_http h \<or> th_terminate_tls h \<noteq> [] \<or> is_web_serve h) (sc_tcp cfg)"

text \<open>Lane 2: replace the engine's configuration; the flag says whether it was armed.\<close>

definition arm_web :: "serve_env \<Rightarrow> ServeConfig \<Rightarrow> ServeState \<Rightarrow> bool \<times> ServeState" where
  "arm_web sv cfg cur =
     (if has_web cfg then
        (case sv_self_web sv of
           None \<Rightarrow> (False, cur)
         | Some fqdn \<Rightarrow>
             (let built = es_state (build_web_serve_state (sv_plan sv) cfg fqdn) in
              if ss_tcp built = Map.empty then (False, cur)
              else if sv_set_fails sv built then (False, cur)
              else (True, built)))
      else (False, cur))"

definition clear_stale :: "serve_env \<Rightarrow> bool \<Rightarrow> ServeState \<Rightarrow> ServeState" where
  "clear_stale sv armed cur =
     (if \<not> armed \<and> ss_tcp cur \<noteq> Map.empty then (if sv_set_fails sv empty_state then cur else empty_state) else cur)"

definition arm_funnel_lane :: "serve_env \<Rightarrow> ServeConfig \<Rightarrow> serve_loop list" where
  "arm_funnel_lane sv cfg =
     (if funnel_ports cfg = [] then []
      else case sv_self_funnel sv of
        None \<Rightarrow> []
      | Some fqdn \<Rightarrow>
          List.map_filter (\<lambda>port. case web_proxy_backend cfg port of
              None \<Rightarrow> None
            | Some backend \<Rightarrow>
                if sv_listen_fails sv fqdn port backend then None else Some (FunnelLoop port backend)) (funnel_ports cfg))"

definition serve_supervisor :: "serve_env \<Rightarrow> ServeConfig \<Rightarrow> ServeState \<Rightarrow> serve_loop list \<times> ServeState" where
  "serve_supervisor sv cfg cur =
     (let (armed, st) = arm_web sv cfg cur
      in (forward_loops cfg @ arm_funnel_lane sv cfg, clear_stale sv armed st))"

section \<open>The backend's operations\<close>

definition serve_config :: "daemon_env \<Rightarrow> serve_env \<Rightarrow> backend \<Rightarrow> fs \<Rightarrow> ServeConfig" where
  "serve_config env sv b f = load_serve (de_io env) (sv_json sv) (be_state_dir b) (be_current_profile b) f"

definition stop_serve_tasks :: "backend \<Rightarrow> backend" where
  "stop_serve_tasks b = b\<lparr>be_tasks := filter (\<lambda>t. t \<noteq> ServeSupervisor) (be_tasks b)\<rparr>"

definition spawn_serve :: "backend \<Rightarrow> backend" where
  "spawn_serve b = b\<lparr>be_tasks := be_tasks b @ [ServeSupervisor]\<rparr>"

datatype serve_error =
    FunnelUnderShieldsUp
  | NetmapNil
  | ServeTypeConflict serve_conflict
  | PortsRefused "RefusedPort list"
  | ServeSaveFailed

definition set_serve_config ::
  "daemon_env \<Rightarrow> serve_env \<Rightarrow> ServeConfig \<Rightarrow> backend \<Rightarrow> fs \<Rightarrow> (serve_error, unit) result \<times> backend \<times> fs" where
  "set_serve_config env sv cfg b f =
     (if funnel_ports cfg \<noteq> [] \<and> shields_up (be_prefs b) then (Inl FunnelUnderShieldsUp, b, f)
      else case current_netmap_name env b of
        (None, b1) \<Rightarrow> (Inl NetmapNil, b1, f)
      | (Some fqdn, b1) \<Rightarrow>
          (let existing = serve_config env sv b1 f in
           case validate_serve_config_update existing cfg of
             Inl conflict \<Rightarrow> (Inl (ServeTypeConflict conflict), b1, f)
           | Inr _ \<Rightarrow>
               (let already = es_refused (build_web_serve_state (sv_plan sv) existing fqdn);
                    refused = filter (\<lambda>r. r \<notin> set already) (es_refused (build_web_serve_state (sv_plan sv) cfg fqdn))
                in if refused \<noteq> [] then (Inl (PortsRefused refused), b1, f)
                   else case save_serve (de_io env) (sv_json sv) (be_state_dir b1) (be_current_profile b1) cfg f of
                     (False, f') \<Rightarrow> (Inl ServeSaveFailed, b1, f')
                   | (True, f') \<Rightarrow>
                       (Inr (), if be_device b1 \<noteq> None then spawn_serve (stop_serve_tasks b1) else b1, f'))))"

section \<open>Properties\<close>

lemma current_netmap_name_frame:
  "current_netmap_name env b = (n, b1) \<Longrightarrow> \<exists>m. b1 = b\<lparr>be_netmap_name := m\<rparr> \<and> n = m"
  by (cases b) (auto simp: current_netmap_name_def Let_def split: option.splits if_splits)

lemma save_serve_result:
  "save_serve io js d i cfg f = (ok, f') \<Longrightarrow>
     f' (config_path d i) = (if ok then Some (serve_to_json js cfg) else f (config_path d i))"
  by (auto simp: save_serve_def Let_def split: if_splits dest: atomic_write_result)

lemma save_serve_other:
  "save_serve io js d i cfg f = (ok, f') \<Longrightarrow> q \<noteq> config_path d i \<Longrightarrow> q \<noteq> tmp_path io (config_path d i) \<Longrightarrow> f' q = f q"
  by (auto simp: save_serve_def Let_def split: if_splits dest: atomic_write_other)

text \<open>The conditions a stored configuration meets, judged against the one it replaces.\<close>

definition serve_admitted :: "serve_env \<Rightarrow> bool \<Rightarrow> string \<Rightarrow> ServeConfig \<Rightarrow> ServeConfig \<Rightarrow> bool" where
  "serve_admitted sv shields fqdn old cfg \<longleftrightarrow>
     \<not> (shields \<and> funnel_ports cfg \<noteq> []) \<and>
     \<not> (\<exists>p w s. w \<in> served_types cfg p \<and> s \<in> served_types old p \<and> w \<noteq> s) \<and>
     set (es_refused (build_web_serve_state (sv_plan sv) cfg fqdn)) \<subseteq>
       set (es_refused (build_web_serve_state (sv_plan sv) old fqdn))"

lemma first_conflict_iff:
  "first_conflict old (sc_tcp cfg) = None \<longleftrightarrow>
     \<not> (\<exists>p w s. w \<in> served_types cfg p \<and> s \<in> served_types old p \<and> w \<noteq> s)"
proof
  assume "first_conflict old (sc_tcp cfg) = None"
  then have *: "s = serve_type h" if "(k, h) \<in> set (sc_tcp cfg)" "parse_u16 k = Some p" "s \<in> served_types old p" for k h p s
    using that by (metis first_conflict_None port_conflict_None)
  show "\<not> (\<exists>p w s. w \<in> served_types cfg p \<and> s \<in> served_types old p \<and> w \<noteq> s)"
    unfolding served_types_def [of cfg] using * by blast
next
  assume a: "\<not> (\<exists>p w s. w \<in> served_types cfg p \<and> s \<in> served_types old p \<and> w \<noteq> s)"
  have "port_conflict old (k, h) = None" if "(k, h) \<in> set (sc_tcp cfg)" for k h
    unfolding port_conflict_None using served_typesI [OF that] a by metis
  then show "first_conflict old (sc_tcp cfg) = None" by (auto simp: first_conflict_None)
qed

lemma set_serve_config_cases:
  assumes "set_serve_config env sv cfg b f = (r, b', f')"
  obtains (refused) m e where "r = Inl e" "b' = b\<lparr>be_netmap_name := m\<rparr>" "f' = f"
  | (unsaved) m where "r = Inl ServeSaveFailed" "b' = b\<lparr>be_netmap_name := m\<rparr>"
      "save_serve (de_io env) (sv_json sv) (be_state_dir b) (be_current_profile b) cfg f = (False, f')"
  | (saved) fqdn b1 where "r = Inr ()" "b1 = b\<lparr>be_netmap_name := Some fqdn\<rparr>"
      "b' = (if be_device b \<noteq> None then spawn_serve (stop_serve_tasks b1) else b1)"
      "serve_admitted sv (shields_up (be_prefs b)) fqdn (serve_config env sv b f) cfg"
      "save_serve (de_io env) (sv_json sv) (be_state_dir b) (be_current_profile b) cfg f = (True, f')"
proof (cases "funnel_ports cfg \<noteq> [] \<and> shields_up (be_prefs b)")
  case True
  with assms refused [of FunnelUnderShieldsUp "be_netmap_name b"] show thesis by (simp add: set_serve_config_def)
next
  case open_funnel: False
  obtain n b1 where n: "current_netmap_name env b = (n, b1)" by fastforce
  then have b1: "b1 = b\<lparr>be_netmap_name := n\<rparr>" using current_netmap_name_frame by blast
  have same: "serve_config env sv b1 f = serve_config env sv b f" by (simp add: b1 serve_config_def)
  note body = assms [unfolded set_serve_config_def if_not_P [OF open_funnel] n prod.case]
  show thesis
  proof (cases n)
    case None
    with body b1 show thesis by (auto intro: refused [of NetmapNil None])
  next
    case (Some fqdn)
    let ?old = "serve_config env sv b f"
    let ?new = "filter (\<lambda>r. r \<notin> set (es_refused (build_web_serve_state (sv_plan sv) ?old fqdn)))
        (es_refused (build_web_serve_state (sv_plan sv) cfg fqdn))"
    show thesis
    proof (cases "first_conflict ?old (sc_tcp cfg) = None \<and> ?new = []")
      case False
      with body Some b1 refused [of _ n] same show thesis
        by (auto simp: validate_serve_config_update_def Let_def split: option.splits if_splits)
    next
      case True
      then have adm: "serve_admitted sv (shields_up (be_prefs b)) fqdn ?old cfg"
        using open_funnel unfolding serve_admitted_def first_conflict_iff by (auto simp: filter_empty_conv)
      obtain ok f1 where sv: "save_serve (de_io env) (sv_json sv) (be_state_dir b) (be_current_profile b) cfg f = (ok, f1)"
        by fastforce
      with True body Some b1 same
      have "(r, b', f') = (if ok then (Inr (), if be_device b \<noteq> None then spawn_serve (stop_serve_tasks b1) else b1, f1)
              else (Inl ServeSaveFailed, b1, f1))"
        by (auto simp: validate_serve_config_update_def Let_def split: bool.splits if_splits)
      with sv b1 Some adm unsaved [of n] saved [of b1 fqdn] show thesis by (cases ok) simp_all
    qed
  qed
qed

lemma serve_config_cong:
  "be_state_dir b' = be_state_dir b \<Longrightarrow> be_current_profile b' = be_current_profile b \<Longrightarrow>
     f' (config_path (be_state_dir b) (be_current_profile b)) = f (config_path (be_state_dir b) (be_current_profile b)) \<Longrightarrow>
     serve_config env sv b' f' = serve_config env sv b f"
  by (simp add: serve_config_def load_serve_def fs_read_def)

lemma set_serve_config_parts:
  assumes "set_serve_config env sv cfg b f = (r, b', f')"
  defines "path \<equiv> config_path (be_state_dir b) (be_current_profile b)"
  shows "(\<forall>e. r = Inl e \<longrightarrow> f' path = f path \<and> be_tasks b' = be_tasks b) \<and>
         (r = Inr () \<longrightarrow> f' path = Some (serve_to_json (sv_json sv) cfg) \<and>
           (\<exists>fqdn. be_netmap_name b' = Some fqdn \<and>
              serve_admitted sv (shields_up (be_prefs b)) fqdn (serve_config env sv b f) cfg)) \<and>
         (\<forall>q. q \<notin> {path, tmp_path (de_io env) path} \<longrightarrow> f' q = f q) \<and>
         b'\<lparr>be_netmap_name := be_netmap_name b, be_tasks := be_tasks b\<rparr> = b"
  using assms(1)
proof (cases rule: set_serve_config_cases)
  case refused
  then show ?thesis by simp
next
  case unsaved
  with save_serve_result [OF unsaved(3)] save_serve_other [OF unsaved(3)] show ?thesis
    by (simp add: path_def)
next
  case saved
  from saved(1,4) save_serve_result [OF saved(5)] save_serve_other [OF saved(5)] show ?thesis
    unfolding saved(2,3) path_def by (simp add: spawn_serve_def stop_serve_tasks_def)
qed

text \<open>
  Replacing the serve configuration is all or nothing. A refusal, or a save that fails, leaves the stored
  configuration, every running task and the rest of the daemon as they were. A success has stored exactly
  the requested configuration, which was admitted: it does not publish a port under shields-up, no port
  changes the kind of serve it carries, and every port the engine refuses was already refused before. No
  other file is touched (the temporary sibling apart).
\<close>

theorem set_serve_config_contract:
  assumes "set_serve_config env sv cfg b f = (r, b', f')"
  defines "path \<equiv> config_path (be_state_dir b) (be_current_profile b)"
  shows "(\<forall>e. r = Inl e \<longrightarrow> serve_config env sv b' f' = serve_config env sv b f \<and> be_tasks b' = be_tasks b) \<and>
         (r = Inr () \<longrightarrow> f' path = Some (serve_to_json (sv_json sv) cfg) \<and>
            (\<exists>fqdn. be_netmap_name b' = Some fqdn \<and>
               serve_admitted sv (shields_up (be_prefs b)) fqdn (serve_config env sv b f) cfg)) \<and>
         (\<forall>q. q \<notin> {path, tmp_path (de_io env) path} \<longrightarrow> f' q = f q) \<and>
         b'\<lparr>be_netmap_name := be_netmap_name b, be_tasks := be_tasks b\<rparr> = b"
proof -
  note parts = set_serve_config_parts [OF assms(1), folded path_def]
  note frame = parts [THEN conjunct2, THEN conjunct2, THEN conjunct2]
  have "be_state_dir b' = be_state_dir b" "be_current_profile b' = be_current_profile b"
    using arg_cong [OF frame, of be_state_dir] arg_cong [OF frame, of be_current_profile] by simp_all
  then have "serve_config env sv b' f' = serve_config env sv b f" if "r = Inl e" for e
    using parts [THEN conjunct1] that unfolding path_def by (blast intro: serve_config_cong)
  with parts show ?thesis by blast
qed

text \<open>A demonstration: a codec that keeps the number of ports, and an engine that refuses plain HTTP.\<close>

definition demo_sv :: serve_env where
  "demo_sv = \<lparr>sv_plan = demo_plan,
     sv_json = \<lparr>serve_to_json = (\<lambda>c. replicate (length (sc_tcp c)) CHR ''p''), serve_of_json = (\<lambda>_. Some serve_default)\<rparr>,
     sv_self_web = Some ''h.ts.net'', sv_self_funnel = Some ''h.ts.net'', sv_set_fails = (\<lambda>_. False),
     sv_listen_fails = (\<lambda>_ _ _. False)\<rparr>"

definition demo_forward :: ServeConfig where
  "demo_forward = serve_default\<lparr>sc_tcp := [(''443'', default_handler\<lparr>th_tcp_forward := ''127.0.0.1:5000''\<rparr>)]\<rparr>"

theorem set_serve_config_contract_witness:
  "\<exists>b' f'. set_serve_config demo_env demo_sv demo_forward (demo_backend\<lparr>be_netmap_name := Some ''h.ts.net''\<rparr>) (\<lambda>_. None) =
             (Inr (), b', f') \<and>
     f' (config_path (be_state_dir demo_backend) (be_current_profile demo_backend)) = Some ''p''"
proof -
  let ?b = "demo_backend\<lparr>be_netmap_name := Some ''h.ts.net''\<rparr>"
  obtain r b' f' where e: "set_serve_config demo_env demo_sv demo_forward ?b (\<lambda>_. None) = (r, b', f')"
    by (metis prod.exhaust)
  have build: "build_web_serve_state (sv_plan demo_sv) demo_forward n = \<lparr>es_state = empty_state, es_refused = []\<rparr>" for n
    by (simp add: build_web_serve_state_def demo_forward_def serve_port_step_def demo_parse check_port_def
        engine_port_def is_plain_tcp_forward_def default_handler_def demo_sv_def)
  have existing: "serve_config demo_env demo_sv ?b (\<lambda>_. None) = serve_default"
    by (simp add: serve_config_def load_serve_def fs_read_def demo_env_def demo_io_def)
  have valid: "validate_serve_config_update serve_default demo_forward = Inr ()"
    by (simp add: validate_serve_config_update_def demo_forward_def serve_default_def port_conflict_def demo_parse)
  have name: "current_netmap_name demo_env ?b = (Some ''h.ts.net'', ?b)"
    by (simp add: current_netmap_name_def demo_backend_def)
  have shields: "\<not> shields_up (be_prefs demo_backend)" by (simp add: demo_backend_def default_prefs_def)
  have "r = Inr ()"
    using e
    by (simp add: set_serve_config_def shields name existing valid build)
       (auto simp: save_serve_def atomic_write_def atomic_write_trace_def fs_write_def fs_rename_def demo_env_def demo_io_def
         Let_def split: prod.splits bool.splits if_splits)
  with set_serve_config_contract [OF e] have "f' (config_path (be_state_dir ?b) (be_current_profile ?b)) = Some ''p''"
    by (simp add: demo_sv_def demo_forward_def)
  with e \<open>r = Inr ()\<close> show ?thesis by auto
qed

section \<open>The lanes\<close>

text \<open>
  C19. What a start of the supervisor leaves running. The engine serves the new configuration, or nothing, or
  (only when the engine had nothing, or refuses even to be emptied) what it served before: a failed start
  never leaves an earlier web serve exposed while it can be cleared. A forwarding loop runs only for a plain
  TCP forward of its port to its target, and a public loop only for a port that is switched on, to that
  port's own proxy target.
\<close>

theorem serve_supervisor_fail_closed:
  assumes "serve_supervisor sv cfg cur = (loops, st)"
  shows "(st = empty_state \<or> st = cur \<and> (ss_tcp cur = Map.empty \<or> sv_set_fails sv empty_state) \<or>
          (\<exists>fqdn. sv_self_web sv = Some fqdn \<and> st = es_state (build_web_serve_state (sv_plan sv) cfg fqdn))) \<and>
         (\<forall>p t. ForwardLoop p t \<in> set loops \<longrightarrow>
            (\<exists>k h. (k, h) \<in> set (sc_tcp cfg) \<and> parse_u16 k = Some p \<and> is_plain_tcp_forward h \<and> t = th_tcp_forward h)) \<and>
         (\<forall>p t. FunnelLoop p t \<in> set loops \<longrightarrow> p \<in> set (funnel_ports cfg) \<and> web_proxy_backend cfg p = Some t)"
proof (intro conjI allI impI)
  show "st = empty_state \<or> st = cur \<and> (ss_tcp cur = Map.empty \<or> sv_set_fails sv empty_state) \<or>
      (\<exists>fqdn. sv_self_web sv = Some fqdn \<and> st = es_state (build_web_serve_state (sv_plan sv) cfg fqdn))"
    using assms by (auto simp: serve_supervisor_def arm_web_def clear_stale_def Let_def split: if_splits option.splits)
  fix p t
  have loops: "loops = forward_loops cfg @ arm_funnel_lane sv cfg"
    using assms by (auto simp: serve_supervisor_def Let_def split: prod.splits)
  show "\<exists>k h. (k, h) \<in> set (sc_tcp cfg) \<and> parse_u16 k = Some p \<and> is_plain_tcp_forward h \<and> t = th_tcp_forward h"
    if "ForwardLoop p t \<in> set loops"
    using that unfolding loops
    by (fastforce simp: forward_loops_def arm_funnel_lane_def in_map_filter split: if_splits option.splits)
  assume "FunnelLoop p t \<in> set loops"
  then have "FunnelLoop p t \<in> set (arm_funnel_lane sv cfg)"
    unfolding loops by (auto simp: forward_loops_def in_map_filter split: option.splits if_splits)
  then show "p \<in> set (funnel_ports cfg)" "web_proxy_backend cfg p = Some t"
    by (auto simp: arm_funnel_lane_def in_map_filter split: option.splits if_splits)
qed

theorem serve_supervisor_fail_closed_witness:
  "snd (serve_supervisor demo_sv demo_forward (empty_state\<lparr>ss_tcp := [443 \<mapsto> empty_tcp]\<rparr>)) = empty_state"
proof -
  let ?cur = "empty_state\<lparr>ss_tcp := [443 \<mapsto> empty_tcp]\<rparr>"
  obtain loops st where e: "serve_supervisor demo_sv demo_forward ?cur = (loops, st)" by fastforce
  have "st \<noteq> es_state (build_web_serve_state demo_plan demo_forward n) \<or> st = empty_state" for n
    by (simp add: build_web_serve_state_def demo_forward_def serve_port_step_def demo_parse check_port_def
        engine_port_def is_plain_tcp_forward_def default_handler_def)
  with serve_supervisor_fail_closed [OF e] e show ?thesis by (auto simp: demo_sv_def)
qed

end
