(* ===== verification/Lifecycle.thy ===== *)
theory Lifecycle
  imports LiveEdit ServeOps "HOL-Library.Multiset"
begin

text \<open>
  The concurrency of the daemon (\<open>src/src/ipn/mod.rs\<close>). Every command holds the backend lock only for
  short sections and drops it for the engine's handshake, so the sections of several commands
  interleave. A section is one operation of the theories \<open>Backend\<close> and \<open>BackendOps\<close>; a command that
  has released the lock and still has a section to run is a \<open>job\<close>. \<open>daemon_step\<close> is one section of
  one command, and \<open>drive_up\<close>, \<open>rebuild_running_device\<close>, \<open>drive_set\<close>, \<open>drive_reload_config\<close> and
  \<open>reconnect_now\<close> are the commands when nobody interferes.

  What the generation counter promises is the small machine \<open>lc_step\<close> on the record \<open>lifecycle\<close>; the
  daemon is shown to refine it, and its invariants carry over.
\<close>

section \<open>The commands, uncontended\<close>

text \<open>The auth key of a bring-up: the caller's, else the administrator's (\<open>engine_ok\<close> is the outcome of the handshake).\<close>

definition up_authkey :: "daemon_env \<Rightarrow> string option \<Rightarrow> backend \<Rightarrow> string option" where
  "up_authkey env authkey b = (case authkey of None \<Rightarrow> policy_auth_key env b | Some k \<Rightarrow> Some k)"

definition settle_result :: "engine option be_result \<Rightarrow> unit be_result" where
  "settle_result r = (case r of Inl e \<Rightarrow> Inl e | Inr _ \<Rightarrow> Inr ())"

definition finish_handshake ::
  "daemon_env \<Rightarrow> bool \<Rightarrow> string option \<Rightarrow> PendingUp be_result \<times> backend \<times> fs \<Rightarrow> unit be_result \<times> backend \<times> fs" where
  "finish_handshake env engine_ok authkey begun =
     (case begun of
        (Inl e, b, f) \<Rightarrow> (Inl e, b, f)
      | (Inr pending, b, f) \<Rightarrow>
          (case settle_up env pending (build_device engine_ok pending authkey) b f of
             (r, b1, f1) \<Rightarrow> (settle_result r, b1, f1)))"

definition drive_up ::
  "daemon_env \<Rightarrow> bool \<Rightarrow> string option \<Rightarrow> WifCreds option \<Rightarrow> up_options \<Rightarrow> backend \<Rightarrow> fs \<Rightarrow> unit be_result \<times> backend \<times> fs" where
  "drive_up env engine_ok authkey wif opts b f =
     finish_handshake env engine_ok (up_authkey env authkey b) (begin_up_gated env opts wif b f)"

definition rebuild_running_device ::
  "daemon_env \<Rightarrow> bool \<Rightarrow> backend \<Rightarrow> fs \<Rightarrow> unit be_result \<times> backend \<times> fs" where
  "rebuild_running_device env engine_ok b f =
     (case build_be_config env b f of
        (Inl e, f1) \<Rightarrow> (Inl e, b, f1)
      | (Inr _, f1) \<Rightarrow> finish_handshake env engine_ok None (begin_up_gated env up_default None b f1))"

definition drive_set ::
  "daemon_env \<Rightarrow> bool \<Rightarrow> set_options \<Rightarrow> backend \<Rightarrow> fs \<Rightarrow> unit be_result \<times> backend \<times> fs" where
  "drive_set env engine_ok opts b f =
     (case begin_set_gated env opts b f of
        (Inl e, b1, f1) \<Rightarrow> (Inl e, b1, f1)
      | (Inr outcome, b1, f1) \<Rightarrow>
          (case (if so_action outcome = Rebuild then rebuild_running_device env engine_ok b1 f1 else (Inr (), b1, f1)) of
             (Inl e, b2, f2) \<Rightarrow> (Inl e, b2, f2)
           | (Inr _, b2, f2) \<Rightarrow>
               (case so_rename_error outcome of Some e \<Rightarrow> (Inl e, b2, f2) | None \<Rightarrow> (Inr (), b2, f2))))"

definition drive_reload_config ::
  "daemon_env \<Rightarrow> bool \<Rightarrow> backend \<Rightarrow> fs \<Rightarrow> ReloadAction option be_result \<times> backend \<times> fs" where
  "drive_reload_config env engine_ok b f =
     (case reload_config env b f of
        (Inl e, b1, f1) \<Rightarrow> (Inl e, b1, f1)
      | (Inr None, b1, f1) \<Rightarrow> (Inr None, b1, f1)
      | (Inr (Some action), b1, f1) \<Rightarrow>
          (case (case action of
                   ReloadPersistedOnly \<Rightarrow> (Inr (), b1, f1)
                 | ReloadBringDown \<Rightarrow> down env Daemon b1 f1
                 | ReloadRebuild \<Rightarrow> rebuild_running_device env engine_ok b1 f1) of
             (Inl e, b2, f2) \<Rightarrow> (Inl e, b2, f2)
           | (Inr _, b2, f2) \<Rightarrow> (Inr (Some action), b2, f2)))"

definition reconnect_now ::
  "daemon_env \<Rightarrow> bool \<Rightarrow> ReconnectTimer \<Rightarrow> backend \<Rightarrow> fs \<Rightarrow> backend \<times> fs" where
  "reconnect_now env engine_ok armed b f =
     (case claim_due_reconnect armed b of
        (False, b1) \<Rightarrow> (b1, f)
      | (True, b1) \<Rightarrow> snd (drive_up env engine_ok None None up_default b1 f))"

definition shutdown :: "daemon_env \<Rightarrow> backend \<Rightarrow> backend" where
  "shutdown env b = stop_device env b"

section \<open>Interleaving\<close>

text \<open>
  A command between two of its sections: the handshake of a bring-up (with the config, the generation
  and the key it runs with), a rebuild before its preflight, a rebuild before its bring-up, a reload
  that decided to stop the node, a reconnect that has claimed its timer.
\<close>

datatype job =
    Handshake PendingUp "string option"
  | RebuildPreflight
  | RebuildBegin
  | ReloadDown
  | ReconnectUp

type_synonym system = "backend \<times> fs \<times> job multiset"

definition started :: "PendingUp be_result \<Rightarrow> string option \<Rightarrow> job multiset" where
  "started r authkey = (case r of Inl _ \<Rightarrow> {#} | Inr pending \<Rightarrow> {#Handshake pending authkey#})"

definition after_set :: "SetOutcome be_result \<Rightarrow> job multiset" where
  "after_set r = (case r of Inl _ \<Rightarrow> {#}
     | Inr outcome \<Rightarrow> if so_action outcome = Rebuild then {#RebuildPreflight#} else {#})"

definition after_reload :: "ReloadAction option be_result \<Rightarrow> job multiset" where
  "after_reload r = (case r of
       Inr (Some ReloadRebuild) \<Rightarrow> {#RebuildPreflight#}
     | Inr (Some ReloadBringDown) \<Rightarrow> {#ReloadDown#}
     | _ \<Rightarrow> {#})"

inductive daemon_step :: "system \<Rightarrow> system \<Rightarrow> bool" where
  up: "begin_up_gated env opts wif b f = (r, b', f') \<Longrightarrow>
     daemon_step (b, f, J) (b', f', J + started r (up_authkey env authkey b))"
| settle: "settle_up env pending (build_device engine_ok pending authkey) b f = (r, b', f') \<Longrightarrow>
     daemon_step (b, f, add_mset (Handshake pending authkey) J) (b', f', J)"
| set: "begin_set_gated env opts b f = (rs, b', f') \<Longrightarrow> daemon_step (b, f, J) (b', f', J + after_set rs)"
| preflight: "build_be_config env b f = (rc, f') \<Longrightarrow>
     daemon_step (b, f, add_mset RebuildPreflight J) (b, f', J + (if is_ok rc then {#RebuildBegin#} else {#}))"
| rebuild: "begin_up_gated env up_default None b f = (r, b', f') \<Longrightarrow>
     daemon_step (b, f, add_mset RebuildBegin J) (b', f', J + started r None)"
| reload: "reload_config env b f = (ra, b', f') \<Longrightarrow> daemon_step (b, f, J) (b', f', J + after_reload ra)"
| reload_down: "down env Daemon b f = (ru, b', f') \<Longrightarrow> daemon_step (b, f, add_mset ReloadDown J) (b', f', J)"
| down: "down env (Operator reason) b f = (ru, b', f') \<Longrightarrow> daemon_step (b, f, J) (b', f', J)"
| logout: "logout env (Operator reason) b f = (ru, b', f') \<Longrightarrow> daemon_step (b, f, J) (b', f', J)"
| switch: "switch_profile env target b f = (ro, b', f') \<Longrightarrow> daemon_step (b, f, J) (b', f', J)"
| create: "create_profile env target b f = (ro, b', f') \<Longrightarrow> daemon_step (b, f, J) (b', f', J)"
| empty: "switch_to_empty_profile_drawing env draws b f = (ro, b', f') \<Longrightarrow> daemon_step (b, f, J) (b', f', J)"
| delete: "delete_profile env target b f = (rd, f') \<Longrightarrow> daemon_step (b, f, J) (b, f', J)"
| policy: "b1 = snd (sys_policy_changed keys b) \<Longrightarrow>
     daemon_step (b, f, J) (snd (exit_node_policy_changed exit_keys b1), f, J)"
| claim: "claim_due_reconnect armed b = (due, b') \<Longrightarrow>
     daemon_step (b, f, J) (b', f, J + (if due then {#ReconnectUp#} else {#}))"
| reconnect: "begin_up_gated env up_default None b f = (r, b', f') \<Longrightarrow>
     daemon_step (b, f, add_mset ReconnectUp J) (b', f', J + started r (policy_auth_key env b))"
| serve: "set_serve_config env sv cfg b f = (rv, b', f') \<Longrightarrow> daemon_step (b, f, J) (b', f', J)"
| shutdown: "daemon_step (b, f, J) (shutdown env b, f, J)"

inductive_cases daemon_stepE: "daemon_step s s'"

text \<open>A daemon starts with no engine and nothing in flight (\<open>load_backend\<close> and the boot flags).\<close>

definition booted :: "system \<Rightarrow> bool" where
  "booted s = (case s of (b, _, J) \<Rightarrow> be_device b = None \<and> be_tasks b = [] \<and> J = {#})"

definition reachable :: "system \<Rightarrow> bool" where
  "reachable s = (\<exists>s0. booted s0 \<and> daemon_step\<^sup>*\<^sup>* s0 s)"

section \<open>The abstract machine\<close>

record lifecycle =
  lc_generation :: nat
  lc_device :: bool
  lc_want :: bool
  lc_out :: bool
  lc_config_mode :: bool
  lc_pending :: "nat multiset"

inductive lc_step :: "lifecycle \<Rightarrow> lifecycle \<Rightarrow> bool" where
  supersede: "lc_step l (l\<lparr>lc_generation := lc_generation l + 1, lc_device := False, lc_want := w, lc_out := out\<rparr>)"
| begin_up: "lc_step l (l\<lparr>lc_generation := lc_generation l + 1, lc_device := False, lc_want := True,
     lc_out := False, lc_pending := add_mset (lc_generation l + 1) (lc_pending l)\<rparr>)"
| stop: "(w \<and> \<not> out) \<or> (w = lc_want l \<and> out = lc_out l) \<Longrightarrow>
     lc_step l (l\<lparr>lc_device := False, lc_want := w, lc_out := out\<rparr>)"
| install: "lc_generation l \<in># lc_pending l \<Longrightarrow>
     lc_step l (l\<lparr>lc_generation := lc_generation l + 1, lc_device := True,
       lc_pending := lc_pending l - {#lc_generation l#}\<rparr>)"
| discard: "p \<in># lc_pending l \<Longrightarrow> lc_step l (l\<lparr>lc_pending := lc_pending l - {#p#}\<rparr>)"
| edit: "lc_config_mode l \<or> (lc_want l \<longrightarrow> w) \<Longrightarrow> lc_step l (l\<lparr>lc_want := w\<rparr>)"

text \<open>
  Its invariant: the attempts in flight are of distinct generations none of which is in the future,
  the current one excludes an installed engine, and an engine (or the attempt that may still install
  one) is there only while the node is not logged out and, unless a configuration file decides, meant
  to be up.
\<close>

definition lc_ok :: "lifecycle \<Rightarrow> bool" where
  "lc_ok l \<longleftrightarrow>
     (\<forall>p \<in># lc_pending l. p \<le> lc_generation l) \<and>
     (\<forall>p. count (lc_pending l) p \<le> 1) \<and>
     (lc_generation l \<in># lc_pending l \<longrightarrow> \<not> lc_device l) \<and>
     (lc_device l \<or> lc_generation l \<in># lc_pending l \<longrightarrow> \<not> lc_out l \<and> (lc_config_mode l \<or> lc_want l))"

lemma lc_step_ok: "lc_step l l' \<Longrightarrow> lc_ok l \<Longrightarrow> lc_ok l'"
proof (induction rule: lc_step.induct)
  case (begin_up l)
  then have "count (lc_pending l) (Suc (lc_generation l)) = 0"
    by (auto simp: lc_ok_def not_in_iff [symmetric])
  with begin_up show ?case by (fastforce simp: lc_ok_def)
next
  case (install l)
  then have one: "count (lc_pending l) (lc_generation l) \<le> 1" and le: "\<forall>p \<in># lc_pending l. p \<le> lc_generation l"
    and up: "\<not> lc_out l \<and> (lc_config_mode l \<or> lc_want l)" and c: "\<forall>p. count (lc_pending l) p \<le> 1"
    by (simp_all add: lc_ok_def)
  have "\<forall>p \<in># lc_pending l - {#lc_generation l#}. p \<le> lc_generation l" using le by (auto dest: in_diffD)
  moreover from this have "Suc (lc_generation l) \<notin># lc_pending l - {#lc_generation l#}" by force
  ultimately show ?case using up c by (auto simp: lc_ok_def intro: le_trans [OF diff_le_self])
next
  case (discard p l)
  then show ?case by (auto simp: lc_ok_def in_diff_count dest: in_diffD intro: le_trans [OF diff_le_self])
qed (auto simp: lc_ok_def)


section \<open>What the operations do to the lifecycle\<close>

text \<open>Three shapes cover every operation but the install: a teardown that bumps, one that does not, an edit.\<close>

definition superseded :: "backend \<Rightarrow> backend \<Rightarrow> bool" where
  "superseded b b' \<longleftrightarrow> be_device b' = None \<and> be_tasks b' = [] \<and> be_generation b' = be_generation b + 1 \<and>
     be_config_source b' = be_config_source b"

definition torn_down :: "backend \<Rightarrow> backend \<Rightarrow> bool" where
  "torn_down b b' \<longleftrightarrow> be_device b' = None \<and> be_tasks b' = [] \<and> be_generation b' = be_generation b \<and>
     be_config_source b' = be_config_source b \<and>
     (wants_running b' \<or> want_running (be_prefs b') = want_running (be_prefs b) \<and>
        logged_out (be_prefs b') = logged_out (be_prefs b))"

definition edited :: "backend \<Rightarrow> backend \<Rightarrow> bool" where
  "edited b b' \<longleftrightarrow> (be_device b' = None \<longleftrightarrow> be_device b = None) \<and> be_tasks b' = be_tasks b \<and>
     be_generation b' = be_generation b \<and> be_config_source b' = be_config_source b \<and>
     logged_out (be_prefs b') = logged_out (be_prefs b) \<and>
     (be_config_source b \<noteq> None \<or> (want_running (be_prefs b) \<longrightarrow> want_running (be_prefs b')))"

lemma edited_refl [simp]: "edited b b"
  by (simp add: edited_def)

lemma begin_up_effect:
  assumes "begin_up_gated env opts wif b f = (r, b', f')"
  obtains (refused) e where "r = Inl e" "b' = b"
  | (failed) e where "r = Inl e" "torn_down b b'"
  | (started) pending where "r = Inr pending" "superseded b b'" "pu_generation pending = be_generation b'"
      "wants_running b'"
proof (cases "begin_up_checks env opts b")
  case (Inl e)
  then show ?thesis using assms by (intro refused [of e]) (simp_all add: begin_up_gated_def)
next
  case (Inr x)
  obtain opts' edit where x: "x = (opts', edit)" by (cases x)
  show ?thesis
  proof (cases rule: begin_up_checked [OF assms Inr [unfolded x]])
    case 1
    then show ?thesis by (intro failed) (auto simp: torn_down_def be_simps)
  next
    case (2 f1)
    show ?thesis
    proof (cases rule: start_up_cases [OF 2(2)])
      case (1 e)
      then show ?thesis by (intro failed [of e]) (auto simp: torn_down_def wants_running_def be_simps)
    next
      case (2 c f2)
      then show ?thesis by (intro started) (auto simp: superseded_def wants_running_def be_simps)
    qed
  qed
qed

lemma begin_set_effect:
  assumes "begin_set_gated env opts b f = (r, b', f')"
  shows "edited b b'"
proof (cases "begin_set_checks env opts b")
  case (Inl e)
  then show ?thesis using assms by (simp add: begin_set_gated_def)
next
  case (Inr x)
  obtain opts' edit where x: "x = (opts', edit)" by (cases x)
  have *: "edited b (apply_set env opts' edit b)" by (auto simp: edited_def be_simps)
  show ?thesis
  proof (cases rule: begin_set_split [OF assms Inr [unfolded x]])
    case (2 action rn)
    then obtain d where "b' = (apply_set env opts' edit b)\<lparr>be_device := d\<rparr>"
      "(d = None) = (be_device (apply_set env opts' edit b) = None)" by (metis reconcile_set_keeps)
    with * show ?thesis by (simp add: edited_def)
  qed (use * in simp)
qed

lemma persist_edited: "edited b (b\<lparr>be_prefs := p\<rparr>)"
  if "logged_out p = logged_out (be_prefs b)" "be_config_source b \<noteq> None"
  using that by (simp add: edited_def)

lemma apply_to_prefs_logged_out:
  "apply_to_prefs_gated cenv cfg host p = (r, p') \<Longrightarrow> logged_out p' = logged_out p"
  by (auto simp: apply_to_prefs_gated_def merge_config_def Let_def split: sum.splits)

lemma reload_config_effect:
  assumes "reload_config env b f = (r, b', f')"
  shows "edited b b'"
  using assms apply_to_prefs_logged_out
  by (auto simp: reload_config_def apply_config_def edited_def be_simps Let_def
      split: option.splits sum.splits prod.splits)

lemma down_effect: "down env actor b f = (r, b', f') \<Longrightarrow> b' = b \<or> superseded b b'"
  by (cases "check_disconnect env actor b f")
     (auto simp: down_def superseded_def be_simps Let_def split: prod.splits)

lemma logout_effect:
  assumes "logout env actor b f = (r, b', f')"
  shows "b' = b \<or> superseded b b'"
proof (cases "check_disconnect env actor b f")
  case (Inl e)
  then show ?thesis using assms by (simp add: logout_def)
next
  case (Inr a)
  let ?b1 = "forget_suggested_exit_node ((bump_generation (stop_device env b))\<lparr>be_netmap_name := None\<rparr>)"
  obtain r1 b2 f1 where d: "discard_node_key env ?b1 f = (r1, b2, f1)" by (metis prod_cases3)
  have "superseded b ?b1" by (simp add: superseded_def be_simps)
  moreover from discard_node_key_cases [OF d] have "b2 = ?b1 \<or> b2 = ?b1\<lparr>be_has_node_key := False\<rparr>" by blast
  ultimately have "superseded b b2" by (auto simp: superseded_def)
  moreover have "be_config_source (record_logout env w b2) = be_config_source b2" for w
    by (simp add: record_logout_def be_simps)
  ultimately show ?thesis using assms Inr d
    by (cases r1) (auto simp: logout_def superseded_def Let_def split: prod.splits)
qed

lemma activate_profile_effect:
  "activate_profile env target reg b f = (r, b', f') \<Longrightarrow> b' = b \<or> superseded b b'"
  by (auto simp: activate_profile_def superseded_def be_simps Let_def
      split: if_splits option.splits prod.splits bool.splits)

lemma reset_to_empty_effect:
  "reset_to_empty_profile env b f = (r, b', f') \<Longrightarrow> b' = b \<or> superseded b b'"
  by (auto simp: reset_to_empty_profile_def superseded_def be_simps Let_def
      split: if_splits option.splits prod.splits bool.splits remove_outcome.splits)

lemma profile_switch_effect:
  "switch_profile env target b f = (r, b', f') \<Longrightarrow> b' = b \<or> superseded b b'"
  "create_profile env target b f = (r, b', f') \<Longrightarrow> b' = b \<or> superseded b b'"
  "switch_to_empty_profile_drawing env draws b f = (r, b', f') \<Longrightarrow> b' = b \<or> superseded b b'"
  using activate_profile_effect reset_to_empty_effect
  by (auto simp: switch_profile_def create_profile_def switch_to_empty_profile_drawing_def Let_def
      split: if_splits option.splits prod.splits sum.splits)

lemma policy_effect: "edited b (snd (exit_node_policy_changed ek (snd (sys_policy_changed k b))))"
  by (auto simp: exit_node_policy_changed_def sys_policy_changed_def edited_def be_simps)

lemma claim_effect: "claim_due_reconnect armed b = (due, b') \<Longrightarrow> edited b b'"
  by (auto simp: claim_due_reconnect_def edited_def split: if_splits)

lemma shutdown_effect: "torn_down b (shutdown env b)"
  by (simp add: torn_down_def shutdown_def be_simps)

text \<open>A new serve configuration restarts the serve supervisor, and no more.\<close>

lemma set_serve_config_effect:
  assumes "set_serve_config env sv cfg b f = (r, b', f')"
  obtains m where "b' = b\<lparr>be_netmap_name := m\<rparr>"
  | m where "be_device b \<noteq> None" "b' = spawn_serve (stop_serve_tasks (b\<lparr>be_netmap_name := m\<rparr>))"
  using assms
proof (cases rule: set_serve_config_cases)
  case (saved fqdn b1)
  then show ?thesis using that(1) [of "Some fqdn"] that(2) [of "Some fqdn"] by (cases "be_device b") simp_all
qed (use that in blast)+

text \<open>Settling an attempt: the current one installs or fails, any other changes nothing.\<close>

lemma settle_up_effect:
  assumes "settle_up env pending built b f = (r, b', f')"
  obtains (discarded) "b' = b"
  | (installed) dev where "pu_generation pending = be_generation b" "built = Inr dev" "be_device b' = Some dev"
      "be_generation b' = be_generation b + 1" "be_tasks b' = be_tasks b @ spawn_tasks env b"
      "be_config_source b' = be_config_source b" "r = Inr None"
      "be_prefs b' = (be_prefs b)\<lparr>has_logged_in := True\<rparr>"
proof (cases "pu_generation pending = be_generation b")
  case False
  then show ?thesis using assms by (intro discarded) (auto simp: settle_up_def finish_up_def split: sum.splits option.splits)
next
  case True
  show ?thesis
  proof (cases built)
    case (Inl e)
    then show ?thesis using assms True by (intro discarded) (simp add: settle_up_def finish_up_def)
  next
    case (Inr dev)
    then show ?thesis using assms True
      by (intro installed [of dev]) (auto simp: settle_up_def finish_up_def spawn_tasks_def be_simps Let_def)
  qed
qed

section \<open>Refinement\<close>

text \<open>A step system that follows another one, with stuttering: its runs are runs of the other, and invariants carry over.\<close>

locale simulation =
  fixes cstep :: "'c \<Rightarrow> 'c \<Rightarrow> bool" and astep :: "'a \<Rightarrow> 'a \<Rightarrow> bool" and abs_of :: "'c \<Rightarrow> 'a"
  assumes follows: "cstep c c' \<Longrightarrow> astep (abs_of c) (abs_of c') \<or> abs_of c' = abs_of c"
begin

lemma run: "cstep\<^sup>*\<^sup>* c c' \<Longrightarrow> astep\<^sup>*\<^sup>* (abs_of c) (abs_of c')"
proof (induction rule: rtranclp_induct)
  case (step c' c'')
  from follows [OF step(2)] step.IH show ?case by (auto intro: rtranclp.rtrancl_into_rtrancl)
qed simp

lemma invariant:
  assumes "cstep\<^sup>*\<^sup>* c c'" "I (abs_of c)" "\<And>a a'. astep a a' \<Longrightarrow> I a \<Longrightarrow> I a'"
  shows "I (abs_of c')"
  using run [OF assms(1)] assms(2) by (induction rule: rtranclp_induct) (auto intro: assms(3))

end

definition job_generations :: "job \<Rightarrow> nat multiset" where
  "job_generations j = (case j of Handshake pending _ \<Rightarrow> {#pu_generation pending#} | _ \<Rightarrow> {#})"

definition pending_generations :: "job multiset \<Rightarrow> nat multiset" where
  "pending_generations J = sum_mset (image_mset job_generations J)"

lemma pending_generations_simps [simp]:
  "pending_generations {#} = {#}"
  "pending_generations (add_mset j J) = job_generations j + pending_generations J"
  "pending_generations (J + K) = pending_generations J + pending_generations K"
  by (simp_all add: pending_generations_def)

lemma job_generations_simps [simp]:
  "job_generations (Handshake pending k) = {#pu_generation pending#}"
  "job_generations RebuildPreflight = {#}" "job_generations RebuildBegin = {#}"
  "job_generations ReloadDown = {#}" "job_generations ReconnectUp = {#}"
  "pending_generations (after_set rs) = {#}" "pending_generations (after_reload ra) = {#}"
  by (simp_all add: job_generations_def after_set_def after_reload_def split: sum.split option.split ReloadAction.split)

definition lc_view :: "backend \<Rightarrow> nat multiset \<Rightarrow> lifecycle" where
  "lc_view b P =
     \<lparr>lc_generation = be_generation b, lc_device = (be_device b \<noteq> None), lc_want = want_running (be_prefs b),
      lc_out = logged_out (be_prefs b), lc_config_mode = (be_config_source b \<noteq> None), lc_pending = P\<rparr>"

definition lc_of :: "system \<Rightarrow> lifecycle" where
  "lc_of s = (case s of (b, _, J) \<Rightarrow> lc_view b (pending_generations J))"

lemma lc_of_simp [simp]: "lc_of (b, f, J) = lc_view b (pending_generations J)"
  by (simp add: lc_of_def)

lemma lc_view_simps [simp]:
  "lc_generation (lc_view b P) = be_generation b" "lc_pending (lc_view b P) = P"
  "lc_want (lc_view b P) = want_running (be_prefs b)" "lc_out (lc_view b P) = logged_out (be_prefs b)"
  "lc_device (lc_view b P) \<longleftrightarrow> be_device b \<noteq> None" "lc_config_mode (lc_view b P) \<longleftrightarrow> be_config_source b \<noteq> None"
  by (simp_all add: lc_view_def)

definition lc_steps :: "lifecycle \<Rightarrow> lifecycle \<Rightarrow> bool" where
  "lc_steps l l' \<longleftrightarrow> lc_step l l' \<or> l' = l"

lemma superseded_lc: "superseded b b' \<Longrightarrow> lc_steps (lc_view b P) (lc_view b' P)"
  using lc_step.supersede [of "lc_view b P" "logged_out (be_prefs b')" "want_running (be_prefs b')"]
  by (simp add: lc_steps_def superseded_def lc_view_def)

lemma torn_down_lc: "torn_down b b' \<Longrightarrow> lc_steps (lc_view b P) (lc_view b' P)"
  using lc_step.stop [of "want_running (be_prefs b')" "logged_out (be_prefs b')" "lc_view b P"]
  by (auto simp: lc_steps_def torn_down_def wants_running_def lc_view_def)

lemma edited_lc: "edited b b' \<Longrightarrow> lc_steps (lc_view b P) (lc_view b' P)"
  using lc_step.edit [of "lc_view b P" "want_running (be_prefs b')"]
  by (auto simp: lc_steps_def edited_def lc_view_def)

lemma begin_up_lc:
  assumes "begin_up_gated env opts wif b f = (r, b', f')"
  shows "lc_steps (lc_view b P) (lc_view b' (P + pending_generations (started r k)))"
  using assms
proof (cases rule: begin_up_effect)
  case (started pending)
  then show ?thesis using lc_step.begin_up [of "lc_view b P"]
    by (simp add: started_def lc_steps_def superseded_def wants_running_def lc_view_def)
qed (simp_all add: started_def torn_down_lc lc_steps_def [of "lc_view b P" "lc_view b P"])

lemma settle_up_lc:
  assumes "settle_up env pending built b f = (r, b', f')"
  shows "lc_steps (lc_view b (add_mset (pu_generation pending) P)) (lc_view b' P)"
  using assms
proof (cases rule: settle_up_effect)
  case discarded
  then show ?thesis using lc_step.discard [of "pu_generation pending" "lc_view b (add_mset (pu_generation pending) P)"]
    by (simp add: lc_steps_def lc_view_def)
next
  case (installed dev)
  then show ?thesis using lc_step.install [of "lc_view b (add_mset (pu_generation pending) P)"]
    by (simp add: lc_steps_def lc_view_def)
qed

lemma daemon_step_lc: "daemon_step s s' \<Longrightarrow> lc_steps (lc_of s) (lc_of s')"
proof (induction rule: daemon_step.induct)
  case (down env reason b f ru b' f' J)
  from down_effect [OF down] show ?case by (auto simp: superseded_lc edited_lc)
next
  case (reload_down env b f ru b' f' J)
  from down_effect [OF reload_down] show ?case by (auto simp: superseded_lc edited_lc)
next
  case (logout env reason b f ru b' f' J)
  from logout_effect [OF logout] show ?case by (auto simp: superseded_lc edited_lc)
next
  case (switch env target b f ro b' f' J)
  from profile_switch_effect(1) [OF switch] show ?case by (auto simp: superseded_lc edited_lc)
next
  case (create env target b f ro b' f' J)
  from profile_switch_effect(2) [OF create] show ?case by (auto simp: superseded_lc edited_lc)
next
  case (empty env draws b f ro b' f' J)
  from profile_switch_effect(3) [OF empty] show ?case by (auto simp: superseded_lc edited_lc)
next
  case (serve env sv cfg b f rv b' f' J)
  then have "lc_view b' P = lc_view b P" for P
    by (rule set_serve_config_effect) (simp_all add: lc_view_def spawn_serve_def stop_serve_tasks_def)
  then show ?case by (simp add: lc_steps_def)
next
  case (settle env pending engine_ok authkey b f r b' f' J)
  from settle_up_lc [OF settle] show ?case by simp
qed (auto simp: begin_up_lc edited_lc torn_down_lc policy_effect shutdown_effect
    intro: edited_lc [OF begin_set_effect] edited_lc [OF reload_config_effect] edited_lc [OF claim_effect])

interpretation daemon: simulation daemon_step lc_step lc_of
  using daemon_step_lc by unfold_locales (auto simp: lc_steps_def)

lemma booted_lc_ok: "booted s \<Longrightarrow> lc_ok (lc_of s)"
  by (auto simp: booted_def lc_ok_def)

lemma reachable_lc_ok: "reachable s \<Longrightarrow> lc_ok (lc_of s)"
  unfolding reachable_def using daemon.invariant [of _ s lc_ok] booted_lc_ok lc_step_ok by blast

section \<open>Properties\<close>

text \<open>A backend that agrees with itself about its engine: the engine's tasks run exactly while it is there, each once.\<close>

definition engine_wf :: "backend \<Rightarrow> bool" where
  "engine_wf b \<longleftrightarrow> (be_tasks b = [] \<longleftrightarrow> be_device b = None) \<and> distinct (be_tasks b)"

lemma spawn_tasks_wf: "spawn_tasks env b \<noteq> [] \<and> distinct (spawn_tasks env b)"
  by (simp add: spawn_tasks_def)

lemma effects_engine_wf:
  "superseded b b' \<Longrightarrow> engine_wf b'" "torn_down b b' \<Longrightarrow> engine_wf b'"
  "edited b b' \<Longrightarrow> engine_wf b \<Longrightarrow> engine_wf b'"
  by (simp_all add: superseded_def torn_down_def edited_def engine_wf_def)

lemma begin_up_engine_wf: "begin_up_gated env opts wif b f = (r, b', f') \<Longrightarrow> engine_wf b \<Longrightarrow> engine_wf b'"
  by (erule begin_up_effect) (auto dest: effects_engine_wf)

lemma daemon_step_engine_wf:
  "daemon_step s s' \<Longrightarrow> lc_ok (lc_of s) \<Longrightarrow> engine_wf (fst s) \<Longrightarrow> engine_wf (fst s')"
proof (induction rule: daemon_step.induct)
  case (settle env pending engine_ok authkey b f r b' f' J)
  from settle(1) show ?case
  proof (cases rule: settle_up_effect)
    case (installed dev)
    then have "be_device b = None" using settle.prems by (auto simp: lc_ok_def)
    with settle.prems installed spawn_tasks_wf show ?thesis by (simp add: engine_wf_def)
  qed (use settle.prems in simp)
next
  case (serve env sv cfg b f rv b' f' J)
  from serve(1) serve.prems show ?case
    by (auto simp: engine_wf_def spawn_serve_def stop_serve_tasks_def elim!: set_serve_config_effect)
qed (auto simp: policy_effect intro: begin_up_engine_wf effects_engine_wf(2) [OF shutdown_effect]
    effects_engine_wf(3) [OF begin_set_effect] effects_engine_wf(3) [OF reload_config_effect]
    effects_engine_wf(3) [OF claim_effect] effects_engine_wf(3) [OF policy_effect]
    dest!: down_effect logout_effect profile_switch_effect dest: effects_engine_wf(1))

lemma reachable_step: "reachable s \<Longrightarrow> daemon_step s s' \<Longrightarrow> reachable s'"
  unfolding reachable_def by (blast intro: rtranclp.rtrancl_into_rtrancl)

lemma reachable_steps: "reachable s \<Longrightarrow> daemon_step\<^sup>*\<^sup>* s s' \<Longrightarrow> reachable s'"
  unfolding reachable_def by (blast intro: rtranclp_trans)

lemma reachable_engine_wf: "reachable s \<Longrightarrow> engine_wf (fst s)"
proof -
  assume "reachable s"
  then obtain s0 where b: "booted s0" and run: "daemon_step\<^sup>*\<^sup>* s0 s" by (auto simp: reachable_def)
  from b have "reachable s0" unfolding reachable_def by blast
  from run show "engine_wf (fst s)"
  proof (induction rule: rtranclp_induct)
    case base
    then show ?case using b by (auto simp: booted_def engine_wf_def)
  next
    case (step s1 s2)
    then show ?case
      using daemon_step_engine_wf reachable_lc_ok reachable_steps [OF \<open>reachable s0\<close>] by blast
  qed
qed

lemma pending_in: "Handshake pending k \<in># J \<Longrightarrow> pu_generation pending \<in># pending_generations J"
  by (auto dest!: multi_member_split)

text \<open>
  C1. The lifecycle invariant of the daemon, whatever the interleaving: an attempt in flight is never
  ahead of the counter, no two attempts are of the same generation, an installed engine excludes an
  attempt that could still install another one, its tasks run exactly while it is there and each only
  once, and an engine is never up on a node that is logged out or, when no configuration file decides,
  on one that is meant to be down.
\<close>

theorem reachable_invariant:
  assumes "reachable (b, f, J)"
  shows "(\<forall>pending k. Handshake pending k \<in># J \<longrightarrow> pu_generation pending \<le> be_generation b) \<and>
    (\<forall>g. count (pending_generations J) g \<le> 1) \<and>
    (be_device b \<noteq> None \<longrightarrow>
       (\<forall>pending k. Handshake pending k \<in># J \<longrightarrow> pu_generation pending < be_generation b) \<and>
       \<not> logged_out (be_prefs b) \<and> (be_config_source b = None \<longrightarrow> want_running (be_prefs b))) \<and>
    (be_tasks b = [] \<longleftrightarrow> be_device b = None) \<and> distinct (be_tasks b)"
proof -
  from reachable_lc_ok [OF assms] have ok: "lc_ok (lc_view b (pending_generations J))" by simp
  from reachable_engine_wf [OF assms] have "engine_wf b" by simp
  with ok show ?thesis
    by (auto simp: lc_ok_def engine_wf_def order_less_le dest: pending_in)
qed

text \<open>
  C3. The daemon refines the abstract lifecycle machine: every interleaving of its commands' sections,
  failures and refusals included, is a run of the six-rule machine on the generation, the engine, the
  intent and the attempts in flight.
\<close>

theorem daemon_refines_lifecycle:
  assumes "daemon_step\<^sup>*\<^sup>* s s'"
  shows "lc_step\<^sup>*\<^sup>* (lc_of s) (lc_of s')"
  by (rule daemon.run [OF assms])

lemma lc_step_generation: "lc_step l l' \<Longrightarrow> lc_generation l \<le> lc_generation l'"
  by (induction rule: lc_step.induct) simp_all

lemma daemon_generation: "daemon_step\<^sup>*\<^sup>* (b, f, J) (b', f', J') \<Longrightarrow> be_generation b \<le> be_generation b'"
  using daemon.invariant [of "(b, f, J)" "(b', f', J')" "\<lambda>l. be_generation b \<le> lc_generation l"] lc_step_generation
  by (auto intro: le_trans)

lemma stale_settle:
  "pu_generation pending < be_generation b \<Longrightarrow> settle_up env pending built b f = (r, b', f') \<Longrightarrow>
     b' = b \<and> r = Inr (case built of Inr dev \<Rightarrow> Some dev | Inl _ \<Rightarrow> None)"
  by (auto simp: settle_up_def finish_up_def split: sum.splits option.splits)

text \<open>
  C2. A superseded bring-up never installs its engine, however long its handshake takes: once any command
  has moved the generation while the attempt was in flight (another bring-up, a disconnect, a logout, a
  profile switch), then after any further interleaving the attempt's settlement leaves the backend as
  it is and hands the built engine back to be shut down.
\<close>

theorem superseded_never_installs:
  assumes "reachable (b, f, J)" "Handshake pending k \<in># J"
    "daemon_step (b, f, J) (b1, f1, J1)" "be_generation b1 \<noteq> be_generation b"
    "daemon_step\<^sup>*\<^sup>* (b1, f1, J1) (b2, f2, J2)" "settle_up env pending built b2 f2 = (r, b3, f3)"
  shows "b3 = b2 \<and> r = Inr (case built of Inr dev \<Rightarrow> Some dev | Inl _ \<Rightarrow> None)"
proof -
  have "pu_generation pending \<le> be_generation b"
    using reachable_lc_ok [OF assms(1)] pending_in [OF assms(2)] by (simp add: lc_ok_def)
  moreover have "be_generation b \<le> be_generation b1" "be_generation b1 \<le> be_generation b2"
    using daemon_generation [OF r_into_rtranclp, OF assms(3)] daemon_generation [OF assms(5)] by simp_all
  ultimately show ?thesis using stale_settle [OF _ assms(6)] assms(4) by simp
qed

text \<open>
  C4. A bring-up nobody interferes with ends with the node up: if its checks and its config pass and the
  engine's handshake succeeds, the command returns success, the installed engine is the one built from
  its config and key with no live edits, the intent is up, the login is recorded, and its two sections
  are a run of the daemon that leaves no job behind.
\<close>

theorem uncontended_up_installs:
  assumes "begin_up_gated env opts wif b f = (Inr pending, b1, f1)"
  shows "\<exists>b' f'. drive_up env True authkey wif opts b f = (Inr (), b', f') \<and>
    be_device b' = Some \<lparr>eng_config = pu_config pending, eng_authkey = up_authkey env authkey b, eng_ops = []\<rparr> \<and>
    wants_running b' \<and> has_logged_in (be_prefs b') \<and> be_generation b' = be_generation b + 2 \<and>
    daemon_step\<^sup>*\<^sup>* (b, f, J) (b', f', J)"
proof -
  let ?k = "up_authkey env authkey b"
  obtain r b' f' where s: "settle_up env pending (build_device True pending ?k) b1 f1 = (r, b', f')"
    by (metis prod_cases3)
  have b1: "superseded b b1" "pu_generation pending = be_generation b1" "wants_running b1"
    by (rule begin_up_effect [OF assms]; simp)+
  from s b1(2) have fin: "r = Inr None" "be_device b' = Some \<lparr>eng_config = pu_config pending, eng_authkey = ?k, eng_ops = []\<rparr>"
    "be_generation b' = be_generation b1 + 1" "be_prefs b' = (be_prefs b1)\<lparr>has_logged_in := True\<rparr>"
    by (auto simp: settle_up_def finish_up_def build_device_def be_simps Let_def)
  have "daemon_step (b, f, J) (b1, f1, add_mset (Handshake pending ?k) J)"
    using daemon_step.up [OF assms, of J authkey] by (simp add: started_def)
  moreover have "daemon_step (b1, f1, add_mset (Handshake pending ?k) J) (b', f', J)"
    using s by (rule daemon_step.settle)
  ultimately have "daemon_step\<^sup>*\<^sup>* (b, f, J) (b', f', J)" by (meson converse_rtranclp_into_rtranclp r_into_rtranclp)
  moreover have "drive_up env True authkey wif opts b f = (Inr (), b', f')"
    using assms s fin(1) by (simp add: drive_up_def finish_handshake_def settle_result_def)
  ultimately show ?thesis using b1 fin by (auto simp: superseded_def wants_running_def)
qed

section \<open>A run of the demonstration daemon\<close>

text \<open>On the demonstration host, a backend with plain preferences passes every step of a bring-up and of a disconnect.\<close>

definition demo_plain :: "backend \<Rightarrow> bool" where
  "demo_plain b \<longleftrightarrow> advertise_routes (be_prefs b) = [] \<and> \<not> advertise_exit_node (be_prefs b) \<and>
     \<not> tun_enabled (be_prefs b) \<and> \<not> ssh_enabled (be_prefs b) \<and> control_url (be_prefs b) = None \<and>
     be_current_profile b = DEFAULT_PROFILE_ID"

lemma demo_plain_config: "demo_plain b \<Longrightarrow> \<exists>c f'. build_be_config demo_env b f = (Inr c, f')"
  using demo_build_ok [of "be_prefs b" "be_key_path b" "be_listen_port b" f]
  by (cases "build_config demo_build_env (be_prefs b) (be_key_path b) (be_listen_port b) f")
     (auto simp: demo_plain_def build_be_config_def demo_env_def is_ok_iff)

lemma demo_plain_persist: "demo_plain b \<Longrightarrow> \<exists>f'. persist_prefs demo_env b f = (Inr (), f')"
  using demo_persist [of b f] by (cases "persist_prefs demo_env b f") (simp add: demo_plain_def)

lemma demo_plain_up:
  assumes "demo_plain b"
  shows "\<exists>pending b' f'. begin_up_gated demo_env up_default None b f = (Inr pending, b', f') \<and> demo_plain b'"
proof -
  let ?b1 = "apply_up demo_env up_default Untouched (stop_device demo_env b)"
  have plain: "demo_plain ?b1"
    using assms by (simp add: demo_plain_def be_simps demo_env_def up_prefs_def apply_up_overrides_def up_default_def)
  then obtain f1 where p: "persist_prefs demo_env ?b1 f = (Inr (), f1)" using demo_plain_persist by blast
  from demo_plain_config [OF plain] obtain c f2 where c: "build_be_config demo_env ?b1 f1 = (Inr c, f2)" by blast
  have "begin_up_checks demo_env up_default b = Inr (up_default, Untouched)"
    using assms
    by (simp add: demo_plain_def begin_up_checks_def check_route_set_def prospective_route_set_def demo_env_def
        demo_build_env_def up_default_def validate_advertise_routes_def calc_advertise_routes_spec route_acc_Nil
        composed_routes_def pairing_errors_def complete_tags_def check_exit_node_policy_def check_exit_node_edit_def
        check_named_exit_node_def check_ssh_prefs_gated_def prospective_ssh_def Let_def)
  moreover have "demo_plain (bump_generation (?b1\<lparr>be_has_node_key := True\<rparr>))"
    using plain by (simp add: demo_plain_def bump_generation_def)
  ultimately show ?thesis using p c by (simp add: begin_up_gated_def demo_no_reauth start_up_def Let_def)
qed

lemma demo_plain_down:
  assumes "demo_plain b"
  shows "\<exists>b' f'. down demo_env (Operator None) b f = (Inr (), b', f') \<and> demo_plain b'"
proof -
  have c: "check_disconnect demo_env (Operator None) b f = Inr None"
    by (simp add: check_disconnect_def check_disconnect_policy_def decide_def boolean_setting_def
        configured_boolean_def demo_env_def Let_def)
  obtain r b' f' where d: "down demo_env (Operator None) b f = (r, b', f')" by (metis prod_cases3)
  have "demo_plain b'" and p: "persist_prefs demo_env b' f = (r, f')"
    using d c assms by (auto simp: down_def demo_plain_def be_simps Let_def split: prod.splits)
  then show ?thesis using d demo_plain_persist [of b' f] by auto
qed

lemma demo_backend_plain: "demo_plain demo_backend"
  by (simp add: demo_plain_def demo_backend_def default_prefs_def)

lemma demo_reachable: "reachable (demo_backend, f, {#})"
  unfolding reachable_def booted_def by (rule exI [of _ "(demo_backend, f, {#})"]) (simp add: demo_backend_def)

theorem uncontended_up_installs_witness:
  "\<exists>b f. fst (drive_up demo_env True None None up_default demo_backend (\<lambda>_. None)) = Inr () \<and> be_device b \<noteq> None \<and>
     daemon_step\<^sup>*\<^sup>* (demo_backend, \<lambda>_. None, {#}) (b, f, {#})"
proof -
  from demo_plain_up [OF demo_backend_plain] obtain pending b1 f1 where
    "begin_up_gated demo_env up_default None demo_backend (\<lambda>_. None) = (Inr pending, b1, f1)" by blast
  from uncontended_up_installs [OF this, of None "{#}"] show ?thesis by auto
qed

text \<open>The same run as steps: the bring-up is in flight after the first one.\<close>

lemma demo_in_flight:
  obtains pending b1 f1 where "daemon_step (demo_backend, \<lambda>_. None, {#}) (b1, f1, {#Handshake pending None#})"
    "pu_generation pending = be_generation b1" "be_generation b1 = 1" "demo_plain b1"
proof -
  from demo_plain_up [OF demo_backend_plain] obtain pending b1 f1 where
    u: "begin_up_gated demo_env up_default None demo_backend (\<lambda>_. None) = (Inr pending, b1, f1)" and "demo_plain b1"
    by blast
  moreover have "superseded demo_backend b1" "pu_generation pending = be_generation b1"
    by (rule begin_up_effect [OF u]; simp)+
  moreover have "policy_auth_key demo_env demo_backend = None"
    by (simp add: policy_auth_key_def auth_key_in_def configured_auth_key_def demo_env_def)
  ultimately show ?thesis using daemon_step.up [OF u, of "{#}" None] that [of b1 f1 pending]
    by (simp add: started_def up_authkey_def superseded_def demo_backend_def)
qed

theorem daemon_refines_lifecycle_witness:
  "\<exists>l. lc_step\<^sup>*\<^sup>* (lc_of (demo_backend, \<lambda>_. None, {#})) l \<and> lc_pending l = {#1#} \<and> lc_generation l = 1"
proof -
  obtain pending b1 f1 where "daemon_step (demo_backend, \<lambda>_. None, {#}) (b1, f1, {#Handshake pending None#})"
    "pu_generation pending = be_generation b1" "be_generation b1 = 1" by (rule demo_in_flight)
  with daemon_refines_lifecycle [OF r_into_rtranclp, OF this(1)] show ?thesis
    by (intro exI [of _ "lc_of (b1, f1, {#Handshake pending None#})"]) simp
qed

theorem reachable_invariant_witness:
  "\<exists>b f pending. reachable (b, f, {#Handshake pending None#}) \<and> pu_generation pending \<le> be_generation b \<and>
     be_tasks b = [] \<and> be_device b = None"
proof -
  obtain pending b1 f1 where d: "daemon_step (demo_backend, \<lambda>_. None, {#}) (b1, f1, {#Handshake pending None#})"
    "pu_generation pending = be_generation b1" by (rule demo_in_flight)
  have r: "reachable (b1, f1, {#Handshake pending None#})" by (rule reachable_step [OF demo_reachable d(1)])
  from reachable_invariant [OF r] r d(2) show ?thesis by (intro exI [of _ b1] exI [of _ f1] exI [of _ pending]) auto
qed

theorem superseded_never_installs_witness:
  "\<exists>b f pending dev r b' f'. reachable (b, f, {#Handshake pending None#}) \<and>
     settle_up demo_env pending (Inr dev) b f = (r, b', f') \<and> b' = b \<and> r = Inr (Some dev)"
proof -
  obtain pending b1 f1 where d: "daemon_step (demo_backend, \<lambda>_. None, {#}) (b1, f1, {#Handshake pending None#})"
    "demo_plain b1" by (rule demo_in_flight)
  have r: "reachable (b1, f1, {#Handshake pending None#})" by (rule reachable_step [OF demo_reachable d(1)])
  from demo_plain_down [OF d(2), of f1] obtain b2 f2 where
    dn: "down demo_env (Operator None) b1 f1 = (Inr (), b2, f2)" by blast
  then have st: "daemon_step (b1, f1, {#Handshake pending None#}) (b2, f2, {#Handshake pending None#})"
    by (rule daemon_step.down)
  have "check_disconnect demo_env (Operator None) b1 f1 = Inr None"
    by (simp add: check_disconnect_def check_disconnect_policy_def decide_def boolean_setting_def
        configured_boolean_def demo_env_def Let_def)
  from down_contract_parts(2) [OF dn this] have g: "be_generation b2 \<noteq> be_generation b1" by simp
  let ?dev = "\<lparr>eng_config = pu_config pending, eng_authkey = None, eng_ops = []\<rparr>"
  obtain rr b3 f3 where t: "settle_up demo_env pending (Inr ?dev) b2 f2 = (rr, b3, f3)" by (metis prod_cases3)
  from superseded_never_installs [OF r _ st g rtranclp.rtrancl_refl t, of None] have "b3 = b2 \<and> rr = Inr (Some ?dev)" by simp
  with t reachable_step [OF r st] show ?thesis by blast
qed

end
