(* ===== verification/Races.thy ===== *)
theory Races
  imports Lifecycle
begin

text \<open>
  The orders of sections that the generation counter does not cover (\<open>src/src/ipn/mod.rs\<close>). The
  counter supersedes an attempt when a later command moves it. Three commands act without moving it:
  a reload of the configuration file, a \<open>set\<close>, and a rebuild before its own bring-up begins. Each
  theorem below is an order of sections the lock permits and what it leaves behind; the
  demonstration daemon at the end runs each of them.
\<close>

section \<open>Properties\<close>

text \<open>
  C17. A reload that stops the node does not stop a bring-up in flight: the reload sees no engine, so it
  only persists (its \<open>Enabled: false\<close> included) and leaves the generation alone; the attempt is then
  still current and installs its engine on a node whose recorded intent is the reloaded one.
\<close>

theorem reload_misses_bringup:
  assumes "reload_config env b f = (Inr (Some action), b1, f1)" "be_device b = None"
    "pu_generation pending = be_generation b" "settle_up env pending (Inr dev) b1 f1 = (r, b2, f2)"
  shows "action = ReloadPersistedOnly \<and> r = Inr None \<and> be_device b2 = Some dev \<and>
    want_running (be_prefs b2) = want_running (be_prefs b1)"
proof -
  from reload_config_effect [OF assms(1)] assms(2) have b1: "be_device b1 = None" "be_generation b1 = be_generation b"
    by (simp_all add: edited_def)
  then have "action = ReloadPersistedOnly"
    using assms(1) by (auto simp: reload_config_def split: option.splits sum.splits prod.splits if_splits)
  moreover have "r = Inr None \<and> be_device b2 = Some dev \<and> want_running (be_prefs b2) = want_running (be_prefs b1)"
    using assms(3,4) b1 by (auto simp: settle_up_def finish_up_def be_simps Let_def)
  ultimately show ?thesis by simp
qed

text \<open>
  A \<open>set\<close> during a bring-up does not reach the engine: with no engine yet it only persists, and the
  attempt installs the engine of the config it was started with. A node told to block incoming
  connections while it was coming up reports that it does and runs an engine that does not.
\<close>

theorem set_misses_bringup:
  assumes "begin_set_gated env opts b f = (Inr out, b1, f1)" "be_device b = None" "de_settings env = []"
    "pu_generation pending = be_generation b" "set_shields_up opts = Some v" "cfg_block_incoming (pu_config pending) \<noteq> v"
    "settle_up env pending (build_device True pending authkey) b1 f1 = (r, b2, f2)"
  shows "so_action out = PersistedOnly \<and> shields_up (be_prefs b2) = v \<and>
    (\<exists>dev. be_device b2 = Some dev \<and> cfg_block_incoming (effective dev) \<noteq> v \<and> \<not> in_sync env dev (be_prefs b2))"
proof -
  from begin_set_outcome [OF assms(1)] assms(2) have out: "so_action out = PersistedOnly" by simp
  from assms(1) obtain opts' edit ov where c: "begin_set_checks env opts b = Inr (opts', edit)"
    and p: "be_prefs b1 = policy_prefs (de_settings env) ov (apply_set_overrides opts' (be_prefs b))"
    by (rule begin_set_prefs)
  from c obtain tags where "opts' = opts\<lparr>set_advertise_tags := tags\<rparr>" by (rule begin_set_checks_ok)
  with p assms(3,5) have s: "shields_up (be_prefs b1) = v" by (simp add: apply_set_overrides_def)
  let ?dev = "\<lparr>eng_config = pu_config pending, eng_authkey = authkey, eng_ops = []\<rparr>"
  from begin_set_effect [OF assms(1)] assms(4) have "pu_generation pending = be_generation b1" by (simp add: edited_def)
  with assms(7) have dev: "be_device b2 = Some ?dev" "be_prefs b2 = (be_prefs b1)\<lparr>has_logged_in := True\<rparr>"
    by (auto simp: settle_up_def finish_up_def build_device_def be_simps Let_def)
  have eff: "effective ?dev = pu_config pending" by (simp add: effective_def)
  then have "\<not> in_sync env ?dev (be_prefs b2)" using assms(6) s dev(2) by (auto simp: in_sync_def Let_def)
  with out dev s eff assms(6) show ?thesis by auto
qed

text \<open>
  C9. A rebuild undoes a disconnect that lands between its sections: the \<open>set\<close> that needs a rebuild
  releases the lock before the rebuild's own bring-up begins, and that bring-up records the intent to
  run. A disconnect carried out in the gap succeeds, and the node comes back up.
\<close>

theorem rebuild_undoes_down:
  assumes "begin_set_gated env opts b f = (Inr out, b1, f1)" "so_action out = Rebuild"
    "build_be_config env b1 f1 = (Inr cfg, f2)"
    "down env (Operator reason) b1 f2 = (Inr u, b2, f3)"
    "begin_up_gated env up_default None b2 f3 = (Inr pending, b3, f4)"
    "settle_up env pending (build_device True pending None) b3 f4 = (r, b4, f5)"
  shows "(be_device b2 = None \<and> \<not> want_running (be_prefs b2)) \<and>
    be_device b4 \<noteq> None \<and> wants_running b4 \<and> daemon_step\<^sup>*\<^sup>* (b, f, J) (b4, f5, J)"
proof -
  have s1: "daemon_step (b, f, J) (b1, f1, add_mset RebuildPreflight J)"
    using daemon_step.set [OF assms(1), of J] assms(2) by (simp add: after_set_def)
  have s2: "daemon_step (b1, f1, add_mset RebuildPreflight J) (b1, f2, add_mset RebuildBegin J)"
    using daemon_step.preflight [OF assms(3), of J] by simp
  have s3: "daemon_step (b1, f2, add_mset RebuildBegin J) (b2, f3, add_mset RebuildBegin J)"
    using assms(4) by (rule daemon_step.down)
  have s4: "daemon_step (b2, f3, add_mset RebuildBegin J) (b3, f4, add_mset (Handshake pending None) J)"
    using daemon_step.rebuild [OF assms(5), of J] by (simp add: started_def)
  have s5: "daemon_step (b3, f4, add_mset (Handshake pending None) J) (b4, f5, J)"
    using assms(6) by (rule daemon_step.settle)
  from s1 s2 s3 s4 s5 have "daemon_step\<^sup>*\<^sup>* (b, f, J) (b4, f5, J)"
    by (meson converse_rtranclp_into_rtranclp r_into_rtranclp)
  moreover have "wants_running b3" "pu_generation pending = be_generation b3"
    by (rule begin_up_effect [OF assms(5)]; simp)+
  then have "be_device b4 \<noteq> None \<and> wants_running b4"
    using assms(6) by (auto simp: settle_up_def finish_up_def build_device_def wants_running_def be_simps Let_def)
  moreover have "be_device b2 = None \<and> \<not> want_running (be_prefs b2)"
  proof (cases "check_disconnect env (Operator reason) b1 f2")
    case (Inl e)
    then show ?thesis using down_contract_parts(1) [OF assms(4) Inl] by simp
  next
    case (Inr a)
    then show ?thesis using down_contract_parts(2) [OF assms(4) Inr] by simp
  qed
  ultimately show ?thesis by blast
qed

section \<open>The orders at work\<close>

lemma demo_begin_set_plain:
  assumes "begin_set_checks demo_env opts b = Inr (opts, Untouched)" "set_nickname opts = None"
    "be_current_profile b = DEFAULT_PROFILE_ID" "be_device b = None \<or> needs_rebuild opts"
  shows "\<exists>f1. begin_set_gated demo_env opts b f =
    (Inr \<lparr>so_action = (if be_device b = None then PersistedOnly else Rebuild), so_rename_error = None\<rparr>,
     apply_set demo_env opts Untouched b, f1)"
proof -
  let ?b1 = "apply_set demo_env opts Untouched b"
  have "be_current_profile ?b1 = DEFAULT_PROFILE_ID" "be_device ?b1 = be_device b" using assms(3) by (simp_all add: be_simps)
  moreover from this obtain f1 where "persist_prefs demo_env ?b1 f = (Inr (), f1)"
    using demo_persist [of ?b1 f] by (cases "persist_prefs demo_env ?b1 f") auto
  ultimately show ?thesis
    using assms by (auto simp: begin_set_gated_def reconcile_set_def Let_def split: option.splits)
qed

definition shields_set :: set_options where
  "shields_set = set_default\<lparr>set_shields_up := Some True\<rparr>"

lemma shields_set_checks: "begin_set_checks demo_env shields_set (demo_backend\<lparr>be_device := d, be_prefs := default_prefs\<lparr>want_running := w\<rparr>,
    be_generation := g\<rparr>) = Inr (shields_set, Untouched)"
  by (simp add: begin_set_checks_def check_route_set_def prospective_route_set_def demo_simps shields_set_def
      set_default_def validate_advertise_routes_def calc_advertise_routes_spec route_acc_Nil
      composed_routes_def pairing_errors_def complete_tags_def check_exit_node_policy_def check_exit_node_edit_def
      check_named_exit_node_def check_ssh_prefs_gated_def prospective_ssh_def check_auto_update_pref_def
      prospective_auto_update_def Let_def)

theorem set_misses_bringup_witness:
  "\<exists>out b1 f1 b2 f2 dev.
     begin_set_gated demo_env shields_set (demo_backend\<lparr>be_generation := 1\<rparr>) (\<lambda>_. None) = (Inr out, b1, f1) \<and>
     snd (settle_up demo_env \<lparr>pu_config = demo_engine_config\<lparr>cfg_block_incoming := False\<rparr>, pu_generation = 1\<rparr>
       (build_device True \<lparr>pu_config = demo_engine_config\<lparr>cfg_block_incoming := False\<rparr>, pu_generation = 1\<rparr> None) b1 f1) =
       (b2, f2) \<and>
     shields_up (be_prefs b2) \<and> be_device b2 = Some dev \<and> \<not> cfg_block_incoming (effective dev)"
proof -
  let ?b = "demo_backend\<lparr>be_generation := 1\<rparr>"
  let ?pu = "\<lparr>pu_config = demo_engine_config\<lparr>cfg_block_incoming := False\<rparr>, pu_generation = 1\<rparr>"
  have b: "?b = demo_backend\<lparr>be_device := None, be_prefs := default_prefs\<lparr>want_running := False\<rparr>, be_generation := 1\<rparr>"
    by (simp add: demo_backend_def default_prefs_def)
  have c: "begin_set_checks demo_env shields_set ?b = Inr (shields_set, Untouched)"
    unfolding b by (rule shields_set_checks)
  obtain f1 where s: "begin_set_gated demo_env shields_set ?b (\<lambda>_. None) =
    (Inr \<lparr>so_action = PersistedOnly, so_rename_error = None\<rparr>, apply_set demo_env shields_set Untouched ?b, f1)"
    using demo_begin_set_plain [OF c, of "\<lambda>_. None"] by (auto simp: demo_backend_def shields_set_def set_default_def)
  obtain r b2 f2 where t: "settle_up demo_env ?pu (build_device True ?pu None)
      (apply_set demo_env shields_set Untouched ?b) f1 = (r, b2, f2)" by (metis prod_cases3)
  from set_misses_bringup [OF s _ _ _ _ _ t, of True] s t show ?thesis
    by (auto simp: demo_backend_def demo_env_def shields_set_def)
qed

theorem rebuild_undoes_down_witness:
  "\<exists>b1 b2 b4 f1 f3 f5 out. begin_set_gated demo_env shields_set demo_running (\<lambda>_. None) = (Inr out, b1, f1) \<and>
     so_action out = Rebuild \<and> be_device b2 = None \<and> \<not> want_running (be_prefs b2) \<and>
     (\<exists>f2. down demo_env (Operator None) b1 f2 = (Inr (), b2, f3)) \<and> be_device b4 \<noteq> None \<and>
     daemon_step\<^sup>*\<^sup>* (demo_running, \<lambda>_. None, {#}) (b4, f5, {#})"
proof -
  let ?b1 = "apply_set demo_env shields_set Untouched demo_running"
  obtain f1 where s: "begin_set_gated demo_env shields_set demo_running (\<lambda>_. None) =
    (Inr \<lparr>so_action = Rebuild, so_rename_error = None\<rparr>, ?b1, f1)"
    using demo_begin_set_plain [OF shields_set_checks [where d = "Some demo_engine" and w = True and g = 2], of "\<lambda>_. None"]
    by (auto simp: demo_running_def demo_backend_def shields_set_def set_default_def needs_rebuild_def)
  have "demo_plain ?b1"
    by (simp add: demo_plain_def be_simps demo_env_def demo_running_def demo_backend_def default_prefs_def
        apply_set_overrides_def shields_set_def set_default_def)
  then obtain c f2 where c: "build_be_config demo_env ?b1 f1 = (Inr c, f2)" using demo_plain_config by blast
  from demo_plain_down [OF \<open>demo_plain ?b1\<close>, of f2] obtain b2 f3 where
    d: "down demo_env (Operator None) ?b1 f2 = (Inr (), b2, f3)" "demo_plain b2" by blast
  from demo_plain_up [OF d(2), of f3] obtain pending b3 f4 where
    u: "begin_up_gated demo_env up_default None b2 f3 = (Inr pending, b3, f4)" by blast
  obtain r b4 f5 where t: "settle_up demo_env pending (build_device True pending None) b3 f4 = (r, b4, f5)"
    by (metis prod_cases3)
  from rebuild_undoes_down [OF s _ c d(1) u t, of "{#}"] s d(1) show ?thesis by auto
qed

text \<open>A host whose configuration file has just been changed to \<open>Enabled: false\<close>.\<close>

definition reload_env :: daemon_env where
  "reload_env = demo_env\<lparr>de_conf := demo_conf_env\<lparr>read_bytes := (\<lambda>_. Some ''{}''), probe_version := (\<lambda>_. Some ''alpha0''),
     parse_valpha := (\<lambda>_. Some (config_default\<lparr>cv_enabled := Some False\<rparr>))\<rparr>\<rparr>"

lemma persist_prefs_conf: "persist_prefs (env\<lparr>de_conf := c\<rparr>) b f = persist_prefs env b f"
  by (simp add: persist_prefs_def register_current_profile_def load_profiles_def save_profiles_def Let_def
      split: prod.split bool.split)

theorem reload_misses_bringup_witness:
  "\<exists>b1 f1 b2 f2.
     reload_config reload_env (demo_backend\<lparr>be_config_source := Some (File ''c''), be_generation := 1,
       be_prefs := default_prefs\<lparr>want_running := True\<rparr>\<rparr>) (\<lambda>_. None) = (Inr (Some ReloadPersistedOnly), b1, f1) \<and>
     snd (settle_up reload_env \<lparr>pu_config = demo_engine_config, pu_generation = 1\<rparr> (Inr demo_engine) b1 f1) = (b2, f2) \<and>
     be_device b2 = Some demo_engine \<and> \<not> want_running (be_prefs b2)"
proof -
  let ?b = "demo_backend\<lparr>be_config_source := Some (File ''c''), be_generation := 1,
       be_prefs := default_prefs\<lparr>want_running := True\<rparr>\<rparr>"
  let ?b1 = "?b\<lparr>be_prefs := default_prefs, be_ever_configured := True\<rparr>"
  let ?cfg = "\<lparr>conf_version = ''alpha0'', conf_parsed = config_default\<lparr>cv_enabled := Some False\<rparr>\<rparr>"
  let ?pu = "\<lparr>pu_config = demo_engine_config, pu_generation = 1\<rparr>"
  have l: "load_config (de_conf reload_env) (File ''c'') = Inr ?cfg"
    by (simp add: reload_env_def load_config_def)
  have a: "apply_to_prefs_gated (de_conf reload_env) ?cfg None (default_prefs\<lparr>want_running := True\<rparr>) = (Inr None, default_prefs)"
    by (simp add: reload_env_def apply_to_prefs_gated_def check_config_def check_server_url_def check_routes_def
        check_exit_node_def check_auto_update_def config_default_def default_prefs_def demo_conf_env_def
        calc_advertise_routes_spec route_acc_Nil composed_routes_def pairing_errors_def config_auth_key_def
        merge_config_def rbind_def)
  have "demo_plain ?b1" by (simp add: demo_plain_def default_prefs_def demo_backend_def)
  then obtain f1 where p: "persist_prefs reload_env ?b1 (\<lambda>_. None) = (Inr (), f1)"
    using demo_plain_persist [of ?b1 "\<lambda>_. None"] by (auto simp: reload_env_def persist_prefs_conf)
  have e: "de_auto_update_gate reload_env = None" "de_settings reload_env = []"
    by (simp_all add: reload_env_def demo_env_def)
  have r: "reload_config reload_env ?b (\<lambda>_. None) = (Inr (Some ReloadPersistedOnly), ?b1, f1)"
    using l a p e by (simp add: reload_config_def apply_config_def be_simps demo_backend_def Let_def)
  obtain rr b2 f2 where t: "settle_up reload_env ?pu (Inr demo_engine) ?b1 f1 = (rr, b2, f2)" by (metis prod_cases3)
  from reload_misses_bringup [OF r _ _ t] r t show ?thesis by (simp add: demo_backend_def default_prefs_def)
qed

end
