(* ===== verification/Auth.thy ===== *)
theory Auth
  imports LocalApi
begin

text \<open>
  \<open>src/src/auth.rs\<close>: who may do what over the LocalAPI socket. A peer's access follows from its
  uid (root or the daemon's owner may write, everybody may read), each request is classified as a
  read or a write, and \<open>authorize\<close> combines the two.
\<close>

datatype Access = ReadOnly | ReadWrite

definition can_write :: "Access \<Rightarrow> bool" where
  "can_write a = (a = ReadWrite)"

record AuthPolicy =
  owner_euid :: "32 word"

text \<open>\<open>from_current_process\<close>: the argument is what \<open>geteuid()\<close> returned.\<close>

definition from_current_process :: "32 word \<Rightarrow> AuthPolicy" where
  "from_current_process euid = \<lparr>owner_euid = euid\<rparr>"

definition access_for_uid :: "AuthPolicy \<Rightarrow> 32 word \<Rightarrow> Access" where
  "access_for_uid pol peer_uid =
     (if peer_uid = 0 \<or> peer_uid = owner_euid pol then ReadWrite else ReadOnly)"

text \<open>\<open>for_peer\<close>: \<open>None\<close> is a failed \<open>peer_cred()\<close> lookup.\<close>

definition for_peer :: "AuthPolicy \<Rightarrow> 32 word option \<Rightarrow> Access \<times> 32 word option" where
  "for_peer pol cred =
     (case cred of
        Some uid \<Rightarrow> (access_for_uid pol uid, Some uid)
      | None \<Rightarrow> (ReadOnly, None))"

fun requires_write :: "request \<Rightarrow> bool" where
  "requires_write Status = False"
| "requires_write (Watch _ _ _ _ _ _) = False"
| "requires_write Ip = False"
| "requires_write (Whois _ _ _) = False"
| "requires_write (Ping _ _) = False"
| "requires_write Version = False"
| "requires_write GetPrefs = False"
| "requires_write ProfileList = False"
| "requires_write LockStatus = False"
| "requires_write (LockLog _) = False"
| "requires_write DnsStatus = False"
| "requires_write (DnsQuery _ _) = False"
| "requires_write Netcheck = False"
| "requires_write SuggestExitNode = False"
| "requires_write Services = False"
| "requires_write SyspolicyList = False"
| "requires_write SyspolicyReload = False"
| "requires_write CheckIpForwarding = False"
| "requires_write (BugReport _ _) = False"
| "requires_write GetServeConfig = False"
| "requires_write FileList = False"
| "requires_write FileTargets = False"
| "requires_write (Up _) = True"
| "requires_write (Set _) = True"
| "requires_write (Down _) = True"
| "requires_write (Logout _) = True"
| "requires_write (SwitchProfile _) = True"
| "requires_write (CreateProfile _) = True"
| "requires_write SwitchToEmptyProfile = True"
| "requires_write (DeleteProfile _) = True"
| "requires_write (Nc _ _) = True"
| "requires_write (SetServeConfig _) = True"
| "requires_write (FileCp _ _ _) = True"
| "requires_write (FileGet _ _ _) = True"
| "requires_write (FileGetDir _ _) = True"
| "requires_write (IdToken _) = True"
| "requires_write Metrics = True"
| "requires_write (DebugCapture _ _) = True"
| "requires_write DebugRebind = True"
| "requires_write DebugReStun = True"
| "requires_write DebugStateDir = True"
| "requires_write (DebugPortmap _ _ _ _) = True"
| "requires_write ReloadConfig = True"
| "requires_write (Cert _ _) = True"
| "requires_write (LockInit _) = True"
| "requires_write (LockSign _) = True"
| "requires_write (LockDisable _) = True"
| "requires_write Shutdown = True"
| "requires_write (CheckPrefs _ _ _ _ _) = True"

datatype Denied = Denied

definition authorize :: "request \<Rightarrow> Access \<Rightarrow> (Denied, unit) result" where
  "authorize req access = (if requires_write req \<and> \<not> can_write access then Inl Denied else Inr ())"

section \<open>The shutdown ladder (\<open>src/src/server.rs\<close>)\<close>

datatype ShutdownRefusal = AccessDenied | DeniedByPolicy

definition refusal_message :: "ShutdownRefusal \<Rightarrow> string" where
  "refusal_message r = (case r of
       AccessDenied \<Rightarrow> ''shutdown access denied''
     | DeniedByPolicy \<Rightarrow> ''shutdown access denied by policy'')"

definition shutdown_verdict :: "Access \<Rightarrow> bool \<Rightarrow> (ShutdownRefusal, unit) result" where
  "shutdown_verdict access allowed_by_policy =
     (if \<not> is_ok (authorize Shutdown access) then Inl AccessDenied
      else if \<not> allowed_by_policy then Inl DeniedByPolicy
      else Inr ())"

section \<open>Properties\<close>

lemma authorize_ok: "is_ok (authorize req a) \<longleftrightarrow> \<not> requires_write req \<or> can_write a"
  by (simp add: authorize_def)

text \<open>
  The authorisation decision end to end: a connected peer may issue a request exactly when the
  request is a read, or the kernel identified the peer and its uid is 0 or the daemon's own. In
  particular a peer whose credentials could not be read is refused every write.
\<close>

theorem peer_authorized_iff:
  "is_ok (authorize req (fst (for_peer pol cred))) \<longleftrightarrow>
     \<not> requires_write req \<or> (\<exists>uid. cred = Some uid \<and> (uid = 0 \<or> uid = owner_euid pol))"
  by (auto simp: authorize_ok for_peer_def access_for_uid_def can_write_def split: option.splits)

theorem peer_authorized_iff_witness:
  "is_ok (authorize Shutdown (fst (for_peer (from_current_process 501) (Some 501)))) \<and>
   \<not> is_ok (authorize Shutdown (fst (for_peer (from_current_process 501) (Some 502)))) \<and>
   \<not> is_ok (authorize Shutdown (fst (for_peer (from_current_process 501) None)))"
  by (simp add: peer_authorized_iff from_current_process_def)

text \<open>The uid that is logged is the one the decision was made for.\<close>

lemma for_peer_uid: "for_peer pol cred = (a, u) \<Longrightarrow> u = cred \<and> (a = ReadWrite \<longrightarrow> u \<noteq> None)"
  by (auto simp: for_peer_def split: option.splits)

text \<open>
  The shutdown ladder reveals the policy to nobody who may not write: for such a caller the
  verdict is the same whatever the policy says, and a writer is told apart the three cases.
\<close>

theorem shutdown_verdict_noninterference:
  "(\<not> can_write a \<longrightarrow> shutdown_verdict a p = shutdown_verdict a q) \<and>
   (shutdown_verdict a p = Inr () \<longleftrightarrow> can_write a \<and> p) \<and>
   (shutdown_verdict a p = Inl DeniedByPolicy \<longleftrightarrow> can_write a \<and> \<not> p) \<and>
   (shutdown_verdict a p = Inl AccessDenied \<longleftrightarrow> \<not> can_write a)"
  by (simp add: shutdown_verdict_def authorize_ok)

theorem shutdown_verdict_noninterference_witness:
  "shutdown_verdict ReadOnly True = shutdown_verdict ReadOnly False"
  using shutdown_verdict_noninterference [of ReadOnly True False] by (simp add: can_write_def)

end
