(* ===== verification/Server.thy ===== *)
theory Server
  imports Auth Lifecycle
begin

text \<open>
  The dispatch of one LocalAPI request (\<open>src/src/server.rs\<close>). A request that only forwards a question to the
  running engine is answered by the parameter \<open>srv_engine_reply\<close>; what the server decides about it (who may
  ask, and that a node without an engine refuses) is modelled. A command runs uncontended here (the
  interleaving of the sections of several commands is in \<open>Lifecycle\<close>).
\<close>

section \<open>Answers\<close>

record PrefsView =
  pv_hostname :: "string option"
  pv_exit_node :: "string option"
  pv_advertise_exit_node :: bool
  pv_advertise_routes :: "string list"
  pv_advertise_tags :: "string list"
  pv_accept_routes :: bool
  pv_accept_dns :: bool
  pv_shields_up :: bool
  pv_ssh :: bool
  pv_ssh_running :: bool
  pv_tun :: bool
  pv_advertise_connector :: bool
  pv_auto_update :: "bool option"
  pv_update_check :: bool
  pv_operator :: "string option"
  pv_nickname :: "string option"
  pv_report_posture :: bool
  pv_webclient :: bool
  pv_exit_node_allow_lan_access :: bool

text \<open>The SSH task runs while its handle is held and has not finished (\<open>ssh_alive\<close>).\<close>

definition prefs_view :: "bool \<Rightarrow> backend \<Rightarrow> PrefsView" where
  "prefs_view ssh_alive b =
     (let p = be_prefs b in
      \<lparr>pv_hostname = hostname p, pv_exit_node = exit_node p, pv_advertise_exit_node = advertise_exit_node p,
       pv_advertise_routes = advertise_routes p, pv_advertise_tags = advertise_tags p,
       pv_accept_routes = accept_routes p, pv_accept_dns = accept_dns p, pv_shields_up = shields_up p,
       pv_ssh = ssh_enabled p, pv_ssh_running = (SshTask \<in> set (be_tasks b) \<and> ssh_alive), pv_tun = tun_enabled p,
       pv_advertise_connector = advertise_app_connector p, pv_auto_update = auto_update_apply p,
       pv_update_check = auto_update_check p, pv_operator = operator_user p, pv_nickname = node_nickname p,
       pv_report_posture = posture_checking p, pv_webclient = run_web_client p,
       pv_exit_node_allow_lan_access = exit_node_allow_lan_access p\<rparr>)"

text \<open>An exit-node suggestion as computed: it failed, or it has the id of a node, or there is none to suggest.\<close>

datatype suggestion = SuggestionFailed string | Suggestion "string option" bool

definition suggested_exit_node_id :: "suggestion \<Rightarrow> string option" where
  "suggested_exit_node_id r = (case r of Suggestion s _ \<Rightarrow> Some (unwrap_or s []) | SuggestionFailed _ \<Rightarrow> None)"

definition publish_suggested_exit_node :: "suggestion \<Rightarrow> backend \<Rightarrow> bool \<times> backend" where
  "publish_suggested_exit_node response b =
     (case suggested_exit_node_id response of
        None \<Rightarrow> (False, b)
      | Some i \<Rightarrow> if be_suggested_exit_node b = i then (False, b) else (True, b\<lparr>be_suggested_exit_node := i\<rparr>))"

text \<open>Errors carry what the operation failed with; their texts are the formatting of these values.\<close>

datatype reply_error =
    ErrorText string
  | OpError be_error
  | ServeError serve_error
  | CheckError "posture_error list"

datatype response =
    RStatus StatusReport
  | RVersion string
  | RPrefs PrefsView
  | RProfiles "ProfileEntry list"
  | RIp "string option" "string option"
  | ROk string
  | RError reply_error
  | RRevertGuard "RevertedPref list"
  | RReloadConfig bool
  | RServeConfig ServeConfig
  | RStateDir path
  | RIpForwardingCheck string
  | RPolicy "PolicySetting list"
  | RBugReport string "string list"
  | RSuggestion suggestion
  | REngine string

text \<open>What the server is built with and what it asks outside itself; \<open>srv_nc\<close> is the reason a dial fails.\<close>

record server_env =
  srv_daemon :: daemon_env
  srv_serve :: serve_env
  srv_parse :: "string \<Rightarrow> (string, request) result"
  srv_engine_ok :: bool
  srv_wif_built :: bool
  srv_version :: string
  srv_ssh_alive :: bool
  srv_policy_reloaded :: "PolicySetting list"
  srv_forwarding_warning :: "bool \<Rightarrow> string"
  srv_draws :: "nat \<Rightarrow> (nat \<times> nat) option"
  srv_marker_secs :: nat
  srv_marker_seq :: nat
  srv_checks :: "backend \<Rightarrow> string list"
  srv_engine_reply :: "engine \<Rightarrow> request \<Rightarrow> string"
  srv_suggest :: "engine \<Rightarrow> suggestion"
  srv_nc :: "engine \<Rightarrow> string \<Rightarrow> nat \<Rightarrow> string option"
  srv_permit_free :: "nat \<Rightarrow> bool"

definition not_up :: response where
  "not_up = RError (ErrorText ''node is not up'')"

text \<open>A request only the running engine can answer.\<close>

definition ask_engine :: "server_env \<Rightarrow> request \<Rightarrow> backend \<Rightarrow> response" where
  "ask_engine s req b = (case be_device b of Some dev \<Rightarrow> REngine (srv_engine_reply s dev req) | None \<Rightarrow> not_up)"

definition reply_unit :: "string \<Rightarrow> unit be_result \<Rightarrow> response" where
  "reply_unit msg r = (case r of Inr _ \<Rightarrow> ROk msg | Inl e \<Rightarrow> RError (OpError e))"

definition switch_outcome_response :: "SwitchOutcome be_result \<Rightarrow> response" where
  "switch_outcome_response r = (case r of Inr out \<Rightarrow> ROk (report_switch out) | Inl e \<Rightarrow> RError (OpError e))"

text \<open>Control characters of a note, as UTF-8, become underscores.\<close>

fun sanitize_marker_note :: "string \<Rightarrow> string" where
  "sanitize_marker_note [] = []"
| "sanitize_marker_note (c # cs) =
     (if byte c < 32 \<or> byte c = 127 then CHR ''_'' # sanitize_marker_note cs
      else case cs of
        d # r \<Rightarrow> if byte c = 194 \<and> 128 \<le> byte d \<and> byte d < 160 then CHR ''_'' # sanitize_marker_note r
                 else c # sanitize_marker_note cs
      | [] \<Rightarrow> [c])"

definition bool_str :: "bool \<Rightarrow> string" where
  "bool_str x = (if x then ''true'' else ''false'')"

definition bugreport :: "server_env \<Rightarrow> string option \<Rightarrow> bool \<Rightarrow> backend \<Rightarrow> response" where
  "bugreport s note diagnose b =
     RBugReport
       (''BUG-'' @ dec_string (srv_marker_secs s) @ ''-'' @ dec_string (srv_marker_seq s) @ ''-v'' @ srv_version s @
        ''-profile:'' @ be_current_profile b @ ''-want_running:'' @ bool_str (want_running (be_prefs b)) @
        (case note of Some n \<Rightarrow> ''-note:'' @ sanitize_marker_note n | None \<Rightarrow> []))
       (if diagnose then srv_checks s b else [])"

section \<open>Dispatch\<close>

text \<open>
  \<open>up\<close>: the workload-identity flags need a build that has them, a bring-up that would silently revert a
  preference it does not mention is answered with the list of them (unless it resets), and a running node
  changes its control server only with a fresh login.
\<close>

definition dispatch_up :: "server_env \<Rightarrow> up_request \<Rightarrow> backend \<Rightarrow> fs \<Rightarrow> response \<times> backend \<times> fs" where
  "dispatch_up s u b f =
     (let env = srv_daemon s;
          wif = wif_from_wire (rq_client_id u) (rq_client_secret u) (rq_id_token u) (rq_audience u);
          opts = up_options.truncate u
      in if wif \<noteq> None \<and> \<not> srv_wif_built s then (RError (ErrorText ''workload-identity flags require a build that has the feature''), b, f)
         else let reverts = (if up_reset u then [] else up_revert_guard env opts b) in
           if reverts \<noteq> [] then (RRevertGuard reverts, b, f)
           else if up_control_url_guard env opts b then
             (RError (ErrorText ''can't change --login-server without --force-reauth''), b, f)
           else case drive_up env (srv_engine_ok s) (rq_authkey u) wif opts b f of
             (r, b', f') \<Rightarrow> (reply_unit ''node brought up'' r, b', f'))"

definition dispatch_set :: "server_env \<Rightarrow> set_options \<Rightarrow> backend \<Rightarrow> fs \<Rightarrow> response \<times> backend \<times> fs" where
  "dispatch_set s opts b f =
     (if set_is_empty opts then (RError (ErrorText ''set: no preferences specified''), b, f)
      else case drive_set (srv_daemon s) (srv_engine_ok s) opts b f of
        (r, b', f') \<Rightarrow> (reply_unit ''preferences updated'' r, b', f'))"

fun handle :: "server_env \<Rightarrow> request \<Rightarrow> backend \<Rightarrow> fs \<Rightarrow> response \<times> backend \<times> fs" where
  "handle s Status b f = (RStatus (status (srv_daemon s) b), b, f)"
| "handle s (Watch _ _ _ _ _ _) b f = (RStatus (status (srv_daemon s) b), b, f)"
| "handle s (Nc _ _) b f = (RError (ErrorText ''internal error: nc must be handled by the connection splicer''), b, f)"
| "handle s (DebugPortmap _ _ _ _) b f =
     (RError (ErrorText ''internal error: debug portmap must be handled by the log streamer''), b, f)"
| "handle s Shutdown b f =
     (RError (ErrorText ''internal error: shutdown must be handled by the connection loop''), b, f)"
| "handle s Version b f = (RVersion (srv_version s), b, f)"
| "handle s GetPrefs b f = (RPrefs (prefs_view (srv_ssh_alive s) b), b, f)"
| "handle s ProfileList b f = (RProfiles (list_profiles (srv_daemon s) b f), b, f)"
| "handle s SuggestExitNode b f =
     (case be_device b of
        None \<Rightarrow> (not_up, b, f)
      | Some dev \<Rightarrow> (RSuggestion (srv_suggest s dev), snd (publish_suggested_exit_node (srv_suggest s dev) b), f))"
| "handle s DebugStateDir b f = (RStateDir (be_state_dir b), b, f)"
| "handle s ReloadConfig b f =
     (case drive_reload_config (srv_daemon s) (srv_engine_ok s) b f of
        (Inr (Some _), b', f') \<Rightarrow> (RReloadConfig True, b', f')
      | (Inr None, b', f') \<Rightarrow> (RReloadConfig False, b', f')
      | (Inl e, b', f') \<Rightarrow> (RError (OpError e), b', f'))"
| "handle s SyspolicyList b f = (RPolicy (de_settings (srv_daemon s)), b, f)"
| "handle s SyspolicyReload b f = (RPolicy (srv_policy_reloaded s), b, f)"
| "handle s CheckIpForwarding b f = (RIpForwardingCheck (srv_forwarding_warning s (tun_enabled (be_prefs b))), b, f)"
| "handle s (CheckPrefs en ae routes ssh au) b f =
     (case check_prefs (srv_daemon s) en ae routes ssh au b of
        Inr _ \<Rightarrow> (ROk ''prefs are valid'', b, f)
      | Inl e \<Rightarrow> (RError (CheckError e), b, f))"
| "handle s (BugReport note diagnose) b f = (bugreport s note diagnose b, b, f)"
| "handle s GetServeConfig b f = (RServeConfig (serve_config (srv_daemon s) (srv_serve s) b f), b, f)"
| "handle s (SetServeConfig cfg) b f =
     (case set_serve_config (srv_daemon s) (srv_serve s) cfg b f of
        (Inr _, b', f') \<Rightarrow> (ROk ''serve config updated'', b', f')
      | (Inl e, b', f') \<Rightarrow> (RError (ServeError e), b', f'))"
| "handle s (SwitchProfile target) b f =
     (case switch_profile (srv_daemon s) target b f of (r, b', f') \<Rightarrow> (switch_outcome_response r, b', f'))"
| "handle s (CreateProfile pid) b f =
     (case create_profile (srv_daemon s) pid b f of (r, b', f') \<Rightarrow> (switch_outcome_response r, b', f'))"
| "handle s SwitchToEmptyProfile b f =
     (case switch_to_empty_profile_drawing (srv_daemon s) (srv_draws s) b f of
        (r, b', f') \<Rightarrow> (switch_outcome_response r, b', f'))"
| "handle s (DeleteProfile target) b f =
     (case delete_profile (srv_daemon s) target b f of
        (Inr out, f') \<Rightarrow> (ROk (report_delete out), b, f')
      | (Inl e, f') \<Rightarrow> (RError (OpError e), b, f'))"
| "handle s (Logout reason) b f =
     (case logout (srv_daemon s) (Operator reason) b f of (r, b', f') \<Rightarrow> (reply_unit ''node logged out'' r, b', f'))"
| "handle s (Down reason) b f =
     (case down (srv_daemon s) (Operator reason) b f of (r, b', f') \<Rightarrow> (reply_unit ''node brought down'' r, b', f'))"
| "handle s Ip b f =
     (case be_device b of Some dev \<Rightarrow> (REngine (srv_engine_reply s dev Ip), b, f) | None \<Rightarrow> (RIp None None, b, f))"
| "handle s (Up u) b f = dispatch_up s u b f"
| "handle s (Set opts) b f = dispatch_set s opts b f"
| "handle s Metrics b f = (ask_engine s Metrics b, b, f)"
| "handle s LockStatus b f = (ask_engine s LockStatus b, b, f)"
| "handle s (LockLog limit) b f = (ask_engine s (LockLog limit) b, b, f)"
| "handle s (LockInit secret) b f = (ask_engine s (LockInit secret) b, b, f)"
| "handle s (LockSign key) b f = (ask_engine s (LockSign key) b, b, f)"
| "handle s (LockDisable secret) b f = (ask_engine s (LockDisable secret) b, b, f)"
| "handle s DnsStatus b f = (ask_engine s DnsStatus b, b, f)"
| "handle s (DnsQuery name qtype) b f = (ask_engine s (DnsQuery name qtype) b, b, f)"
| "handle s Netcheck b f = (ask_engine s Netcheck b, b, f)"
| "handle s DebugRebind b f = (ask_engine s DebugRebind b, b, f)"
| "handle s DebugReStun b f = (ask_engine s DebugReStun b, b, f)"
| "handle s Services b f = (ask_engine s Services b, b, f)"
| "handle s (Cert domain validity) b f = (ask_engine s (Cert domain validity) b, b, f)"
| "handle s (Whois ip port proto) b f = (ask_engine s (Whois ip port proto) b, b, f)"
| "handle s (IdToken audience) b f = (ask_engine s (IdToken audience) b, b, f)"
| "handle s (Ping ip timeout) b f = (ask_engine s (Ping ip timeout) b, b, f)"
| "handle s (DebugCapture p secs) b f = (ask_engine s (DebugCapture p (Some (unwrap_or secs 10))) b, b, f)"
| "handle s (FileCp p peer name) b f = (ask_engine s (FileCp p peer name) b, b, f)"
| "handle s FileList b f = (ask_engine s FileList b, b, f)"
| "handle s FileTargets b f = (ask_engine s FileTargets b, b, f)"
| "handle s (FileGet name dest delete) b f = (ask_engine s (FileGet name dest delete) b, b, f)"
| "handle s (FileGetDir dir conflict) b f = (ask_engine s (FileGetDir dir conflict) b, b, f)"

definition dispatch :: "server_env \<Rightarrow> Access \<Rightarrow> request \<Rightarrow> backend \<Rightarrow> fs \<Rightarrow> response \<times> backend \<times> fs" where
  "dispatch s access req b f =
     (if \<not> is_ok (authorize req access) then
        (RError (ErrorText ''permission denied: writing (up/down) requires root or the same user that owns the daemon''), b, f)
      else handle s req b f)"

section \<open>Bring-up\<close>

text \<open>A bring-up that nobody interferes with and that succeeds has installed an engine.\<close>

lemma drive_up_ok:
  assumes "drive_up env engine_ok k wif opts b f = (Inr u, b', f')"
  shows "wants_running b' \<and> be_device b' \<noteq> None \<and> engine_ok"
proof -
  let ?k = "up_authkey env k b"
  obtain r b1 f1 where bg: "begin_up_gated env opts wif b f = (r, b1, f1)" by (metis prod_cases3)
  from assms bg obtain pending where r: "r = Inr pending"
    by (cases r) (auto simp: drive_up_def finish_handshake_def)
  obtain rs b2 f2 where st: "settle_up env pending (build_device engine_ok pending ?k) b1 f1 = (rs, b2, f2)"
    by (metis prod_cases3)
  with assms bg r have ok: "settle_result rs = Inr ()" "b2 = b'"
    by (auto simp: drive_up_def finish_handshake_def)
  from bg r have b1: "pu_generation pending = be_generation b1" "wants_running b1"
    by (auto elim: begin_up_effect)
  have "engine_ok"
  proof (rule ccontr)
    assume "\<not> engine_ok"
    with st b1(1) ok(1) show False
      by (auto simp: settle_up_def finish_up_def build_device_def settle_result_def)
  qed
  moreover with st b1 have "be_device b2 \<noteq> None" "wants_running b2"
    by (auto simp: settle_up_def finish_up_def build_device_def be_simps Let_def wants_running_def)
  ultimately show ?thesis using ok(2) by simp
qed

text \<open>
  The answer of \<open>up\<close> says what happened. A refusal by a guard (missing feature, a preference that would be
  reverted, a control server that would change) leaves the node exactly as it was, and the list of
  reverted preferences is only sent when the request did not ask for a reset. A success means that no guard
  stood in the way, the node is meant to be up and an engine is installed.
\<close>

theorem dispatch_up_contract:
  assumes "dispatch_up s u b f = (resp, b', f')"
  shows "(\<forall>reverts. resp = RRevertGuard reverts \<longrightarrow>
            b' = b \<and> f' = f \<and> reverts \<noteq> [] \<and> \<not> up_reset u \<and>
            reverts = up_revert_guard (srv_daemon s) (up_options.truncate u) b) \<and>
         (\<forall>text. resp = RError (ErrorText text) \<longrightarrow> b' = b \<and> f' = f) \<and>
         (\<forall>msg. resp = ROk msg \<longrightarrow>
            (up_reset u \<or> up_revert_guard (srv_daemon s) (up_options.truncate u) b = []) \<and>
            \<not> up_control_url_guard (srv_daemon s) (up_options.truncate u) b \<and>
            wants_running b' \<and> be_device b' \<noteq> None)"
proof -
  let ?opts = "up_options.truncate u"
  let ?wif = "wif_from_wire (rq_client_id u) (rq_client_secret u) (rq_id_token u) (rq_audience u)"
  let ?reverts = "if up_reset u then [] else up_revert_guard (srv_daemon s) ?opts b"
  consider (wif) "?wif \<noteq> None \<and> \<not> srv_wif_built s" | (reverts) "\<not> (?wif \<noteq> None \<and> \<not> srv_wif_built s)" "?reverts \<noteq> []"
    | (url) "\<not> (?wif \<noteq> None \<and> \<not> srv_wif_built s)" "?reverts = []" "up_control_url_guard (srv_daemon s) ?opts b"
    | (run) "\<not> (?wif \<noteq> None \<and> \<not> srv_wif_built s)" "?reverts = []" "\<not> up_control_url_guard (srv_daemon s) ?opts b"
    by blast
  then show ?thesis
  proof cases
    case wif
    with assms show ?thesis by (auto simp: dispatch_up_def Let_def)
  next
    case reverts
    have "dispatch_up s u b f = (RRevertGuard ?reverts, b, f)"
      unfolding dispatch_up_def Let_def by (simp only: reverts if_False if_True not_False_eq_True)
    with assms reverts(2) show ?thesis by (auto split: if_splits)
  next
    case url
    have "dispatch_up s u b f = (RError (ErrorText ''can't change --login-server without --force-reauth''), b, f)"
      unfolding dispatch_up_def Let_def by (simp only: url if_False if_True simp_thms)
    with assms show ?thesis by auto
  next
    case run
    obtain r b1 f1 where d: "drive_up (srv_daemon s) (srv_engine_ok s) (rq_authkey u) ?wif ?opts b f = (r, b1, f1)"
      by (metis prod_cases3)
    have "dispatch_up s u b f = (reply_unit ''node brought up'' r, b1, f1)"
      unfolding dispatch_up_def Let_def by (simp only: run d if_False if_True simp_thms prod.case)
    with assms have "resp = reply_unit ''node brought up'' r" "b' = b1" by simp_all
    with d run(2,3) drive_up_ok show ?thesis by (cases r) (auto simp: reply_unit_def split: if_splits)
  qed
qed

text \<open>A demonstration server around the demonstration daemon; one request text is known to its parser.\<close>

definition demo_server :: server_env where
  "demo_server =
     \<lparr>srv_daemon = demo_env\<lparr>de_settings := [\<lparr>ps_key = PKEY_ALLOW_TAILSCALED_RESTART, ps_origin = ''Device'',
        ps_value = Some ''true'', ps_error = None\<rparr>]\<rparr>,
      srv_serve = demo_sv, srv_parse = (\<lambda>t. if t = ''stop'' then Inr Shutdown else if t = ''down'' then Inr (Down None) else Inl ''syntax''),
      srv_engine_ok = True, srv_wif_built = False, srv_version = ''1'', srv_ssh_alive = False, srv_policy_reloaded = [],
      srv_forwarding_warning = (\<lambda>_. []), srv_draws = (\<lambda>_. None), srv_marker_secs = 0, srv_marker_seq = 0,
      srv_checks = (\<lambda>_. []), srv_engine_reply = (\<lambda>_ _. []), srv_suggest = (\<lambda>_. Suggestion None False),
      srv_nc = (\<lambda>_ _ _. None), srv_permit_free = (\<lambda>_. True)\<rparr>"

definition demo_up :: up_request where
  "demo_up = up_options.extend up_default
     \<lparr>rq_authkey = None, rq_client_id = None, rq_client_secret = None, rq_id_token = None, rq_audience = None\<rparr>"

lemma demo_drive_up:
  "\<exists>b' f'. drive_up demo_env True None None up_default demo_backend (\<lambda>_. None) = (Inr (), b', f')"
proof -
  from demo_plain_up [OF demo_backend_plain] obtain pending b1 f1 where
    u: "begin_up_gated demo_env up_default None demo_backend (\<lambda>_. None) = (Inr pending, b1, f1)" by blast
  then have g: "pu_generation pending = be_generation b1" by (auto elim: begin_up_effect)
  obtain rs b2 f2 where st: "settle_up demo_env pending (build_device True pending (up_authkey demo_env None demo_backend)) b1 f1 = (rs, b2, f2)"
    by (metis prod_cases3)
  with g have "rs = Inr None"
    by (auto simp: settle_up_def finish_up_def build_device_def be_simps Let_def)
  with u st show ?thesis by (simp add: drive_up_def finish_handshake_def settle_result_def)
qed

theorem dispatch_up_contract_witness:
  "\<exists>b' f'. dispatch_up (demo_server\<lparr>srv_daemon := demo_env\<rparr>) demo_up demo_backend (\<lambda>_. None) =
             (ROk ''node brought up'', b', f') \<and> wants_running b' \<and> be_device b' \<noteq> None"
proof -
  let ?s = "demo_server\<lparr>srv_daemon := demo_env\<rparr>"
  from demo_drive_up obtain b1 f1 where up: "drive_up demo_env True None None up_default demo_backend (\<lambda>_. None) = (Inr (), b1, f1)"
    by blast
  have rev: "up_revert_guard demo_env up_default demo_backend = []"
    by (simp add: up_revert_guard_def check_accidental_reverts_def demo_backend_def default_prefs_def drop_policy_pinned_def)
  have url: "\<not> up_control_url_guard demo_env up_default demo_backend"
    by (simp add: up_control_url_guard_def change_blocked_def up_default_def)
  have trunc: "up_options.truncate demo_up = up_default"
    by (simp add: demo_up_def up_options.defs up_default_def)
  have d: "dispatch_up ?s demo_up demo_backend (\<lambda>_. None) = (ROk ''node brought up'', b1, f1)"
    using up rev url
    by (simp add: dispatch_up_def trunc Let_def demo_server_def reply_unit_def wif_from_wire_def)
       (simp add: demo_up_def up_options.defs)
  from dispatch_up_contract [OF d] d show ?thesis by blast
qed

end
