(* ===== verification/Utf8.thy ===== *)
theory Utf8
  imports StdNet
begin

text \<open>
  The parts of \<open>str\<close> that read a byte string as UTF-8: validity, Unicode white space, trimming, splitting
  into lines and words, and unsigned numbers in a radix (\<open>from_str_radix\<close>).
\<close>

section \<open>Validity and blank text\<close>

text \<open>\<open>std::str::from_utf8\<close> succeeds: the byte sequence is well-formed UTF-8.\<close>

definition utf8_cont :: "char \<Rightarrow> bool" where
  "utf8_cont c \<longleftrightarrow> 128 \<le> byte c \<and> byte c \<le> 191"

definition utf8_second :: "nat \<Rightarrow> char \<Rightarrow> bool" where
  "utf8_second lead c \<longleftrightarrow> utf8_cont c \<and> (lead = 224 \<longrightarrow> 160 \<le> byte c) \<and> (lead = 237 \<longrightarrow> byte c \<le> 159) \<and>
     (lead = 240 \<longrightarrow> 144 \<le> byte c) \<and> (lead = 244 \<longrightarrow> byte c \<le> 143)"

fun valid_utf8 :: "string \<Rightarrow> bool" where
  "valid_utf8 [] = True"
| "valid_utf8 (c # cs) =
     (if byte c < 128 then valid_utf8 cs
      else if 194 \<le> byte c \<and> byte c \<le> 223 then (case cs of d # r \<Rightarrow> utf8_cont d \<and> valid_utf8 r | _ \<Rightarrow> False)
      else if 224 \<le> byte c \<and> byte c \<le> 239 then
        (case cs of d # e # r \<Rightarrow> utf8_second (byte c) d \<and> utf8_cont e \<and> valid_utf8 r | _ \<Rightarrow> False)
      else if 240 \<le> byte c \<and> byte c \<le> 244 then
        (case cs of d # e # g # r \<Rightarrow> utf8_second (byte c) d \<and> utf8_cont e \<and> utf8_cont g \<and> valid_utf8 r | _ \<Rightarrow> False)
      else False)"

text \<open>\<open>text.trim().is_empty()\<close>: only Unicode white space.\<close>

definition wide_space :: "char \<Rightarrow> char \<Rightarrow> char \<Rightarrow> bool" where
  "wide_space c d e \<longleftrightarrow>
     byte c = 225 \<and> byte d = 154 \<and> byte e = 128 \<or>
     byte c = 226 \<and> byte d = 128 \<and> (128 \<le> byte e \<and> byte e \<le> 138 \<or> byte e = 168 \<or> byte e = 169 \<or> byte e = 175) \<or>
     byte c = 226 \<and> byte d = 129 \<and> byte e = 159 \<or>
     byte c = 227 \<and> byte d = 128 \<and> byte e = 128"

fun is_blank :: "string \<Rightarrow> bool" where
  "is_blank [] = True"
| "is_blank (c # cs) =
     (if is_ascii_ws c then is_blank cs
      else case cs of
        d # r \<Rightarrow>
          (if byte c = 194 \<and> (byte d = 133 \<or> byte d = 160) then is_blank r
           else case r of e # r' \<Rightarrow> wide_space c d e \<and> is_blank r' | [] \<Rightarrow> False)
      | [] \<Rightarrow> False)"

section \<open>White space\<close>

text \<open>The length of the white-space character a string starts with, and of the one it ends with; 0 if there is none.\<close>

definition ws_len :: "string \<Rightarrow> nat" where
  "ws_len s = (case s of [] \<Rightarrow> 0 | c # cs \<Rightarrow>
     if is_ascii_ws c then 1
     else case cs of [] \<Rightarrow> 0 | d # r \<Rightarrow>
       if byte c = 194 \<and> (byte d = 133 \<or> byte d = 160) then 2
       else case r of [] \<Rightarrow> 0 | e # _ \<Rightarrow> if wide_space c d e then 3 else 0)"

definition ws_tail :: "string \<Rightarrow> nat" where
  "ws_tail s = (case rev s of [] \<Rightarrow> 0 | c # cs \<Rightarrow>
     if is_ascii_ws c then 1
     else case cs of [] \<Rightarrow> 0 | d # r \<Rightarrow>
       if byte d = 194 \<and> (byte c = 133 \<or> byte c = 160) then 2
       else case r of [] \<Rightarrow> 0 | e # _ \<Rightarrow> if wide_space e d c then 3 else 0)"

lemma ws_len_le: "ws_len s \<le> length s"
  by (auto simp: ws_len_def split: list.split)

lemma ws_tail_le: "ws_tail s \<le> length s"
proof -
  have "ws_tail s \<le> length (rev s)" by (auto simp: ws_tail_def split: list.split)
  then show ?thesis by simp
qed

lemma ws_shrinks:
  "0 < ws_len s \<Longrightarrow> length s - ws_len s < length s"
  "0 < ws_tail s \<Longrightarrow> length s - ws_tail s < length s"
  using ws_len_le [of s] ws_tail_le [of s] by linarith+

function trim_start :: "string \<Rightarrow> string" where
  "trim_start s = (if ws_len s = 0 then s else trim_start (drop (ws_len s) s))"
  by pat_completeness auto
termination by (relation "measure length") (auto simp: ws_shrinks)

declare trim_start.simps [simp del]

function trim_end :: "string \<Rightarrow> string" where
  "trim_end s = (if ws_tail s = 0 then s else trim_end (take (length s - ws_tail s) s))"
  by pat_completeness auto
termination by (relation "measure length") (auto simp: ws_shrinks)

declare trim_end.simps [simp del]

text \<open>\<open>str::trim\<close>.\<close>

definition utrim :: "string \<Rightarrow> string" where
  "utrim s = trim_end (trim_start s)"

lemma trim_start_length: "length (trim_start s) \<le> length s"
proof (induction s rule: trim_start.induct)
  case (1 s)
  then show ?case by (cases "ws_len s = 0") (subst trim_start.simps, force)+
qed

lemma trim_start_no_ws: "ws_len (trim_start s) = 0"
  by (induction s rule: trim_start.induct) (subst trim_start.simps, simp)

section \<open>Words and lines\<close>

fun take_word :: "string \<Rightarrow> string \<times> string" where
  "take_word [] = ([], [])"
| "take_word (c # cs) =
     (if 0 < ws_len (c # cs) then ([], c # cs) else case take_word cs of (w, r) \<Rightarrow> (c # w, r))"

lemma take_word_length: "length (snd (take_word s)) \<le> length s"
  by (induction s) (auto split: prod.split)

text \<open>\<open>str::split_whitespace\<close>.\<close>

function split_whitespace :: "string \<Rightarrow> string list" where
  "split_whitespace s =
     (let t = trim_start s in
      if t = [] then [] else case take_word t of (w, r) \<Rightarrow> w # split_whitespace r)"
  by pat_completeness auto
termination
proof (relation "measure length")
  fix s t w r assume t: "t = trim_start s" "t \<noteq> []" and r: "(w, r) = take_word t"
  obtain c cs where c: "t = c # cs" using t(2) by (meson neq_Nil_conv)
  have "ws_len (c # cs) = 0" using trim_start_no_ws [of s] t(1) c by simp
  with r c have "r = snd (take_word cs)" by (simp split: prod.splits)
  with c have "length r < length t" using take_word_length [of cs] by simp
  with t(1) trim_start_length [of s] show "(r, s) \<in> measure length" by simp
qed simp

declare split_whitespace.simps [simp del]

definition LF :: char where "LF = CHR 0x0A"
definition CR :: char where "CR = CHR 0x0D"

text \<open>\<open>str::lines\<close>: a carriage return is dropped only before a line feed.\<close>

definition drop_cr :: "string \<Rightarrow> string" where
  "drop_cr l = (if l \<noteq> [] \<and> last l = CR then butlast l else l)"

definition str_lines :: "string \<Rightarrow> string list" where
  "str_lines s = (let ls = split_on LF s in map drop_cr (butlast ls) @ (if last ls = [] then [] else [last ls]))"

section \<open>Numbers\<close>

text \<open>\<open>uN::from_str_radix\<close>: an optional plus, then at least one digit, within the width.\<close>

fun radix_val :: "nat \<Rightarrow> nat \<Rightarrow> nat \<Rightarrow> string \<Rightarrow> nat option" where
  "radix_val radix limit acc [] = Some acc"
| "radix_val radix limit acc (c # cs) =
     (case to_digit radix c of
        None \<Rightarrow> None
      | Some d \<Rightarrow> let v = acc * radix + d in if v < limit then radix_val radix limit v cs else None)"

definition from_str_radix :: "nat \<Rightarrow> nat \<Rightarrow> string \<Rightarrow> nat option" where
  "from_str_radix radix limit s =
     (let ds = (case s of c # cs \<Rightarrow> if c = CHR ''+'' then cs else s | [] \<Rightarrow> [])
      in if ds = [] then None else radix_val radix limit 0 ds)"

end
