(* ===== verification/Framing.thy ===== *)
theory Framing
  imports Utf8
begin

text \<open>
  How a LocalAPI connection (\<open>src/src/server.rs\<close>) is cut into lines: \<open>read_capped_line\<close> over a buffered reader,
  the UTF-8 check and the blank-line check. Shown: the result depends on the bytes sent and not on how the
  socket delivers them, and memory is bounded.
\<close>

section \<open>Framing\<close>

definition MAX_LINE_BYTES :: nat where
  "MAX_LINE_BYTES = 64 * 1024"

text \<open>
  A buffered reader: what is buffered and the chunks the socket will still deliver. An empty chunk, or no
  chunk at all, is the end of the stream.
\<close>

record reader =
  rd_buf :: string
  rd_rest :: "string list"

definition fill_buf :: "reader \<Rightarrow> reader" where
  "fill_buf r = (if rd_buf r \<noteq> [] then r
     else case rd_rest r of [] \<Rightarrow> r | c # cs \<Rightarrow> \<lparr>rd_buf = c, rd_rest = cs\<rparr>)"

definition reader_bytes :: "reader \<Rightarrow> nat" where
  "reader_bytes r = length (rd_buf r) + sum_list (map length (rd_rest r))"

lemma fill_buf_bytes: "reader_bytes (fill_buf r) = reader_bytes r"
  by (simp add: fill_buf_def reader_bytes_def split: list.split)

datatype LineResult = Line | Eof | TooLong

definition newline :: char where
  "newline = CHR 0x0A"

text \<open>The first part of a chunk up to its first newline; the whole chunk when it has none.\<close>

definition line_part :: "string \<Rightarrow> string" where
  "line_part s = takeWhile (\<lambda>c. c \<noteq> newline) s"

function read_loop :: "string \<Rightarrow> reader \<Rightarrow> LineResult \<times> string \<times> reader" where
  "read_loop out r =
     (let r1 = fill_buf r; buf = rd_buf r1; p = line_part buf in
      if buf = [] then (Eof, out, r1)
      else if newline \<in> set buf then
        (if MAX_LINE_BYTES < length out + length p then (TooLong, out, r1)
         else (Line, out @ p, r1\<lparr>rd_buf := drop (length p + 1) buf\<rparr>))
      else if MAX_LINE_BYTES < length out + length buf then (TooLong, out, r1)
      else read_loop (out @ buf) (r1\<lparr>rd_buf := []\<rparr>))"
  by pat_completeness auto
termination
proof (relation "measure (reader_bytes \<circ> snd)")
  fix out r r1 buf p
  assume "r1 = fill_buf r" "buf = rd_buf r1" "buf \<noteq> ([] :: string)"
  then show "((out @ buf, r1\<lparr>rd_buf := []\<rparr>), out, r) \<in> measure (reader_bytes \<circ> snd)"
    using fill_buf_bytes [of r] by (simp add: reader_bytes_def flip: length_greater_0_conv)
qed simp

declare read_loop.simps [simp del]

definition read_capped_line :: "reader \<Rightarrow> LineResult \<times> string \<times> reader" where
  "read_capped_line r = read_loop [] r"

lemma read_loop_bytes: "read_loop out r = (Line, line, r') \<Longrightarrow> reader_bytes r' < reader_bytes r"
proof (induction out r rule: read_loop.induct)
  case (1 out r)
  let ?r = "fill_buf r"
  show ?case
  proof (cases "rd_buf ?r = [] \<or> newline \<in> set (rd_buf ?r)")
    case True
    with 1(2) have "r' = ?r\<lparr>rd_buf := drop (length (line_part (rd_buf ?r)) + 1) (rd_buf ?r)\<rparr>" "rd_buf ?r \<noteq> []"
      by (auto simp: read_loop.simps [of out r] Let_def split: if_splits)
    then show ?thesis
      using fill_buf_bytes [of r] by (simp add: reader_bytes_def flip: length_greater_0_conv)
  next
    case False
    with 1(2) have "read_loop (out @ rd_buf ?r) (?r\<lparr>rd_buf := []\<rparr>) = (Line, line, r')" "\<not> MAX_LINE_BYTES < length out + length (rd_buf ?r)"
      by (auto simp: read_loop.simps [of out r] Let_def split: if_splits)
    with 1(1) [OF refl refl refl] False have "reader_bytes r' < reader_bytes (?r\<lparr>rd_buf := []\<rparr>)" by auto
    also have "\<dots> \<le> reader_bytes ?r" by (simp add: reader_bytes_def)
    finally show ?thesis by (simp add: fill_buf_bytes)
  qed
qed

section \<open>Framing does not depend on how the bytes arrive\<close>

definition flat :: "reader \<Rightarrow> string" where
  "flat r = rd_buf r @ concat (rd_rest r)"

definition reader_wf :: "reader \<Rightarrow> bool" where
  "reader_wf r \<longleftrightarrow> [] \<notin> set (rd_rest r)"

lemma fill_buf_flat: "reader_wf r \<Longrightarrow> flat (fill_buf r) = flat r \<and> reader_wf (fill_buf r)"
  by (auto simp: fill_buf_def flat_def reader_wf_def split: list.split)

lemma fill_buf_empty: "reader_wf r \<Longrightarrow> rd_buf (fill_buf r) = [] \<longleftrightarrow> flat r = []"
  by (cases "rd_rest r") (auto simp: fill_buf_def flat_def reader_wf_def)

lemma line_part_append: "newline \<notin> set a \<Longrightarrow> line_part (a @ t) = a @ line_part t"
  by (induction a) (auto simp: line_part_def)

lemma line_part_id: "newline \<notin> set a \<Longrightarrow> line_part a = a"
  using line_part_append [of a "[]"] by (simp add: line_part_def)

lemma line_part_line: "newline \<notin> set a \<Longrightarrow> line_part (a @ newline # t) = a"
  using line_part_append [of a "newline # t"] by (simp add: line_part_def)

lemma line_part_hit: "newline \<in> set a \<Longrightarrow> line_part (a @ t) = line_part a"
  by (simp add: line_part_def takeWhile_append1 [of newline])

lemma line_part_split: "newline \<in> set t \<Longrightarrow> t = line_part t @ newline # drop (length (line_part t) + 1) t"
  by (induction t) (auto simp: line_part_def)

definition line_outcome :: "string \<Rightarrow> LineResult" where
  "line_outcome t =
     (if MAX_LINE_BYTES < length (line_part t) then TooLong else if newline \<in> set t then Line else Eof)"

lemma read_loop_spec:
  assumes "reader_wf r" "newline \<notin> set out" "length out \<le> MAX_LINE_BYTES" "read_loop out r = (res, line, r')"
  shows "length line \<le> MAX_LINE_BYTES \<and> res = line_outcome (out @ flat r) \<and>
    (res = Line \<longrightarrow> reader_wf r' \<and> out @ flat r = line @ newline # flat r' \<and> newline \<notin> set line)"
  using assms
proof (induction out r rule: read_loop.induct)
  case (1 out r)
  let ?r = "fill_buf r"
  let ?buf = "rd_buf ?r"
  from fill_buf_flat [OF 1(2)] have flat: "flat r = ?buf @ concat (rd_rest ?r)" and wf: "reader_wf ?r"
    by (simp_all add: flat_def)
  consider (eof) "?buf = []" | (hit) "newline \<in> set ?buf" | (more) "?buf \<noteq> []" "newline \<notin> set ?buf" by blast
  then show ?case
  proof cases
    case eof
    with fill_buf_empty [OF 1(2)] 1(3-5) show ?thesis
      by (auto simp: read_loop.simps [of out r] line_outcome_def line_part_id)
  next
    case hit
    from line_part_split [OF hit] obtain p t where buf: "?buf = p @ newline # t" and p: "line_part ?buf = p"
      "newline \<notin> set p" by (metis line_part_def set_takeWhileD)
    then have step: "read_loop out r =
        (if MAX_LINE_BYTES < length out + length p then (TooLong, out, ?r) else (Line, out @ p, ?r\<lparr>rd_buf := t\<rparr>))"
      by (simp add: read_loop.simps [of out r] Let_def)
    have fl: "out @ flat r = (out @ p) @ newline # t @ concat (rd_rest ?r)" by (simp add: flat buf)
    have "newline \<notin> set (out @ p)" using p(2) 1(3) by simp
    then have lp: "line_part (out @ flat r) = out @ p" unfolding fl by (rule line_part_line)
    show ?thesis
    proof (cases "MAX_LINE_BYTES < length out + length p")
      case True
      with step 1(4,5) lp show ?thesis by (simp add: line_outcome_def)
    next
      case False
      with step 1(3-5) lp p(2) wf show ?thesis by (auto simp: line_outcome_def reader_wf_def flat_def fl [unfolded flat_def])
    qed
  next
    case more
    have lp: "line_part (out @ flat r) = out @ ?buf @ line_part (concat (rd_rest ?r))"
      using 1(3) more(2) by (simp add: flat line_part_append)
    show ?thesis
    proof (cases "MAX_LINE_BYTES < length out + length ?buf")
      case True
      with more 1(4,5) lp show ?thesis
        by (auto simp: read_loop.simps [of out r] line_outcome_def Let_def)
    next
      case False
      have "read_loop (out @ ?buf) (?r\<lparr>rd_buf := []\<rparr>) = (res, line, r')"
        using more 1(5) False by (simp add: read_loop.simps [of out r] Let_def)
      from 1(1) [OF refl refl refl more False _ _ _ this] wf 1(3) more(2) False show ?thesis
        by (simp add: reader_wf_def flat_def flat [unfolded flat_def])
    qed
  qed
qed

lemma read_capped_line_spec:
  assumes "reader_wf r" "read_capped_line r = (res, line, r')"
  shows "length line \<le> MAX_LINE_BYTES \<and> res = line_outcome (flat r) \<and>
    (res = Line \<longrightarrow> reader_wf r' \<and> flat r = line @ newline # flat r' \<and> newline \<notin> set line)"
  using read_loop_spec [OF assms(1), of "[]" res line r'] assms(2) by (simp add: read_capped_line_def)

text \<open>
  Reading a line depends only on the bytes the peer sends, not on how the socket cuts them into chunks:
  the result is an over-long line when more than 64 KiB come before the first newline, that line when it
  ends, and the end of the stream otherwise; the line and the rest of the stream are exactly what was sent,
  and no more than 64 KiB are ever collected.
\<close>

theorem read_line_framing:
  assumes "reader_wf r" "read_capped_line r = (res, line, r')"
  shows "length line \<le> MAX_LINE_BYTES \<and> res = line_outcome (flat r) \<and>
    (res = Line \<longrightarrow> reader_wf r' \<and> flat r = line @ newline # flat r' \<and> newline \<notin> set line)"
  by (rule read_capped_line_spec [OF assms])

theorem read_line_framing_witness:
  "\<exists>r'. read_capped_line \<lparr>rd_buf = ''a'', rd_rest = [''b'', [CHR ''c'', newline, CHR ''d'']]\<rparr> = (Line, ''abc'', r') \<and>
        flat r' = ''d''"
proof -
  let ?r = "\<lparr>rd_buf = ''a'', rd_rest = [''b'', [CHR ''c'', newline, CHR ''d'']]\<rparr>"
  obtain res line r' where e: "read_capped_line ?r = (res, line, r')" by (metis prod_cases3)
  have fl: "flat ?r = ''abc'' @ newline # ''d''" by (simp add: flat_def)
  then have lp: "line_part (flat ?r) = ''abc''"
    using line_part_line [of "''abc''" "''d''"] by (simp add: newline_def)
  then have out: "line_outcome (flat ?r) = Line" by (simp add: line_outcome_def MAX_LINE_BYTES_def fl)
  have "reader_wf ?r" by (simp add: reader_wf_def)
  from read_line_framing [OF this e] out have res: "res = Line"
    and f: "flat ?r = line @ newline # flat r'" "newline \<notin> set line" by simp_all
  from f have "line = ''abc''" using lp line_part_line [of line "flat r'"] by simp
  with f(1) fl have "flat r' = ''d''" by simp
  with e res \<open>line = ''abc''\<close> show ?thesis by blast
qed

end
