(* ===== verification/Connection.thy ===== *)
theory Connection
  imports Server Framing
begin

text \<open>
  The loop that serves one LocalAPI connection (\<open>handle_conn\<close> of \<open>src/src/server.rs\<close>): lines are read, decoded
  and answered; the verbs that take the connection over (watch, nc, debug portmap) and the one that stops
  the daemon are handled here, before dispatch.
\<close>

section \<open>A connection\<close>

text \<open>
  What the peer of a connection sees and causes, in order: the answers written to it, a verb that takes the
  connection over (a watch, a splice, a log stream), the request to stop the daemon. A write fails once the
  client is gone (\<open>gone n\<close> for the write after \<open>n\<close> events), which ends the connection.
\<close>

datatype conn_event = Reply response | Streamed request | StopRequested

record conn =
  cn_backend :: backend
  cn_fs :: fs
  cn_events :: "conn_event list"

datatype conn_next = Continue conn | Closed conn | Broken conn

definition emit :: "conn_event \<Rightarrow> conn \<Rightarrow> conn" where
  "emit e c = c\<lparr>cn_events := cn_events c @ [e]\<rparr>"

definition write_response :: "(nat \<Rightarrow> bool) \<Rightarrow> response \<Rightarrow> (conn \<Rightarrow> conn_next) \<Rightarrow> conn \<Rightarrow> conn_next" where
  "write_response gone resp k c = (if gone (length (cn_events c)) then Broken c else k (emit (Reply resp) c))"

definition too_many_streams :: response where
  "too_many_streams = RError (ErrorText ''too many concurrent watch/nc streams; try again'')"

definition denied_text :: "string \<Rightarrow> response" where
  "denied_text verb = RError (ErrorText
     (''permission denied: '' @ verb @ '' requires root or the same user that owns the daemon''))"

definition permit_free :: "server_env \<Rightarrow> conn \<Rightarrow> bool" where
  "permit_free s c = srv_permit_free s (length (cn_events c))"

definition shutdown_allowed_by_policy :: "server_env \<Rightarrow> bool" where
  "shutdown_allowed_by_policy s = boolean_setting (de_settings (srv_daemon s)) PKEY_ALLOW_TAILSCALED_RESTART False"

text \<open>No subscription that can be expressed is refused.\<close>

definition watch_usage_refusal :: "request \<Rightarrow> string option" where
  "watch_usage_refusal req = None"

definition serve_watch :: "server_env \<Rightarrow> (nat \<Rightarrow> bool) \<Rightarrow> request \<Rightarrow> conn \<Rightarrow> conn_next" where
  "serve_watch s gone req c =
     (case watch_usage_refusal req of
        Some message \<Rightarrow> write_response gone (RError (ErrorText message)) Continue c
      | None \<Rightarrow> if \<not> permit_free s c then write_response gone too_many_streams Closed c else Closed (emit (Streamed req) c))"

definition stream_nc :: "server_env \<Rightarrow> (nat \<Rightarrow> bool) \<Rightarrow> string \<Rightarrow> nat \<Rightarrow> conn \<Rightarrow> conn_next" where
  "stream_nc s gone host port c =
     (case be_device (cn_backend c) of
        None \<Rightarrow> write_response gone not_up Continue c
      | Some dev \<Rightarrow>
          (case srv_nc s dev host port of
             Some e \<Rightarrow> write_response gone (RError (ErrorText e)) Continue c
           | None \<Rightarrow> write_response gone (ROk (''connected to '' @ host @ '':'' @ dec_string port))
                      (\<lambda>c. Closed (emit (Streamed (Nc host port)) c)) c))"

definition serve_nc :: "server_env \<Rightarrow> (nat \<Rightarrow> bool) \<Rightarrow> Access \<Rightarrow> string \<Rightarrow> nat \<Rightarrow> conn \<Rightarrow> conn_next" where
  "serve_nc s gone access host port c =
     (if \<not> is_ok (authorize (Nc host port) access) then write_response gone (denied_text ''nc'') Continue c
      else if \<not> permit_free s c then write_response gone too_many_streams Continue c
      else stream_nc s gone host port c)"

definition serve_portmap :: "server_env \<Rightarrow> (nat \<Rightarrow> bool) \<Rightarrow> Access \<Rightarrow> request \<Rightarrow> conn \<Rightarrow> conn_next" where
  "serve_portmap s gone access req c =
     (if \<not> is_ok (authorize req access) then write_response gone (denied_text ''debug portmap'') Continue c
      else if \<not> permit_free s c then write_response gone too_many_streams Continue c
      else Closed (emit (Streamed req) c))"

definition serve_shutdown :: "server_env \<Rightarrow> (nat \<Rightarrow> bool) \<Rightarrow> Access \<Rightarrow> conn \<Rightarrow> conn_next" where
  "serve_shutdown s gone access c =
     (case shutdown_verdict access (shutdown_allowed_by_policy s) of
        Inl refusal \<Rightarrow> write_response gone (RError (ErrorText (refusal_message refusal))) Continue c
      | Inr _ \<Rightarrow> write_response gone (ROk ''shutdown accepted; the daemon is stopping'')
                  (\<lambda>c. Closed (emit StopRequested c)) c)"

definition serve_dispatch :: "server_env \<Rightarrow> (nat \<Rightarrow> bool) \<Rightarrow> Access \<Rightarrow> request \<Rightarrow> conn \<Rightarrow> conn_next" where
  "serve_dispatch s gone access req c =
     (case dispatch s access req (cn_backend c) (cn_fs c) of
        (resp, b', f') \<Rightarrow> write_response gone resp Continue (c\<lparr>cn_backend := b', cn_fs := f'\<rparr>))"

definition serve_request :: "server_env \<Rightarrow> (nat \<Rightarrow> bool) \<Rightarrow> Access \<Rightarrow> request \<Rightarrow> conn \<Rightarrow> conn_next" where
  "serve_request s gone access req c =
     (case req of
        Watch _ _ _ _ _ _ \<Rightarrow> serve_watch s gone req c
      | Nc host port \<Rightarrow> serve_nc s gone access host port c
      | DebugPortmap _ _ _ _ \<Rightarrow> serve_portmap s gone access req c
      | Shutdown \<Rightarrow> serve_shutdown s gone access c
      | _ \<Rightarrow> serve_dispatch s gone access req c)"

definition serve_line :: "server_env \<Rightarrow> (nat \<Rightarrow> bool) \<Rightarrow> Access \<Rightarrow> string \<Rightarrow> conn \<Rightarrow> conn_next" where
  "serve_line s gone access line c =
     (if \<not> valid_utf8 line then write_response gone (RError (ErrorText ''bad request: invalid UTF-8'')) Continue c
      else if is_blank line then Continue c
      else case srv_parse s line of
        Inl e \<Rightarrow> write_response gone (RError (ErrorText (''bad request: '' @ e))) Continue c
      | Inr req \<Rightarrow> serve_request s gone access req c)"

function handle_conn :: "server_env \<Rightarrow> (nat \<Rightarrow> bool) \<Rightarrow> Access \<Rightarrow> reader \<Rightarrow> conn \<Rightarrow> conn_next" where
  "handle_conn s gone access r c =
     (case read_capped_line r of
        (Eof, _, _) \<Rightarrow> Closed c
      | (TooLong, _, _) \<Rightarrow> write_response gone (RError (ErrorText ''request too large'')) Closed c
      | (Line, line, r') \<Rightarrow>
          (case serve_line s gone access line c of
             Continue c' \<Rightarrow> handle_conn s gone access r' c'
           | stop \<Rightarrow> stop))"
  by pat_completeness auto
termination
  by (relation "measure (\<lambda>(s, gone, access, r, c). reader_bytes r)") (auto simp: read_capped_line_def dest!: read_loop_bytes [OF sym])

declare handle_conn.simps [simp del]

section \<open>A connection is a function of the bytes sent on it\<close>

lemma handle_conn_line:
  assumes "read_capped_line r = (Line, line, r')"
  shows "handle_conn s gone access r c =
    (case serve_line s gone access line c of Continue c' \<Rightarrow> handle_conn s gone access r' c' | stop \<Rightarrow> stop)"
  using assms by (simp add: handle_conn.simps [of s gone access r c])

lemma handle_conn_no_line:
  "read_capped_line r = (res, line, r') \<Longrightarrow> res \<noteq> Line \<Longrightarrow> handle_conn s gone access r c =
    (if res = TooLong then write_response gone (RError (ErrorText ''request too large'')) Closed c else Closed c)"
  by (cases res) (simp_all add: handle_conn.simps [of s gone access r c])

text \<open>
  What a connection does depends only on the bytes the client sends: however they are cut into chunks,
  the same requests are served in the same order with the same answers and the same effects.
\<close>

theorem handle_conn_stream:
  assumes "reader_wf r1" "reader_wf r2" "flat r1 = flat r2"
  shows "handle_conn s gone access r1 c = handle_conn s gone access r2 c"
  using assms
proof (induction s gone access r1 c arbitrary: r2 rule: handle_conn.induct)
  case (1 s gone access r1 c)
  obtain res1 l1 r1' where e1: "read_capped_line r1 = (res1, l1, r1')" by (metis prod_cases3)
  obtain res2 l2 r2' where e2: "read_capped_line r2 = (res2, l2, r2')" by (metis prod_cases3)
  note s1 = read_capped_line_spec [OF 1(2) e1] and s2 = read_capped_line_spec [OF 1(3) e2]
  have res: "res2 = res1"
    using conjunct1 [OF conjunct2 [OF s1]] conjunct1 [OF conjunct2 [OF s2]] 1(4) by simp
  show ?case
  proof (cases "res1 = Line")
    case True
    from s1 True have a: "reader_wf r1'" "flat r1 = l1 @ newline # flat r1'" "newline \<notin> set l1" by blast+
    from s2 True res have b: "reader_wf r2'" "flat r2 = l2 @ newline # flat r2'" "newline \<notin> set l2" by blast+
    from a(2) b(2) 1(4) have l: "l1 @ newline # flat r1' = l2 @ newline # flat r2'" by simp
    with a(3) b(3) have "l1 = l2" by (metis line_part_line)
    with l have "flat r1' = flat r2'" by simp
    then have "handle_conn s gone access r1' c' = handle_conn s gone access r2' c'"
      if "serve_line s gone access l1 c = Continue c'" for c'
      using 1(1) [OF e1 [symmetric] True refl that a(1) b(1)] by blast
    then show ?thesis
      using e1 e2 True res \<open>l1 = l2\<close> by (cases "serve_line s gone access l1 c") (simp_all add: handle_conn_line)
  next
    case False
    with handle_conn_no_line [OF e1 False] handle_conn_no_line [OF e2] res show ?thesis by simp
  qed
qed

section \<open>What a peer can cause\<close>

definition conn_of :: "conn_next \<Rightarrow> conn" where
  "conn_of n = (case n of Continue c \<Rightarrow> c | Closed c \<Rightarrow> c | Broken c \<Rightarrow> c)"

lemma conn_of_simps [simp]: "conn_of (Continue c) = c" "conn_of (Closed c) = c" "conn_of (Broken c) = c"
  by (simp_all add: conn_of_def)

lemma emit_simps [simp]:
  "cn_backend (emit e c) = cn_backend c" "cn_fs (emit e c) = cn_fs c" "cn_events (emit e c) = cn_events c @ [e]"
  by (simp_all add: emit_def)

text \<open>An invariant of the connection between two lines, and what holds once it has ended.\<close>

lemma handle_conn_invariant:
  assumes "\<And>line c. I c \<Longrightarrow> case serve_line s gone access line c of Continue c' \<Rightarrow> I c' | stop \<Rightarrow> Q stop"
    and "\<And>c. I c \<Longrightarrow> Q (Closed c)" "\<And>c resp. I c \<Longrightarrow> Q (write_response gone (RError resp) Closed c)"
  shows "I c \<Longrightarrow> Q (handle_conn s gone access r c)"
proof (induction "reader_bytes r" arbitrary: r c rule: less_induct)
  case less
  obtain res line r' where e: "read_capped_line r = (res, line, r')" by (metis prod_cases3)
  show ?case
  proof (cases "res = Line")
    case True
    with e have lt: "reader_bytes r' < reader_bytes r" by (simp add: read_capped_line_def read_loop_bytes)
    from True e have h: "handle_conn s gone access r c =
        (case serve_line s gone access line c of Continue c' \<Rightarrow> handle_conn s gone access r' c' | stop \<Rightarrow> stop)"
      by (simp add: handle_conn_line)
    with assms(1) [OF less(2), of line] less(1) [OF lt] show ?thesis
      by (cases "serve_line s gone access line c") simp_all
  next
    case False
    with e assms(2,3) [OF less(2)] show ?thesis by (simp add: handle_conn_no_line)
  qed
qed

definition same_but_suggestion :: "backend \<Rightarrow> backend \<Rightarrow> bool" where
  "same_but_suggestion b b' \<longleftrightarrow> (\<exists>i. b' = b\<lparr>be_suggested_exit_node := i\<rparr>)"

lemma same_refl [simp]: "same_but_suggestion b b"
  unfolding same_but_suggestion_def by (rule exI [of _ "be_suggested_exit_node b"]) simp

lemma same_update [simp]: "same_but_suggestion b (b\<lparr>be_suggested_exit_node := i\<rparr>)"
  unfolding same_but_suggestion_def by blast

lemma same_trans: "same_but_suggestion a b \<Longrightarrow> same_but_suggestion b c \<Longrightarrow> same_but_suggestion a c"
  unfolding same_but_suggestion_def by force

text \<open>What a peer that may only read leaves behind: nothing but the published exit-node suggestion.\<close>

definition harmless :: "conn \<Rightarrow> conn \<Rightarrow> bool" where
  "harmless c c' \<longleftrightarrow>
     same_but_suggestion (cn_backend c) (cn_backend c') \<and> cn_fs c' = cn_fs c \<and>
     (\<exists>es. cn_events c' = cn_events c @ es \<and> StopRequested \<notin> set es \<and>
        (\<forall>req. Streamed req \<in> set es \<longrightarrow> \<not> requires_write req))"

lemma handle_read:
  assumes "\<not> requires_write req" "handle s req b f = (resp, b', f')"
  shows "same_but_suggestion b b' \<and> f' = f"
  using assms
  by (cases req) (auto simp: publish_suggested_exit_node_def split: option.splits sum.splits if_splits)

lemma dispatch_read_only:
  assumes "\<not> can_write access" "dispatch s access req b f = (resp, b', f')"
  shows "same_but_suggestion b b' \<and> f' = f"
  using assms handle_read [of req s b f resp b' f']
  by (auto simp: dispatch_def authorize_ok split: if_splits)

lemma harmless_refl: "harmless c c"
  by (simp add: harmless_def)

lemma harmless_trans: "harmless a b \<Longrightarrow> harmless b c \<Longrightarrow> harmless a c"
proof -
  assume ab: "harmless a b" and bc: "harmless b c"
  then obtain es es' where "cn_events b = cn_events a @ es" "cn_events c = cn_events b @ es'"
    "StopRequested \<notin> set es" "StopRequested \<notin> set es'"
    "\<forall>req. Streamed req \<in> set es \<longrightarrow> \<not> requires_write req" "\<forall>req. Streamed req \<in> set es' \<longrightarrow> \<not> requires_write req"
    by (auto simp: harmless_def)
  then have "\<exists>es. cn_events c = cn_events a @ es \<and> StopRequested \<notin> set es \<and>
      (\<forall>req. Streamed req \<in> set es \<longrightarrow> \<not> requires_write req)"
    by (intro exI [of _ "es @ es'"]) auto
  moreover have "same_but_suggestion (cn_backend a) (cn_backend c)"
    using ab bc same_trans by (auto simp: harmless_def)
  ultimately show ?thesis using ab bc by (simp add: harmless_def)
qed

lemma harmless_write: "(\<And>c'. c' = emit (Reply resp) c \<Longrightarrow> harmless c (conn_of (k c'))) \<Longrightarrow> harmless c (conn_of (write_response gone resp k c))"
  by (simp add: write_response_def harmless_refl)

lemma harmless_emit: "e \<noteq> StopRequested \<Longrightarrow> (\<And>req. e = Streamed req \<Longrightarrow> \<not> requires_write req) \<Longrightarrow> harmless c (emit e c)"
  by (auto simp: harmless_def)

lemma harmless_closed: "harmless c (conn_of (write_response gone resp Closed c))"
  by (auto intro!: harmless_write harmless_emit)

lemma serve_dispatch_harmless:
  assumes "\<not> can_write access"
  shows "harmless c (conn_of (serve_dispatch s gone access req c))"
proof -
  obtain resp b' f' where d: "dispatch s access req (cn_backend c) (cn_fs c) = (resp, b', f')" by (metis prod_cases3)
  from dispatch_read_only [OF assms d] show ?thesis
    by (simp add: serve_dispatch_def d write_response_def harmless_def)
qed

lemma serve_request_harmless:
  assumes "\<not> can_write access"
  shows "harmless c (conn_of (serve_request s gone access req c))"
  using assms serve_dispatch_harmless [OF assms]
  by (cases req)
     (auto simp: serve_request_def serve_watch_def serve_nc_def serve_portmap_def serve_shutdown_def authorize_ok
       shutdown_verdict_def watch_usage_refusal_def intro!: harmless_write harmless_emit)

lemma serve_line_harmless:
  assumes "\<not> can_write access"
  shows "harmless c (conn_of (serve_line s gone access line c))"
  using serve_request_harmless [OF assms]
  by (auto simp: serve_line_def harmless_refl intro!: harmless_write harmless_emit split: sum.split)


section \<open>Stopping the daemon\<close>

definition shutdown_ack :: conn_event where
  "shutdown_ack = Reply (ROk ''shutdown accepted; the daemon is stopping'')"

definition stop_free :: "conn \<Rightarrow> bool" where
  "stop_free c \<longleftrightarrow> StopRequested \<notin> set (cn_events c)"

text \<open>A step that stopped the daemon was permitted to, answered first, and ended the connection.\<close>

definition stopped :: "server_env \<Rightarrow> Access \<Rightarrow> conn \<Rightarrow> conn_next \<Rightarrow> bool" where
  "stopped s access c n \<longleftrightarrow> (\<exists>c'. n = Closed c' \<and> can_write access \<and> shutdown_allowed_by_policy s \<and>
     cn_events c' = cn_events c @ [shutdown_ack, StopRequested])"

lemma stop_free_write:
  "stop_free c \<Longrightarrow> (\<And>c'. c' = emit (Reply resp) c \<Longrightarrow> stop_free c' \<Longrightarrow> stop_free (conn_of (k c'))) \<Longrightarrow>
     stop_free (conn_of (write_response gone resp k c))"
  by (simp add: write_response_def stop_free_def)

lemma stop_free_emit: "stop_free c \<Longrightarrow> e \<noteq> StopRequested \<Longrightarrow> stop_free (emit e c)"
  by (simp add: stop_free_def)

lemma serve_shutdown_stops:
  "stop_free c \<Longrightarrow> stop_free (conn_of (serve_shutdown s gone access c)) \<or> stopped s access c (serve_shutdown s gone access c)"
  by (auto simp: serve_shutdown_def shutdown_verdict_def authorize_ok stopped_def shutdown_ack_def write_response_def
      stop_free_def split: sum.split)

lemma serve_dispatch_stop_free: "stop_free c \<Longrightarrow> stop_free (conn_of (serve_dispatch s gone access req c))"
  by (auto simp: serve_dispatch_def write_response_def stop_free_def split: prod.split)

lemma serve_request_stops:
  assumes "stop_free c"
  shows "stop_free (conn_of (serve_request s gone access req c)) \<or> stopped s access c (serve_request s gone access req c)"
proof (cases "req = Shutdown")
  case True
  with serve_shutdown_stops [OF assms] show ?thesis by (simp add: serve_request_def)
next
  case False
  then have "stop_free (conn_of (serve_request s gone access req c))"
    using assms serve_dispatch_stop_free [OF assms]
    by (cases req)
       (auto simp: serve_request_def serve_watch_def serve_nc_def serve_portmap_def stream_nc_def watch_usage_refusal_def
         intro!: stop_free_write stop_free_emit split: option.split)
  then show ?thesis ..
qed

lemma serve_line_stops:
  assumes "stop_free c"
  shows "stop_free (conn_of (serve_line s gone access line c)) \<or> stopped s access c (serve_line s gone access line c)"
proof (cases "\<exists>req. valid_utf8 line \<and> \<not> is_blank line \<and> srv_parse s line = Inr req")
  case True
  then obtain req where "serve_line s gone access line c = serve_request s gone access req c"
    by (auto simp: serve_line_def)
  with serve_request_stops [OF assms] show ?thesis by simp
next
  case False
  with assms have "stop_free (conn_of (serve_line s gone access line c))"
    by (auto simp: serve_line_def intro!: stop_free_write stop_free_emit split: sum.split)
  then show ?thesis ..
qed

text \<open>
  The daemon is asked to stop by a connection only if its peer may write and the administrator's policy
  allows it, and only after the peer has been sent the acknowledgement: the stop is the very last thing the
  connection does, directly after the acknowledgement.
\<close>

theorem shutdown_acknowledged_first:
  assumes "handle_conn s gone access r c = n" "StopRequested \<notin> set (cn_events c)"
    "StopRequested \<in> set (cn_events (conn_of n))"
  shows "can_write access \<and> shutdown_allowed_by_policy s \<and>
    (\<exists>pre c'. n = Closed c' \<and> cn_events c' = pre @ [shutdown_ack, StopRequested] \<and> StopRequested \<notin> set pre)"
proof -
  have "stop_free (conn_of n) \<or> (\<exists>c1. stop_free c1 \<and> stopped s access c1 n)"
    unfolding assms(1) [symmetric]
  proof (rule handle_conn_invariant [where I = stop_free])
    fix line c1 assume "stop_free c1"
    with serve_line_stops [OF this, of s gone access line]
    show "case serve_line s gone access line c1 of Continue c' \<Rightarrow> stop_free c'
        | stop \<Rightarrow> stop_free (conn_of stop) \<or> (\<exists>c1. stop_free c1 \<and> stopped s access c1 stop)"
      using \<open>stop_free c1\<close> by (cases "serve_line s gone access line c1") (auto simp: stopped_def)
  next
    fix c1 resp assume "stop_free c1"
    then show "stop_free (conn_of (write_response gone (RError resp) Closed c1)) \<or>
        (\<exists>c2. stop_free c2 \<and> stopped s access c2 (write_response gone (RError resp) Closed c1))"
      by (simp add: stop_free_write)
  qed (use assms(2) in \<open>simp_all add: stop_free_def\<close>)
  with assms(3) obtain c1 where "stop_free c1" "stopped s access c1 n" by (auto simp: stop_free_def)
  then show ?thesis by (auto simp: stopped_def stop_free_def)
qed

section \<open>Demonstrations\<close>

definition demo_conn :: conn where
  "demo_conn = \<lparr>cn_backend = demo_backend, cn_fs = (\<lambda>_. None), cn_events = []\<rparr>"

definition demo_reader :: "string \<Rightarrow> reader" where
  "demo_reader text = \<lparr>rd_buf = text @ [newline], rd_rest = []\<rparr>"

lemma demo_read: "newline \<notin> set w \<Longrightarrow> length w \<le> MAX_LINE_BYTES \<Longrightarrow>
    read_capped_line (demo_reader w) = (Line, w, \<lparr>rd_buf = [], rd_rest = []\<rparr>)"
  by (simp add: read_capped_line_def read_loop.simps [of "[]"] demo_reader_def fill_buf_def line_part_line Let_def)

lemma demo_end: "handle_conn s gone access \<lparr>rd_buf = [], rd_rest = []\<rparr> c = Closed c"
  by (simp add: handle_conn.simps read_capped_line_def read_loop.simps fill_buf_def)

lemma demo_stop_line: "newline \<notin> set ''stop'' \<and> length ''stop'' \<le> MAX_LINE_BYTES \<and> valid_utf8 ''stop'' \<and> \<not> is_blank ''stop''"
  by (simp add: newline_def MAX_LINE_BYTES_def byte_def is_ascii_ws_def wide_space_def)

lemma demo_down_line: "newline \<notin> set ''down'' \<and> length ''down'' \<le> MAX_LINE_BYTES \<and> valid_utf8 ''down'' \<and> \<not> is_blank ''down''"
  by (simp add: newline_def MAX_LINE_BYTES_def byte_def is_ascii_ws_def wide_space_def)

lemma demo_definition: "definition_of PKEY_ALLOW_TAILSCALED_RESTART = Some (PKEY_ALLOW_TAILSCALED_RESTART, TBoolean)"
  by code_simp

lemma demo_policy: "shutdown_allowed_by_policy demo_server"
  by (simp add: shutdown_allowed_by_policy_def demo_server_def boolean_setting_def configured_boolean_def
      configured_value_def demo_definition parse_bool_def)

theorem shutdown_acknowledged_first_witness:
  "\<exists>c. handle_conn demo_server (\<lambda>_. False) ReadWrite (demo_reader ''stop'') demo_conn = Closed c \<and>
       cn_events c = [shutdown_ack, StopRequested] \<and> shutdown_allowed_by_policy demo_server"
proof -
  let ?n = "handle_conn demo_server (\<lambda>_. False) ReadWrite (demo_reader ''stop'') demo_conn"
  have "srv_parse demo_server ''stop'' = Inr Shutdown" by (simp add: demo_server_def)
  then have n: "?n = Closed (emit StopRequested (emit shutdown_ack demo_conn))"
    using demo_stop_line demo_policy
    by (simp add: handle_conn_line [OF demo_read] serve_line_def serve_request_def serve_shutdown_def shutdown_verdict_def
        authorize_ok can_write_def write_response_def shutdown_ack_def del: valid_utf8.simps is_blank.simps)
  have "StopRequested \<notin> set (cn_events demo_conn)" by (simp add: demo_conn_def)
  from shutdown_acknowledged_first [OF refl this, of demo_server "\<lambda>_. False" ReadWrite "demo_reader ''stop''"]
  have "shutdown_allowed_by_policy demo_server" by (simp add: n)
  with n show ?thesis by (simp add: demo_conn_def)
qed


theorem handle_conn_stream_witness:
  "handle_conn demo_server (\<lambda>_. False) ReadWrite \<lparr>rd_buf = ''st'', rd_rest = [''op'', [newline]]\<rparr> demo_conn =
   handle_conn demo_server (\<lambda>_. False) ReadWrite (demo_reader ''stop'') demo_conn"
  by (rule handle_conn_stream) (simp_all add: reader_wf_def flat_def demo_reader_def)

end
