(* ===== verification/NotifyStream.thy ===== *)
theory NotifyStream
  imports Server
begin

text \<open>
  The masked watch (\<open>stream_notify\<close> of \<open>src/src/server.rs\<close>): the frames one subscriber is sent, as a state machine.
  The stream lives across devices. It derives the current device, sends what it owes, attaches to that
  device's bus and forwards it until the device goes away, and serves the preference, policy and
  suggestion ticks. Its inputs are what the engine and the daemon's channels give it; a write fails once
  the client is gone, which ends the stream.
\<close>

section \<open>Frames\<close>

record SelfReport =
  sr_stable_id :: string
  sr_name :: string
  sr_ipv4 :: string
  sr_ipv6 :: string
  sr_key_expiry :: "string option"

record NotifyView =
  nv_version :: "string option"
  nv_session_id :: "string option"
  nv_state :: "string option"
  nv_error :: "string option"
  nv_browse_to_url :: "string option"
  nv_net_map :: "PeerReport list option"
  nv_self_change :: "SelfReport option"
  nv_prefs :: "PrefsView option"
  nv_policy :: "PolicySetting list option"
  nv_suggested_exit_node :: "string option"
  nv_initial_status :: "StatusReport option"

definition empty_view :: NotifyView where
  "empty_view = \<lparr>nv_version = None, nv_session_id = None, nv_state = None, nv_error = None, nv_browse_to_url = None,
     nv_net_map = None, nv_self_change = None, nv_prefs = None, nv_policy = None, nv_suggested_exit_node = None,
     nv_initial_status = None\<rparr>"

text \<open>A notification of the engine's bus.\<close>

record Notify =
  nt_state :: "device_state option"
  nt_net_map :: "PeerReport list option"
  nt_browse_to_url :: "string option"

definition notify_state_from_device :: "device_state \<Rightarrow> string \<times> string option" where
  "notify_state_from_device ds = (case state_from_device ds of (st, _, error) \<Rightarrow> (as_str st, error))"

definition retain_requested_initial :: "Notify \<Rightarrow> bool \<Rightarrow> bool \<Rightarrow> Notify" where
  "retain_requested_initial n initial_state initial_netmap =
     (let n1 = (if \<not> initial_state then n\<lparr>nt_state := None, nt_browse_to_url := None\<rparr> else n)
      in if \<not> initial_netmap then n1\<lparr>nt_net_map := None\<rparr> else n1)"

definition project_notify :: "Notify \<Rightarrow> SelfReport option \<Rightarrow> NotifyView option" where
  "project_notify n self_change =
     (let (st, err) = (case nt_state n of
            Some ds \<Rightarrow> (case notify_state_from_device ds of (x, e) \<Rightarrow> (Some x, e)) | None \<Rightarrow> (None, None));
          view = empty_view\<lparr>nv_state := st, nv_error := err, nv_browse_to_url := nt_browse_to_url n,
            nv_net_map := nt_net_map n, nv_self_change := (if nt_net_map n = None then None else self_change)\<rparr>
      in if st = None \<and> err = None \<and> nt_browse_to_url n = None \<and> nt_net_map n = None then None else Some view)"

definition with_initial_status :: "NotifyView option \<Rightarrow> StatusReport \<Rightarrow> NotifyView" where
  "with_initial_status engine_initial report =
     (unwrap_or engine_initial empty_view)\<lparr>nv_initial_status := Some report\<rparr>"

section \<open>The stream\<close>

record watch_mask =
  wm_state :: bool
  wm_netmap :: bool
  wm_prefs :: bool
  wm_policy :: bool
  wm_suggested :: bool
  wm_status :: bool

text \<open>
  Where the stream is: about to derive the device, waiting without a device, waiting after the bus could not
  be attached, forwarding a bus, over.
\<close>

datatype phase = Deriving | NoDevice | BusFailed | Streaming | Ended

record stream =
  st_phase :: phase
  st_pending_id :: "string option"
  st_status_pending :: bool
  st_suggestion_pending :: bool
  st_sent :: "NotifyView list"

text \<open>A subscriber: what it asked for, the version the daemon states, and when it goes away.\<close>

record watcher =
  wt_mask :: watch_mask
  wt_version :: string
  wt_gone :: "nat \<Rightarrow> bool"

text \<open>\<open>NotifySession::stamp\<close>: the version, unless the frame has one, and the session id once.\<close>

definition stamp :: "watcher \<Rightarrow> string option \<Rightarrow> NotifyView \<Rightarrow> NotifyView" where
  "stamp w pending v =
     v\<lparr>nv_version := Some (unwrap_or (nv_version v) (wt_version w)), nv_session_id := pending\<rparr>"

definition write_notify :: "watcher \<Rightarrow> NotifyView \<Rightarrow> stream \<Rightarrow> stream" where
  "write_notify w v st =
     (if st_phase st = Ended then st
      else if wt_gone w (length (st_sent st)) then st\<lparr>st_phase := Ended\<rparr>
      else st\<lparr>st_sent := st_sent st @ [stamp w (st_pending_id st) v], st_pending_id := None\<rparr>)"

definition flush_session_id :: "watcher \<Rightarrow> stream \<Rightarrow> stream" where
  "flush_session_id w st = (if st_pending_id st = None then st else write_notify w empty_view st)"

definition emit_prefs_frame :: "watcher \<Rightarrow> PrefsView \<Rightarrow> stream \<Rightarrow> stream" where
  "emit_prefs_frame w p st = write_notify w (empty_view\<lparr>nv_prefs := Some p\<rparr>) st"

definition emit_policy_frame :: "watcher \<Rightarrow> PolicySetting list \<Rightarrow> stream \<Rightarrow> stream" where
  "emit_policy_frame w rows st = write_notify w (empty_view\<lparr>nv_policy := Some rows\<rparr>) st"

definition emit_suggested_exit_node_frame :: "watcher \<Rightarrow> string \<Rightarrow> stream \<Rightarrow> stream" where
  "emit_suggested_exit_node_frame w i st = write_notify w (empty_view\<lparr>nv_suggested_exit_node := Some i\<rparr>) st"

text \<open>The answer of this watch's own computation, then what the published cell holds if that has moved on.\<close>

definition emit_suggestion_front_load :: "watcher \<Rightarrow> suggestion \<Rightarrow> string \<Rightarrow> stream \<Rightarrow> stream" where
  "emit_suggestion_front_load w response current st =
     (case suggested_exit_node_id response of
        None \<Rightarrow> st
      | Some i \<Rightarrow>
          (let st1 = emit_suggested_exit_node_frame w i st
           in if current \<noteq> i then emit_suggested_exit_node_frame w current st1 else st1))"

text \<open>
  What the daemon and the engine answer while the stream derives a device. \<open>an_suggestion\<close> is the computed
  suggestion with what the published cell holds when it is read, \<open>None\<close> when it was not run.
\<close>

record answers =
  an_device :: bool
  an_report :: StatusReport
  an_prefs :: PrefsView
  an_policy :: "PolicySetting list"
  an_suggestion :: "(suggestion \<times> string) option"
  an_bus :: bool
  an_first :: "Notify option"
  an_self :: "SelfReport option"

definition settle_suggestion :: "watcher \<Rightarrow> answers \<Rightarrow> stream \<Rightarrow> stream" where
  "settle_suggestion w a st =
     (if \<not> st_suggestion_pending st then st
      else let st1 = st\<lparr>st_suggestion_pending := False\<rparr> in
        case an_suggestion a of
          None \<Rightarrow> st1
        | Some (response, current) \<Rightarrow> emit_suggestion_front_load w response current st1)"

definition emit_status_front_loads :: "watcher \<Rightarrow> answers \<Rightarrow> NotifyView option \<Rightarrow> stream \<Rightarrow> stream" where
  "emit_status_front_loads w a engine_initial st =
     (let st1 = write_notify w (with_initial_status engine_initial (an_report a)) st;
          st2 = (if wm_prefs (wt_mask w) then emit_prefs_frame w (an_prefs a) st1 else st1)
      in if wm_policy (wt_mask w) then emit_policy_frame w (an_policy a) st2 else st2)"

text \<open>The status snapshot goes out if it is owed, and is owed no more.\<close>

definition settle_status :: "watcher \<Rightarrow> answers \<Rightarrow> NotifyView option \<Rightarrow> stream \<Rightarrow> stream" where
  "settle_status w a engine_initial st =
     (if \<not> st_status_pending st then st
      else emit_status_front_loads w a engine_initial (st\<lparr>st_status_pending := False\<rparr>))"

definition goto :: "phase \<Rightarrow> stream \<Rightarrow> stream" where
  "goto p st = (if st_phase st = Ended then st else st\<lparr>st_phase := p\<rparr>)"

definition requested_initial :: "watcher \<Rightarrow> answers \<Rightarrow> NotifyView option" where
  "requested_initial w a =
     (case an_first a of
        None \<Rightarrow> None
      | Some n \<Rightarrow> project_notify (retain_requested_initial n (wm_state (wt_mask w)) (wm_netmap (wt_mask w))) (an_self a))"

definition derive_device :: "watcher \<Rightarrow> answers \<Rightarrow> stream \<Rightarrow> stream" where
  "derive_device w a st =
     (if \<not> an_device a then
        goto NoDevice ((flush_session_id w (settle_status w a None st))\<lparr>st_suggestion_pending := False\<rparr>)
      else let st1 = (if st_status_pending st then st else settle_suggestion w a st) in
        if \<not> an_bus a then
          goto BusFailed (flush_session_id w
            (if st_status_pending st1 then settle_suggestion w a (settle_status w a None st1) else st1))
        else if st_status_pending st1 then
          goto (if an_first a = None then Deriving else Streaming)
            (settle_suggestion w a (settle_status w a (requested_initial w a) st1))
        else goto Streaming st1)"

text \<open>The start: the session id is drawn (\<open>None\<close> when the entropy source fails), then the immediate front loads.\<close>

definition start_stream :: "watcher \<Rightarrow> string option \<Rightarrow> PrefsView \<Rightarrow> PolicySetting list \<Rightarrow> stream" where
  "start_stream w drawn p rows =
     (let m = wt_mask w;
          st = \<lparr>st_phase = (if wm_state m \<and> drawn = None then Ended else Deriving),
                st_pending_id = (if wm_state m then drawn else None), st_status_pending = wm_status m,
                st_suggestion_pending = wm_suggested m, st_sent = []\<rparr>;
          st1 = (if wm_prefs m \<and> \<not> wm_status m then emit_prefs_frame w p st else st)
      in if wm_policy m \<and> \<not> wm_status m then emit_policy_frame w rows st1 else st1)"

datatype input =
    Derive answers
  | LifecycleChanged
  | LifecycleClosed
  | PrefsTick PrefsView
  | PolicyTick "PolicySetting list"
  | SuggestionTick string
  | FeedsClosed
  | BusFrame Notify "SelfReport option"
  | BusClosed

text \<open>The daemon-built feeds, served without a device and while a bus is forwarded, where they are armed.\<close>

definition armed :: "watcher \<Rightarrow> input \<Rightarrow> bool" where
  "armed w i =
     (case i of
        PrefsTick _ \<Rightarrow> wm_prefs (wt_mask w) | PolicyTick _ \<Rightarrow> wm_policy (wt_mask w) | SuggestionTick _ \<Rightarrow> True | _ \<Rightarrow> False)"

definition serve_tick :: "watcher \<Rightarrow> input \<Rightarrow> stream \<Rightarrow> stream" where
  "serve_tick w i st =
     (if \<not> armed w i then st
      else case i of
        PrefsTick p \<Rightarrow> emit_prefs_frame w p st
      | PolicyTick rows \<Rightarrow> emit_policy_frame w rows st
      | SuggestionTick x \<Rightarrow> emit_suggested_exit_node_frame w x st
      | _ \<Rightarrow> st)"

definition stream_step :: "watcher \<Rightarrow> input \<Rightarrow> stream \<Rightarrow> stream" where
  "stream_step w i st =
     (case (st_phase st, i) of
        (Ended, _) \<Rightarrow> st
      | (Deriving, Derive a) \<Rightarrow> derive_device w a st
      | (Deriving, _) \<Rightarrow> st
      | (_, LifecycleChanged) \<Rightarrow> goto Deriving st
      | (_, LifecycleClosed) \<Rightarrow> goto Ended st
      | (NoDevice, FeedsClosed) \<Rightarrow> goto Ended st
      | (NoDevice, _) \<Rightarrow> (if armed w i then goto Deriving (serve_tick w i st) else st)
      | (BusFailed, _) \<Rightarrow> st
      | (Streaming, FeedsClosed) \<Rightarrow> goto Ended st
      | (Streaming, BusClosed) \<Rightarrow> goto Deriving st
      | (Streaming, BusFrame n self_change) \<Rightarrow>
          (case project_notify n self_change of None \<Rightarrow> st | Some v \<Rightarrow> write_notify w v st)
      | (Streaming, _) \<Rightarrow> serve_tick w i st)"

definition run_stream :: "watcher \<Rightarrow> input list \<Rightarrow> stream \<Rightarrow> stream" where
  "run_stream w is st = fold (stream_step w) is st"

section \<open>Properties\<close>

text \<open>A frame as it may be written at any time: no status snapshot, and the feeds only if asked for.\<close>

definition plain_view :: "watcher \<Rightarrow> NotifyView \<Rightarrow> bool" where
  "plain_view w v \<longleftrightarrow> nv_version v = None \<and> nv_initial_status v = None \<and>
     (nv_prefs v \<noteq> None \<longrightarrow> wm_prefs (wt_mask w)) \<and> (nv_policy v \<noteq> None \<longrightarrow> wm_policy (wt_mask w))"

text \<open>\<open>i\<close> is the session id the watch is owed.\<close>

definition sent_ok :: "watcher \<Rightarrow> string option \<Rightarrow> NotifyView list \<Rightarrow> bool" where
  "sent_ok w i fs \<longleftrightarrow>
     (\<forall>v \<in> set fs. nv_version v = Some (wt_version w) \<and> (nv_prefs v \<noteq> None \<longrightarrow> wm_prefs (wt_mask w)) \<and>
        (nv_policy v \<noteq> None \<longrightarrow> wm_policy (wt_mask w))) \<and>
     (fs \<noteq> [] \<longrightarrow> nv_session_id (hd fs) = i \<and>
        (nv_initial_status (hd fs) \<noteq> None \<longleftrightarrow> wm_status (wt_mask w)) \<and>
        (\<forall>v \<in> set (tl fs). nv_session_id v = None \<and> nv_initial_status v = None))"

definition stream_ok :: "watcher \<Rightarrow> string option \<Rightarrow> stream \<Rightarrow> bool" where
  "stream_ok w i st \<longleftrightarrow> sent_ok w i (st_sent st) \<and>
     (st_phase st \<noteq> Ended \<longrightarrow>
        (if st_sent st = [] then st_pending_id st = i \<and> st_status_pending st = wm_status (wt_mask w)
         else st_pending_id st = None \<and> \<not> st_status_pending st))"

text \<open>Once no status is owed, the preferences and the policy that were asked for have been sent.\<close>

definition fronted :: "watcher \<Rightarrow> stream \<Rightarrow> bool" where
  "fronted w st \<longleftrightarrow> (st_phase st \<noteq> Ended \<longrightarrow>
     (wm_prefs (wt_mask w) \<longrightarrow> (\<exists>v \<in> set (st_sent st). nv_prefs v \<noteq> None)) \<and>
     (wm_policy (wt_mask w) \<longrightarrow> (\<exists>v \<in> set (st_sent st). nv_policy v \<noteq> None)))"

definition settled :: "watcher \<Rightarrow> string option \<Rightarrow> stream \<Rightarrow> bool" where
  "settled w i st \<longleftrightarrow> stream_ok w i st \<and> \<not> st_status_pending st"

lemma sent_ok_append:
  "fs \<noteq> [] \<Longrightarrow> sent_ok w i fs \<Longrightarrow> plain_view w v \<Longrightarrow> sent_ok w i (fs @ [stamp w None v])"
  by (auto simp: sent_ok_def plain_view_def stamp_def)

lemma write_settled:
  assumes "settled w i st" "plain_view w v"
  shows "settled w i (write_notify w v st)"
proof (cases "st_phase st = Ended \<or> wt_gone w (length (st_sent st))")
  case True
  with assms show ?thesis by (auto simp: write_notify_def stream_ok_def settled_def)
next
  case False
  show ?thesis
  proof (cases "st_sent st = []")
    case True
    with False assms show ?thesis
      by (auto simp: write_notify_def stream_ok_def sent_ok_def plain_view_def stamp_def settled_def)
  next
    case nonempty: False
    with False assms sent_ok_append [OF nonempty] show ?thesis
      by (auto simp: write_notify_def stream_ok_def settled_def)
  qed
qed

lemma write_fronted: "fronted w st \<Longrightarrow> fronted w (write_notify w v st)"
  by (auto simp: fronted_def write_notify_def)

lemma write_pending_id:
  "st_phase (write_notify w v st) \<noteq> Ended \<Longrightarrow> st_pending_id (write_notify w v st) = None"
  by (auto simp: write_notify_def split: if_splits)

lemma plain_empty [simp]: "plain_view w empty_view"
  by (simp add: plain_view_def empty_view_def)

lemma project_notify_plain:
  "project_notify n sc = Some v \<Longrightarrow> plain_view w v \<and> nv_prefs v = None \<and> nv_policy v = None"
  by (auto simp: project_notify_def plain_view_def empty_view_def Let_def split: option.splits prod.splits if_splits)

lemma emits_settled:
  assumes "settled w i st"
  shows "wm_prefs (wt_mask w) \<Longrightarrow> settled w i (emit_prefs_frame w p st)"
    and "wm_policy (wt_mask w) \<Longrightarrow> settled w i (emit_policy_frame w rows st)"
    and "settled w i (emit_suggested_exit_node_frame w x st)"
    and "settled w i (flush_session_id w st)"
    and "settled w i (emit_suggestion_front_load w r x st)"
proof -
  have plain: "wm_prefs (wt_mask w) \<Longrightarrow> plain_view w (empty_view\<lparr>nv_prefs := Some p\<rparr>)"
    "wm_policy (wt_mask w) \<Longrightarrow> plain_view w (empty_view\<lparr>nv_policy := Some rows\<rparr>)"
    "plain_view w (empty_view\<lparr>nv_suggested_exit_node := Some y\<rparr>)" for y
    by (simp_all add: plain_view_def empty_view_def)
  show "wm_prefs (wt_mask w) \<Longrightarrow> settled w i (emit_prefs_frame w p st)"
    and "wm_policy (wt_mask w) \<Longrightarrow> settled w i (emit_policy_frame w rows st)"
    and sug: "settled w i (emit_suggested_exit_node_frame w x st)"
    and "settled w i (flush_session_id w st)"
    using assms plain
    by (auto simp: emit_prefs_frame_def emit_policy_frame_def emit_suggested_exit_node_frame_def
        flush_session_id_def intro!: write_settled)
  show "settled w i (emit_suggestion_front_load w r x st)"
    using assms plain(3)
    by (auto simp: emit_suggestion_front_load_def emit_suggested_exit_node_frame_def Let_def
        split: option.split intro!: write_settled)
qed

lemma emits_fronted:
  assumes "fronted w st"
  shows "fronted w (emit_prefs_frame w p st)" and "fronted w (emit_policy_frame w rows st)"
    and "fronted w (emit_suggested_exit_node_frame w x st)" and "fronted w (flush_session_id w st)"
    and "fronted w (emit_suggestion_front_load w r x st)"
  using assms
  by (auto simp: emit_prefs_frame_def emit_policy_frame_def emit_suggested_exit_node_frame_def flush_session_id_def
      emit_suggestion_front_load_def Let_def split: option.split intro!: write_fronted)

lemma suggestion_flag [simp]:
  "settled w i (st\<lparr>st_suggestion_pending := b\<rparr>) = settled w i st"
  "fronted w (st\<lparr>st_suggestion_pending := b\<rparr>) = fronted w st"
  by (auto simp: settled_def stream_ok_def fronted_def)

lemma settle_suggestion_keeps:
  "settled w i st \<Longrightarrow> settled w i (settle_suggestion w a st)"
  "fronted w st \<Longrightarrow> fronted w (settle_suggestion w a st)"
  by (auto simp: settle_suggestion_def Let_def split: option.split intro!: emits_settled emits_fronted)

lemma status_frame_settled:
  assumes "stream_ok w i st" "st_status_pending st"
    and "\<And>v. ei = Some v \<Longrightarrow> plain_view w v"
  shows "settled w i (write_notify w (with_initial_status ei r) (st\<lparr>st_status_pending := False\<rparr>))"
proof (cases ei)
  case None
  with assms show ?thesis
    by (auto simp: settled_def stream_ok_def write_notify_def with_initial_status_def sent_ok_def stamp_def
        empty_view_def unwrap_or_def split: if_splits)
next
  case (Some v)
  with assms(3) have "plain_view w v" by simp
  with assms Some show ?thesis
    by (auto simp: settled_def stream_ok_def write_notify_def with_initial_status_def sent_ok_def stamp_def
        plain_view_def unwrap_or_def split: if_splits)
qed

lemma emit_prefs_fronts:
  "st_phase (emit_prefs_frame w p st) \<noteq> Ended \<Longrightarrow> \<exists>v \<in> set (st_sent (emit_prefs_frame w p st)). nv_prefs v \<noteq> None"
  by (auto simp: emit_prefs_frame_def write_notify_def stamp_def split: if_splits)

lemma emit_policy_fronts:
  "st_phase (emit_policy_frame w p st) \<noteq> Ended \<Longrightarrow> \<exists>v \<in> set (st_sent (emit_policy_frame w p st)). nv_policy v \<noteq> None"
  by (auto simp: emit_policy_frame_def write_notify_def stamp_def split: if_splits)

lemma emit_policy_sent:
  "set (st_sent st) \<subseteq> set (st_sent (emit_policy_frame w p st))"
  "st_phase (emit_policy_frame w p st) \<noteq> Ended \<Longrightarrow> st_phase st \<noteq> Ended"
  by (auto simp: emit_policy_frame_def write_notify_def split: if_splits)

text \<open>The two daemon-built front loads, in the order both callers send them.\<close>

lemma loads_fronted:
  "fronted w (let st1 = (if wm_prefs (wt_mask w) then emit_prefs_frame w p st else st)
     in if wm_policy (wt_mask w) then emit_policy_frame w rows st1 else st1)"
  using emit_prefs_fronts [of w p st] subsetD [OF emit_policy_sent(1) [of "emit_prefs_frame w p st" w rows]]
    emit_policy_sent(2) [of w rows "emit_prefs_frame w p st"] emit_policy_fronts [of w rows]
  unfolding fronted_def Let_def by fastforce

lemma loads_settled:
  "settled w i st \<Longrightarrow> settled w i (let st1 = (if wm_prefs (wt_mask w) then emit_prefs_frame w p st else st)
     in if wm_policy (wt_mask w) then emit_policy_frame w rows st1 else st1)"
  by (auto simp: Let_def intro!: emits_settled)

lemma settle_status_settled:
  assumes "stream_ok w i st" "\<And>v. ei = Some v \<Longrightarrow> plain_view w v"
  shows "settled w i (settle_status w a ei st)"
  using assms status_frame_settled [OF assms(1) _ assms(2)]
  unfolding settle_status_def emit_status_front_loads_def
  by (auto simp: Let_def settled_def [of w i st] intro!: emits_settled)

lemma settle_status_fronted: "st_status_pending st \<or> fronted w st \<Longrightarrow> fronted w (settle_status w a ei st)"
  unfolding settle_status_def emit_status_front_loads_def
  using loads_fronted [where w = w and p = "an_prefs a" and rows = "an_policy a"] by (auto simp: Let_def)

section \<open>The invariant\<close>

text \<open>
  While the stream derives a device the status may still be owed; past that point it is settled, and a
  parked stream owes no session id.
\<close>

definition stream_inv :: "watcher \<Rightarrow> string option \<Rightarrow> stream \<Rightarrow> bool" where
  "stream_inv w i st \<longleftrightarrow> stream_ok w i st \<and> (st_status_pending st \<or> fronted w st) \<and>
     (st_phase st \<in> {NoDevice, BusFailed, Streaming} \<longrightarrow> \<not> st_status_pending st) \<and>
     (st_phase st \<in> {NoDevice, BusFailed} \<longrightarrow> st_pending_id st = None)"

lemma goto_settled [simp]:
  "p \<noteq> Ended \<Longrightarrow> settled w i (goto p st) = settled w i st"
  "p \<noteq> Ended \<Longrightarrow> fronted w (goto p st) = fronted w st"
  by (auto simp: goto_def settled_def stream_ok_def fronted_def)

lemma goto_facts [simp]:
  "st_pending_id (goto p st) = st_pending_id st" "st_sent (goto p st) = st_sent st"
  "st_status_pending (goto p st) = st_status_pending st"
  "st_phase (goto p st) = (if st_phase st = Ended then Ended else p)"
  by (simp_all add: goto_def)

lemma settled_inv:
  assumes "settled w i st" "fronted w st" "st_phase st \<in> {NoDevice, BusFailed} \<Longrightarrow> st_pending_id st = None"
  shows "stream_inv w i st"
  using assms by (auto simp: stream_inv_def settled_def)

lemma ended_inv: "st_phase st = Ended \<Longrightarrow> sent_ok w i (st_sent st) \<Longrightarrow> stream_inv w i st"
  by (simp add: stream_inv_def stream_ok_def fronted_def)

lemma flushed: "st_phase (flush_session_id w st) \<noteq> Ended \<Longrightarrow> st_pending_id (flush_session_id w st) = None"
  by (auto simp: flush_session_id_def write_pending_id split: if_splits)

lemma requested_initial_plain: "requested_initial w a = Some v \<Longrightarrow> plain_view w v"
  by (auto simp: requested_initial_def project_notify_plain split: option.splits)

lemma derive_device_inv:
  assumes "stream_ok w i st" "st_status_pending st \<or> fronted w st"
  shows "stream_inv w i (derive_device w a st)"
proof -
  let ?st1 = "if st_status_pending st then st else settle_suggestion w a st"
  have ok1: "stream_ok w i ?st1" and f1: "st_status_pending ?st1 \<or> fronted w ?st1"
    using assms settle_suggestion_keeps(1) [of w i st a] settle_suggestion_keeps(2) [of w st a]
    by (auto simp: settled_def)
  have none: "settled w i (settle_status w a None s)" if "stream_ok w i s" for s
    by (rule settle_status_settled [OF that]) simp
  have req: "settled w i (settle_status w a (requested_initial w a) s)" if "stream_ok w i s" for s
    by (rule settle_status_settled [OF that]) (rule requested_initial_plain)
  have s1: "settled w i ?st1" if "\<not> st_status_pending ?st1"
    using ok1 that by (simp add: settled_def)
  note keep = none req settle_status_fronted settle_suggestion_keeps emits_settled(4) emits_fronted(4)
  consider "\<not> an_device a" | "an_device a" "\<not> an_bus a" | "an_device a" "an_bus a" by blast
  then show ?thesis
  proof cases
    case 1
    with assms show ?thesis
      by (auto simp: derive_device_def flushed intro!: settled_inv keep split: if_splits)
  next
    case 2
    with ok1 f1 s1 show ?thesis
      unfolding derive_device_def Let_def
      by (auto simp: flushed intro!: settled_inv keep split: if_splits)
  next
    case 3
    with ok1 f1 s1 show ?thesis
      unfolding derive_device_def Let_def
      by (auto intro!: settled_inv keep split: if_splits)
  qed
qed

lemma serve_tick_keeps:
  "settled w i st \<Longrightarrow> settled w i (serve_tick w x st)"
  "fronted w st \<Longrightarrow> fronted w (serve_tick w x st)"
  by (auto simp: serve_tick_def armed_def split: input.split intro!: emits_settled emits_fronted)

lemma ended_goto_inv: "stream_inv w i st \<Longrightarrow> stream_inv w i (goto Ended st)"
  by (auto simp: stream_inv_def goto_def stream_ok_def fronted_def)

lemma deriving_inv: "stream_ok w i st \<Longrightarrow> st_status_pending st \<or> fronted w st \<Longrightarrow> stream_inv w i (goto Deriving st)"
  by (auto simp: stream_inv_def goto_def stream_ok_def fronted_def)

lemma stream_step_inv:
  assumes "stream_inv w i st"
  shows "stream_inv w i (stream_step w x st)"
proof (cases "st_phase st")
  case Deriving
  with assms show ?thesis
    by (auto simp: stream_step_def stream_inv_def [of w i st] intro: derive_device_inv split: input.split)
next
  case Ended
  with assms show ?thesis by (simp add: stream_step_def)
next
  case NoDevice
  with assms have s: "settled w i st" "fronted w st" by (auto simp: stream_inv_def settled_def)
  then have t: "stream_inv w i (goto Deriving (serve_tick w x st))" for x
    using serve_tick_keeps(1) [of w i st x] serve_tick_keeps(2) [of w st x]
    by (intro deriving_inv) (auto simp: settled_def)
  from s NoDevice assms show ?thesis
    by (auto simp: stream_step_def settled_def armed_def split: input.split
        intro!: ended_goto_inv deriving_inv t)
next
  case BusFailed
  with assms have s: "settled w i st" "fronted w st" by (auto simp: stream_inv_def settled_def)
  with BusFailed assms show ?thesis
    by (auto simp: stream_step_def settled_def split: input.split intro!: ended_goto_inv deriving_inv)
next
  case Streaming
  with assms have s: "settled w i st" "fronted w st" by (auto simp: stream_inv_def settled_def)
  have keep: "st_phase (serve_tick w x st) \<notin> {NoDevice, BusFailed}" "st_phase (write_notify w v st) \<notin> {NoDevice, BusFailed}" for v
    using Streaming
    by (auto simp: serve_tick_def write_notify_def emit_prefs_frame_def emit_policy_frame_def
        emit_suggested_exit_node_frame_def split: input.split)
  have "stream_inv w i (serve_tick w x st)"
    by (rule settled_inv) (use serve_tick_keeps s keep in auto)
  moreover have "stream_inv w i (write_notify w v st)" if "plain_view w v" for v
    by (rule settled_inv) (use write_settled [OF s(1) that] write_fronted [OF s(2)] keep in auto)
  moreover note project_notify_plain
  ultimately show ?thesis
    using s Streaming assms unfolding stream_step_def
    by (auto simp: settled_def split: input.split option.split intro!: ended_goto_inv deriving_inv)
qed

lemma start_stream_inv:
  "stream_inv w (if wm_state (wt_mask w) then drawn else None) (start_stream w drawn p rows)"
proof -
  let ?m = "wt_mask w" and ?i = "if wm_state (wt_mask w) then drawn else None"
  define st where "st = \<lparr>st_phase = (if wm_state ?m \<and> drawn = None then Ended else Deriving),
    st_pending_id = ?i, st_status_pending = wm_status ?m, st_suggestion_pending = wm_suggested ?m, st_sent = []\<rparr>"
  have ok: "stream_ok w ?i st"
    by (simp add: st_def stream_ok_def sent_ok_def)
  show ?thesis
  proof (cases "wm_status ?m")
    case True
    then have "start_stream w drawn p rows = st"
      by (simp add: start_stream_def st_def Let_def)
    with ok True show ?thesis by (simp add: stream_inv_def st_def)
  next
    case False
    let ?r = "let st1 = (if wm_prefs ?m then emit_prefs_frame w p st else st)
      in if wm_policy ?m then emit_policy_frame w rows st1 else st1"
    have eq: "start_stream w drawn p rows = ?r"
      using False by (simp add: start_stream_def st_def Let_def)
    have "settled w ?i st" using ok False by (simp add: settled_def st_def)
    then have "settled w ?i ?r" by (rule loads_settled)
    moreover have "st_phase ?r \<notin> {NoDevice, BusFailed}"
      by (auto simp: Let_def emit_prefs_frame_def emit_policy_frame_def write_notify_def st_def)
    ultimately show ?thesis
      unfolding eq using loads_fronted [of w p st rows] by (intro settled_inv) auto
  qed
qed

lemma run_stream_inv:
  "stream_inv w (if wm_state (wt_mask w) then drawn else None) (run_stream w is (start_stream w drawn p rows))"
proof -
  have "stream_inv w i st \<Longrightarrow> stream_inv w i (run_stream w is st)" for i st
    unfolding run_stream_def by (induction "is" arbitrary: st) (auto intro: stream_step_inv)
  then show ?thesis using start_stream_inv by blast
qed

lemma undrawn_ends:
  assumes "wm_state (wt_mask w)"
  shows "run_stream w is (start_stream w None p rows) = start_stream w None p rows"
    and "st_phase (start_stream w None p rows) = Ended" and "st_sent (start_stream w None p rows) = []"
proof -
  show e: "st_phase (start_stream w None p rows) = Ended" and "st_sent (start_stream w None p rows) = []"
    using assms by (auto simp: start_stream_def emit_prefs_frame_def emit_policy_frame_def write_notify_def Let_def)
  have "st_phase st = Ended \<Longrightarrow> run_stream w is st = st" for st
    unfolding run_stream_def by (induction "is") (simp_all add: stream_step_def)
  with e show "run_stream w is (start_stream w None p rows) = start_stream w None p rows" by blast
qed

section \<open>The watch's promises\<close>


text \<open>
  A watch that is parked (no device, or a bus that could not be attached) or forwarding a bus has been
  sent every front load of the daemon it asked for, the status snapshot included, and a parked one owes no
  session id: a client that asked for the id or the snapshot and waits for one frame is never left waiting
  for the next \<open>up\<close>.
\<close>

theorem notify_front_loads:
  assumes "st = run_stream w is (start_stream w drawn p rows)"
    and "st_phase st \<in> {NoDevice, BusFailed, Streaming}"
  shows "(wm_prefs (wt_mask w) \<longrightarrow> (\<exists>v \<in> set (st_sent st). nv_prefs v \<noteq> None)) \<and>
    (wm_policy (wt_mask w) \<longrightarrow> (\<exists>v \<in> set (st_sent st). nv_policy v \<noteq> None)) \<and>
    (wm_status (wt_mask w) \<longrightarrow> (\<exists>v \<in> set (st_sent st). nv_initial_status v \<noteq> None)) \<and>
    (wm_state (wt_mask w) \<and> st_phase st \<noteq> Streaming \<longrightarrow> (\<exists>v \<in> set (st_sent st). nv_session_id v = drawn \<and> drawn \<noteq> None))"
proof -
  let ?i = "if wm_state (wt_mask w) then drawn else None"
  have inv: "stream_inv w ?i st" using run_stream_inv [of w drawn "is" p rows] assms(1) by simp
  with assms(2) have ok: "sent_ok w ?i (st_sent st)" and live: "st_phase st \<noteq> Ended"
    and fr: "fronted w st" and owed: "st_sent st = [] \<Longrightarrow> st_pending_id st = ?i \<and> \<not> wm_status (wt_mask w)"
    and parked: "st_phase st \<noteq> Streaming \<Longrightarrow> st_pending_id st = None"
    by (auto simp: stream_inv_def stream_ok_def split: if_splits)
  have drawn: "drawn \<noteq> None" if "wm_state (wt_mask w)"
    using undrawn_ends(1) [OF that, of "is" p rows] undrawn_ends(2) [OF that, of p rows] live assms(1) by (cases drawn) auto
  have hd: "st_sent st \<noteq> [] \<Longrightarrow> hd (st_sent st) \<in> set (st_sent st)" by simp
  have status: "\<exists>v \<in> set (st_sent st). nv_initial_status v \<noteq> None" if "wm_status (wt_mask w)"
    using ok owed hd that unfolding sent_ok_def by blast
  have session: "\<exists>v \<in> set (st_sent st). nv_session_id v = drawn \<and> drawn \<noteq> None"
    if m: "wm_state (wt_mask w)" and ph: "st_phase st \<noteq> Streaming"
  proof -
    have "st_sent st \<noteq> []" using owed parked [OF ph] drawn [OF m] m by auto
    with ok hd drawn [OF m] m show ?thesis unfolding sent_ok_def by auto
  qed
  from fr live status session show ?thesis unfolding fronted_def by blast
qed

definition demo_watcher :: watcher where
  "demo_watcher = \<lparr>wt_mask = \<lparr>wm_state = True, wm_netmap = False, wm_prefs = True, wm_policy = False, wm_suggested = False,
     wm_status = True\<rparr>, wt_version = ''1'', wt_gone = (\<lambda>n. n = 5)\<rparr>"

definition demo_answers :: answers where
  "demo_answers = \<lparr>an_device = False, an_report = \<lparr>st_state = ''Stopped'', st_self_ipv4 = None, st_self_ipv6 = None,
     st_magic_dns_suffix = None, st_peers = []\<rparr>, an_prefs = prefs_view False demo_backend, an_policy = [],
     an_suggestion = None, an_bus = False, an_first = None, an_self = None\<rparr>"

lemmas demo_stream_simps = run_stream_def start_stream_def stream_step_def derive_device_def settle_status_def
  emit_status_front_loads_def write_notify_def flush_session_id_def stamp_def with_initial_status_def goto_def
  emit_prefs_frame_def demo_watcher_def demo_answers_def empty_view_def unwrap_or_def

abbreviation demo_run :: stream where
  "demo_run \<equiv> run_stream demo_watcher [Derive demo_answers]
     (start_stream demo_watcher (Some ''ab'') (prefs_view False demo_backend) [])"


theorem notify_front_loads_witness:
  "st_phase demo_run = NoDevice \<and> (\<exists>v \<in> set (st_sent demo_run). nv_session_id v = Some ''ab'')"
proof -
  have p: "st_phase demo_run = NoDevice" by (simp add: demo_stream_simps)
  moreover have "wm_state (wt_mask demo_watcher)" by (simp add: demo_watcher_def)
  ultimately show ?thesis using notify_front_loads [OF refl, of demo_watcher] by auto
qed

end
