(* ===== verification/Utf8Chars.thy ===== *)
theory Utf8Chars
  imports Utf8
begin

text \<open>The characters of a byte string read as UTF-8, and the lossy reading of arbitrary bytes.\<close>

section \<open>Characters\<close>

text \<open>
  The first character of a byte string: its length, and whether it is well formed; of a malformed sequence
  the length of the part that is replaced as a whole.
\<close>

definition utf8_step :: "string \<Rightarrow> nat \<times> bool" where
  "utf8_step s =
     (let b = (\<lambda>i. s ! i); has = (\<lambda>i. i < length s); l = byte (b 0) in
      if l < 128 then (1, True)
      else if 194 \<le> l \<and> l \<le> 223 then (if has 1 \<and> utf8_cont (b 1) then (2, True) else (1, False))
      else if 224 \<le> l \<and> l \<le> 239 then
        (if has 1 \<and> utf8_second l (b 1) then (if has 2 \<and> utf8_cont (b 2) then (3, True) else (2, False)) else (1, False))
      else if 240 \<le> l \<and> l \<le> 244 then
        (if has 1 \<and> utf8_second l (b 1) then
           (if has 2 \<and> utf8_cont (b 2) then (if has 3 \<and> utf8_cont (b 3) then (4, True) else (3, False)) else (2, False))
         else (1, False))
      else (1, False))"

lemma utf8_step_pos: "0 < fst (utf8_step s)"
  by (simp add: utf8_step_def Let_def)

text \<open>\<open>chars\<close> of a well-formed string, each as its bytes.\<close>

function utf8_chars :: "string \<Rightarrow> string list" where
  "utf8_chars s = (if s = [] then [] else take (fst (utf8_step s)) s # utf8_chars (drop (fst (utf8_step s)) s))"
  by pat_completeness auto
termination by (relation "measure length") (auto simp: utf8_step_pos)

declare utf8_chars.simps [simp del]

text \<open>\<open>String::from_utf8_lossy\<close>.\<close>

definition replacement_char :: string where
  "replacement_char = [char_of (239 :: nat), char_of (191 :: nat), char_of (189 :: nat)]"

function from_utf8_lossy :: "string \<Rightarrow> string" where
  "from_utf8_lossy s =
     (if s = [] then []
      else (if snd (utf8_step s) then take (fst (utf8_step s)) s else replacement_char) @
        from_utf8_lossy (drop (fst (utf8_step s)) s))"
  by pat_completeness auto
termination by (relation "measure length") (auto simp: utf8_step_pos)

declare from_utf8_lossy.simps [simp del]

text \<open>\<open>char::is_control\<close>: the C0 controls, DEL and the C1 controls.\<close>

definition is_control :: "string \<Rightarrow> bool" where
  "is_control ch \<longleftrightarrow>
     (length ch = 1 \<and> (byte (ch ! 0) < 32 \<or> byte (ch ! 0) = 127)) \<or>
     (length ch = 2 \<and> byte (ch ! 0) = 194 \<and> 128 \<le> byte (ch ! 1) \<and> byte (ch ! 1) < 160)"

lemma utf8_chars_Nil [simp]: "utf8_chars [] = []" "from_utf8_lossy [] = []"
  by (subst utf8_chars.simps, simp) (subst from_utf8_lossy.simps, simp)

lemma concat_utf8_chars: "concat (utf8_chars s) = s"
proof (induction s rule: utf8_chars.induct)
  case (1 s)
  then show ?case by (cases "s = []") (simp_all add: utf8_chars.simps [of s])
qed

lemma utf8_chars_not_Nil: "ch \<in> set (utf8_chars s) \<Longrightarrow> ch \<noteq> []"
proof (induction s rule: utf8_chars.induct)
  case (1 s)
  then show ?case using utf8_step_pos [of s] by (cases "s = []") (auto simp: utf8_chars.simps [of s])
qed

text \<open>A character of several bytes has no ASCII byte.\<close>

lemma utf8_step_high:
  assumes "i < fst (utf8_step s)" "fst (utf8_step s) \<noteq> 1"
  shows "128 \<le> byte (s ! i)"
proof -
  have "fst (utf8_step s) = 2 \<or> fst (utf8_step s) = 3 \<or> fst (utf8_step s) = 4"
    using assms(2) by (auto simp: utf8_step_def Let_def split: if_splits)
  moreover have "128 \<le> byte (s ! 0)"
    using assms(2) by (auto simp: utf8_step_def Let_def split: if_splits)
  moreover have "128 \<le> byte (s ! 1)"
    using assms(2) by (auto simp: utf8_step_def Let_def utf8_second_def utf8_cont_def split: if_splits)
  moreover have "128 \<le> byte (s ! 2)" if "2 < fst (utf8_step s)"
    using that by (auto simp: utf8_step_def Let_def utf8_cont_def split: if_splits)
  moreover have "128 \<le> byte (s ! 3)" if "3 < fst (utf8_step s)"
    using that by (auto simp: utf8_step_def Let_def utf8_cont_def split: if_splits)
  moreover have "i = 0 \<or> i = 1 \<or> i = 2 \<or> i = 3" if "i < 4" using that by linarith
  ultimately show ?thesis using assms(1) by fastforce
qed

lemma utf8_step_ascii:
  assumes "s \<noteq> []" "c \<in> set (take (fst (utf8_step s)) s)" "byte c < 128"
  shows "take (fst (utf8_step s)) s = [c]"
proof (cases "fst (utf8_step s) = 1")
  case True
  with assms show ?thesis by (cases s) auto
next
  case False
  obtain i where "i < fst (utf8_step s)" "s ! i = c" using assms(2) by (auto simp: in_set_conv_nth)
  with utf8_step_high [OF _ False, of i] assms(3) show ?thesis by simp
qed

lemma utf8_chars_ascii: "ch \<in> set (utf8_chars s) \<Longrightarrow> c \<in> set ch \<Longrightarrow> byte c < 128 \<Longrightarrow> ch = [c]"
proof (induction s rule: utf8_chars.induct)
  case (1 s)
  have s: "s \<noteq> []" using 1(2) by auto
  then have "ch = take (fst (utf8_step s)) s \<or> ch \<in> set (utf8_chars (drop (fst (utf8_step s)) s))"
    using 1(2) by (subst (asm) utf8_chars.simps) simp
  then show ?case
  proof
    assume "ch = take (fst (utf8_step s)) s"
    with utf8_step_ascii [OF s _ 1(4)] 1(3) show ?thesis by simp
  next
    assume "ch \<in> set (utf8_chars (drop (fst (utf8_step s)) s))"
    with 1(1) s 1(3,4) show ?thesis by blast
  qed
qed

section \<open>Splitting once\<close>

text \<open>\<open>split_once\<close> and \<open>rsplit_once\<close>.\<close>

fun split_once :: "char \<Rightarrow> string \<Rightarrow> (string \<times> string) option" where
  "split_once s [] = None"
| "split_once s (c # cs) =
     (if c = s then Some ([], cs) else case split_once s cs of None \<Rightarrow> None | Some (a, b) \<Rightarrow> Some (c # a, b))"

definition rsplit_once :: "char \<Rightarrow> string \<Rightarrow> (string \<times> string) option" where
  "rsplit_once s x = map_option (\<lambda>(a, b). (rev b, rev a)) (split_once s (rev x))"

lemma split_once_Some: "split_once s x = Some (a, b) \<longleftrightarrow> x = a @ s # b \<and> s \<notin> set a"
proof (induction x arbitrary: a)
  case (Cons c x)
  have "c # x = a @ s # b \<and> s \<notin> set a \<longleftrightarrow>
      (if c = s then a = [] \<and> b = x else \<exists>a'. a = c # a' \<and> x = a' @ s # b \<and> s \<notin> set a')"
    by (cases a) auto
  then show ?case
    by (cases "split_once s x") (simp_all only: split_once.simps option.case prod.case Cons.IH [symmetric], auto)
qed simp

lemma rsplit_once_Some: "rsplit_once s x = Some (a, b) \<longleftrightarrow> x = a @ s # b \<and> s \<notin> set b"
proof -
  have "rsplit_once s x = Some (a, b) \<longleftrightarrow> split_once s (rev x) = Some (rev b, rev a)"
    by (auto simp: rsplit_once_def)
  also have "\<dots> \<longleftrightarrow> rev x = rev (a @ s # b) \<and> s \<notin> set b" by (simp add: split_once_Some)
  finally show ?thesis by (simp only: rev_is_rev_conv)
qed

end
