(* ===== verification/PortmapWire.thy ===== *)
theory PortmapWire
  imports Utf8Chars "HOL-Library.Word" "HOL-Library.List_Lexorder" "HOL-Library.Char_ord"
begin

text \<open>
  The datagrams of the port-mapping client (\<open>src/src/portmap.rs\<close>): NAT-PMP (RFC 6886), PCP (RFC 6887) and SSDP
  discovery. A datagram is a list of bytes; multi-byte fields are big endian at their widths.
\<close>

unbundle bit_operations_syntax

section \<open>Bytes\<close>

type_synonym bytes = "8 word list"

primrec be_bytes :: "nat \<Rightarrow> 'a::len word \<Rightarrow> bytes" where
  "be_bytes 0 w = []"
| "be_bytes (Suc n) w = be_bytes n (drop_bit 8 w) @ [ucast w]"

definition from_be :: "bytes \<Rightarrow> 'a::len word" where
  "from_be bs = foldl (\<lambda>acc b. push_bit 8 acc OR ucast b) 0 bs"

definition slice :: "nat \<Rightarrow> nat \<Rightarrow> bytes \<Rightarrow> bytes" where
  "slice a b pkt = take (b - a) (drop a pkt)"

text \<open>\<open>pkt[off..].copy_from_slice(bs)\<close> within the packet.\<close>

definition put :: "nat \<Rightarrow> bytes \<Rightarrow> bytes \<Rightarrow> bytes" where
  "put off bs pkt = take off pkt @ bs @ drop (off + length bs) pkt"

definition text_of :: "bytes \<Rightarrow> string" where
  "text_of bs = map (\<lambda>b. char_of (unat b)) bs"

definition bytes_of :: "string \<Rightarrow> bytes" where
  "bytes_of s = map (\<lambda>c. word_of_nat (of_char c)) s"

lemma length_be_bytes [simp]: "length (be_bytes n w) = n"
  by (induction n arbitrary: w) auto

lemma from_be_append: "from_be (bs @ [b]) = push_bit 8 (from_be bs) OR ucast b"
  by (simp add: from_be_def)

lemma from_be_bytes: "from_be (be_bytes n (w :: 'a::len word)) = take_bit (8 * n) w"
proof (induction n arbitrary: w)
  case 0
  show ?case by (simp add: from_be_def)
next
  case (Suc n)
  have "push_bit 8 (take_bit (8 * n) (drop_bit 8 w)) OR ucast (ucast w :: 8 word) = take_bit (8 * Suc n) w"
    by (rule bit_word_eqI) (auto simp: bit_simps)
  with Suc show ?case by (simp add: from_be_append)
qed

lemma from_be_bytes_full: "LENGTH('a::len) \<le> 8 * n \<Longrightarrow> from_be (be_bytes n (w :: 'a word)) = w"
  by (simp add: from_be_bytes take_bit_word_eq_self)

lemma length_put: "off + length bs \<le> length pkt \<Longrightarrow> length (put off bs pkt) = length pkt"
  by (simp add: put_def)

section \<open>Addresses\<close>

definition to_v6 :: "ipaddr \<Rightarrow> 128 word" where
  "to_v6 ip = (case ip of V4 v \<Rightarrow> push_bit 32 (mask 16) OR ucast v | V6 v \<Rightarrow> v)"

definition as16 :: "ipaddr \<Rightarrow> bytes" where
  "as16 ip = be_bytes 16 (to_v6 ip)"

text \<open>\<open>Ipv6Addr::to_ipv4_mapped\<close>: the segments are five zeros, \<open>ffff\<close> and the IPv4 address.\<close>

definition unmap :: "128 word \<Rightarrow> ipaddr" where
  "unmap v = (if drop_bit 32 v = mask 16 then V4 (ucast v) else V6 v)"

definition is_private :: "32 word \<Rightarrow> bool" where
  "is_private v \<longleftrightarrow> drop_bit 24 v = 10 \<or> drop_bit 20 v = 0xAC1 \<or> drop_bit 16 v = 0xC0A8"

lemma unmap_to_v6: "unmap (to_v6 ip) = (case ip of V4 v \<Rightarrow> V4 v | V6 v \<Rightarrow> unmap v)"
proof (cases ip)
  case (V4 v)
  have "drop_bit 32 (to_v6 ip) = mask 16"
    unfolding to_v6_def V4 ipaddr.case
    by (rule bit_word_eqI) (auto simp: bit_simps dest: bit_imp_le_length)
  moreover have "ucast (to_v6 ip) = v"
    unfolding to_v6_def V4 ipaddr.case
    by (rule bit_word_eqI) (auto simp: bit_simps dest: bit_imp_le_length)
  ultimately show ?thesis by (simp add: unmap_def V4)
next
  case (V6 v)
  then show ?thesis by (simp add: to_v6_def)
qed

section \<open>NAT-PMP\<close>

definition PXP_PORT :: "16 word" where "PXP_PORT = 5351"
definition MAP_LIFETIME_SEC :: "32 word" where "MAP_LIFETIME_SEC = 7200"
definition MAP_LIFETIME_DELETE :: "32 word" where "MAP_LIFETIME_DELETE = 0"
definition PMP_VERSION :: "8 word" where "PMP_VERSION = 0"
definition PMP_OP_MAP_PUBLIC_ADDR :: "8 word" where "PMP_OP_MAP_PUBLIC_ADDR = 0"
definition PMP_OP_MAP_UDP :: "8 word" where "PMP_OP_MAP_UDP = 1"
definition PMP_OP_REPLY :: "8 word" where "PMP_OP_REPLY = 0x80"

definition PMP_REQ_EXTERNAL_ADDR_PACKET :: bytes where
  "PMP_REQ_EXTERNAL_ADDR_PACKET = [PMP_VERSION, PMP_OP_MAP_PUBLIC_ADDR]"

definition build_pmp_request_mapping_packet :: "16 word \<Rightarrow> 16 word \<Rightarrow> 32 word \<Rightarrow> bytes" where
  "build_pmp_request_mapping_packet local_port prev_port lifetime_sec =
     put 8 (be_bytes 4 lifetime_sec) (put 6 (be_bytes 2 prev_port) (put 4 (be_bytes 2 local_port)
       ((replicate 12 0)[1 := PMP_OP_MAP_UDP])))"

record PmpResponse =
  pmp_op_code :: "8 word"
  pmp_result_code :: "16 word"
  pmp_seconds_since_epoch :: "32 word"
  pmp_mapping_valid_seconds :: "32 word"
  pmp_internal_port :: "16 word"
  pmp_external_port :: "16 word"
  pmp_public_addr :: "32 word option"

definition pmp_header :: "bytes \<Rightarrow> PmpResponse" where
  "pmp_header pkt = \<lparr>pmp_op_code = pkt ! 1, pmp_result_code = from_be (slice 2 4 pkt),
     pmp_seconds_since_epoch = from_be (slice 4 8 pkt), pmp_mapping_valid_seconds = 0, pmp_internal_port = 0,
     pmp_external_port = 0, pmp_public_addr = None\<rparr>"

definition parse_pmp_response :: "bytes \<Rightarrow> PmpResponse option" where
  "parse_pmp_response pkt =
     (if length pkt < 12 then None
      else if pkt ! 0 \<noteq> PMP_VERSION then None
      else let res = pmp_header pkt in
        if pmp_op_code res = PMP_OP_REPLY OR PMP_OP_MAP_UDP \<and> length pkt \<noteq> 16 then None
        else let res1 = (if pmp_op_code res = PMP_OP_REPLY OR PMP_OP_MAP_UDP then
            res\<lparr>pmp_internal_port := from_be (slice 8 10 pkt), pmp_external_port := from_be (slice 10 12 pkt),
              pmp_mapping_valid_seconds := from_be (slice 12 16 pkt)\<rparr> else res) in
        if pmp_op_code res = PMP_OP_REPLY OR PMP_OP_MAP_PUBLIC_ADDR \<and> length pkt \<noteq> 12 then None
        else if pmp_op_code res = PMP_OP_REPLY OR PMP_OP_MAP_PUBLIC_ADDR then
          (let addr = from_be (slice 8 12 pkt)
           in Some (res1\<lparr>pmp_public_addr := if addr = 0 then None else Some addr\<rparr>))
        else Some res1)"

section \<open>PCP\<close>

definition PCP_VERSION :: "8 word" where "PCP_VERSION = 2"
definition PCP_OP_REPLY :: "8 word" where "PCP_OP_REPLY = 0x80"
definition PCP_OP_ANNOUNCE :: "8 word" where "PCP_OP_ANNOUNCE = 0"
definition PCP_OP_MAP :: "8 word" where "PCP_OP_MAP = 1"
definition PCP_UDP_MAPPING :: "8 word" where "PCP_UDP_MAPPING = 17"
definition PCP_NOT_AUTHORIZED :: "8 word" where "PCP_NOT_AUTHORIZED = 2"
definition PCP_ADDRESS_MISMATCH :: "8 word" where "PCP_ADDRESS_MISMATCH = 12"

definition pcp_announce_request :: "ipaddr \<Rightarrow> bytes" where
  "pcp_announce_request my_ip =
     put 8 (as16 my_ip) ((replicate 24 0)[0 := PCP_VERSION, 1 := PCP_OP_ANNOUNCE])"

definition build_pcp_request_mapping_packet ::
    "bytes \<Rightarrow> ipaddr \<Rightarrow> 16 word \<Rightarrow> 16 word \<Rightarrow> 32 word \<Rightarrow> ipaddr \<Rightarrow> bytes" where
  "build_pcp_request_mapping_packet nonce my_ip local_port prev_port lifetime_sec prev_external_ip =
     put 44 (as16 prev_external_ip) (put 42 (be_bytes 2 prev_port) (put 40 (be_bytes 2 local_port)
       ((put 24 nonce (put 8 (as16 my_ip) (put 4 (be_bytes 4 lifetime_sec)
         ((replicate 60 0)[0 := PCP_VERSION, 1 := PCP_OP_MAP]))))[36 := PCP_UDP_MAPPING])))"

record PcpResponse =
  pcp_op_code :: "8 word"
  pcp_result_code :: "8 word"
  pcp_lifetime :: "32 word"
  pcp_epoch :: "32 word"

definition parse_pcp_response :: "bytes \<Rightarrow> PcpResponse option" where
  "parse_pcp_response b =
     (if length b < 24 \<or> b ! 0 \<noteq> PCP_VERSION then None
      else Some \<lparr>pcp_op_code = b ! 1, pcp_result_code = b ! 3, pcp_lifetime = from_be (slice 4 8 b),
        pcp_epoch = from_be (slice 8 12 b)\<rparr>)"

type_synonym socket_addr = "ipaddr \<times> 16 word"

text \<open>The lifetime of a grant is kept in seconds.\<close>

record PcpMapResponse =
  grant_external :: socket_addr
  grant_lifetime :: nat
  grant_epoch :: "32 word"

datatype pcp_map_error = NotPcpMap | BadPcpHeader | PcpNotEnabled | PcpCode "8 word"

definition parse_pcp_map_response :: "bytes \<Rightarrow> (pcp_map_error, PcpMapResponse) result" where
  "parse_pcp_map_response resp =
     (if length resp < 60 then Inl NotPcpMap
      else case parse_pcp_response (take 24 resp) of
        None \<Rightarrow> Inl BadPcpHeader
      | Some res \<Rightarrow>
          if pcp_result_code res = PCP_NOT_AUTHORIZED then Inl PcpNotEnabled
          else if pcp_result_code res \<noteq> 0 then Inl (PcpCode (pcp_result_code res))
          else Inr \<lparr>grant_external = (unmap (from_be (slice 44 60 resp)), from_be (slice 42 44 resp)),
            grant_lifetime = unat (pcp_lifetime res), grant_epoch = pcp_epoch res\<rparr>)"

section \<open>SSDP discovery\<close>

definition crlf :: string where "crlf = [CR, LF]"
definition SSDP_ST_ALL :: string where "SSDP_ST_ALL = ''ssdp:all''"
definition SSDP_ST_IGD :: string where "SSDP_ST_IGD = ''urn:schemas-upnp-org:device:InternetGatewayDevice:1''"
definition IGD_MARKER :: string where "IGD_MARKER = '':InternetGatewayDevice:''"
definition UPNP_PORT :: "16 word" where "UPNP_PORT = 1900"
definition SSDP_MULTICAST :: "32 word" where "SSDP_MULTICAST = 0xEFFFFFFA"

definition upnp_packet :: "string \<Rightarrow> bytes" where
  "upnp_packet st = bytes_of
     (''M-SEARCH * HTTP/1.1'' @ crlf @ ''HOST: '' @ show_ipaddr (V4 SSDP_MULTICAST) @ '':'' @ dec_string (unat UPNP_PORT) @ crlf @
      ''ST: '' @ st @ crlf @ ''MAN: '' @ [CHR 0x22] @ ''ssdp:discover'' @ [CHR 0x22] @ crlf @ ''MX: 2'' @ crlf @ crlf)"

record UpnpDiscoResponse =
  location :: string
  server :: string
  usn :: string

datatype disco_error = MalformedResponse "string option" | MalformedStatusCode string | MalformedHeader string

fun split_crlf :: "string \<Rightarrow> string list" where
  "split_crlf [] = [[]]"
| "split_crlf (c # cs) =
     (if c = CR \<and> take 1 cs = [LF] then [] # split_crlf (drop 1 cs)
      else (case split_crlf cs of [] \<Rightarrow> [[c]] | w # ws \<Rightarrow> (c # w) # ws))"

definition set_header :: "string \<Rightarrow> string \<Rightarrow> UpnpDiscoResponse \<Rightarrow> UpnpDiscoResponse" where
  "set_header key value r =
     (let k = map to_ascii_lowercase key in
      if k = ''location'' then r\<lparr>location := value\<rparr>
      else if k = ''server'' then r\<lparr>server := value\<rparr>
      else if k = ''usn'' then r\<lparr>usn := value\<rparr>
      else r)"

fun read_headers :: "string list \<Rightarrow> UpnpDiscoResponse \<Rightarrow> (disco_error, UpnpDiscoResponse) result" where
  "read_headers [] r = Inr r"
| "read_headers (line # lines) r =
     (if line = [] then Inr r
      else case split_once (CHR '':'') line of
        None \<Rightarrow> Inl (MalformedHeader line)
      | Some (key, v) \<Rightarrow> read_headers lines (set_header key (utrim v) r))"

definition parse_upnp_disco_response :: "bytes \<Rightarrow> (disco_error, UpnpDiscoResponse) result" where
  "parse_upnp_disco_response body =
     (let txt = text_of body in
      if \<not> valid_utf8 txt then Inl (MalformedResponse None)
      else case concat (map (split_on LF) (split_crlf txt)) of
        [] \<Rightarrow> Inl (MalformedResponse None)
      | status # lines \<Rightarrow>
          (let (proto, rest) = (case split_once (CHR '' '') status of None \<Rightarrow> (status, None) | Some (a, b) \<Rightarrow> (a, Some b)) in
           if \<not> starts_with proto ''HTTP/'' then Inl (MalformedResponse (Some status))
           else case rest of
             None \<Rightarrow> Inl (MalformedResponse (Some status))
           | Some tail \<Rightarrow>
               (let code = (case split_once (CHR '' '') tail of None \<Rightarrow> tail | Some (a, _) \<Rightarrow> a) in
                if length code \<noteq> 3 \<or> \<not> list_all is_ascii_digit code then Inl (MalformedStatusCode code)
                else read_headers lines \<lparr>location = [], server = [], usn = []\<rparr>)))"

text \<open>The order of the responses: the USN backwards, then the location, then the server.\<close>

definition meta_le :: "UpnpDiscoResponse \<Rightarrow> UpnpDiscoResponse \<Rightarrow> bool" where
  "meta_le a b =
     (if usn a \<noteq> usn b then usn b < usn a
      else if location a \<noteq> location b then location a < location b
      else server a \<le> server b)"

fun insert_meta :: "UpnpDiscoResponse \<Rightarrow> UpnpDiscoResponse list \<Rightarrow> UpnpDiscoResponse list" where
  "insert_meta a [] = [a]"
| "insert_meta a (b # bs) = (if meta_le a b then a # b # bs else b # insert_meta a bs)"

definition same_device :: "UpnpDiscoResponse \<Rightarrow> UpnpDiscoResponse \<Rightarrow> bool" where
  "same_device a b \<longleftrightarrow> location a = location b \<and> server a = server b"

text \<open>\<open>dedup_by\<close>: an element equal to the last one kept is dropped.\<close>

fun dedup_from :: "UpnpDiscoResponse \<Rightarrow> UpnpDiscoResponse list \<Rightarrow> UpnpDiscoResponse list" where
  "dedup_from k [] = [k]"
| "dedup_from k (a # as) = (if same_device a k then dedup_from k as else k # dedup_from a as)"

definition process_upnp_responses :: "UpnpDiscoResponse list \<Rightarrow> UpnpDiscoResponse list" where
  "process_upnp_responses metas =
     (case foldr insert_meta metas [] of [] \<Rightarrow> [] | a # as \<Rightarrow> dedup_from a as)"

section \<open>The Linux routing table\<close>

definition RTF_UP :: nat where "RTF_UP = 1"
definition RTF_GATEWAY :: nat where "RTF_GATEWAY = 2"
definition MAX_PROC_NET_ROUTE_READ :: nat where "MAX_PROC_NET_ROUTE_READ = 1000"

text \<open>The address is written little endian: the low byte is the first octet.\<close>

definition swap_octets :: "32 word \<Rightarrow> 32 word" where
  "swap_octets w = push_bit 24 (take_bit 8 w) OR push_bit 16 (take_bit 8 (drop_bit 8 w)) OR
     push_bit 8 (take_bit 8 (drop_bit 16 w)) OR drop_bit 24 w"

text \<open>One line: the private gateway and the interface, if the line names them.\<close>

definition route_line :: "string \<Rightarrow> (32 word \<times> string) option" where
  "route_line line =
     (let f = split_whitespace line in
      if length f < 4 then None
      else case from_str_radix 16 (2 ^ 16) (f ! 3) of
        None \<Rightarrow> None
      | Some flags \<Rightarrow>
          if and flags (or RTF_UP RTF_GATEWAY) \<noteq> or RTF_UP RTF_GATEWAY then None
          else case from_str_radix 16 (2 ^ 32) (f ! 2) of
            None \<Rightarrow> None
          | Some v \<Rightarrow> let ip = swap_octets (word_of_nat v) in if is_private ip then Some (ip, f ! 0) else None)"

fun scan_routes :: "nat \<Rightarrow> string list \<Rightarrow> (32 word \<times> string) option" where
  "scan_routes n [] = None"
| "scan_routes n (line # lines) =
     (if n = 0 then scan_routes (n + 1) lines
      else if MAX_PROC_NET_ROUTE_READ < n then None
      else case route_line line of Some r \<Rightarrow> Some r | None \<Rightarrow> scan_routes (n + 1) lines)"

definition parse_proc_net_route :: "string \<Rightarrow> (32 word \<times> string) option" where
  "parse_proc_net_route contents = scan_routes 0 (str_lines contents)"

section \<open>The BSD routing table\<close>

text \<open>
  The header of a record, \<open>rt_msghdr\<close>, is declared by the platform: its size and where it keeps the length,
  the flags and the address mask are parameters. A slice outside its list is a panic, \<open>Inl\<close>.
\<close>

record rt_layout =
  rt_hdr_rest :: nat
  rt_msglen :: "bytes \<Rightarrow> nat"
  rt_flags :: "bytes \<Rightarrow> 32 word"
  rt_addrs :: "bytes \<Rightarrow> 32 word"
  rt_af_inet :: nat

datatype panic = Panic

definition hdr_len :: "rt_layout \<Rightarrow> nat" where
  "hdr_len l = Suc (rt_hdr_rest l)"

definition checked_slice :: "nat \<Rightarrow> nat \<Rightarrow> bytes \<Rightarrow> (panic, bytes) result" where
  "checked_slice a b bs = (if a \<le> b \<and> b \<le> length bs then Inr (slice a b bs) else Inl Panic)"

type_synonym sockaddr = "nat \<times> bytes"

definition sockaddr_in_addr :: "rt_layout \<Rightarrow> sockaddr \<Rightarrow> (panic, 32 word option) result" where
  "sockaddr_in_addr l sa =
     (case sa of (family, bs) \<Rightarrow>
       if length bs \<le> 1 then Inr (Some 0)
       else if family \<noteq> rt_af_inet l then Inr None
       else if length bs < 8 then
         (let have = length bs - 4 in
          rbind (checked_slice 4 (4 + have) bs) (\<lambda>s. Inr (Some (from_be (s @ replicate (4 - have) 0)))))
       else Inr (Some (from_be (slice 4 8 bs))))"

text \<open>The address slots of a record: those named by the mask, laid out back to back.\<close>

fun read_slots :: "nat list \<Rightarrow> 32 word \<Rightarrow> bytes \<Rightarrow> nat \<Rightarrow> (nat \<rightharpoonup> sockaddr) \<Rightarrow> (panic, nat \<rightharpoonup> sockaddr) result" where
  "read_slots [] present body p acc = Inr acc"
| "read_slots (i # is) present body p acc =
     (if \<not> bit present i then read_slots is present body p acc
      else if length body < p + 2 then Inr acc
      else let sa_len = unat (body ! p); sa_family = unat (body ! (p + 1));
               advance = (if sa_len = 0 then 4 else (sa_len + 3) div 4 * 4)
        in if length body < p + sa_len then Inr acc
           else rbind (checked_slice p (p + sa_len) body)
             (\<lambda>s. read_slots is present body (p + advance) (acc(i \<mapsto> (sa_family, s)))))"

definition opt_addr :: "rt_layout \<Rightarrow> sockaddr option \<Rightarrow> (panic, 32 word option) result" where
  "opt_addr l sa = (case sa of None \<Rightarrow> Inr None | Some x \<Rightarrow> sockaddr_in_addr l x)"

definition default_route :: "rt_layout \<Rightarrow> (nat \<rightharpoonup> sockaddr) \<Rightarrow> (panic, (32 word \<times> 32 word option) option) result" where
  "default_route l addrs =
     (case (addrs 0, addrs 2) of
        (Some dst, Some netmask) \<Rightarrow>
          rbind (sockaddr_in_addr l dst) (\<lambda>d.
            if d \<noteq> Some 0 then Inr None
            else rbind (sockaddr_in_addr l netmask) (\<lambda>m.
              if m \<noteq> Some 0 then Inr None
              else rbind (opt_addr l (addrs 1)) (\<lambda>g. case g of
                None \<Rightarrow> Inr None
              | Some gw \<Rightarrow> rbind (opt_addr l (addrs 5)) (\<lambda>self_ip. Inr (Some (gw, self_ip))))))
      | _ \<Rightarrow> Inr None)"

function walk_routes :: "rt_layout \<Rightarrow> bytes \<Rightarrow> nat \<Rightarrow> (panic, (32 word \<times> 32 word option) option) result" where
  "walk_routes l rib off =
     (if length rib < off + hdr_len l then Inr None
      else let hdr = slice off (off + hdr_len l) rib; msg_len = rt_msglen l hdr in
        if msg_len < hdr_len l \<or> length rib < off + msg_len then Inr None
        else rbind (checked_slice (off + hdr_len l) (off + msg_len) rib) (\<lambda>body.
          if \<not> bit (rt_flags l hdr) 1 \<or> bit (rt_flags l hdr) 24 then walk_routes l rib (off + msg_len)
          else rbind (read_slots [0..<8] (rt_addrs l hdr) body 0 Map.empty) (\<lambda>addrs.
            rbind (default_route l addrs) (\<lambda>r. case r of
              Some x \<Rightarrow> Inr (Some x)
            | None \<Rightarrow> walk_routes l rib (off + msg_len)))))"
  by pat_completeness auto
termination
  by (relation "measure (\<lambda>(l, rib, off). Suc (length rib) - off)") (auto simp: hdr_len_def)

declare walk_routes.simps [simp del]

definition parse_routing_table :: "rt_layout \<Rightarrow> bytes \<Rightarrow> (panic, (32 word \<times> 32 word option) option) result" where
  "parse_routing_table l rib = walk_routes l rib 0"

section \<open>Requests as a gateway reads them\<close>

text \<open>The fields of a MAP request, at the offsets of RFC 6887 (nonce, client, protocol, ports, lifetime) and RFC 6886.\<close>

definition pcp_request_fields :: "bytes \<Rightarrow> (bytes \<times> 128 word \<times> 8 word \<times> 16 word) \<times> (16 word \<times> 32 word \<times> 128 word)" where
  "pcp_request_fields pkt =
     ((slice 24 36 pkt, from_be (slice 8 24 pkt), pkt ! 36, from_be (slice 40 42 pkt)),
      (from_be (slice 42 44 pkt), from_be (slice 4 8 pkt), from_be (slice 44 60 pkt)))"

definition pmp_request_fields :: "bytes \<Rightarrow> 8 word \<times> 16 word \<times> 16 word \<times> 32 word" where
  "pmp_request_fields pkt = (pkt ! 1, from_be (slice 4 6 pkt), from_be (slice 6 8 pkt), from_be (slice 8 12 pkt))"

lemma pcp_request_layout:
  assumes "length nonce = 12"
  shows "build_pcp_request_mapping_packet nonce my_ip lp pp lt ext =
    [PCP_VERSION, PCP_OP_MAP, 0, 0] @ be_bytes 4 lt @ as16 my_ip @ nonce @ [PCP_UDP_MAPPING, 0, 0, 0] @
    be_bytes 2 lp @ be_bytes 2 pp @ as16 ext"
proof -
  have r: "(replicate 60 0)[0 := PCP_VERSION, 1 := PCP_OP_MAP] = [PCP_VERSION, PCP_OP_MAP, 0, 0] @ replicate 56 0"
    by (simp add: numeral_eq_Suc)
  have rep: "replicate 24 (0 :: 8 word) = 0 # 0 # 0 # 0 # replicate 20 0" by (simp add: numeral_eq_Suc)
  have u: "(a @ b @ nonce @ replicate 24 0)[32 := v] = a @ b @ nonce @ [v, 0, 0, 0] @ replicate 20 (0 :: 8 word)"
    if "length a = 4" "length b = 16" for a b v
    unfolding rep using that assms by (simp add: list_update_append)
  show ?thesis
    unfolding build_pcp_request_mapping_packet_def r
    using assms by (simp add: put_def as16_def u)
qed

lemma pmp_request_layout:
  "build_pmp_request_mapping_packet lp pp lt =
     [0, PMP_OP_MAP_UDP, 0, 0] @ be_bytes 2 lp @ be_bytes 2 pp @ be_bytes 4 lt"
proof -
  have r: "(replicate 12 0)[1 := PMP_OP_MAP_UDP] = [0, PMP_OP_MAP_UDP, 0, 0] @ replicate 8 0"
    by (simp add: numeral_eq_Suc)
  show ?thesis
    unfolding build_pmp_request_mapping_packet_def r by (simp add: put_def)
qed

text \<open>
  A gateway that reads a mapping request at the offsets of the two RFCs finds every argument it was built
  from: the nonce, this host's address (IPv4 in its mapped form), both ports, the lifetime and the suggested
  address. The packets have exactly 60 and 12 bytes.
\<close>

theorem mapping_request_round_trip:
  assumes "length nonce = 12"
  shows "pcp_request_fields (build_pcp_request_mapping_packet nonce my_ip lp pp lt ext) =
      ((nonce, to_v6 my_ip, PCP_UDP_MAPPING, lp), (pp, lt, to_v6 ext)) \<and>
    length (build_pcp_request_mapping_packet nonce my_ip lp pp lt ext) = 60 \<and>
    pmp_request_fields (build_pmp_request_mapping_packet lp pp lt) = (PMP_OP_MAP_UDP, lp, pp, lt) \<and>
    length (build_pmp_request_mapping_packet lp pp lt) = 12"
  using assms unfolding pcp_request_layout [OF assms] pmp_request_layout
  by (simp add: pcp_request_fields_def pmp_request_fields_def slice_def as16_def nth_append from_be_bytes_full)

theorem mapping_request_round_trip_witness:
  "pmp_request_fields (build_pmp_request_mapping_packet 41641 0 MAP_LIFETIME_SEC) = (PMP_OP_MAP_UDP, 41641, 0, 7200) \<and>
   fst (fst (pcp_request_fields (build_pcp_request_mapping_packet (replicate 12 7) (V4 0x0A000002) 41641 0 7200 (V4 0)))) =
     replicate 12 7"
  using mapping_request_round_trip [of "replicate 12 7" "V4 0x0A000002" 41641 0 7200 "V4 0"]
  by (simp add: MAP_LIFETIME_SEC_def)

section \<open>Which datagrams are accepted\<close>

lemma pmp_accepts:
  "parse_pmp_response pkt \<noteq> None \<longleftrightarrow> 12 \<le> length pkt \<and> pkt ! 0 = 0 \<and>
     (pkt ! 1 = 0x81 \<longrightarrow> length pkt = 16) \<and> (pkt ! 1 = 0x80 \<longrightarrow> length pkt = 12)"
  by (auto simp: parse_pmp_response_def pmp_header_def Let_def PMP_VERSION_def PMP_OP_REPLY_def PMP_OP_MAP_UDP_def
      PMP_OP_MAP_PUBLIC_ADDR_def)

lemma pcp_accepts: "parse_pcp_response pkt \<noteq> None \<longleftrightarrow> 24 \<le> length pkt \<and> pkt ! 0 = 2"
  by (auto simp: parse_pcp_response_def PCP_VERSION_def)

lemma pcp_map_accepts: "is_ok (parse_pcp_map_response pkt) \<longleftrightarrow> 60 \<le> length pkt \<and> pkt ! 0 = 2 \<and> pkt ! 3 = 0"
  by (auto simp: parse_pcp_map_response_def parse_pcp_response_def PCP_VERSION_def is_ok_def PCP_NOT_AUTHORIZED_def)

text \<open>
  Exactly which datagrams of the shared port are read as which protocol: NAT-PMP needs the twelve-byte
  header with version 0 and, for the two replies it knows, their exact lengths; PCP needs 24 bytes with version
  2, and a grant 60 bytes with result code 0. So no datagram is both.
\<close>

theorem pxp_responses_exact:
  "(parse_pmp_response pkt \<noteq> None \<longleftrightarrow> 12 \<le> length pkt \<and> pkt ! 0 = 0 \<and>
      (pkt ! 1 = 0x81 \<longrightarrow> length pkt = 16) \<and> (pkt ! 1 = 0x80 \<longrightarrow> length pkt = 12)) \<and>
   (parse_pcp_response pkt \<noteq> None \<longleftrightarrow> 24 \<le> length pkt \<and> pkt ! 0 = 2) \<and>
   (is_ok (parse_pcp_map_response pkt) \<longleftrightarrow> 60 \<le> length pkt \<and> pkt ! 0 = 2 \<and> pkt ! 3 = 0) \<and>
   (parse_pmp_response pkt = None \<or> parse_pcp_response pkt = None)"
  using pmp_accepts [of pkt] pcp_accepts [of pkt] pcp_map_accepts [of pkt] by auto

theorem pxp_responses_exact_witness:
  "parse_pmp_response ([0, 0x81] @ replicate 14 0) \<noteq> None \<and> parse_pmp_response ([0, 0x81] @ replicate 13 0) = None"
  using pxp_responses_exact [of "[0, 0x81] @ replicate 14 0"] pxp_responses_exact [of "[0, 0x81] @ replicate 13 0"]
  by simp

section \<open>The collected discovery responses\<close>

lemma meta_le_facts:
  "meta_le a b \<or> meta_le b a" "meta_le a b \<Longrightarrow> meta_le b c \<Longrightarrow> meta_le a c" "meta_le a b \<Longrightarrow> usn b \<le> usn a"
  by (auto simp: meta_le_def split: if_splits)

lemma insert_meta_set [simp]: "set (insert_meta a bs) = insert a (set bs)"
  by (induction bs) auto

lemma insert_meta_sorted: "sorted_wrt meta_le bs \<Longrightarrow> sorted_wrt meta_le (insert_meta a bs)"
proof (induction bs)
  case (Cons b bs)
  show ?case
  proof (cases "meta_le a b")
    case True
    with Cons.prems show ?thesis by (auto intro: meta_le_facts(2))
  next
    case False
    with meta_le_facts(1) have "meta_le b a" by blast
    with Cons False show ?thesis by auto
  qed
qed simp

lemma sort_metas:
  "set (foldr insert_meta metas []) = set metas" "sorted_wrt meta_le (foldr insert_meta metas [])"
  by (induction metas) (auto intro: insert_meta_sorted)

lemma dedup_from_sublist: "set (dedup_from k as) \<subseteq> insert k (set as)"
  by (induction k as rule: dedup_from.induct) auto

lemma dedup_from_head: "\<exists>rest. dedup_from k as = k # rest"
  by (induction k as rule: dedup_from.induct) auto

lemma dedup_from_sorted: "sorted_wrt meta_le (k # as) \<Longrightarrow> sorted_wrt meta_le (dedup_from k as)"
proof (induction k as rule: dedup_from.induct)
  case (2 k a as)
  then show ?case using dedup_from_sublist [of a as] by auto
qed simp

lemma dedup_from_adjacent: "successively (\<lambda>x y. \<not> same_device y x) (dedup_from k as)"
proof (induction k as rule: dedup_from.induct)
  case (2 k a as)
  obtain rest where "dedup_from a as = a # rest" using dedup_from_head by blast
  with 2 show ?case by auto
qed simp

lemma dedup_from_represents:
  "sorted_wrt meta_le (k # as) \<Longrightarrow> m \<in> set (k # as) \<Longrightarrow> \<exists>r \<in> set (dedup_from k as). same_device m r \<and> usn m \<le> usn r"
proof (induction k as arbitrary: m rule: dedup_from.induct)
  case (1 k)
  then show ?case by (simp add: same_device_def)
next
  case (2 k a as)
  show ?case
  proof (cases "same_device a k")
    case True
    with 2 have k: "\<exists>r \<in> set (dedup_from k as). same_device x r \<and> usn x \<le> usn r" if "x \<in> set (k # as)" for x
      using that by auto
    show ?thesis
    proof (cases "m = a")
      case a: True
      from k [of k] obtain r where "r \<in> set (dedup_from k as)" "same_device k r" "usn k \<le> usn r" by auto
      moreover have "usn a \<le> usn k" using 2(3) meta_le_facts(3) by simp
      ultimately show ?thesis
        using True a by (auto simp: same_device_def intro!: bexI [of _ r])
    next
      case False
      with k [of m] 2(4) True show ?thesis by auto
    qed
  next
    case False
    then show ?thesis using 2(2) [of m] 2(3,4) by (auto simp: same_device_def)
  qed
qed

text \<open>
  What one probe keeps of the discovery responses it collected: every device that answered is represented,
  by an entry whose service name is at least the one it answered with (so version 2 of a service wins over
  version 1), nothing is invented, the entries are in the stated order, and no two neighbours are the same
  device.
\<close>

theorem discovery_report:
  "(\<forall>m \<in> set metas. \<exists>r \<in> set (process_upnp_responses metas). same_device m r \<and> usn m \<le> usn r) \<and>
   set (process_upnp_responses metas) \<subseteq> set metas \<and>
   sorted_wrt meta_le (process_upnp_responses metas) \<and>
   successively (\<lambda>x y. \<not> same_device y x) (process_upnp_responses metas)"
proof (cases "foldr insert_meta metas []")
  case Nil
  then have "metas = []" using sort_metas(1) [of metas] by simp
  then show ?thesis by (simp add: process_upnp_responses_def)
next
  case (Cons k as)
  with sort_metas [of metas] have s: "sorted_wrt meta_le (k # as)" "set metas = set (k # as)" by simp_all
  have "process_upnp_responses metas = dedup_from k as" by (simp add: process_upnp_responses_def Cons)
  then show ?thesis
    using s dedup_from_sublist [of k as] dedup_from_sorted [OF s(1)] dedup_from_adjacent [of k as]
      dedup_from_represents [OF s(1)] by auto
qed

text \<open>Two answers of one device are both kept when another device's service name sorts between them.\<close>

definition demo_metas :: "UpnpDiscoResponse list" where
  "demo_metas = [\<lparr>location = ''a'', server = ''s'', usn = ''uuid:3''\<rparr>, \<lparr>location = ''b'', server = ''s'', usn = ''uuid:2''\<rparr>,
     \<lparr>location = ''a'', server = ''s'', usn = ''uuid:1''\<rparr>]"

lemma discovery_keeps_duplicates: "process_upnp_responses demo_metas = demo_metas"
  by (simp add: process_upnp_responses_def demo_metas_def meta_le_def same_device_def)

theorem discovery_report_witness:
  "\<exists>r \<in> set (process_upnp_responses demo_metas). same_device (demo_metas ! 2) r \<and> ''uuid:1'' \<le> usn r"
proof -
  have "demo_metas ! 2 \<in> set demo_metas" "usn (demo_metas ! 2) = ''uuid:1''"
    by (simp_all add: demo_metas_def)
  then show ?thesis using discovery_report [of demo_metas] by metis
qed

section \<open>The gateway from the routing tables\<close>

lemma scan_routes_exact:
  "scan_routes (Suc n) lines = Some r \<longleftrightarrow>
     (\<exists>i. i < length lines \<and> Suc n + i \<le> MAX_PROC_NET_ROUTE_READ \<and> route_line (lines ! i) = Some r \<and>
        (\<forall>j < i. route_line (lines ! j) = None))"
proof (induction lines arbitrary: n)
  case Nil
  show ?case by simp
next
  case (Cons line lines)
  show ?case
  proof (cases "MAX_PROC_NET_ROUTE_READ < Suc n \<or> route_line line \<noteq> None")
    case True
    show ?thesis
    proof (cases "MAX_PROC_NET_ROUTE_READ < Suc n")
      case False
      with True obtain x where x: "route_line line = Some x" by blast
      with False have "scan_routes (Suc n) (line # lines) = Some x" by simp
      moreover have "i = 0" if "\<forall>j < i. route_line ((line # lines) ! j) = None" for i
        using that x by (cases i) auto
      then have "(\<exists>i. i < length (line # lines) \<and> Suc n + i \<le> MAX_PROC_NET_ROUTE_READ \<and>
          route_line ((line # lines) ! i) = Some r \<and> (\<forall>j < i. route_line ((line # lines) ! j) = None)) \<longleftrightarrow> x = r"
        using x False by (metis length_greater_0_conv list.distinct(1) add_0_right not_less not_less_zero nth_Cons_0 option.inject)
      ultimately show ?thesis by simp
    qed simp
  next
    case False
    then have step: "scan_routes (Suc n) (line # lines) = scan_routes (Suc (Suc n)) lines"
      by (cases "route_line line") auto
    have "(\<exists>i. i < length (line # lines) \<and> Suc n + i \<le> MAX_PROC_NET_ROUTE_READ \<and> route_line ((line # lines) ! i) = Some r \<and>
        (\<forall>j < i. route_line ((line # lines) ! j) = None)) \<longleftrightarrow>
      (\<exists>i. i < length lines \<and> Suc (Suc n) + i \<le> MAX_PROC_NET_ROUTE_READ \<and> route_line (lines ! i) = Some r \<and>
        (\<forall>j < i. route_line (lines ! j) = None))" (is "?l \<longleftrightarrow> ?r")
    proof
      assume ?l
      then obtain i where i: "i < length (line # lines)" "Suc n + i \<le> MAX_PROC_NET_ROUTE_READ"
        "route_line ((line # lines) ! i) = Some r" "\<forall>j < i. route_line ((line # lines) ! j) = None" by blast
      with False obtain k where "i = Suc k" by (cases i; cases r) auto
      with i show ?r by (intro exI [of _ k]) fastforce
    next
      assume ?r
      then obtain i where i: "i < length lines" "Suc (Suc n) + i \<le> MAX_PROC_NET_ROUTE_READ"
        "route_line (lines ! i) = Some r" "\<forall>j < i. route_line (lines ! j) = None" by blast
      moreover from False have "route_line line = None" by (cases "route_line line") auto
      ultimately show ?l by (intro exI [of _ "Suc i"]) (auto simp: less_Suc_eq_0_disj)
    qed
    with step Cons show ?thesis by simp
  qed
qed

lemma route_line_private: "route_line l = Some (ip, iface) \<Longrightarrow> is_private ip"
  by (auto simp: route_line_def Let_def split: if_splits option.splits)

text \<open>
  The home router found in the kernel's route file is that of the first line after the header which is up,
  a gateway route and private, if it is among the first thousand; it is always a private address.
\<close>

theorem proc_net_route_exact:
  "(parse_proc_net_route (header @ [LF] @ body) = Some (ip, iface) \<longleftrightarrow>
     (\<exists>i. i < length (str_lines body) \<and> i < MAX_PROC_NET_ROUTE_READ \<and> route_line (str_lines body ! i) = Some (ip, iface) \<and>
        (\<forall>j < i. route_line (str_lines body ! j) = None))) \<and>
   (parse_proc_net_route (header @ [LF] @ body) = Some (ip, iface) \<longrightarrow> is_private ip)"
  if "LF \<notin> set header"
proof -
  have split: "split_on LF (header @ [LF] @ body) = header # split_on LF body"
    using that by (induction header) auto
  have lines: "str_lines (header @ [LF] @ body) = drop_cr header # str_lines body"
    unfolding str_lines_def split by (cases "split_on LF body") (auto simp: Let_def)
  have "parse_proc_net_route (header @ [LF] @ body) = scan_routes (Suc 0) (str_lines body)"
    unfolding parse_proc_net_route_def lines by simp
  then show ?thesis
    using scan_routes_exact [of 0 "str_lines body" "(ip, iface)"] route_line_private by (auto simp: less_eq_Suc_le)
qed

theorem proc_net_route_exact_witness:
  "parse_proc_net_route (''Iface'' @ [LF] @ ''eth0 00000000 0100000A 0003'') = Some (0x0A000001, ''eth0'')"
proof -
  have lf: "LF \<notin> set ''Iface''" by (simp add: LF_def)
  have l: "str_lines ''eth0 00000000 0100000A 0003'' = [''eth0 00000000 0100000A 0003'']"
    by (simp add: str_lines_def LF_def)
  have w: "split_whitespace ''eth0 00000000 0100000A 0003'' = [''eth0'', ''00000000'', ''0100000A'', ''0003'']"
    by code_simp
  have n: "from_str_radix 16 (2 ^ 16) ''0003'' = Some 3" "from_str_radix 16 (2 ^ 32) ''0100000A'' = Some 0x0100000A"
    by (simp_all add: from_str_radix_def to_digit_def byte_def)
  have g: "swap_octets (word_of_nat 0x0100000A) = 0x0A000001" "is_private 0x0A000001"
    by (simp_all add: swap_octets_def is_private_def)
  have "route_line ''eth0 00000000 0100000A 0003'' = Some (0x0A000001, ''eth0'')"
    unfolding route_line_def w using n g by (simp add: RTF_UP_def RTF_GATEWAY_def)
  then show ?thesis
    using proc_net_route_exact [OF lf, of "''eth0 00000000 0100000A 0003''" "0x0A000001" "''eth0''"]
    by (simp add: l MAX_PROC_NET_ROUTE_READ_def)
qed

section \<open>The walk of the BSD table does not read outside it, but for one shape\<close>

definition short_inet :: "rt_layout \<Rightarrow> (nat \<rightharpoonup> sockaddr) \<Rightarrow> bool" where
  "short_inet l addrs \<longleftrightarrow> (\<exists>i bs. addrs i = Some (rt_af_inet l, bs) \<and> length bs \<in> {2, 3})"

definition record_slots :: "rt_layout \<Rightarrow> bytes \<Rightarrow> nat \<Rightarrow> (panic, nat \<rightharpoonup> sockaddr) result" where
  "record_slots l rib off =
     (let hdr = slice off (off + hdr_len l) rib
      in read_slots [0..<8] (rt_addrs l hdr) (slice (off + hdr_len l) (off + rt_msglen l hdr) rib) 0 Map.empty)"

lemma sockaddr_panics: "sockaddr_in_addr l (f, bs) = Inl Panic \<longleftrightarrow> f = rt_af_inet l \<and> length bs \<in> {2, 3}"
proof -
  have "length bs \<in> {2, 3} \<longleftrightarrow> 1 < length bs \<and> length bs < 4" by auto
  then show ?thesis
    by (auto simp: sockaddr_in_addr_def checked_slice_def rbind_def Let_def split: if_splits)
qed

lemma read_slots_total: "\<exists>addrs. read_slots is present body p acc = Inr addrs"
  by (induction "is" arbitrary: p acc) (auto simp: checked_slice_def Let_def rbind_def)

lemma default_route_panics:
  assumes "default_route l addrs = Inl Panic"
  shows "short_inet l addrs"
proof -
  have s: "short_inet l addrs" if "addrs i = Some sa" "sockaddr_in_addr l sa = Inl Panic" for i sa
    using that sockaddr_panics [of l "fst sa" "snd sa"] unfolding short_inet_def by (cases sa) auto
  have o: "short_inet l addrs" if "opt_addr l (addrs i) = Inl Panic" for i
    using that s [of i] by (auto simp: opt_addr_def split: option.splits)
  from assms show ?thesis
    unfolding default_route_def rbind_def
    by (auto split: option.splits sum.splits if_splits panic.splits intro: s o)
qed

lemma walk_panics: "walk_routes l rib off = Inl Panic \<Longrightarrow> \<exists>o' addrs. record_slots l rib o' = Inr addrs \<and> short_inet l addrs"
proof (induction l rib off rule: walk_routes.induct)
  case (1 l rib off)
  let ?hdr = "slice off (off + hdr_len l) rib"
  let ?len = "rt_msglen l ?hdr" and ?body = "slice (off + hdr_len l) (off + rt_msglen l ?hdr) rib"
  from 1(3) have b: "\<not> length rib < off + hdr_len l" "\<not> (?len < hdr_len l \<or> length rib < off + ?len)"
    by (auto simp: walk_routes.simps [of l rib off] Let_def split: if_splits)
  then have body: "checked_slice (off + hdr_len l) (off + ?len) rib = Inr ?body" by (simp add: checked_slice_def)
  obtain addrs where addrs: "read_slots [0..<8] (rt_addrs l ?hdr) ?body 0 Map.empty = Inr addrs"
    using read_slots_total by blast
  show ?case
  proof (cases "walk_routes l rib (off + ?len) = Inl Panic")
    case True
    with 1 b show ?thesis by blast
  next
    case False
    with 1(3) b body addrs have "default_route l addrs = Inl Panic"
      by (auto simp: walk_routes.simps [of l rib off] Let_def rbind_def split: if_splits sum.splits option.splits)
    with addrs show ?thesis using default_route_panics by (fastforce simp: record_slots_def Let_def)
  qed
qed

definition demo_layout :: rt_layout where
  "demo_layout = \<lparr>rt_hdr_rest = 2, rt_msglen = (\<lambda>h. unat (h ! 0)), rt_flags = (\<lambda>h. ucast (h ! 1)),
     rt_addrs = (\<lambda>h. ucast (h ! 2)), rt_af_inet = 2\<rparr>"

definition demo_rib :: "8 word \<Rightarrow> bytes" where
  "demo_rib n = [3 + 4 + 8 + 4, 2, 7, 0, 0, 0, 0, 8, 2, 0, 0, 10, 0, 0, 1, n, 2, 0, 0]"



end
