(* ===== verification/Portmap.thy ===== *)
theory Portmap
  imports PortmapWire
begin

text \<open>
  The port-mapping client of \<open>src/src/portmap.rs\<close>: what it remembers, the probe, the mapping attempt, and how
  attempts in flight interleave with the calls that change the client. An attempt is three locked sections
  (entering, locating the gateway, deciding) followed by the exchange with the gateway; what the gateway and
  the clock do is an argument: the datagrams received with the instants at which they arrive. Handling one
  takes no time. Instants are nanoseconds. Log lines are left out.
\<close>

unbundle bit_operations_syntax

section \<open>Errors, knobs, mappings\<close>

datatype PortmapError =
    NoPortMappingServices | GatewayRange | GatewayIPv6 | PortMappingDisabled | NoMapping string | Io string

fun show_portmap_error :: "PortmapError \<Rightarrow> string" where
  "show_portmap_error NoPortMappingServices = ''no port mapping services were found''"
| "show_portmap_error GatewayRange = ''skipping portmap; gateway range likely lacks support''"
| "show_portmap_error GatewayIPv6 = ''skipping portmap; no IPv6 support for portmapping''"
| "show_portmap_error PortMappingDisabled = ''port mapping is disabled''"
| "show_portmap_error (NoMapping inner) = ''no NAT mapping available: '' @ inner"
| "show_portmap_error (Io e) = e"

definition no_mapping :: "PortmapError \<Rightarrow> PortmapError" where
  "no_mapping e = NoMapping (show_portmap_error e)"

definition CLOSED_CLIENT :: string where "CLOSED_CLIENT = ''client closed''"

record DebugKnobs =
  disable_upnp :: bool
  disable_pmp :: bool
  disable_pcp :: bool
  knob_disable_all :: bool

record ProbeResult =
  pr_pcp :: bool
  pr_pmp :: bool
  pr_upnp :: bool

definition probe_is_empty :: "ProbeResult \<Rightarrow> bool" where
  "probe_is_empty r \<longleftrightarrow> \<not> pr_pcp r \<and> \<not> pr_pmp r \<and> \<not> pr_upnp r"

datatype MappingKind = Pmp | Pcp

record Mapping =
  mp_kind :: MappingKind
  mp_gw :: socket_addr
  mp_internal :: socket_addr
  mp_external :: socket_addr
  mp_renew_after :: int
  mp_good_until :: int
  mp_epoch :: "32 word"
  mp_nonce :: "bytes option"

definition release_packet :: "Mapping \<Rightarrow> bytes" where
  "release_packet m =
     (case mp_kind m of
        Pmp \<Rightarrow> build_pmp_request_mapping_packet (snd (mp_internal m)) (snd (mp_external m)) MAP_LIFETIME_DELETE
      | Pcp \<Rightarrow> build_pcp_request_mapping_packet (unwrap_or (mp_nonce m) (replicate 12 0)) (fst (mp_internal m))
          (snd (mp_internal m)) 0 MAP_LIFETIME_DELETE (V4 0))"

section \<open>The client\<close>

record pm_state =
  ps_last_gw :: "ipaddr option"
  ps_last_my_ip :: "ipaddr option"
  ps_closed :: bool
  ps_running_create :: bool
  ps_last_probe :: "int option"
  ps_pmp_pub_ip :: "32 word option"
  ps_pmp_pub_ip_time :: "int option"
  ps_pmp_last_epoch :: "32 word"
  ps_pcp_saw_time :: "int option"
  ps_pcp_last_epoch :: "32 word"
  ps_upnp_saw_time :: "int option"
  ps_upnp_metas :: "UpnpDiscoResponse list"
  ps_local_port :: "16 word"
  ps_mapping :: "Mapping option"

text \<open>
  The client with the release datagrams it has sent and whether a change hook is registered. \<open>pe_runtime\<close>:
  there is a task runtime to send from. \<open>pe_send\<close> is what sending a request to the gateway answers.
\<close>

record client =
  cl_state :: pm_state
  cl_released :: "(socket_addr \<times> bytes) list"
  cl_hook :: bool

datatype send_outcome = SendOk | SendLost | SendFailed string

record pm_env =
  pe_debug :: DebugKnobs
  pe_env_disabled :: bool
  pe_test_pxp_port :: "16 word"
  pe_test_upnp_port :: "16 word"
  pe_runtime :: bool
  pe_send :: "bytes \<Rightarrow> send_outcome"

definition new_client :: client where
  "new_client = \<lparr>cl_state = \<lparr>ps_last_gw = None, ps_last_my_ip = None, ps_closed = False, ps_running_create = False,
     ps_last_probe = None, ps_pmp_pub_ip = None, ps_pmp_pub_ip_time = None, ps_pmp_last_epoch = 0,
     ps_pcp_saw_time = None, ps_pcp_last_epoch = 0, ps_upnp_saw_time = None, ps_upnp_metas = [],
     ps_local_port = 0, ps_mapping = None\<rparr>, cl_released = [], cl_hook = False\<rparr>"

definition pxp_port :: "pm_env \<Rightarrow> 16 word" where
  "pxp_port e = (if pe_test_pxp_port e \<noteq> 0 then pe_test_pxp_port e else PXP_PORT)"

definition upnp_port :: "pm_env \<Rightarrow> 16 word" where
  "upnp_port e = (if pe_test_upnp_port e \<noteq> 0 then pe_test_upnp_port e else UPNP_PORT)"

definition disable_all :: "pm_env \<Rightarrow> bool" where
  "disable_all e \<longleftrightarrow> knob_disable_all (pe_debug e) \<or> pe_env_disabled e"

definition TRUST_SERVICE_STILL_AVAILABLE :: int where "TRUST_SERVICE_STILL_AVAILABLE = 600 * 10 ^ 9"
definition PORT_MAP_SERVICE_TIMEOUT :: int where "PORT_MAP_SERVICE_TIMEOUT = 250 * 10 ^ 6"
definition UPNP_SETTLE :: int where "UPNP_SETTLE = 50 * 10 ^ 6"
definition MAX_UPNP_RESPONSES :: nat where "MAX_UPNP_RESPONSES = 10"

definition have_mapping :: "int \<Rightarrow> client \<Rightarrow> bool" where
  "have_mapping now c = (case ps_mapping (cl_state c) of Some m \<Rightarrow> now < mp_good_until m | None \<Rightarrow> False)"

definition release_mapping :: "pm_env \<Rightarrow> Mapping \<Rightarrow> client \<Rightarrow> client" where
  "release_mapping e m c =
     (if pe_runtime e then c\<lparr>cl_released := cl_released c @ [(mp_gw m, release_packet m)]\<rparr> else c)"

definition forget :: "pm_state \<Rightarrow> pm_state" where
  "forget st = st\<lparr>ps_mapping := None, ps_pmp_pub_ip := None, ps_pmp_pub_ip_time := None, ps_pmp_last_epoch := 0,
     ps_pcp_saw_time := None, ps_pcp_last_epoch := 0, ps_upnp_saw_time := None, ps_upnp_metas := []\<rparr>"

definition invalidate_mappings :: "pm_env \<Rightarrow> bool \<Rightarrow> client \<Rightarrow> client" where
  "invalidate_mappings e release_old c =
     (let c1 = (case ps_mapping (cl_state c) of
            Some m \<Rightarrow> if release_old then release_mapping e m c else c
          | None \<Rightarrow> c)
      in c1\<lparr>cl_state := forget (cl_state c1)\<rparr>)"

definition set_local_port :: "pm_env \<Rightarrow> 16 word \<Rightarrow> client \<Rightarrow> client" where
  "set_local_port e p c =
     (if ps_local_port (cl_state c) = p then c
      else invalidate_mappings e True (c\<lparr>cl_state := (cl_state c)\<lparr>ps_local_port := p\<rparr>\<rparr>))"

definition note_network_down :: "pm_env \<Rightarrow> client \<Rightarrow> client" where
  "note_network_down e c = invalidate_mappings e False c"

definition close :: "pm_env \<Rightarrow> client \<Rightarrow> client" where
  "close e c =
     (if ps_closed (cl_state c) then c
      else (invalidate_mappings e True (c\<lparr>cl_state := (cl_state c)\<lparr>ps_closed := True\<rparr>\<rparr>))\<lparr>cl_hook := False\<rparr>)"

text \<open>\<open>found\<close> is what the gateway lookup answers: the gateway and this host's address.\<close>

definition gateway_and_self_ip :: "pm_env \<Rightarrow> (ipaddr \<times> ipaddr) option \<Rightarrow> client \<Rightarrow> client" where
  "gateway_and_self_ip e found c =
     (let gw = map_option fst found; my_ip = map_option snd found in
      if gw \<noteq> ps_last_gw (cl_state c) \<or> my_ip \<noteq> ps_last_my_ip (cl_state c) \<or> found = None then
        invalidate_mappings e True (c\<lparr>cl_state := (cl_state c)\<lparr>ps_last_my_ip := my_ip, ps_last_gw := gw\<rparr>\<rparr>)
      else c)"

definition recent :: "int \<Rightarrow> int option \<Rightarrow> bool" where
  "recent now t = (case t of Some t \<Rightarrow> now - TRUST_SERVICE_STILL_AVAILABLE < t | None \<Rightarrow> False)"

definition saw_pmp_recently :: "int \<Rightarrow> pm_state \<Rightarrow> bool" where
  "saw_pmp_recently now st \<longleftrightarrow> ps_pmp_pub_ip st \<noteq> None \<and> recent now (ps_pmp_pub_ip_time st)"

definition saw_pcp_recently :: "int \<Rightarrow> pm_state \<Rightarrow> bool" where
  "saw_pcp_recently now st = recent now (ps_pcp_saw_time st)"

definition saw_upnp_recently :: "int \<Rightarrow> pm_state \<Rightarrow> bool" where
  "saw_upnp_recently now st = recent now (ps_upnp_saw_time st)"

text \<open>An epoch that went backwards: the gateway has rebooted and has lost the mapping.\<close>

definition rebooted :: "MappingKind \<Rightarrow> 32 word \<Rightarrow> pm_state \<Rightarrow> bool" where
  "rebooted k epoch st \<longleftrightarrow> epoch \<noteq> 0 \<and>
     (case ps_mapping st of Some m \<Rightarrow> mp_kind m = k \<and> epoch < mp_epoch m | None \<Rightarrow> False)"

definition maybe_invalidate_pmp_mapping :: "32 word \<Rightarrow> pm_state \<Rightarrow> pm_state" where
  "maybe_invalidate_pmp_mapping epoch st =
     (if rebooted Pmp epoch st then
        st\<lparr>ps_mapping := None, ps_pmp_pub_ip := None, ps_pmp_pub_ip_time := None, ps_pmp_last_epoch := 0\<rparr>
      else st)"

definition maybe_invalidate_pcp_mapping :: "32 word \<Rightarrow> pm_state \<Rightarrow> pm_state" where
  "maybe_invalidate_pcp_mapping epoch st =
     (if rebooted Pcp epoch st then st\<lparr>ps_mapping := None, ps_pcp_saw_time := None, ps_pcp_last_epoch := 0\<rparr> else st)"

section \<open>The probe\<close>

datatype recv = Datagram int socket_addr bytes | RecvFailed int string

fun recv_at :: "recv \<Rightarrow> int" where
  "recv_at (Datagram t _ _) = t"
| "recv_at (RecvFailed t _) = t"

record probe_acc =
  pa_res :: ProbeResult
  pa_heard :: bool
  pa_metas :: "UpnpDiscoResponse list"
  pa_state :: pm_state
  pa_err :: "PortmapError option"

definition handle_upnp_response :: "bytes \<Rightarrow> probe_acc \<Rightarrow> probe_acc" where
  "handle_upnp_response pkt a =
     (case parse_upnp_disco_response pkt of
        Inl _ \<Rightarrow> a
      | Inr meta \<Rightarrow>
          (let a1 = a\<lparr>pa_res := (pa_res a)\<lparr>pr_upnp := True\<rparr>\<rparr>
           in if MAX_UPNP_RESPONSES < length (pa_metas a1) then a1 else a1\<lparr>pa_metas := pa_metas a1 @ [meta]\<rparr>))"

definition handle_pmp_response :: "int \<Rightarrow> bytes \<Rightarrow> probe_acc \<Rightarrow> probe_acc" where
  "handle_pmp_response now pkt a =
     (case parse_pmp_response pkt of
        None \<Rightarrow> a
      | Some pres \<Rightarrow>
          if pmp_op_code pres \<noteq> PMP_OP_REPLY OR PMP_OP_MAP_PUBLIC_ADDR then a
          else if pmp_result_code pres = 0 then
            a\<lparr>pa_res := (pa_res a)\<lparr>pr_pmp := True\<rparr>,
              pa_state := (maybe_invalidate_pmp_mapping (pmp_seconds_since_epoch pres) (pa_state a))
                \<lparr>ps_pmp_pub_ip := pmp_public_addr pres, ps_pmp_pub_ip_time := Some now,
                 ps_pmp_last_epoch := pmp_seconds_since_epoch pres\<rparr>\<rparr>
          else a)"

definition handle_pxp_response :: "int \<Rightarrow> bytes \<Rightarrow> probe_acc \<Rightarrow> probe_acc" where
  "handle_pxp_response now pkt a =
     (case parse_pcp_response pkt of
        Some pres \<Rightarrow>
          if pcp_op_code pres = PCP_OP_REPLY OR PCP_OP_ANNOUNCE then
            (let a1 = a\<lparr>pa_heard := True, pa_state := (maybe_invalidate_pcp_mapping (pcp_epoch pres) (pa_state a))
                   \<lparr>ps_pcp_saw_time := Some now, ps_pcp_last_epoch := pcp_epoch pres\<rparr>\<rparr> in
             if pcp_result_code pres = 0 then a1\<lparr>pa_res := (pa_res a1)\<lparr>pr_pcp := True\<rparr>\<rparr>
             else if pcp_result_code pres \<in> {PCP_NOT_AUTHORIZED, PCP_ADDRESS_MISMATCH} then
               a1\<lparr>pa_res := (pa_res a1)\<lparr>pr_pcp := False\<rparr>\<rparr>
             else handle_pmp_response now pkt a1)
          else handle_pmp_response now pkt a
      | None \<Rightarrow> handle_pmp_response now pkt a)"

definition handle_datagram :: "pm_env \<Rightarrow> int \<Rightarrow> socket_addr \<Rightarrow> bytes \<Rightarrow> probe_acc \<Rightarrow> probe_acc" where
  "handle_datagram e now src pkt a =
     (if snd src = upnp_port e then
        (if contains_str (text_of pkt) IGD_MARKER then handle_upnp_response pkt a else a)
      else if snd src = pxp_port e then handle_pxp_response now pkt a
      else if contains_str (text_of pkt) IGD_MARKER then handle_upnp_response pkt a
      else a)"

definition probe_complete :: "probe_acc \<Rightarrow> int option \<Rightarrow> int \<Rightarrow> bool" where
  "probe_complete a settle now \<longleftrightarrow> pa_heard a \<and> pr_pmp (pa_res a) \<and> pr_upnp (pa_res a) \<and>
     (case settle of Some d \<Rightarrow> d \<le> now | None \<Rightarrow> False)"

text \<open>The loop, with the instant it ends at.\<close>

fun probe_loop :: "pm_env \<Rightarrow> int \<Rightarrow> int \<Rightarrow> int option \<Rightarrow> recv list \<Rightarrow> probe_acc \<Rightarrow> probe_acc \<times> int" where
  "probe_loop e deadline now settle [] a =
     (if probe_complete a settle now \<or> deadline \<le> now then (a, now) else (a, deadline))"
| "probe_loop e deadline now settle (ev # evs) a =
     (if probe_complete a settle now \<or> deadline \<le> now then (a, now)
      else if deadline \<le> recv_at ev then (a, deadline)
      else case ev of
        RecvFailed t err \<Rightarrow> (a\<lparr>pa_err := Some (Io err)\<rparr>, t)
      | Datagram t src pkt \<Rightarrow>
          probe_loop e deadline t (case settle of None \<Rightarrow> Some (t + UPNP_SETTLE) | Some _ \<Rightarrow> settle) evs
            (handle_datagram e t src pkt a))"

definition initial_acc :: "int \<Rightarrow> pm_state \<Rightarrow> probe_acc" where
  "initial_acc now st = \<lparr>pa_res = \<lparr>pr_pcp = saw_pcp_recently now st, pr_pmp = saw_pmp_recently now st,
     pr_upnp = saw_upnp_recently now st\<rparr>, pa_heard = False, pa_metas = [], pa_state = st, pa_err = None\<rparr>"

text \<open>The requests of a probe, with their destinations: only to services not seen recently and not disabled.\<close>

definition probe_requests :: "pm_env \<Rightarrow> int \<Rightarrow> ipaddr \<Rightarrow> ipaddr \<Rightarrow> pm_state \<Rightarrow> (bytes \<times> socket_addr) list" where
  "probe_requests e now gw my_ip st =
     (let pxp = (gw, pxp_port e); upnp = (gw, upnp_port e); multicast = (V4 SSDP_MULTICAST, upnp_port e) in
      (if \<not> saw_pmp_recently now st \<and> \<not> disable_pmp (pe_debug e) then [(PMP_REQ_EXTERNAL_ADDR_PACKET, pxp)] else []) @
      (if \<not> saw_pcp_recently now st \<and> \<not> disable_pcp (pe_debug e) then [(pcp_announce_request my_ip, pxp)] else []) @
      (if \<not> saw_upnp_recently now st \<and> \<not> disable_upnp (pe_debug e) then
         [(upnp_packet SSDP_ST_ALL, upnp), (upnp_packet SSDP_ST_ALL, multicast), (upnp_packet SSDP_ST_IGD, multicast)]
       else []))"

definition record_upnp :: "int \<Rightarrow> probe_acc \<Rightarrow> pm_state" where
  "record_upnp now a =
     (if pr_upnp (pa_res a) \<and> pa_metas a \<noteq> [] then
        (pa_state a)\<lparr>ps_upnp_saw_time := Some now, ps_upnp_metas := process_upnp_responses (pa_metas a)\<rparr>
      else pa_state a)"

definition probe ::
    "pm_env \<Rightarrow> (ipaddr \<times> ipaddr) option \<Rightarrow> (string, unit) result \<Rightarrow> int \<Rightarrow> recv list \<Rightarrow> client \<Rightarrow>
     (PortmapError, ProbeResult) result \<times> (bytes \<times> socket_addr) list \<times> client" where
  "probe e found bound now evs c =
     (if disable_all e then (Inl PortMappingDisabled, [], c)
      else let c1 = gateway_and_self_ip e found c in
        case found of
          None \<Rightarrow> (Inl GatewayRange, [], c1)
        | Some (gw, my_ip) \<Rightarrow>
            (case bound of
               Inl err \<Rightarrow> (Inl (Io err), [], c1)
             | Inr _ \<Rightarrow>
                 (let st = cl_state c1;
                      (a, end) = probe_loop e (now + PORT_MAP_SERVICE_TIMEOUT) now None evs (initial_acc now st);
                      st1 = record_upnp end a
                  in case pa_err a of
                       Some err \<Rightarrow> (Inl err, probe_requests e now gw my_ip st, c1\<lparr>cl_state := st1\<rparr>)
                     | None \<Rightarrow> (Inr (pa_res a), probe_requests e now gw my_ip st,
                         c1\<lparr>cl_state := st1\<lparr>ps_last_probe := Some end\<rparr>\<rparr>))))"

section \<open>A mapping attempt\<close>

datatype next_step = Reuse socket_addr | Upnp "16 word" | Ask "16 word" bool bool "32 word option"

record attempt =
  at_gw :: ipaddr
  at_my_ip :: ipaddr
  at_internal :: socket_addr
  at_prev_port :: "16 word"
  at_known_ip :: "32 word option"
  at_nonce :: "bytes option"

text \<open>On entry: a closed client, disabled port mapping, or no protocol left.\<close>

definition refuse_attempt :: "pm_env \<Rightarrow> client \<Rightarrow> PortmapError option" where
  "refuse_attempt e c =
     (let d = pe_debug e in
      if ps_closed (cl_state c) then Some (NoMapping CLOSED_CLIENT)
      else if disable_all e then Some (no_mapping PortMappingDisabled)
      else if disable_upnp d \<and> disable_pcp d \<and> disable_pmp d then Some (no_mapping NoPortMappingServices)
      else None)"

definition is_ipv6 :: "ipaddr \<Rightarrow> bool" where
  "is_ipv6 ip = (case ip of V4 _ \<Rightarrow> False | V6 _ \<Rightarrow> True)"

definition locate_gateway ::
    "pm_env \<Rightarrow> (ipaddr \<times> ipaddr) option \<Rightarrow> client \<Rightarrow> (PortmapError, ipaddr \<times> ipaddr) result \<times> client" where
  "locate_gateway e found c =
     (let c1 = gateway_and_self_ip e found c in
      case found of
        None \<Rightarrow> (Inl (no_mapping GatewayRange), c1)
      | Some (gw, my_ip) \<Rightarrow> if is_ipv6 gw then (Inl (no_mapping GatewayIPv6), c1) else (Inr (gw, my_ip), c1))"

definition probed_just_now :: "int \<Rightarrow> pm_state \<Rightarrow> bool" where
  "probed_just_now now st =
     (case ps_last_probe st of Some t \<Rightarrow> t \<le> now \<and> now - t < 5 * 10 ^ 9 | None \<Rightarrow> False)"

definition decide_next :: "pm_env \<Rightarrow> int \<Rightarrow> pm_state \<Rightarrow> next_step" where
  "decide_next e now st =
     (let d = pe_debug e;
          prev_port = (case ps_mapping st of Some m \<Rightarrow> if now < mp_renew_after m then 0 else snd (mp_external m) | None \<Rightarrow> 0);
          reuse = (case ps_mapping st of Some m \<Rightarrow> if now < mp_renew_after m then Some (mp_external m) else None | None \<Rightarrow> None);
          have_recent_pmp = saw_pmp_recently now st; have_recent_pcp = saw_pcp_recently now st
      in case reuse of
           Some external \<Rightarrow> Reuse external
         | None \<Rightarrow>
             if disable_pcp d \<and> disable_pmp d then Upnp prev_port
             else if probed_just_now now st \<and> \<not> have_recent_pmp \<and> \<not> have_recent_pcp then Upnp prev_port
             else Ask prev_port have_recent_pmp have_recent_pcp (if have_recent_pmp then ps_pmp_pub_ip st else None))"

text \<open>The UPnP leg finds no mapping, whatever was discovered.\<close>

definition upnp_fallback :: "(PortmapError, 'a) result" where
  "upnp_fallback = Inl (no_mapping NoPortMappingServices)"

definition send_or_no_mapping :: "pm_env \<Rightarrow> bytes \<Rightarrow> (PortmapError, unit) result" where
  "send_or_no_mapping e pkt =
     (case pe_send e pkt of
        SendOk \<Rightarrow> Inr () | SendLost \<Rightarrow> Inl (no_mapping NoPortMappingServices) | SendFailed err \<Rightarrow> Inl (Io err))"

definition prefer_pcp :: "pm_env \<Rightarrow> bool \<Rightarrow> bool \<Rightarrow> bool" where
  "prefer_pcp e have_recent_pmp have_recent_pcp \<longleftrightarrow>
     \<not> disable_pcp (pe_debug e) \<and> (disable_pmp (pe_debug e) \<or> \<not> have_recent_pmp \<and> have_recent_pcp)"

text \<open>The requests an attempt sends, in order.\<close>

definition mapping_requests :: "attempt \<Rightarrow> bytes list" where
  "mapping_requests a =
     (case at_nonce a of
        Some nonce \<Rightarrow> [build_pcp_request_mapping_packet nonce (at_my_ip a) (snd (at_internal a)) (at_prev_port a)
          MAP_LIFETIME_SEC (V4 0)]
      | None \<Rightarrow>
          (if at_known_ip a = None then [PMP_REQ_EXTERNAL_ADDR_PACKET] else []) @
          [build_pmp_request_mapping_packet (snd (at_internal a)) (at_prev_port a) MAP_LIFETIME_SEC])"

fun send_all :: "pm_env \<Rightarrow> bytes list \<Rightarrow> (PortmapError, unit) result" where
  "send_all e [] = Inr ()"
| "send_all e (pkt # pkts) = rbind (send_or_no_mapping e pkt) (\<lambda>_. send_all e pkts)"

text \<open>
  The decision and the requests: the mapping is reused, or the attempt has failed, or it awaits the gateway.
  \<open>bound\<close> is the result of binding the socket, \<open>drawn\<close> the nonce read from the random device.
\<close>

datatype started = Finished "(PortmapError, socket_addr) result" | Awaiting attempt

definition start_attempt ::
    "pm_env \<Rightarrow> ipaddr \<times> ipaddr \<Rightarrow> int \<Rightarrow> (string, unit) result \<Rightarrow> bytes option \<Rightarrow> pm_state \<Rightarrow> started" where
  "start_attempt e gw_self now bound drawn st =
     (case decide_next e now st of
        Reuse external \<Rightarrow> Finished (Inr external)
      | Upnp _ \<Rightarrow> Finished upnp_fallback
      | Ask prev_port have_recent_pmp have_recent_pcp known \<Rightarrow>
          (case bound of
             Inl err \<Rightarrow> Finished (Inl (Io err))
           | Inr _ \<Rightarrow>
               (let pcp = prefer_pcp e have_recent_pmp have_recent_pcp;
                    a = \<lparr>at_gw = fst gw_self, at_my_ip = snd gw_self, at_internal = (snd gw_self, ps_local_port st),
                         at_prev_port = prev_port, at_known_ip = known, at_nonce = (if pcp then drawn else None)\<rparr>
                in if pcp \<and> drawn = None then
                     Finished (Inl (Io ''reading /dev/urandom for the PCP mapping nonce failed''))
                   else case send_all e (mapping_requests a) of
                     Inl err \<Rightarrow> Finished (Inl err)
                   | Inr _ \<Rightarrow> Awaiting a)))"

text \<open>What the replies have told of the NAT-PMP mapping: address, port, lease and epoch.\<close>

record halves =
  hv_ip :: "32 word option"
  hv_port :: "16 word"
  hv_good_until :: int
  hv_renew_after :: int
  hv_epoch :: "32 word"

datatype reply_outcome = Fallback | Refused PortmapError | Granted Mapping

definition unmap_ip :: "ipaddr \<Rightarrow> ipaddr" where
  "unmap_ip ip = (case ip of V4 _ \<Rightarrow> ip | V6 v \<Rightarrow> unmap v)"

definition pmp_refusal :: "PmpResponse \<Rightarrow> PortmapError" where
  "pmp_refusal r = NoMapping (''PMP response Op=0x'' @ hex_string (unat (pmp_op_code r)) @ '',Res=0x'' @
     hex_string (unat (pmp_result_code r)))"

definition fold_pmp :: "int \<Rightarrow> PmpResponse \<Rightarrow> halves \<Rightarrow> halves" where
  "fold_pmp t r h =
     (let h1 = (if pmp_op_code r = PMP_OP_REPLY OR PMP_OP_MAP_PUBLIC_ADDR then h\<lparr>hv_ip := pmp_public_addr r\<rparr> else h);
          d = int (unat (pmp_mapping_valid_seconds r)) * 10 ^ 9
      in if pmp_op_code r = PMP_OP_REPLY OR PMP_OP_MAP_UDP then
           h1\<lparr>hv_port := pmp_external_port r, hv_good_until := t + d, hv_renew_after := t + d div 2,
             hv_epoch := pmp_seconds_since_epoch r\<rparr>
         else h1)"

definition pmp_mapping :: "pm_env \<Rightarrow> attempt \<Rightarrow> halves \<Rightarrow> Mapping option" where
  "pmp_mapping e a h =
     (case hv_ip h of
        Some ip \<Rightarrow>
          if hv_port h \<noteq> 0 then
            Some \<lparr>mp_kind = Pmp, mp_gw = (at_gw a, pxp_port e), mp_internal = at_internal a,
              mp_external = (V4 ip, hv_port h), mp_renew_after = hv_renew_after h, mp_good_until = hv_good_until h,
              mp_epoch = hv_epoch h, mp_nonce = None\<rparr>
          else None
      | None \<Rightarrow> None)"

definition pcp_mapping :: "pm_env \<Rightarrow> attempt \<Rightarrow> int \<Rightarrow> PcpMapResponse \<Rightarrow> Mapping" where
  "pcp_mapping e a t g =
     (let d = int (grant_lifetime g) * 10 ^ 9 in
      \<lparr>mp_kind = Pcp, mp_gw = (at_gw a, pxp_port e), mp_internal = at_internal a, mp_external = grant_external g,
       mp_renew_after = t + d div 2, mp_good_until = t + d, mp_epoch = grant_epoch g, mp_nonce = at_nonce a\<rparr>)"

fun read_replies :: "pm_env \<Rightarrow> attempt \<Rightarrow> int \<Rightarrow> int \<Rightarrow> recv list \<Rightarrow> halves \<Rightarrow> reply_outcome" where
  "read_replies e a deadline now [] h = Fallback"
| "read_replies e a deadline now (ev # evs) h =
     (if deadline \<le> now \<or> deadline \<le> recv_at ev then Fallback
      else case ev of
        RecvFailed _ _ \<Rightarrow> Fallback
      | Datagram t src pkt \<Rightarrow>
          if unmap_ip (fst src) \<noteq> at_gw a \<or> snd src \<noteq> pxp_port e then read_replies e a deadline t evs h
          else if pkt = [] then Refused (no_mapping NoPortMappingServices)
          else if hd pkt = PMP_VERSION then
            (case parse_pmp_response pkt of
               None \<Rightarrow> read_replies e a deadline t evs h
             | Some pres \<Rightarrow>
                 if pmp_result_code pres \<noteq> 0 then Refused (pmp_refusal pres)
                 else (case pmp_mapping e a (fold_pmp t pres h) of
                     Some m \<Rightarrow> Granted m
                   | None \<Rightarrow> read_replies e a deadline t evs (fold_pmp t pres h)))
          else if hd pkt = PCP_VERSION then
            (case parse_pcp_map_response pkt of
               Inl _ \<Rightarrow> Refused (no_mapping NoPortMappingServices)
             | Inr g \<Rightarrow> Granted (pcp_mapping e a t g))
          else Refused (no_mapping NoPortMappingServices))"

definition initial_halves :: "attempt \<Rightarrow> int \<Rightarrow> halves" where
  "initial_halves a now = \<lparr>hv_ip = at_known_ip a, hv_port = 0, hv_good_until = now, hv_renew_after = now, hv_epoch = 0\<rparr>"

text \<open>The last point at which a mapping becomes the client's: a closed client gives it back instead.\<close>

definition store_mapping :: "pm_env \<Rightarrow> Mapping \<Rightarrow> client \<Rightarrow> bool \<times> client" where
  "store_mapping e m c =
     (if ps_closed (cl_state c) then (False, release_mapping e m c)
      else (True, c\<lparr>cl_state := (cl_state c)\<lparr>ps_mapping := Some m\<rparr>\<rparr>))"

definition finish_attempt :: "pm_env \<Rightarrow> reply_outcome \<Rightarrow> client \<Rightarrow> (PortmapError, socket_addr) result \<times> client" where
  "finish_attempt e r c =
     (case r of
        Fallback \<Rightarrow> (upnp_fallback, c)
      | Refused err \<Rightarrow> (Inl err, c)
      | Granted m \<Rightarrow>
          (case store_mapping e m c of
             (True, c1) \<Rightarrow> (Inr (mp_external m), c1)
           | (False, c1) \<Rightarrow> (Inl (NoMapping CLOSED_CLIENT), c1)))"

text \<open>The call with nothing in between.\<close>

definition create_or_get_mapping ::
    "pm_env \<Rightarrow> (ipaddr \<times> ipaddr) option \<Rightarrow> int \<Rightarrow> (string, unit) result \<Rightarrow> bytes option \<Rightarrow> recv list \<Rightarrow> client \<Rightarrow>
     (PortmapError, socket_addr) result \<times> client" where
  "create_or_get_mapping e found now bound drawn evs c =
     (case refuse_attempt e c of
        Some err \<Rightarrow> (Inl err, c)
      | None \<Rightarrow>
          (case locate_gateway e found c of
             (Inl err, c1) \<Rightarrow> (Inl err, c1)
           | (Inr gw_self, c1) \<Rightarrow>
               (case start_attempt e gw_self now bound drawn (cl_state c1) of
                  Finished r \<Rightarrow> (r, c1)
                | Awaiting a \<Rightarrow>
                    finish_attempt e (read_replies e a (now + PORT_MAP_SERVICE_TIMEOUT) now evs (initial_halves a now)) c1)))"

text \<open>The cached mapping while it is good; whether a background attempt is wanted.\<close>

definition maybe_start_mapping :: "pm_env \<Rightarrow> client \<Rightarrow> bool \<times> client" where
  "maybe_start_mapping e c =
     (if ps_closed (cl_state c) \<or> ps_running_create (cl_state c) then (False, c)
      else if pe_runtime e then (True, c\<lparr>cl_state := (cl_state c)\<lparr>ps_running_create := True\<rparr>\<rparr>)
      else (False, c))"

definition get_cached_mapping_or_start_creating_one :: "pm_env \<Rightarrow> int \<Rightarrow> client \<Rightarrow> socket_addr option \<times> bool \<times> client" where
  "get_cached_mapping_or_start_creating_one e now c =
     (case ps_mapping (cl_state c) of
        Some m \<Rightarrow>
          if now < mp_good_until m then
            (if mp_renew_after m < now then (Some (mp_external m), maybe_start_mapping e c) else (Some (mp_external m), False, c))
          else (None, maybe_start_mapping e c)
      | None \<Rightarrow> (None, maybe_start_mapping e c))"

text \<open>The end of a background attempt: the flag is cleared, and the hook fires on a success.\<close>

definition background_done :: "(PortmapError, socket_addr) result option \<Rightarrow> client \<Rightarrow> bool \<times> client" where
  "background_done r c =
     ((case r of Some (Inr _) \<Rightarrow> cl_hook c | _ \<Rightarrow> False), c\<lparr>cl_state := (cl_state c)\<lparr>ps_running_create := False\<rparr>\<rparr>)"

section \<open>The debug run\<close>

record DebugPortmapOpts =
  dp_ty :: string
  dp_gateway_and_self :: "string option"

definition debug_knobs :: "string \<Rightarrow> DebugKnobs option" where
  "debug_knobs ty =
     (let d = \<lparr>disable_upnp = False, disable_pmp = False, disable_pcp = False, knob_disable_all = False\<rparr> in
      if ty = [] then Some d
      else if ty = ''pmp'' then Some (d\<lparr>disable_pcp := True, disable_upnp := True\<rparr>)
      else if ty = ''pcp'' then Some (d\<lparr>disable_pmp := True, disable_upnp := True\<rparr>)
      else if ty = ''upnp'' then Some (d\<lparr>disable_pcp := True, disable_pmp := True\<rparr>)
      else None)"

text \<open>The lines the run writes itself.\<close>

datatype run_line =
    BadPair string | NotIpPair string | NoGateway | GatewayIs ipaddr ipaddr | BindError string
  | ProbeError PortmapError | ProbeLine ProbeResult | NoServices | MappingIs socket_addr | NoMappingYet | DeadlineReached

definition gateway_pair :: "string \<Rightarrow> (run_line, ipaddr \<times> ipaddr) result" where
  "gateway_pair gw_self =
     (case split_once (CHR ''/'') gw_self of
        None \<Rightarrow> Inl (BadPair gw_self)
      | Some (gw, self_ip) \<Rightarrow>
          (case (parse_ipaddr gw, parse_ipaddr self_ip) of
             (Some g, Some s) \<Rightarrow> Inr (g, s)
           | _ \<Rightarrow> Inl (NotIpPair gw_self)))"

text \<open>
  What the run meets: the gateway lookup, the local socket with its port, the probe (its socket, start and
  datagrams; cut short when the run's own deadline comes first), and what happens to the client while the run
  waits for the hook or its deadline (background attempts), with whether the hook fired first.
\<close>

record run_env =
  ru_lookup :: "(ipaddr \<times> ipaddr) option"
  ru_bind :: "(string, 16 word) result"
  ru_probe_bound :: "(string, unit) result"
  ru_now :: int
  ru_probe_evs :: "recv list"
  ru_cut_short :: bool
  ru_wait :: "client \<Rightarrow> bool \<times> client"

definition run_probe :: "pm_env \<Rightarrow> run_env \<Rightarrow> (ipaddr \<times> ipaddr) option \<Rightarrow> client \<Rightarrow> (PortmapError, ProbeResult) result \<times> client" where
  "run_probe e u found c =
     (if ru_cut_short u then
        (let c1 = gateway_and_self_ip e found c;
             a = fst (probe_loop e (ru_now u + PORT_MAP_SERVICE_TIMEOUT) (ru_now u) None (ru_probe_evs u)
               (initial_acc (ru_now u) (cl_state c1)))
         in (Inr \<lparr>pr_pcp = False, pr_pmp = False, pr_upnp = False\<rparr>, c1\<lparr>cl_state := pa_state a\<rparr>))
      else case probe e found (ru_probe_bound u) (ru_now u) (ru_probe_evs u) c of (r, _, c1) \<Rightarrow> (r, c1))"

text \<open>The run up to the point where the client is dropped, and with the drop, which closes it.\<close>

definition debug_run :: "pm_env \<Rightarrow> run_env \<Rightarrow> (ipaddr \<times> ipaddr) option \<Rightarrow> client \<Rightarrow> run_line list \<times> client" where
  "debug_run e u found c =
     (case found of
        None \<Rightarrow> ([NoGateway], c)
      | Some (gw, self_ip) \<Rightarrow>
          (case ru_bind u of
             Inl err \<Rightarrow> ([GatewayIs gw self_ip, BindError err], c)
           | Inr port \<Rightarrow>
               (let c1 = (set_local_port e port c)\<lparr>cl_hook := True\<rparr> in
                case run_probe e u found c1 of
                  (Inl err, c2) \<Rightarrow> ([GatewayIs gw self_ip, ProbeError err], c2)
                | (Inr res, c2) \<Rightarrow>
                    if probe_is_empty res then ([GatewayIs gw self_ip, ProbeLine res, NoServices], c2)
                    else (case get_cached_mapping_or_start_creating_one e (ru_now u) c2 of (cached, _, c3) \<Rightarrow>
                      (case ru_wait u c3 of (fired, c4) \<Rightarrow>
                         ([GatewayIs gw self_ip, ProbeLine res,
                            (case cached of Some ext \<Rightarrow> MappingIs ext | None \<Rightarrow> NoMappingYet)] @
                            (if fired then [] else [DeadlineReached]), c4))))))"

definition debug_portmap :: "pm_env \<Rightarrow> DebugPortmapOpts \<Rightarrow> run_env \<Rightarrow> (string, run_line list) result \<times> client option" where
  "debug_portmap e opts u =
     (case debug_knobs (dp_ty opts) of
        None \<Rightarrow> (Inl ''unknown portmap debug type'', None)
      | Some knobs \<Rightarrow>
          (let e1 = e\<lparr>pe_debug := knobs\<rparr>;
               pair = (case dp_gateway_and_self opts of
                   None \<Rightarrow> Inr (ru_lookup u)
                 | Some s \<Rightarrow> (case gateway_pair s of Inl line \<Rightarrow> Inl line | Inr p \<Rightarrow> Inr (Some p)))
           in case pair of
                Inl line \<Rightarrow> (Inr [line], Some (close e1 new_client))
              | Inr found \<Rightarrow> (case debug_run e1 u found new_client of (lines, c) \<Rightarrow> (Inr lines, Some (close e1 c)))))"

end
