(* ===== verification/PortmapRaces.thy ===== *)
theory PortmapRaces
  imports Portmap
begin

text \<open>
  What the port-mapping client promises (\<open>src/src/portmap.rs\<close>) when attempts, probes, setters and \<open>close\<close>
  interleave in any order: each locked section is one step. Ghost lists record the mappings the gateway has
  granted, those granted after \<open>close\<close>, and those the client has dropped without giving them back.
\<close>

section \<open>One attempt\<close>

lemma forget_facts [simp]:
  "ps_mapping (forget st) = None" "ps_closed (forget st) = ps_closed st" "ps_local_port (forget st) = ps_local_port st"
  by (simp_all add: forget_def)

lemma release_facts [simp]:
  "cl_state (release_mapping e m c) = cl_state c" "cl_hook (release_mapping e m c) = cl_hook c"
  "set (cl_released c) \<subseteq> set (cl_released (release_mapping e m c))"
  by (auto simp: release_mapping_def)

lemma invalidate_facts [simp]:
  "ps_mapping (cl_state (invalidate_mappings e b c)) = None"
  "ps_closed (cl_state (invalidate_mappings e b c)) = ps_closed (cl_state c)"
  "set (cl_released c) \<subseteq> set (cl_released (invalidate_mappings e b c))"
  by (auto simp: invalidate_mappings_def Let_def release_mapping_def split: option.split)

lemma invalidate_releases:
  "pe_runtime e \<Longrightarrow> ps_mapping (cl_state c) = Some m \<Longrightarrow>
     (mp_gw m, release_packet m) \<in> set (cl_released (invalidate_mappings e True c))"
  by (simp add: invalidate_mappings_def release_mapping_def)

lemma gateway_facts:
  "ps_mapping (cl_state (gateway_and_self_ip e found c)) \<in> {ps_mapping (cl_state c), None}"
  "ps_closed (cl_state (gateway_and_self_ip e found c)) = ps_closed (cl_state c)"
  "set (cl_released c) \<subseteq> set (cl_released (gateway_and_self_ip e found c))"
  "pe_runtime e \<Longrightarrow> ps_mapping (cl_state c) = Some m \<Longrightarrow> ps_mapping (cl_state (gateway_and_self_ip e found c)) = None \<Longrightarrow>
     (mp_gw m, release_packet m) \<in> set (cl_released (gateway_and_self_ip e found c))"
  using invalidate_releases [of e "c\<lparr>cl_state := (cl_state c)\<lparr>ps_last_my_ip := map_option snd found,
      ps_last_gw := map_option fst found\<rparr>\<rparr>" m]
    invalidate_facts(3) [of "c\<lparr>cl_state := (cl_state c)\<lparr>ps_last_my_ip := map_option snd found,
      ps_last_gw := map_option fst found\<rparr>\<rparr>" e True]
  by (auto simp: gateway_and_self_ip_def Let_def)


section \<open>Releases and renewals\<close>

lemma attempt_shape:
  assumes "start_attempt e (gw, my_ip) now bound drawn st = Awaiting a"
  shows "at_gw a = gw" "at_my_ip a = my_ip" "at_internal a = (my_ip, ps_local_port st)" "at_nonce a \<in> {None, drawn}"
  using assms by (auto simp: start_attempt_def Let_def split: next_step.splits sum.splits if_splits)

lemma pcp_fields:
  "length nonce = 12 \<Longrightarrow> pcp_request_fields (build_pcp_request_mapping_packet nonce ip lp pp lt ext) =
     ((nonce, to_v6 ip, PCP_UDP_MAPPING, lp), (pp, lt, to_v6 ext))"
  unfolding pcp_request_layout
  by (simp add: pcp_request_fields_def slice_def as16_def nth_append from_be_bytes_full)

lemma pmp_fields:
  "pmp_request_fields (build_pmp_request_mapping_packet lp pp lt) = (PMP_OP_MAP_UDP, lp, pp, lt)"
  unfolding pmp_request_layout
  by (simp add: pmp_request_fields_def slice_def nth_append from_be_bytes_full)

text \<open>
  The release of a mapping names the mapping. For PCP it carries the nonce, the address, the protocol and the
  port of the request that was granted, with lifetime zero and no suggested address; for NAT-PMP the internal
  port of the request, with lifetime zero.
\<close>

theorem release_names_mapping:
  assumes "start_attempt e (gw, my_ip) now bound (Some nonce) st = Awaiting a" "length nonce = 12"
  shows "(at_nonce a = Some nonce \<longrightarrow>
      fst (pcp_request_fields (release_packet (pcp_mapping e a t g))) = fst (pcp_request_fields (hd (mapping_requests a))) \<and>
      snd (pcp_request_fields (release_packet (pcp_mapping e a t g))) = (0, 0, to_v6 (V4 0))) \<and>
    (\<forall>m. pmp_mapping e a h = Some m \<longrightarrow>
      pmp_request_fields (release_packet m) = (PMP_OP_MAP_UDP, ps_local_port st, hv_port h, 0))"
  using attempt_shape [OF assms(1)] assms(2)
  by (auto simp: release_packet_def pcp_mapping_def pmp_mapping_def mapping_requests_def pcp_fields pmp_fields
      unwrap_or_def MAP_LIFETIME_DELETE_def Let_def split: option.splits if_splits)


section \<open>Interleavings\<close>

datatype flight = Entered | Located ipaddr ipaddr | Waiting attempt

record pm_sys =
  sy_client :: client
  sy_flights :: "flight list"
  sy_granted :: "Mapping list"
  sy_late :: "Mapping list"
  sy_dropped :: "Mapping list"

definition opt_list :: "'a option \<Rightarrow> 'a list" where
  "opt_list x = (case x of None \<Rightarrow> [] | Some a \<Rightarrow> [a])"

definition pm_init :: pm_sys where
  "pm_init = \<lparr>sy_client = new_client, sy_flights = [], sy_granted = [], sy_late = [], sy_dropped = []\<rparr>"

text \<open>A change of the client that may lose the mapping without giving it back.\<close>

definition drop_step :: "pm_sys \<Rightarrow> client \<Rightarrow> pm_sys" where
  "drop_step s c = s\<lparr>sy_client := c, sy_dropped := (if ps_mapping (cl_state c) = ps_mapping (cl_state (sy_client s))
     then sy_dropped s else opt_list (ps_mapping (cl_state (sy_client s))) @ sy_dropped s)\<rparr>"

definition grant_step :: "pm_env \<Rightarrow> Mapping \<Rightarrow> flight list \<Rightarrow> pm_sys \<Rightarrow> pm_sys" where
  "grant_step e m rest s =
     (let c = sy_client s; closed = ps_closed (cl_state c) in
      \<lparr>sy_client = snd (finish_attempt e (Granted m) c), sy_flights = rest, sy_granted = m # sy_granted s,
       sy_late = (if closed then m # sy_late s else sy_late s),
       sy_dropped = (if closed then sy_dropped s else opt_list (ps_mapping (cl_state c)) @ sy_dropped s)\<rparr>)"

inductive pm_step :: "pm_env \<Rightarrow> pm_sys \<Rightarrow> pm_sys \<Rightarrow> bool" for e where
  port: "pm_step e s (s\<lparr>sy_client := set_local_port e p (sy_client s)\<rparr>)"
| down: "pm_step e s (drop_step s (note_network_down e (sy_client s)))"
| close: "pm_step e s (s\<lparr>sy_client := close e (sy_client s)\<rparr>)"
| gateway: "pm_step e s (s\<lparr>sy_client := gateway_and_self_ip e found (sy_client s)\<rparr>)"
| pxp: "pa_state a = cl_state (sy_client s) \<Longrightarrow>
    pm_step e s (drop_step s ((sy_client s)\<lparr>cl_state := pa_state (handle_pxp_response now pkt a)\<rparr>))"
| upnp: "pa_state a = cl_state (sy_client s) \<Longrightarrow>
    pm_step e s (s\<lparr>sy_client := (sy_client s)\<lparr>cl_state := record_upnp now a\<rparr>\<rparr>)"
| probed: "pm_step e s (s\<lparr>sy_client := (sy_client s)\<lparr>cl_state := (cl_state (sy_client s))\<lparr>ps_last_probe := t\<rparr>\<rparr>\<rparr>)"
| background: "pm_step e s (s\<lparr>sy_client := snd (maybe_start_mapping e (sy_client s))\<rparr>)"
| finished: "pm_step e s (s\<lparr>sy_client := snd (background_done r (sy_client s))\<rparr>)"
| enter: "refuse_attempt e (sy_client s) = None \<Longrightarrow> pm_step e s (s\<lparr>sy_flights := Entered # sy_flights s\<rparr>)"
| locate: "sy_flights s = xs @ Entered # ys \<Longrightarrow> locate_gateway e found (sy_client s) = (r, c) \<Longrightarrow>
    pm_step e s (s\<lparr>sy_client := c, sy_flights := xs @ (case r of Inr (gw, ip) \<Rightarrow> [Located gw ip] | Inl _ \<Rightarrow> []) @ ys\<rparr>)"
| decide: "sy_flights s = xs @ Located gw ip # ys \<Longrightarrow>
    pm_step e s (s\<lparr>sy_flights := xs @ (case start_attempt e (gw, ip) now bound drawn (cl_state (sy_client s)) of
      Awaiting a \<Rightarrow> [Waiting a] | Finished _ \<Rightarrow> []) @ ys\<rparr>)"
| failed: "sy_flights s = xs @ Waiting a # ys \<Longrightarrow> read_replies e a d now evs h \<in> {Fallback, Refused err} \<Longrightarrow>
    pm_step e s (s\<lparr>sy_flights := xs @ ys\<rparr>)"
| granted: "sy_flights s = xs @ Waiting a # ys \<Longrightarrow> read_replies e a d now evs h = Granted m \<Longrightarrow>
    pm_step e s (grant_step e m (xs @ ys) s)"

inductive pm_reach :: "pm_env \<Rightarrow> pm_sys \<Rightarrow> bool" for e where
  init: "pm_reach e pm_init"
| step: "pm_reach e s \<Longrightarrow> pm_step e s s' \<Longrightarrow> pm_reach e s'"

definition given_back :: "client \<Rightarrow> Mapping \<Rightarrow> bool" where
  "given_back c m \<longleftrightarrow> (mp_gw m, release_packet m) \<in> set (cl_released c)"

definition pm_inv :: "pm_env \<Rightarrow> pm_sys \<Rightarrow> bool" where
  "pm_inv e s \<longleftrightarrow>
     (let c = sy_client s in
      (ps_closed (cl_state c) \<longrightarrow> ps_mapping (cl_state c) = None) \<and>
      (pe_runtime e \<longrightarrow>
         (\<forall>m \<in> set (sy_granted s). ps_mapping (cl_state c) = Some m \<or> given_back c m \<or> m \<in> set (sy_dropped s)) \<and>
         (\<forall>m \<in> set (sy_late s). given_back c m)))"

text \<open>
  What a step may do to the client: it opens no closed client, sends releases only, and a mapping that goes is
  given back or dropped.
\<close>

definition keeps :: "pm_env \<Rightarrow> client \<Rightarrow> client \<Rightarrow> Mapping list \<Rightarrow> bool" where
  "keeps e c c' dropped \<longleftrightarrow>
     (ps_closed (cl_state c') \<and> \<not> ps_closed (cl_state c) \<longrightarrow> ps_mapping (cl_state c') = None) \<and>
     ps_mapping (cl_state c') \<in> {ps_mapping (cl_state c), None} \<and>
     set (cl_released c) \<subseteq> set (cl_released c') \<and>
     (pe_runtime e \<longrightarrow> (\<forall>m. ps_mapping (cl_state c) = Some m \<and> ps_mapping (cl_state c') = None \<longrightarrow>
        given_back c' m \<or> m \<in> set dropped))"

lemma keeps_inv:
  assumes "pm_inv e s" "keeps e (sy_client s) c' dropped" "set (sy_dropped s) \<subseteq> set dropped" "sy_client s' = c'"
    "sy_granted s' = sy_granted s" "sy_late s' = sy_late s" "sy_dropped s' = dropped"
  shows "pm_inv e s'"
proof -
  have mono: "given_back (sy_client s) m \<Longrightarrow> given_back c' m" for m
    using assms(2) by (auto simp: keeps_def given_back_def)
  have "ps_mapping (cl_state c') = None" if "ps_closed (cl_state c')"
    using assms(1,2) that by (auto simp: pm_inv_def keeps_def Let_def)
  moreover have "ps_mapping (cl_state c') = Some m \<or> given_back c' m \<or> m \<in> set dropped"
    if rt: "pe_runtime e" and gr: "m \<in> set (sy_granted s)" for m
  proof -
    consider "ps_mapping (cl_state (sy_client s)) = Some m" | "given_back (sy_client s) m" | "m \<in> set (sy_dropped s)"
      using assms(1) rt gr unfolding pm_inv_def Let_def by blast
    then show ?thesis
    proof cases
      case 1
      show ?thesis
      proof (cases "ps_mapping (cl_state c') = None")
        case True
        with 1 rt assms(2) show ?thesis unfolding keeps_def by blast
      next
        case False
        with 1 assms(2) show ?thesis unfolding keeps_def by auto
      qed
    qed (use mono assms(3) in auto)
  qed
  moreover have "given_back c' m" if "pe_runtime e" "m \<in> set (sy_late s)" for m
    using assms(1) that mono by (auto simp: pm_inv_def Let_def)
  ultimately show ?thesis using assms(4-7) by (simp add: pm_inv_def Let_def)
qed

lemma keeps_same:
  "ps_mapping (cl_state c') = ps_mapping (cl_state c) \<Longrightarrow> ps_closed (cl_state c') = ps_closed (cl_state c) \<Longrightarrow>
     cl_released c' = cl_released c \<Longrightarrow> keeps e c c' dropped"
  by (auto simp: keeps_def)

lemma keeps_port: "keeps e c (set_local_port e p c) dropped"
  using invalidate_releases [of e "c\<lparr>cl_state := (cl_state c)\<lparr>ps_local_port := p\<rparr>\<rparr>"]
    invalidate_facts(3) [of "c\<lparr>cl_state := (cl_state c)\<lparr>ps_local_port := p\<rparr>\<rparr>" e True]
  by (auto simp: keeps_def set_local_port_def given_back_def)

lemma keeps_close: "keeps e c (close e c) dropped"
  using invalidate_releases [of e "c\<lparr>cl_state := (cl_state c)\<lparr>ps_closed := True\<rparr>\<rparr>"]
    invalidate_facts(3) [of "c\<lparr>cl_state := (cl_state c)\<lparr>ps_closed := True\<rparr>\<rparr>" e True]
  by (auto simp: keeps_def close_def given_back_def)

lemma keeps_gateway: "keeps e c (gateway_and_self_ip e found c) dropped"
  using gateway_facts [where e = e and found = found and c = c] unfolding keeps_def given_back_def by auto

lemma keeps_drop:
  assumes "ps_closed (cl_state c') = ps_closed (cl_state c)" "ps_mapping (cl_state c') \<in> {ps_mapping (cl_state c), None}"
    "cl_released c' = cl_released c"
  shows "keeps e c c' (if ps_mapping (cl_state c') = ps_mapping (cl_state c) then d else opt_list (ps_mapping (cl_state c)) @ d)"
  using assms by (auto simp: keeps_def opt_list_def)

lemma pxp_state:
  "ps_closed (pa_state (handle_pxp_response now pkt a)) = ps_closed (pa_state a)"
  "ps_mapping (pa_state (handle_pxp_response now pkt a)) \<in> {ps_mapping (pa_state a), None}"
  by (auto simp: handle_pxp_response_def handle_pmp_response_def maybe_invalidate_pmp_mapping_def
      maybe_invalidate_pcp_mapping_def Let_def split: option.split)

lemma pm_step_inv:
  assumes "pm_inv e s" "pm_step e s s'"
  shows "pm_inv e s'"
  using assms(2)
proof cases
  case (port p)
  show ?thesis
    by (rule keeps_inv [OF assms(1) keeps_port, where dropped = "sy_dropped s"]) (auto simp: port)
next
  case down
  have "keeps e (sy_client s) (note_network_down e (sy_client s)) (sy_dropped s')"
    unfolding down drop_step_def
    using keeps_drop [of "note_network_down e (sy_client s)" "sy_client s" e "sy_dropped s"]
    by (simp add: note_network_down_def invalidate_mappings_def Let_def split: option.split)
  then show ?thesis
    by (rule keeps_inv [OF assms(1)]) (auto simp: down drop_step_def)
next
  case close
  show ?thesis
    by (rule keeps_inv [OF assms(1) keeps_close, where dropped = "sy_dropped s"]) (auto simp: close)
next
  case (gateway found)
  show ?thesis
    by (rule keeps_inv [OF assms(1) keeps_gateway, where dropped = "sy_dropped s"]) (auto simp: gateway)
next
  case (pxp a now pkt)
  let ?c = "(sy_client s)\<lparr>cl_state := pa_state (handle_pxp_response now pkt a)\<rparr>"
  have "keeps e (sy_client s) ?c (sy_dropped s')"
    unfolding pxp(1) drop_step_def
    using keeps_drop [of ?c "sy_client s" e "sy_dropped s"] pxp(2) pxp_state [of now pkt a] by simp
  then show ?thesis
    by (rule keeps_inv [OF assms(1)]) (auto simp: pxp(1) drop_step_def)
next
  case (upnp a now)
  then have "keeps e (sy_client s) (sy_client s') (sy_dropped s)"
    by (intro keeps_same) (auto simp: record_upnp_def)
  then show ?thesis by (rule keeps_inv [OF assms(1)]) (auto simp: upnp)
next
  case (probed t)
  then have "keeps e (sy_client s) (sy_client s') (sy_dropped s)"
    by (intro keeps_same) auto
  then show ?thesis by (rule keeps_inv [OF assms(1)]) (auto simp: probed)
next
  case background
  then have "keeps e (sy_client s) (sy_client s') (sy_dropped s)"
    by (intro keeps_same) (auto simp: maybe_start_mapping_def)
  then show ?thesis by (rule keeps_inv [OF assms(1)]) (auto simp: background)
next
  case (finished r)
  then have "keeps e (sy_client s) (sy_client s') (sy_dropped s)"
    by (intro keeps_same) (auto simp: background_done_def)
  then show ?thesis by (rule keeps_inv [OF assms(1)]) (auto simp: finished)
next
  case enter
  then show ?thesis using assms(1) by (simp add: pm_inv_def)
next
  case (locate xs ys found r c)
  then have "c = gateway_and_self_ip e found (sy_client s)"
    by (auto simp: locate_gateway_def Let_def split: option.splits if_splits prod.splits)
  with locate(1) show ?thesis
    by (intro keeps_inv [OF assms(1) keeps_gateway [of e _ found], where dropped = "sy_dropped s"]) auto
next
  case (decide xs gw ip ys now bound drawn)
  then show ?thesis using assms(1) by (simp add: pm_inv_def)
next
  case (failed xs a ys d now evs h err)
  then show ?thesis using assms(1) by (simp add: pm_inv_def)
next
  case (granted xs a ys d now evs h m)
  show ?thesis
  proof (cases "ps_closed (cl_state (sy_client s))")
    case True
    with assms(1) granted(1) show ?thesis
      by (auto simp: pm_inv_def grant_step_def Let_def finish_attempt_def store_mapping_def given_back_def
          release_mapping_def)
  next
    case False
    with assms(1) granted(1) show ?thesis
      by (auto simp: pm_inv_def grant_step_def Let_def finish_attempt_def store_mapping_def given_back_def opt_list_def)
  qed
qed

lemma pm_reach_inv: "pm_reach e s \<Longrightarrow> pm_inv e s"
proof (induction rule: pm_reach.induct)
  case init
  show ?case by (simp add: pm_inv_def pm_init_def new_client_def)
next
  case (step s s')
  then show ?case by (blast intro: pm_step_inv)
qed


section \<open>The probe and the debug run\<close>

lemma handle_datagram_pmp:
  "pr_pmp (pa_res (handle_datagram e now src pkt a)) \<longleftrightarrow> pr_pmp (pa_res a) \<or> snd src \<noteq> upnp_port e \<and> snd src = pxp_port e \<and>
     (\<exists>p. parse_pmp_response pkt = Some p \<and> pmp_op_code p = 0x80 \<and> pmp_result_code p = 0)"
  by (auto simp: handle_datagram_def handle_upnp_response_def handle_pxp_response_def handle_pmp_response_def Let_def
      parse_pcp_response_def parse_pmp_response_def PCP_VERSION_def PMP_VERSION_def PMP_OP_REPLY_def PMP_OP_MAP_PUBLIC_ADDR_def
      split: option.splits sum.splits)

lemma probe_loop_pmp:
  "pr_pmp (pa_res (fst (probe_loop e deadline now settle evs a))) \<Longrightarrow> pr_pmp (pa_res a) \<or>
     (\<exists>t src pkt p. Datagram t src pkt \<in> set evs \<and> t < deadline \<and> snd src = pxp_port e \<and>
        parse_pmp_response pkt = Some p \<and> pmp_op_code p = 0x80 \<and> pmp_result_code p = 0)"
proof (induction evs arbitrary: now settle a)
  case (Cons ev evs)
  show ?case
  proof (cases "probe_complete a settle now \<or> deadline \<le> now \<or> deadline \<le> recv_at ev")
    case False
    show ?thesis
    proof (cases ev)
      case (Datagram t src pkt)
      with False Cons show ?thesis by (fastforce simp: handle_datagram_pmp)
    next
      case (RecvFailed t err)
      with False Cons(2) show ?thesis by simp
    qed
  next
    case True
    with Cons(2) show ?thesis by (cases "probe_complete a settle now \<or> deadline \<le> now") auto
  qed
qed (auto split: if_splits)

text \<open>
  A probe that reports NAT-PMP has evidence for it: the service had been seen within the trusted period, or a
  datagram that arrived from the NAT-PMP port before the deadline is a well-formed answer to the address
  request with result code 0. And a probe sends nothing to a service that is disabled or was seen recently.
\<close>

theorem probe_evidence:
  assumes "probe e (Some (gw, my_ip)) bound now evs c = (Inr res, sent, c')"
  shows "(pr_pmp res \<longrightarrow> saw_pmp_recently now (cl_state (gateway_and_self_ip e (Some (gw, my_ip)) c)) \<or>
      (\<exists>t src pkt p. Datagram t src pkt \<in> set evs \<and> t < now + PORT_MAP_SERVICE_TIMEOUT \<and> snd src = pxp_port e \<and>
         parse_pmp_response pkt = Some p \<and> pmp_op_code p = 0x80 \<and> pmp_result_code p = 0)) \<and>
    (disable_pmp (pe_debug e) \<and> disable_pcp (pe_debug e) \<longrightarrow> pxp_port e \<noteq> upnp_port e \<longrightarrow>
       (\<forall>(pkt, to) \<in> set sent. snd to \<noteq> pxp_port e)) \<and>
    (disable_upnp (pe_debug e) \<longrightarrow> (\<forall>(pkt, to) \<in> set sent. to = (gw, pxp_port e)))"
proof -
  let ?st = "cl_state (gateway_and_self_ip e (Some (gw, my_ip)) c)"
  obtain a "end" where loop: "probe_loop e (now + PORT_MAP_SERVICE_TIMEOUT) now None evs (initial_acc now ?st) = (a, end)"
    by fastforce
  from assms loop have r: "res = pa_res a" "sent = probe_requests e now gw my_ip ?st"
    by (auto simp: probe_def Let_def split: if_splits sum.splits option.splits)
  have init: "pr_pmp (pa_res (initial_acc now ?st)) = saw_pmp_recently now ?st" by (simp add: initial_acc_def)
  have "pr_pmp res \<longrightarrow> saw_pmp_recently now ?st \<or>
      (\<exists>t src pkt p. Datagram t src pkt \<in> set evs \<and> t < now + PORT_MAP_SERVICE_TIMEOUT \<and> snd src = pxp_port e \<and>
         parse_pmp_response pkt = Some p \<and> pmp_op_code p = 0x80 \<and> pmp_result_code p = 0)"
    using probe_loop_pmp [of e "now + PORT_MAP_SERVICE_TIMEOUT" now None evs "initial_acc now ?st"] loop init r(1) by simp
  then show ?thesis
    unfolding r(2) by (auto simp: probe_requests_def Let_def)
qed

text \<open>
  A debug run ends with its client closed and without a mapping on every way out (a refused pair, no gateway,
  no socket, a failed probe, no services, the end of the wait), whatever background attempts did meanwhile; an
  unknown type is refused before a client exists.
\<close>

theorem debug_portmap_closes:
  assumes "debug_portmap e opts u = (r, oc)"
  shows "(dp_ty opts \<notin> {[], ''pmp'', ''pcp'', ''upnp''} \<longleftrightarrow> oc = None) \<and> (oc = None \<longleftrightarrow> \<not> is_ok r) \<and>
    (\<forall>c. oc = Some c \<longrightarrow> ps_closed (cl_state c) \<and>
       (\<exists>c0 e1. c = close e1 c0 \<and> (ps_closed (cl_state c0) \<or> ps_mapping (cl_state c) = None \<and> \<not> cl_hook c)))"
proof -
  have close: "ps_closed (cl_state (close e1 c0)) \<and>
      (ps_closed (cl_state c0) \<or> ps_mapping (cl_state (close e1 c0)) = None \<and> \<not> cl_hook (close e1 c0))" for e1 c0
    by (simp add: close_def)
  have "\<exists>c0 e1. c = close e1 c0" if "oc = Some c" for c
    using assms that by (auto simp: debug_portmap_def Let_def split: option.splits sum.splits prod.splits)
  moreover have "dp_ty opts \<notin> {[], ''pmp'', ''pcp'', ''upnp''} \<longleftrightarrow> debug_knobs (dp_ty opts) = None"
    by (auto simp: debug_knobs_def Let_def)
  moreover have "oc = None \<longleftrightarrow> debug_knobs (dp_ty opts) = None" "oc = None \<longleftrightarrow> \<not> is_ok r"
    using assms by (auto simp: debug_portmap_def Let_def is_ok_def split: option.splits sum.splits prod.splits)
  ultimately show ?thesis using close by metis
qed

section \<open>A run\<close>

definition demo_pm_env :: pm_env where
  "demo_pm_env = \<lparr>pe_debug = \<lparr>disable_upnp = False, disable_pmp = False, disable_pcp = False, knob_disable_all = False\<rparr>,
     pe_env_disabled = False, pe_test_pxp_port = 0, pe_test_upnp_port = 0, pe_runtime = True, pe_send = (\<lambda>_. SendOk)\<rparr>"

definition demo_replies :: "recv list" where
  "demo_replies = [Datagram 1 (V4 0x0A000001, 5351) [0, 0x80, 0, 0, 0, 0, 0, 1, 203, 0, 113, 7],
     Datagram 2 (V4 0x0A000001, 5351) [0, 0x81, 0, 0, 0, 0, 0, 1, 0xA2, 0xA9, 0xA2, 0xA9, 0, 0, 0x1C, 0x20]]"

definition demo_attempt :: attempt where
  "demo_attempt = \<lparr>at_gw = V4 0x0A000001, at_my_ip = V4 0x0A000002, at_internal = (V4 0x0A000002, 0), at_prev_port = 0,
     at_known_ip = None, at_nonce = None\<rparr>"

definition demo_mapping :: Mapping where
  "demo_mapping = \<lparr>mp_kind = Pmp, mp_gw = (V4 0x0A000001, 5351), mp_internal = (V4 0x0A000002, 0),
     mp_external = (V4 0xCB007107, 41641), mp_renew_after = 2 + 3600 * 10 ^ 9, mp_good_until = 2 + 7200 * 10 ^ 9,
     mp_epoch = 1, mp_nonce = None\<rparr>"

lemma demo_granted:
  "read_replies demo_pm_env demo_attempt PORT_MAP_SERVICE_TIMEOUT 0 demo_replies (initial_halves demo_attempt 0) =
     Granted demo_mapping"
  by code_simp

lemma demo_started:
  "start_attempt demo_pm_env (V4 0x0A000001, V4 0x0A000002) 0 (Inr ()) None
     (cl_state (gateway_and_self_ip demo_pm_env (Some (V4 0x0A000001, V4 0x0A000002)) new_client)) = Awaiting demo_attempt"
  by code_simp

abbreviation demo_found :: "(ipaddr \<times> ipaddr) option" where
  "demo_found \<equiv> Some (V4 0x0A000001, V4 0x0A000002)"

abbreviation demo_client :: client where
  "demo_client \<equiv> gateway_and_self_ip demo_pm_env demo_found new_client"

text \<open>An attempt is under way when the client is closed; the gateway's grant arrives afterwards.\<close>

definition demo_late :: pm_sys where
  "demo_late = grant_step demo_pm_env demo_mapping []
     (pm_init\<lparr>sy_client := close demo_pm_env demo_client, sy_flights := [Waiting demo_attempt]\<rparr>)"

lemma demo_late_reached: "pm_reach demo_pm_env demo_late"
proof -
  let ?e = demo_pm_env
  have "refuse_attempt ?e (sy_client pm_init) = None" by code_simp
  then have 1: "pm_reach ?e (pm_init\<lparr>sy_flights := [Entered]\<rparr>)"
    using pm_reach.step [OF pm_reach.init pm_step.enter [of ?e pm_init]] by (simp add: pm_init_def)
  have loc: "locate_gateway ?e demo_found (sy_client (pm_init\<lparr>sy_flights := [Entered]\<rparr>)) =
      (Inr (V4 0x0A000001, V4 0x0A000002), demo_client)"
    by (simp add: locate_gateway_def is_ipv6_def pm_init_def)
  have 2: "pm_reach ?e (pm_init\<lparr>sy_client := demo_client, sy_flights := [Located (V4 0x0A000001) (V4 0x0A000002)]\<rparr>)"
    using pm_reach.step [OF 1 pm_step.locate [of _ "[]" "[]" ?e demo_found, OF _ loc]] by simp
  have 3: "pm_reach ?e (pm_init\<lparr>sy_client := demo_client, sy_flights := [Waiting demo_attempt]\<rparr>)"
    using pm_reach.step [OF 2 pm_step.decide [of _ "[]" "V4 0x0A000001" "V4 0x0A000002" "[]" ?e 0 "Inr ()" None]] demo_started
    by simp
  have 4: "pm_reach ?e (pm_init\<lparr>sy_client := close ?e demo_client, sy_flights := [Waiting demo_attempt]\<rparr>)"
    using pm_reach.step [OF 3 pm_step.close] by (simp add: pm_init_def)
  show ?thesis
    using pm_reach.step [OF 4 pm_step.granted [of _ "[]" demo_attempt "[]" ?e PORT_MAP_SERVICE_TIMEOUT 0 demo_replies
      "initial_halves demo_attempt 0" demo_mapping]] demo_granted
    by (simp add: demo_late_def)
qed



theorem release_names_mapping_witness:
  "pmp_request_fields (release_packet demo_mapping) = (PMP_OP_MAP_UDP, 0, 41641, 0)"
proof -
  let ?h = "\<lparr>hv_ip = Some 0xCB007107, hv_port = 41641, hv_good_until = 2 + 7200 * 10 ^ 9, hv_renew_after = 2 + 3600 * 10 ^ 9,
    hv_epoch = 1\<rparr>"
  have s: "start_attempt demo_pm_env (V4 0x0A000001, V4 0x0A000002) 0 (Inr ()) (Some (replicate 12 7)) (cl_state demo_client) =
      Awaiting demo_attempt"
    by code_simp
  have "pmp_mapping demo_pm_env demo_attempt ?h = Some demo_mapping"
    by (simp add: pmp_mapping_def demo_attempt_def demo_mapping_def pxp_port_def demo_pm_env_def PXP_PORT_def)
  moreover have "ps_local_port (cl_state demo_client) = 0"
    by (simp add: gateway_and_self_ip_def invalidate_mappings_def new_client_def Let_def)
  ultimately show ?thesis
    using release_names_mapping [OF s, of undefined undefined ?h] by simp
qed

definition demo_due :: Mapping where
  "demo_due = demo_mapping\<lparr>mp_kind := Pcp, mp_nonce := Some (replicate 12 1), mp_renew_after := 0\<rparr>"


theorem probe_evidence_witness:
  "\<exists>res sent c'. probe demo_pm_env demo_found (Inr ()) 0 demo_replies new_client = (Inr res, sent, c') \<and> pr_pmp res"
proof -
  let ?l = "fst (probe_loop demo_pm_env (0 + PORT_MAP_SERVICE_TIMEOUT) 0 None demo_replies (initial_acc 0 (cl_state demo_client)))"
  have l: "pr_pmp (pa_res ?l)" "pa_err ?l = None" by code_simp+
  obtain r sent c' where q: "probe demo_pm_env demo_found (Inr ()) 0 demo_replies new_client = (r, sent, c')"
    by (metis prod.exhaust)
  moreover from q l have "r = Inr (pa_res ?l)"
    by (auto simp: probe_def disable_all_def demo_pm_env_def Let_def split: prod.splits)
  ultimately show ?thesis using l probe_evidence [OF q [unfolded \<open>r = Inr (pa_res ?l)\<close>]] by auto
qed

definition demo_run_env :: run_env where
  "demo_run_env = \<lparr>ru_lookup = demo_found, ru_bind = Inr 41641, ru_probe_bound = Inr (), ru_now = 0,
     ru_probe_evs = demo_replies, ru_cut_short = False, ru_wait = (\<lambda>c. (False, c))\<rparr>"

theorem debug_portmap_closes_witness:
  "\<exists>lines c. debug_portmap demo_pm_env \<lparr>dp_ty = ''pmp'', dp_gateway_and_self = None\<rparr> demo_run_env = (Inr lines, Some c) \<and>
     ps_closed (cl_state c)"
proof -
  obtain r oc where q: "debug_portmap demo_pm_env \<lparr>dp_ty = ''pmp'', dp_gateway_and_self = None\<rparr> demo_run_env = (r, oc)"
    by fastforce
  have "dp_ty \<lparr>dp_ty = ''pmp'', dp_gateway_and_self = None\<rparr> \<in> {[], ''pmp'', ''pcp'', ''upnp''}" by simp
  then have "oc \<noteq> None" using debug_portmap_closes [OF q] by blast
  moreover from this have "is_ok r" using debug_portmap_closes [OF q] by blast
  ultimately show ?thesis using q debug_portmap_closes [OF q] by (cases r) (auto simp: is_ok_def)
qed

end
