(* ===== verification/Proxies.thy ===== *)
theory Proxies
  imports Framing Utf8Chars
begin

text \<open>
  The two outbound proxies of the daemon, \<open>src/src/socks5.rs\<close> and \<open>src/src/httpproxy.rs\<close>: the exchange that
  precedes the tunnel. A connection is the bytes the client sends until it stops sending (or the handshake
  deadline passes); the result is what is written back and whether a tunnel is opened, to which destination
  and with which bytes of the client still to be forwarded. A write that fails ends the connection. The accept
  loops and the splice are not modelled. The engine (is the node up, does the dial succeed) is a parameter.
\<close>

section \<open>Shared\<close>

record proxy_env =
  px_up :: bool
  px_dial :: "string \<Rightarrow> nat \<Rightarrow> (string, unit) result"
  px_gone :: "nat \<Rightarrow> bool"

datatype outcome = Tunnel string nat string | Ended

type_synonym exchange = "string list \<times> outcome"

text \<open>The first write that fails ends the connection.\<close>

definition cut_off :: "proxy_env \<Rightarrow> exchange \<Rightarrow> exchange" where
  "cut_off e x =
     (case find (px_gone e) [0..<length (fst x)] of
        None \<Rightarrow> x
      | Some k \<Rightarrow> (take k (fst x), Ended))"

definition read_exact :: "nat \<Rightarrow> string \<Rightarrow> (string \<times> string) option" where
  "read_exact n s = (if n \<le> length s then Some (take n s, drop n s) else None)"

definition bytes_str :: "nat list \<Rightarrow> string" where
  "bytes_str ns = map char_of ns"

definition be_val :: "string \<Rightarrow> nat" where
  "be_val s = foldl (\<lambda>acc c. acc * 256 + byte c) 0 s"

section \<open>SOCKS5\<close>

definition SOCKS5_VERSION :: nat where "SOCKS5_VERSION = 5"
definition METHOD_NO_AUTH :: nat where "METHOD_NO_AUTH = 0"
definition METHOD_NO_ACCEPTABLE :: nat where "METHOD_NO_ACCEPTABLE = 255"
definition CMD_CONNECT :: nat where "CMD_CONNECT = 1"
definition REPLY_SUCCEEDED :: nat where "REPLY_SUCCEEDED = 0"
definition REPLY_GENERAL_FAILURE :: nat where "REPLY_GENERAL_FAILURE = 1"
definition REPLY_HOST_UNREACHABLE :: nat where "REPLY_HOST_UNREACHABLE = 4"
definition REPLY_COMMAND_NOT_SUPPORTED :: nat where "REPLY_COMMAND_NOT_SUPPORTED = 7"
definition REPLY_ADDRESS_TYPE_NOT_SUPPORTED :: nat where "REPLY_ADDRESS_TYPE_NOT_SUPPORTED = 8"
definition ATYP_IPV4 :: nat where "ATYP_IPV4 = 1"
definition ATYP_DOMAINNAME :: nat where "ATYP_DOMAINNAME = 3"
definition ATYP_IPV6 :: nat where "ATYP_IPV6 = 4"

lemmas socks_consts = SOCKS5_VERSION_def METHOD_NO_AUTH_def METHOD_NO_ACCEPTABLE_def CMD_CONNECT_def REPLY_SUCCEEDED_def
  REPLY_GENERAL_FAILURE_def REPLY_HOST_UNREACHABLE_def REPLY_COMMAND_NOT_SUPPORTED_def
  REPLY_ADDRESS_TYPE_NOT_SUPPORTED_def ATYP_IPV4_def ATYP_DOMAINNAME_def ATYP_IPV6_def

definition send_reply :: "nat \<Rightarrow> string" where
  "send_reply rep = bytes_str [SOCKS5_VERSION, rep, 0, ATYP_IPV4, 0, 0, 0, 0, 0, 0]"

definition negotiate_method :: "string \<Rightarrow> string list \<times> string option" where
  "negotiate_method inp =
     (case read_exact 2 inp of
        None \<Rightarrow> ([], None)
      | Some (head, r) \<Rightarrow>
          if byte (head ! 0) \<noteq> SOCKS5_VERSION then ([], None)
          else case read_exact (byte (head ! 1)) r of
            None \<Rightarrow> ([], None)
          | Some (methods, r2) \<Rightarrow>
              if METHOD_NO_AUTH \<in> byte ` set methods then ([bytes_str [SOCKS5_VERSION, METHOD_NO_AUTH]], Some r2)
              else ([bytes_str [SOCKS5_VERSION, METHOD_NO_ACCEPTABLE]], None))"

text \<open>The destination after the request header: its text and what follows, or the reply of a refusal.\<close>

definition read_dest :: "nat \<Rightarrow> string \<Rightarrow> (string option, string \<times> string) result" where
  "read_dest address_type r =
     (if address_type = ATYP_IPV4 then
        (case read_exact 4 r of
           None \<Rightarrow> Inl None | Some (b, r1) \<Rightarrow> Inr (show_ipaddr (V4 (word_of_nat (be_val b))), r1))
      else if address_type = ATYP_IPV6 then
        (case read_exact 16 r of
           None \<Rightarrow> Inl None | Some (b, r1) \<Rightarrow> Inr (show_ipaddr (V6 (word_of_nat (be_val b))), r1))
      else if address_type = ATYP_DOMAINNAME then
        (case read_exact 1 r of
           None \<Rightarrow> Inl None
         | Some (len, r1) \<Rightarrow>
             (case read_exact (byte (len ! 0)) r1 of
                None \<Rightarrow> Inl None
              | Some (name, r2) \<Rightarrow> if valid_utf8 name then Inr (name, r2) else Inl None))
      else Inl (Some (send_reply REPLY_ADDRESS_TYPE_NOT_SUPPORTED)))"

definition read_connect_request :: "string \<Rightarrow> (string option, (string \<times> nat) \<times> string) result" where
  "read_connect_request inp =
     (case read_exact 4 inp of
        None \<Rightarrow> Inl None
      | Some (head, r) \<Rightarrow>
          if byte (head ! 0) \<noteq> SOCKS5_VERSION then Inl None
          else if byte (head ! 1) \<noteq> CMD_CONNECT then Inl (Some (send_reply REPLY_COMMAND_NOT_SUPPORTED))
          else case read_dest (byte (head ! 3)) r of
            Inl rep \<Rightarrow> Inl rep
          | Inr (host, r1) \<Rightarrow>
              (case read_exact 2 r1 of None \<Rightarrow> Inl None | Some (port, r2) \<Rightarrow> Inr ((host, be_val port), r2)))"

definition handle_socks5 :: "proxy_env \<Rightarrow> string \<Rightarrow> exchange" where
  "handle_socks5 e inp = cut_off e
     (case negotiate_method inp of
        (ws, None) \<Rightarrow> (ws, Ended)
      | (ws, Some r) \<Rightarrow>
          (case read_connect_request r of
             Inl None \<Rightarrow> (ws, Ended)
           | Inl (Some rep) \<Rightarrow> (ws @ [rep], Ended)
           | Inr ((host, port), rest) \<Rightarrow>
               if \<not> px_up e then (ws @ [send_reply REPLY_GENERAL_FAILURE], Ended)
               else case px_dial e host port of
                 Inl _ \<Rightarrow> (ws @ [send_reply REPLY_HOST_UNREACHABLE], Ended)
               | Inr _ \<Rightarrow> (ws @ [send_reply REPLY_SUCCEEDED], Tunnel host port rest)))"

text \<open>\<open>SocketAddr::from_str\<close>.\<close>

definition read_port :: "string \<Rightarrow> (nat \<times> string) option" where
  "read_port s = (case read_given_char (CHR '':'') s of None \<Rightarrow> None | Some r \<Rightarrow> read_number 10 (length r) True (2 ^ 16) r)"

definition read_scope :: "string \<Rightarrow> string option" where
  "read_scope s =
     (case read_given_char (CHR 0x25) s of
        None \<Rightarrow> Some s
      | Some r \<Rightarrow> (case read_number 10 (length r) True (2 ^ 32) r of Some (_, t) \<Rightarrow> Some t | None \<Rightarrow> Some s))"

definition parse_socket_addr :: "string \<Rightarrow> (ipaddr \<times> nat) option" where
  "parse_socket_addr s =
     (case (case read_ipv4_addr s of
              None \<Rightarrow> None
            | Some (v, r) \<Rightarrow> map_option (\<lambda>(p, t). ((V4 (word_of_nat v), p), t)) (read_port r)) of
        Some (a, []) \<Rightarrow> Some a
      | _ \<Rightarrow>
          (case read_given_char (CHR ''['') s of
             None \<Rightarrow> None
           | Some s1 \<Rightarrow>
               (case read_ipv6_addr s1 of
                  None \<Rightarrow> None
                | Some (gs, r) \<Rightarrow>
                    (case read_scope r of
                       None \<Rightarrow> None
                     | Some r1 \<Rightarrow>
                         (case read_given_char (CHR '']'') r1 of
                            None \<Rightarrow> None
                          | Some r2 \<Rightarrow>
                              (case read_port r2 of
                                 Some (p, []) \<Rightarrow> Some (V6 (word_of_nat (groups_val gs)), p)
                               | _ \<Rightarrow> None))))))"

datatype listen_error = EmptyAddress | ZeroPort | NotAnAddress string

definition normalize_listen_addr :: "string \<Rightarrow> (listen_error, string) result" where
  "normalize_listen_addr a =
     (let addr = utrim a in
      if addr = [] then Inl EmptyAddress
      else if parse_socket_addr addr \<noteq> None then Inr addr
      else case from_str_radix 10 (2 ^ 16) addr of
        Some port \<Rightarrow> if port = 0 then Inl ZeroPort else Inr (''127.0.0.1:'' @ dec_string port)
      | None \<Rightarrow> Inl (NotAnAddress addr))"

section \<open>SOCKS5: which inputs open a tunnel\<close>

datatype socks_addr = S4 string | S6 string | SName string

fun addr_bytes :: "socks_addr \<Rightarrow> string" where
  "addr_bytes (S4 b) = bytes_str [1] @ b"
| "addr_bytes (S6 b) = bytes_str [4] @ b"
| "addr_bytes (SName n) = bytes_str [3, length n] @ n"

fun addr_ok :: "socks_addr \<Rightarrow> bool" where
  "addr_ok (S4 b) = (length b = 4)"
| "addr_ok (S6 b) = (length b = 16)"
| "addr_ok (SName n) = (length n < 256 \<and> valid_utf8 n)"

fun addr_text :: "socks_addr \<Rightarrow> string" where
  "addr_text (S4 b) = show_ipaddr (V4 (word_of_nat (be_val b)))"
| "addr_text (S6 b) = show_ipaddr (V6 (word_of_nat (be_val b)))"
| "addr_text (SName n) = n"

definition socks_input :: "string \<Rightarrow> char \<Rightarrow> socks_addr \<Rightarrow> string \<Rightarrow> string \<Rightarrow> string" where
  "socks_input methods rsv a port rest =
     bytes_str [5, length methods] @ methods @ bytes_str [5, 1] @ [rsv] @ addr_bytes a @ port @ rest"

lemma read_exact_iff: "read_exact n s = Some (a, r) \<longleftrightarrow> s = a @ r \<and> length a = n"
  by (auto simp: read_exact_def)

lemma read_exact_append [simp]: "length a = n \<Longrightarrow> read_exact n (a @ r) = Some (a, r)"
  by (simp add: read_exact_iff)

lemma char_of_byte [simp]: "char_of (byte c) = c"
  by (simp add: byte_def)

lemma byte_eq_iff: "byte c = n \<longleftrightarrow> n < 256 \<and> c = char_of n"
  by (metis byte_char_of byte_less char_of_byte)

lemma length_two: "length s = 2 \<longleftrightarrow> s = [s ! 0, s ! 1]"
  by (cases s; cases "tl s") auto

lemma negotiate_iff:
  "(\<exists>ws. negotiate_method inp = (ws, Some r)) \<longleftrightarrow>
     (\<exists>methods. length methods < 256 \<and> char_of (0::nat) \<in> set methods \<and> inp = bytes_str [5, length methods] @ methods @ r)"
  (is "?l \<longleftrightarrow> ?r")
proof
  assume ?l
  then obtain h r1 methods where h: "read_exact 2 inp = Some (h, r1)" "byte (h ! 0) = 5"
    "read_exact (byte (h ! 1)) r1 = Some (methods, r)" "0 \<in> byte ` set methods"
    by (auto simp: negotiate_method_def socks_consts split: option.splits if_splits)
  then have "inp = h @ methods @ r" "length h = 2" "length methods = byte (h ! 1)" by (auto simp: read_exact_iff)
  moreover from this(2) h(2) have "h = bytes_str [5, byte (h ! 1)]"
    unfolding length_two by (metis bytes_str_def char_of_byte list.simps(8) list.simps(9))
  ultimately show ?r
    using h(4) by (intro exI [of _ methods]) (auto simp: byte_eq_iff intro: byte_less)
next
  assume ?r
  then obtain methods where m: "length methods < 256" "char_of (0::nat) \<in> set methods"
    "inp = bytes_str [5, length methods] @ methods @ r" by blast
  have "read_exact 2 inp = Some (bytes_str [5, length methods], methods @ r)"
    unfolding m(3) by (rule read_exact_append) (simp add: bytes_str_def)
  moreover have "0 \<in> byte ` set methods" using m(2) by (force simp: byte_char_of)
  ultimately show ?l using m(1) by (simp add: negotiate_method_def socks_consts bytes_str_def byte_char_of)
qed

lemma read_dest_iff:
  "read_dest t r = Inr (host, r') \<longleftrightarrow>
     (\<exists>a. addr_ok a \<and> host = addr_text a \<and> bytes_str [t] @ r = addr_bytes a @ r' \<and> t < 256)" (is "?l \<longleftrightarrow> ?r")
  if "t < 256"
proof
  assume ?l
  then consider
      b where "t = 1" "read_exact 4 r = Some (b, r')" "host = show_ipaddr (V4 (word_of_nat (be_val b)))"
    | b where "t = 4" "read_exact 16 r = Some (b, r')" "host = show_ipaddr (V6 (word_of_nat (be_val b)))"
    | l r1 where "t = 3" "read_exact 1 r = Some (l, r1)" "read_exact (byte (l ! 0)) r1 = Some (host, r')" "valid_utf8 host"
    by (auto simp: read_dest_def socks_consts split: if_splits option.splits)
  then show ?r
  proof cases
    case (1 b)
    then show ?thesis by (intro exI [of _ "S4 b"]) (auto simp: read_exact_iff bytes_str_def)
  next
    case (2 b)
    then show ?thesis by (intro exI [of _ "S6 b"]) (auto simp: read_exact_iff bytes_str_def)
  next
    case (3 l r1)
    then obtain c where "l = [c]" by (auto simp: read_exact_iff length_Suc_conv)
    with 3 show ?thesis by (intro exI [of _ "SName host"]) (auto simp: read_exact_iff bytes_str_def)
  qed
next
  assume ?r
  then obtain a where a: "addr_ok a" "host = addr_text a" "bytes_str [t] @ r = addr_bytes a @ r'" by blast
  have inj: "char_of t = (char_of n :: char) \<Longrightarrow> n < 256 \<Longrightarrow> t = n" for n
    using that by (metis byte_char_of)
  show ?l
  proof (cases a)
    case (S4 b)
    with a inj [of 1] show ?thesis by (auto simp: read_dest_def socks_consts bytes_str_def)
  next
    case (S6 b)
    with a inj [of 4] show ?thesis by (auto simp: read_dest_def socks_consts bytes_str_def)
  next
    case (SName n)
    with a inj [of 3] have "t = 3" "r = [char_of (length n)] @ n @ r'" by (auto simp: bytes_str_def)
    with a SName show ?thesis by (simp add: read_dest_def socks_consts byte_char_of read_exact_def)
  qed
qed

lemma connect_request_iff:
  "read_connect_request inp = Inr ((host, port), rest) \<longleftrightarrow>
     (\<exists>rsv a p. addr_ok a \<and> host = addr_text a \<and> length p = 2 \<and> port = be_val p \<and>
        inp = bytes_str [5, 1] @ [rsv] @ addr_bytes a @ p @ rest)" (is "?l \<longleftrightarrow> ?r")
proof
  assume ?l
  then obtain h r r1 p where h: "read_exact 4 inp = Some (h, r)" "byte (h ! 0) = 5" "byte (h ! 1) = 1"
    "read_dest (byte (h ! 3)) r = Inr (host, r1)" "read_exact 2 r1 = Some (p, rest)" "port = be_val p"
    by (auto simp: read_connect_request_def socks_consts split: option.splits if_splits sum.splits)
  from h(4) obtain a where a: "addr_ok a" "host = addr_text a" "bytes_str [byte (h ! 3)] @ r = addr_bytes a @ r1"
    using read_dest_iff [OF byte_less] by blast
  from h(1) have i: "inp = h @ r" "length h = 4" by (auto simp: read_exact_iff)
  then have "h = [h ! 0, h ! 1, h ! 2, h ! 3]"
    by (cases h; cases "tl h"; cases "tl (tl h)"; cases "tl (tl (tl h))") auto
  then have "h = bytes_str [5, 1] @ [h ! 2] @ [h ! 3]"
    using h(2,3) by (simp add: bytes_str_def) (metis char_of_byte)
  then obtain x y where xy: "h = bytes_str [5, 1] @ [x] @ [y]" by blast
  then have "h ! 3 = y" by (simp add: bytes_str_def)
  with i xy a(3) h(5) have "inp = bytes_str [5, 1] @ [x] @ addr_bytes a @ p @ rest" "length p = 2"
    by (auto simp: read_exact_iff bytes_str_def)
  with a h(6) show ?r by blast
next
  assume ?r
  then obtain rsv a p where a: "addr_ok a" "host = addr_text a" "length p = 2" "port = be_val p"
    "inp = bytes_str [5, 1] @ [rsv] @ addr_bytes a @ p @ rest" by blast
  obtain t r where t: "t < 256" "addr_bytes a @ p @ rest = bytes_str [t] @ r"
    by (cases a) (auto simp: bytes_str_def)
  have "\<exists>r1. addr_bytes a @ p @ rest = addr_bytes a @ r1 \<and> r1 = p @ rest" by simp
  with t a(1,2) have d: "read_dest t r = Inr (host, p @ rest)" using read_dest_iff [OF t(1)] by metis
  have "read_exact 4 inp = Some (bytes_str [5, 1] @ [rsv] @ bytes_str [t], r)"
    unfolding a(5) t(2) by (simp add: read_exact_def bytes_str_def)
  with d a(3,4) t(1) show ?l
    by (simp add: read_connect_request_def socks_consts bytes_str_def byte_char_of)
qed

lemma cut_tunnel: "(\<exists>ws. cut_off e x = (ws, Tunnel h p r)) \<longleftrightarrow> snd x = Tunnel h p r \<and> (\<forall>k < length (fst x). \<not> px_gone e k)"
proof (cases "find (px_gone e) [0..<length (fst x)]")
  case None
  then have "\<forall>k < length (fst x). \<not> px_gone e k" by (auto simp: find_None_iff)
  with None show ?thesis by (cases x) (auto simp: cut_off_def)
next
  case (Some k)
  then have "k < length (fst x)" "px_gone e k" by (auto simp: find_Some_iff)
  with Some show ?thesis by (auto simp: cut_off_def)
qed

text \<open>
  C29. A SOCKS5 connection opens a tunnel exactly when the client offers \<open>no authentication\<close> among its methods, then
  sends a CONNECT request in the wire format of RFC 1928 (an IPv4 or IPv6 address, or a UTF-8 name), the node
  is up, the overlay dial succeeds and both replies can be written. The destination dialed is the one in the
  request, and every byte after the request goes into the tunnel.
\<close>

theorem socks5_tunnel_exact:
  "(\<exists>ws. handle_socks5 e inp = (ws, Tunnel host port rest)) \<longleftrightarrow>
     px_up e \<and> is_ok (px_dial e host port) \<and> \<not> px_gone e 0 \<and> \<not> px_gone e 1 \<and>
     (\<exists>methods rsv a p. length methods < 256 \<and> char_of (0::nat) \<in> set methods \<and> addr_ok a \<and> host = addr_text a \<and>
        length p = 2 \<and> port = be_val p \<and> inp = socks_input methods rsv a p rest)" (is "?l \<longleftrightarrow> ?r")
proof -
  have one: "length (fst (negotiate_method inp)) = 1" if "snd (negotiate_method inp) = Some r" for r
    using that by (auto simp: negotiate_method_def split: option.splits if_splits)
  have "?l \<longleftrightarrow> px_up e \<and> is_ok (px_dial e host port) \<and> \<not> px_gone e 0 \<and> \<not> px_gone e 1 \<and>
      (\<exists>r. (\<exists>ws. negotiate_method inp = (ws, Some r)) \<and> read_connect_request r = Inr ((host, port), rest))"
    unfolding handle_socks5_def cut_tunnel using one
    by (cases "negotiate_method inp")
      (auto simp: is_ok_def less_Suc_eq split: option.splits sum.splits if_splits)
  then show ?thesis
    unfolding negotiate_iff connect_request_iff socks_input_def by fastforce
qed

section \<open>The HTTP proxy\<close>

definition MAX_HEAD_BYTES :: nat where "MAX_HEAD_BYTES = 64 * 1024"
definition MAX_ERROR_HEADER_LEN :: nat where "MAX_ERROR_HEADER_LEN = 256"

text \<open>\<open>take(n).read_until(b'\n')\<close> on the buffered reader: the bytes up to and with the newline, at most \<open>n\<close>.\<close>

function read_until :: "nat \<Rightarrow> reader \<Rightarrow> string \<times> reader" where
  "read_until n r =
     (let r1 = fill_buf r; avail = take n (rd_buf r1); p = line_part avail in
      if n = 0 then ([], r)
      else if avail = [] then ([], r1)
      else if newline \<in> set avail then (p @ [newline], r1\<lparr>rd_buf := drop (length p + 1) (rd_buf r1)\<rparr>)
      else case read_until (n - length avail) (r1\<lparr>rd_buf := drop (length avail) (rd_buf r1)\<rparr>) of
        (tail, r2) \<Rightarrow> (avail @ tail, r2))"
  by pat_completeness auto
termination by (relation "measure fst") auto

declare read_until.simps [simp del]

text \<open>A line and the number of its bytes, unless it is longer than the cap.\<close>

definition read_line_capped :: "nat \<Rightarrow> reader \<Rightarrow> (string \<times> nat \<times> reader) option" where
  "read_line_capped cap r =
     (case read_until (cap + 1) r of (raw, r1) \<Rightarrow>
        if cap < length raw then None else Some (from_utf8_lossy raw, length raw, r1))"

function drain_headers :: "nat \<Rightarrow> reader \<Rightarrow> reader option" where
  "drain_headers sofar r =
     (case read_line_capped (MAX_HEAD_BYTES - sofar) r of
        None \<Rightarrow> None
      | Some (line, n, r1) \<Rightarrow>
          if n = 0 then Some r1
          else if line = [CR, LF] \<or> line = [LF] then Some r1
          else if MAX_HEAD_BYTES \<le> sofar + n then None
          else drain_headers (sofar + n) r1)"
  by pat_completeness auto
termination by (relation "measure (\<lambda>(sofar, r). MAX_HEAD_BYTES - sofar)") auto

declare drain_headers.simps [simp del]

definition parse_port :: "string \<Rightarrow> nat option" where
  "parse_port s = (case from_str_radix 10 (2 ^ 16) s of Some p \<Rightarrow> if p = 0 then None else Some p | None \<Rightarrow> None)"

definition parse_authority :: "string \<Rightarrow> (string \<times> nat) option" where
  "parse_authority t =
     (let target = utrim t;
          named = (\<lambda>host port. if host = [] then None else map_option (Pair host) (parse_port port)) in
      case strip_prefix target ''['' of
        Some rest \<Rightarrow>
          (case split_once (CHR '']'') rest of
             None \<Rightarrow> None
           | Some (host, after) \<Rightarrow>
               (case strip_prefix after '':'' of None \<Rightarrow> None | Some port \<Rightarrow> named host port))
      | None \<Rightarrow> (case rsplit_once (CHR '':'') target of None \<Rightarrow> None | Some (host, port) \<Rightarrow> named host port))"

definition sanitize_header_value :: "string \<Rightarrow> string" where
  "sanitize_header_value err =
     utrim (concat (take MAX_ERROR_HEADER_LEN (map (\<lambda>ch. if is_control ch then '' '' else ch) (utf8_chars err))))"

definition crlf :: string where "crlf = [CR, LF]"

definition write_connect_error :: "string \<Rightarrow> string" where
  "write_connect_error err =
     ''HTTP/1.1 500 Internal Server Error'' @ crlf @ ''Tailscale-Connect-Error: '' @ sanitize_header_value err @ crlf @
     ''Connection: close'' @ crlf @ ''Content-Length: 0'' @ crlf @ crlf"

definition write_simple_status :: "nat \<Rightarrow> string \<Rightarrow> string \<Rightarrow> string" where
  "write_simple_status code reason body =
     ''HTTP/1.1 '' @ dec_string code @ '' '' @ reason @ crlf @ ''Content-Length: '' @ dec_string (length body) @ crlf @
     ''Connection: close'' @ crlf @ crlf @ body"

definition NOT_IMPLEMENTED_BODY :: string where
  "NOT_IMPLEMENTED_BODY =
     ''501 Not Implemented: this proxy currently supports only the CONNECT method (HTTPS tunneling). '' @
     ''Plain absolute-form HTTP forwarding is not yet implemented '' @
     ''(tsd-httpfwd); use CONNECT, or the SOCKS5 proxy (--socks5-server).''"

text \<open>
  A tunnel of the HTTP proxy: the destination, the bytes of the client that were in the reader's buffer and
  go with it, and the chunks the socket still delivers, which are forwarded.
\<close>

datatype http_outcome = HTunnel string nat string "string list" | HDone

definition handle_connect :: "proxy_env \<Rightarrow> string \<Rightarrow> reader \<Rightarrow> string list \<times> http_outcome" where
  "handle_connect e target r =
     (case parse_authority target of
        None \<Rightarrow> ([write_simple_status 400 ''Bad Request'' ''bogus CONNECT target (want host:port)''], HDone)
      | Some (host, port) \<Rightarrow>
          (case drain_headers 0 r of
             None \<Rightarrow> ([], HDone)
           | Some r1 \<Rightarrow>
               if \<not> px_up e then ([write_connect_error ''node is not up''], HDone)
               else case px_dial e host port of
                 Inl err \<Rightarrow> ([write_connect_error err], HDone)
               | Inr _ \<Rightarrow>
                   if px_gone e 0 then ([], HDone)
                   else ([''HTTP/1.1 200 OK'' @ crlf @ crlf], HTunnel host port (rd_buf r1) (rd_rest r1))))"

definition request_words :: "string \<Rightarrow> string \<times> string" where
  "request_words line =
     (case split_whitespace (trim_end line) of
        [] \<Rightarrow> ([], []) | [m] \<Rightarrow> (m, []) | m # t # _ \<Rightarrow> (m, t))"

definition handle_request_head :: "proxy_env \<Rightarrow> reader \<Rightarrow> string list \<times> http_outcome" where
  "handle_request_head e r =
     (case read_line_capped MAX_HEAD_BYTES r of
        None \<Rightarrow> ([], HDone)
      | Some (line, n, r1) \<Rightarrow>
          if n = 0 then ([], HDone)
          else case request_words line of (method, target) \<Rightarrow>
            if eq_ignore_ascii_case method ''CONNECT'' then handle_connect e target r1
            else ([''HTTP/1.1 501 Not Implemented'' @ crlf @ ''Content-Length: '' @ dec_string (length NOT_IMPLEMENTED_BODY) @
                   crlf @ ''Connection: close'' @ crlf @ crlf @ NOT_IMPLEMENTED_BODY], HDone))"

section \<open>The HTTP proxy's promises\<close>

lemma trim_subset: "set (trim_start s) \<subseteq> set s" "set (trim_end s) \<subseteq> set s"
proof -
  show "set (trim_start s) \<subseteq> set s"
  proof (induction s rule: trim_start.induct)
    case (1 s)
    then show ?case
      by (cases "ws_len s = 0") (subst trim_start.simps, use set_drop_subset in fastforce)+
  qed
  show "set (trim_end s) \<subseteq> set s"
  proof (induction s rule: trim_end.induct)
    case (1 s)
    then show ?case
      by (cases "ws_tail s = 0") (subst trim_end.simps, use set_take_subset in fastforce)+
  qed
qed

text \<open>
  The reason the HTTP proxy reports in its error header is one header value whatever the engine says: it
  has no control byte, so in particular neither a carriage return nor a line feed, and it is bounded: at most
  256 characters, so 1024 bytes.
\<close>

theorem error_header_safe:
  "(\<forall>c \<in> set (sanitize_header_value err). 32 \<le> byte c \<and> byte c \<noteq> 127) \<and>
   length (sanitize_header_value err) \<le> 4 * MAX_ERROR_HEADER_LEN"
proof -
  let ?f = "\<lambda>ch. if is_control ch then '' '' else ch"
  let ?t = "take MAX_ERROR_HEADER_LEN (map ?f (utf8_chars err))"
  have sub: "set (sanitize_header_value err) \<subseteq> set (concat ?t)"
    unfolding sanitize_header_value_def utrim_def using trim_subset by fast
  have ok: "32 \<le> byte c \<and> byte c \<noteq> 127" if c: "c \<in> set (concat ?t)" for c
  proof -
    from c obtain ch where ch: "ch \<in> set (utf8_chars err)" "c \<in> set (?f ch)"
      by (auto dest!: in_set_takeD)
    show ?thesis
    proof (cases "is_control ch \<or> 128 \<le> byte c")
      case True
      with ch(2) show ?thesis by (auto simp: byte_def split: if_splits)
    next
      case False
      with ch utf8_chars_ascii [OF ch(1), of c] show ?thesis by (auto simp: is_control_def)
    qed
  qed
  have len4: "length ch \<le> 4" if "ch \<in> set (utf8_chars err)" for ch
    using that
  proof (induction err rule: utf8_chars.induct)
    case (1 s)
    have "fst (utf8_step s) \<le> 4" by (simp add: utf8_step_def Let_def)
    with 1 show ?case by (cases "s = []") (auto simp: utf8_chars.simps [of s])
  qed
  have "length (trim_end (trim_start x)) \<le> length x" for x
  proof -
    have "length (trim_end y) \<le> length y" for y
    proof (induction y rule: trim_end.induct)
      case (1 y)
      then show ?case by (cases "ws_tail y = 0") (subst trim_end.simps, force)+
    qed
    with trim_start_length [of x] show ?thesis using le_trans by blast
  qed
  then have "length (sanitize_header_value err) \<le> length (concat ?t)"
    by (simp add: sanitize_header_value_def utrim_def)
  also have "\<dots> \<le> 4 * MAX_ERROR_HEADER_LEN"
  proof -
    have "length (concat xs) \<le> 4 * length xs" if "\<forall>x \<in> set xs. length x \<le> 4" for xs :: "string list"
      using that by (induction xs) auto
    moreover have "\<forall>x \<in> set ?t. length x \<le> 4" using len4 by (auto dest!: in_set_takeD)
    ultimately have "length (concat ?t) \<le> 4 * length ?t" by blast
    also have "\<dots> \<le> 4 * MAX_ERROR_HEADER_LEN" by simp
    finally show ?thesis .
  qed
  finally show ?thesis using sub ok by blast
qed

theorem error_header_safe_witness:
  "sanitize_header_value (''a'' @ [CR, LF] @ ''X-Evil: 1'') = ''a  X-Evil: 1'' \<and>
   (\<forall>c \<in> set (sanitize_header_value (''a'' @ [CR, LF] @ ''X-Evil: 1'')). 32 \<le> byte c \<and> byte c \<noteq> 127)"
proof
  show "sanitize_header_value (''a'' @ [CR, LF] @ ''X-Evil: 1'') = ''a  X-Evil: 1''" by code_simp
qed (rule conjunct1 [OF error_header_safe])

text \<open>What the tunnel forwards to the destination of what the client sent.\<close>

fun tunnel_forwards :: "http_outcome \<Rightarrow> string" where
  "tunnel_forwards (HTunnel _ _ _ rest) = concat rest"
| "tunnel_forwards HDone = []"

lemma flat_fill: "flat (fill_buf r) = flat r"
  by (auto simp: fill_buf_def flat_def split: list.split)

lemma read_until_flat: "read_until n r = (raw, r1) \<Longrightarrow> raw @ flat r1 = flat r"
proof (induction n r arbitrary: raw rule: read_until.induct)
  case (1 n r)
  let ?r = "fill_buf r" let ?avail = "take n (rd_buf ?r)"
  have fl: "flat r = rd_buf ?r @ concat (rd_rest ?r)" using flat_fill [of r] by (simp add: flat_def)
  consider "n = 0" | "n \<noteq> 0" "?avail = []" | "n \<noteq> 0" "newline \<in> set ?avail"
    | tail where "n \<noteq> 0" "?avail \<noteq> []" "newline \<notin> set ?avail"
        "read_until (n - length ?avail) (?r\<lparr>rd_buf := drop (length ?avail) (rd_buf ?r)\<rparr>) = (tail, r1)" "raw = ?avail @ tail"
    using 1(2) by (subst (asm) read_until.simps) (auto simp: Let_def split: if_splits prod.splits)
  then show ?case
  proof cases
    case 1
    with "1.prems" show ?thesis by (subst (asm) read_until.simps) simp
  next
    case 2
    with "1.prems" show ?thesis by (subst (asm) read_until.simps) (auto simp: Let_def flat_fill)
  next
    case 3
    let ?p = "line_part ?avail"
    have "rd_buf ?r = ?avail @ drop n (rd_buf ?r)" by simp
    moreover have "?avail = (?p @ [newline]) @ drop (length ?p + 1) ?avail" using line_part_split [OF 3(2)] by simp
    ultimately have "rd_buf ?r = (?p @ [newline]) @ drop (length ?p + 1) ?avail @ drop n (rd_buf ?r)"
      by (metis append.assoc)
    then have d: "rd_buf ?r = (?p @ [newline]) @ drop (length ?p + 1) (rd_buf ?r)"
      by (metis append_eq_conv_conj length_append_singleton Suc_eq_plus1)
    have "read_until n r = (?p @ [newline], ?r\<lparr>rd_buf := drop (length ?p + 1) (rd_buf ?r)\<rparr>)"
      using 3 by (subst read_until.simps) (auto simp: Let_def)
    with "1.prems" have "raw = ?p @ [newline]" "r1 = ?r\<lparr>rd_buf := drop (length ?p + 1) (rd_buf ?r)\<rparr>" by simp_all
    with d fl show ?thesis by (simp add: flat_def)
  next
    case (4 tail)
    from 1(1) [OF refl refl refl _ _ _ 4(4)] 4(1-3)
    have "tail @ flat r1 = drop (length ?avail) (rd_buf ?r) @ concat (rd_rest ?r)" by (simp add: flat_def)
    with 4(5) fl show ?thesis by (simp add: min_def)
  qed
qed

lemma read_line_capped_flat: "read_line_capped cap r = Some (line, n, r1) \<Longrightarrow> \<exists>raw. flat r = raw @ flat r1 \<and> length raw = n"
  by (auto simp: read_line_capped_def split: prod.splits if_splits dest!: read_until_flat) metis

lemma drain_headers_flat: "drain_headers n r = Some r1 \<Longrightarrow> \<exists>head. flat r = head @ flat r1"
proof (induction n r rule: drain_headers.induct)
  case (1 n r)
  then obtain line k r2 where l: "read_line_capped (MAX_HEAD_BYTES - n) r = Some (line, k, r2)"
    by (subst (asm) (2) drain_headers.simps) (auto split: option.splits)
  then obtain raw where raw: "flat r = raw @ flat r2" using read_line_capped_flat by blast
  show ?case
  proof (cases "r2 = r1")
    case True
    with raw show ?thesis by blast
  next
    case False
    with 1(2) l have c: "k \<noteq> 0" "\<not> (line = [CR, LF] \<or> line = [LF])" "\<not> MAX_HEAD_BYTES \<le> n + k" "drain_headers (n + k) r2 = Some r1"
      by (subst (asm) drain_headers.simps, auto split: if_splits)+
    from 1(1) [OF l refl refl c(1,2,3,4)] raw show ?thesis by (metis append.assoc)
  qed
qed

lemma parse_authority_ok: "parse_authority t = Some (host, port) \<Longrightarrow> host \<noteq> [] \<and> 0 < port"
  by (auto simp: parse_authority_def parse_port_def Let_def split: option.splits if_splits prod.splits)

lemma http_tunnel_facts:
  assumes "handle_request_head e r = (ws, out)"
  shows "(\<exists>w \<in> set ws. take 12 w = ''HTTP/1.1 200'') \<longleftrightarrow> out \<noteq> HDone"
    and "out = HTunnel host port early rest \<Longrightarrow>
      px_up e \<and> is_ok (px_dial e host port) \<and> host \<noteq> [] \<and> 0 < port \<and> tunnel_forwards out = concat rest \<and>
      (\<exists>line n r1 head. read_line_capped MAX_HEAD_BYTES r = Some (line, n, r1) \<and>
        eq_ignore_ascii_case (fst (request_words line)) ''CONNECT'' \<and>
        parse_authority (snd (request_words line)) = Some (host, port) \<and>
        flat r = head @ early @ concat rest)"
proof -
  have "dec_string 400 = ''400''" by code_simp
  with assms show "(\<exists>w \<in> set ws. take 12 w = ''HTTP/1.1 200'') \<longleftrightarrow> out \<noteq> HDone"
    by (auto simp: handle_request_head_def handle_connect_def write_connect_error_def write_simple_status_def crlf_def
        split: option.splits prod.splits if_splits sum.splits)
next
  assume out: "out = HTunnel host port early rest"
  with assms obtain line n r1 r2 where h: "read_line_capped MAX_HEAD_BYTES r = Some (line, n, r1)"
    "eq_ignore_ascii_case (fst (request_words line)) ''CONNECT''"
    "parse_authority (snd (request_words line)) = Some (host, port)" "drain_headers 0 r1 = Some r2"
    "px_up e" "is_ok (px_dial e host port)" "early = rd_buf r2" "rest = rd_rest r2"
    by (auto simp: handle_request_head_def handle_connect_def is_ok_def
        split: option.splits prod.splits if_splits sum.splits)
  obtain raw where "flat r = raw @ flat r1" using read_line_capped_flat [OF h(1)] by blast
  moreover obtain hd where "flat r1 = hd @ flat r2" using drain_headers_flat [OF h(4)] by blast
  ultimately have "flat r = (raw @ hd) @ early @ concat rest" using h(7,8) by (simp add: flat_def)
  with h out parse_authority_ok [OF h(3)] show "px_up e \<and> is_ok (px_dial e host port) \<and> host \<noteq> [] \<and> 0 < port \<and>
      tunnel_forwards out = concat rest \<and>
      (\<exists>line n r1 head. read_line_capped MAX_HEAD_BYTES r = Some (line, n, r1) \<and>
        eq_ignore_ascii_case (fst (request_words line)) ''CONNECT'' \<and>
        parse_authority (snd (request_words line)) = Some (host, port) \<and>
        flat r = head @ early @ concat rest)"
    by auto
qed

text \<open>
  C30. The HTTP proxy opens a tunnel only for a CONNECT request whose target parses as \<open>host:port\<close>, with the node up
  and the overlay dial of that very destination successful; it answers 200 in that case and in no other. After
  the head it consumed, the bytes the client sent are those left in the reader's buffer followed by those the
  socket still delivers, and only the latter are forwarded: what a client sends in one segment with the end of
  the head is lost.
\<close>

theorem http_tunnel_contract:
  assumes "handle_request_head e r = (ws, out)"
  shows "((\<exists>w \<in> set ws. take 12 w = ''HTTP/1.1 200'') \<longleftrightarrow> out \<noteq> HDone) \<and>
    (\<forall>host port early rest. out = HTunnel host port early rest \<longrightarrow>
      px_up e \<and> is_ok (px_dial e host port) \<and> host \<noteq> [] \<and> 0 < port \<and> tunnel_forwards out = concat rest \<and>
      (\<exists>line n r1 head. read_line_capped MAX_HEAD_BYTES r = Some (line, n, r1) \<and>
        eq_ignore_ascii_case (fst (request_words line)) ''CONNECT'' \<and>
        parse_authority (snd (request_words line)) = Some (host, port) \<and>
        flat r = head @ early @ concat rest))"
  using http_tunnel_facts [OF assms] by blast

definition early_request :: reader where
  "early_request = \<lparr>rd_buf = ''connect [fd7a::1]:443 HTTP/1.1'' @ crlf @ ''A: b'' @ crlf @ crlf @ ''hello'', rd_rest = [''rest'']\<rparr>"

definition open_env :: proxy_env where
  "open_env = \<lparr>px_up = True, px_dial = (\<lambda>_ _. Inr ()), px_gone = (\<lambda>_. False)\<rparr>"

lemma read_until_hit:
  assumes "newline \<notin> set p" "length p < n"
  shows "read_until n \<lparr>rd_buf = p @ newline # t, rd_rest = cs\<rparr> = (p @ [newline], \<lparr>rd_buf = t, rd_rest = cs\<rparr>)"
proof -
  have "take n (p @ newline # t) = p @ newline # take (n - length p - 1) t"
    using assms(2) by (simp add: take_Cons')
  then show ?thesis
    using assms by (subst read_until.simps) (simp add: Let_def fill_buf_def line_part_line)
qed

lemma read_line_capped_hit:
  "newline \<notin> set p \<Longrightarrow> length p < cap \<Longrightarrow>
     read_line_capped cap \<lparr>rd_buf = p @ newline # t, rd_rest = cs\<rparr> =
       Some (from_utf8_lossy (p @ [newline]), length p + 1, \<lparr>rd_buf = t, rd_rest = cs\<rparr>)"
  by (simp add: read_line_capped_def read_until_hit)

lemma early_request_head:
  "handle_request_head open_env early_request = ([''HTTP/1.1 200 OK'' @ crlf @ crlf], HTunnel ''fd7a::1'' 443 ''hello'' [''rest''])"
proof -
  let ?l = "''connect [fd7a::1]:443 HTTP/1.1'' @ [CR]"
  let ?r2 = "\<lparr>rd_buf = [CR] @ newline # ''hello'', rd_rest = [''rest'']\<rparr>"
  let ?r1 = "\<lparr>rd_buf = (''A: b'' @ [CR]) @ newline # rd_buf ?r2, rd_rest = [''rest'']\<rparr>"
  have cr: "newline = LF" by code_simp
  have nl: "newline \<notin> set [CR]" "newline \<notin> set (''A: b'' @ [CR])" "newline \<notin> set ?l" by code_simp+
  have e: "early_request = \<lparr>rd_buf = ?l @ newline # rd_buf ?r1, rd_rest = [''rest'']\<rparr>"
    by (simp add: early_request_def crlf_def cr)
  have l: "read_line_capped MAX_HEAD_BYTES early_request = Some (from_utf8_lossy (?l @ [newline]), length ?l + 1, ?r1)"
    unfolding e by (subst read_line_capped_hit) (use nl in \<open>simp_all add: MAX_HEAD_BYTES_def\<close>)
  have words: "request_words (from_utf8_lossy (?l @ [newline])) = (''connect'', ''[fd7a::1]:443'')" by code_simp
  have "parse_port ''443'' = Some 443" by (simp add: parse_port_def from_str_radix_def to_digit_def byte_def)
  moreover have "utrim ''[fd7a::1]:443'' = ''[fd7a::1]:443''" by code_simp
  ultimately have auth: "parse_authority ''[fd7a::1]:443'' = Some (''fd7a::1'', 443)"
    by (simp add: parse_authority_def strip_prefix_def prefix_def)
  have "drain_headers 0 ?r1 = drain_headers 6 ?r2"
  proof -
    have "from_utf8_lossy (''A: b'' @ [CR] @ [newline]) = ''A: b'' @ [CR] @ [newline]" by code_simp
    moreover have "read_line_capped (MAX_HEAD_BYTES - 0) ?r1 =
        Some (from_utf8_lossy ((''A: b'' @ [CR]) @ [newline]), 6, ?r2)"
      by (subst read_line_capped_hit) (use nl in \<open>simp_all add: MAX_HEAD_BYTES_def\<close>)
    ultimately show ?thesis by (subst drain_headers.simps) (simp add: MAX_HEAD_BYTES_def)
  qed
  also have "\<dots> = Some \<lparr>rd_buf = ''hello'', rd_rest = [''rest'']\<rparr>"
  proof -
    have "from_utf8_lossy ([CR] @ [newline]) = [CR, LF]" by code_simp
    moreover have "read_line_capped (MAX_HEAD_BYTES - 6) ?r2 =
        Some (from_utf8_lossy ([CR] @ [newline]), length [CR] + 1, \<lparr>rd_buf = ''hello'', rd_rest = [''rest'']\<rparr>)"
      by (subst read_line_capped_hit) (use nl in \<open>simp_all add: MAX_HEAD_BYTES_def\<close>)
    ultimately show ?thesis by (subst drain_headers.simps) simp
  qed
  finally have d: "drain_headers 0 ?r1 = Some \<lparr>rd_buf = ''hello'', rd_rest = [''rest'']\<rparr>" .
  have "eq_ignore_ascii_case ''connect'' ''CONNECT''" by code_simp
  with l words auth d show ?thesis
    by (simp add: handle_request_head_def handle_connect_def open_env_def)
qed

theorem http_tunnel_contract_witness:
  "handle_request_head open_env early_request = ([''HTTP/1.1 200 OK'' @ crlf @ crlf], HTunnel ''fd7a::1'' 443 ''hello'' [''rest'']) \<and>
   tunnel_forwards (snd (handle_request_head open_env early_request)) = ''rest'' \<and>
   (\<exists>head. flat early_request = head @ ''hello'' @ ''rest'')"
  using http_tunnel_contract [OF early_request_head] early_request_head by auto

end
