(* ===== verification/CliServe.thy ===== *)
theory CliServe
  imports Serve Utf8Chars
begin

text \<open>
  The serve and Funnel commands of the client, \<open>src/src/bin/tnet.rs\<close>: the flag checks in the order of the
  code, the reading of a mount point and of a target, the migration of a port's legacy handlers to the \<open>Web\<close>
  map, and the commands themselves as read-modify-write of the daemon's document. The three round trips to
  the daemon (status, get, set) are inputs; the result is the documents sent, the lines printed and how the
  command ends. \<open>letnum\<close> is the Unicode category test (letter or number) of the \<open>icu\<close> crate on one character.
\<close>

section \<open>The flags\<close>

record ServeFlags =
  fl_bg :: "bool option"
  fl_https :: "nat option"
  fl_http :: "nat option"
  fl_tcp :: "nat option"
  fl_tls_terminated_tcp :: "nat option"
  fl_set_path :: "string option"
  fl_service :: "string option"
  fl_tun :: bool
  fl_proxy_protocol :: "nat option"
  fl_accept_app_caps :: "string list"
  fl_yes :: bool
  fl_target :: "string option"
  fl_off :: "string option"

datatype ServeKind = KHttps | KHttp | KTcp | KTlsTerminatedTcp | KTun

definition is_web :: "ServeKind \<Rightarrow> bool" where
  "is_web k \<longleftrightarrow> k = KHttps \<or> k = KHttp"

fun go_name :: "ServeKind \<Rightarrow> string" where
  "go_name KHttps = ''https''"
| "go_name KHttp = ''http''"
| "go_name KTcp = ''tcp''"
| "go_name KTlsTerminatedTcp = ''tls-terminated-tcp''"
| "go_name KTun = ''unknownServeType''"

datatype listener_error = PortTooHigh nat ServeKind | MultipleTypes

text \<open>The refusals of the flag check; \<open>Usage\<close> is \<open>ServeUsageError\<close>, \<open>Bare\<close> is \<open>ServeBareError\<close>.\<close>

datatype bare_error = MountPoint string | ProxyOnWeb | ProxyVersion nat | TunWithoutService

datatype flag_error =
    AppCapForm string
  | ServiceOnFunnel
  | ServiceInForeground
  | Usage listener_error bool
  | Bare bare_error
  | ServiceUnsupported string
  | ProxyUnsupported nat
  | AppCapsUnsupported "string list"

fun listener_loop ::
  "(ServeKind \<times> nat option) list \<Rightarrow> ServeKind \<times> nat \<times> nat \<Rightarrow> (listener_error, ServeKind \<times> nat \<times> nat) result" where
  "listener_loop [] st = Inr st"
| "listener_loop ((kind, value) # vs) (srv_type, srv_port, count) =
     (case value of
        None \<Rightarrow> listener_loop vs (srv_type, srv_port, count)
      | Some v \<Rightarrow>
          if v = 0 then listener_loop vs (srv_type, srv_port, count)
          else if 65535 < v then Inl (PortTooHigh v srv_type)
          else listener_loop vs (kind, v, count + 1))"

definition port_flags :: "ServeFlags \<Rightarrow> (ServeKind \<times> nat option) list" where
  "port_flags f =
     [(KHttps, fl_https f), (KHttp, fl_http f), (KTcp, fl_tcp f), (KTlsTerminatedTcp, fl_tls_terminated_tcp f)]"

definition serve_kind_and_port :: "ServeFlags \<Rightarrow> (listener_error, ServeKind \<times> nat) result" where
  "serve_kind_and_port f =
     rbind (listener_loop (port_flags f) (KHttps, 0, 0)) (\<lambda>(t, p, n).
       let n' = (if fl_tun f then n + 1 else n); t' = (if fl_tun f then KTun else t) in
       if 1 < n' then Inl MultipleTypes else if n' = 0 then Inr (KHttps, 443) else Inr (t', p))"

definition serve_background :: "ServeFlags \<Rightarrow> bool" where
  "serve_background f = unwrap_or (fl_bg f) (fl_service f \<noteq> None)"

definition is_valid_app_cap :: "(string \<Rightarrow> bool) \<Rightarrow> string \<Rightarrow> bool" where
  "is_valid_app_cap letnum cap =
     (let label_char = (\<lambda>c. letnum c \<or> c = ''-'') in
      case split_once (CHR ''/'') cap of
        None \<Rightarrow> False
      | Some (domain, name) \<Rightarrow>
          (let labels = split_on (CHR ''.'') domain in
           \<not> (length labels < 2 \<or> list_ex (\<lambda>l. \<not> list_all label_char (utf8_chars l) \<or> l = []) labels) \<and>
           name \<noteq> [] \<and> list_all (\<lambda>c. label_char c \<or> c = ''/'') (utf8_chars name)))"

fun check_caps :: "(string \<Rightarrow> bool) \<Rightarrow> string list \<Rightarrow> (string, string list) result" where
  "check_caps letnum [] = Inr []"
| "check_caps letnum (c # cs) =
     (let cap = utrim c in
      if \<not> is_valid_app_cap letnum cap then Inl cap
      else rbind (check_caps letnum cs) (\<lambda>r. Inr (cap # r)))"

fun parse_accept_app_caps :: "(string \<Rightarrow> bool) \<Rightarrow> string list \<Rightarrow> (string, string list) result" where
  "parse_accept_app_caps letnum [] = Inr []"
| "parse_accept_app_caps letnum (v # vs) =
     (if v = [] then parse_accept_app_caps letnum vs
      else rbind (check_caps letnum (split_on (CHR '','') v)) (\<lambda>caps.
           rbind (parse_accept_app_caps letnum vs) (\<lambda>r. Inr (caps @ r))))"

section \<open>Mount points and targets\<close>

definition clean_step :: "string list \<Rightarrow> string \<Rightarrow> string list" where
  "clean_step out seg =
     (if seg = [] \<or> seg = ''.'' then out else if seg = ''..'' then butlast out else out @ [seg])"

definition clean_path :: "string \<Rightarrow> string" where
  "clean_path p = ''/'' @ join ''/'' (foldl clean_step [] (split_on (CHR ''/'') p))"

definition clean_url_path :: "string \<Rightarrow> (string, string) result" where
  "clean_url_path url_path =
     (if url_path = [] then Inr ''/''
      else let with_slash = (if starts_with url_path ''/'' then url_path else ''/'' @ url_path);
               cleaned = clean_path with_slash in
           if with_slash = cleaned \<or> with_slash = cleaned @ ''/'' then Inr with_slash else Inl with_slash)"

definition mount_suffix :: "string option \<Rightarrow> string" where
  "mount_suffix set_path =
     (case set_path of
        None \<Rightarrow> []
      | Some m \<Rightarrow> if m = [] \<or> m = ''/'' then [] else (case clean_url_path m of Inr x \<Rightarrow> x | Inl _ \<Rightarrow> m))"

definition normalize_serve_target :: "string \<Rightarrow> string" where
  "normalize_serve_target target = (if parse_u16 target \<noteq> None then ''127.0.0.1:'' @ target else target)"

definition normalize_tcp_serve_target :: "string \<Rightarrow> string" where
  "normalize_tcp_serve_target target = normalize_serve_target (unwrap_or (strip_prefix target ''tcp://'') target)"

definition unexpanded_redirect_var :: "string \<Rightarrow> string option" where
  "unexpanded_redirect_var to = find (\<lambda>v. contains_str to v) [''${HOST}'', ''${REQUEST_URI}'']"

section \<open>The flag check\<close>

definition check_mount :: "ServeFlags \<Rightarrow> (flag_error, unit) result" where
  "check_mount f =
     (case fl_set_path f of
        None \<Rightarrow> Inr ()
      | Some p \<Rightarrow> (case clean_url_path p of Inr _ \<Rightarrow> Inr () | Inl e \<Rightarrow> Inl (Bare (MountPoint e))))"

definition check_serve_flags :: "(string \<Rightarrow> bool) \<Rightarrow> ServeFlags \<Rightarrow> bool \<Rightarrow> (flag_error, ServeKind \<times> nat) result" where
  "check_serve_flags letnum f funnel =
     rbind (map_err AppCapForm (parse_accept_app_caps letnum (fl_accept_app_caps f))) (\<lambda>app_caps.
     rbind (if fl_service f \<noteq> None \<and> funnel then Inl ServiceOnFunnel
            else if fl_service f \<noteq> None \<and> \<not> serve_background f then Inl ServiceInForeground else Inr ()) (\<lambda>_.
     rbind (check_mount f) (\<lambda>_.
     rbind (map_err (\<lambda>e. Usage e funnel) (serve_kind_and_port f)) (\<lambda>(kind, port).
     let proxy_protocol = (case fl_proxy_protocol f of Some v \<Rightarrow> if v = 0 then None else Some v | None \<Rightarrow> None) in
     rbind (case proxy_protocol of
              None \<Rightarrow> Inr ()
            | Some v \<Rightarrow> if is_web kind then Inl (Bare ProxyOnWeb)
                else if v \<noteq> 1 \<and> v \<noteq> 2 then Inl (Bare (ProxyVersion v)) else Inr ()) (\<lambda>_.
     if kind = KTun \<and> fl_service f = None then Inl (Bare TunWithoutService)
     else case fl_service f of
       Some s \<Rightarrow> Inl (ServiceUnsupported s)
     | None \<Rightarrow>
         (case proxy_protocol of
            Some v \<Rightarrow> Inl (ProxyUnsupported v)
          | None \<Rightarrow> if app_caps \<noteq> [] then Inl (AppCapsUnsupported app_caps) else Inr (kind, port)))))))"

section \<open>The document\<close>

definition mount_to_handler :: "WebMount \<Rightarrow> HttpHandler" where
  "mount_to_handler m = (case m of
       MountProxy to \<Rightarrow> empty_handler\<lparr>hh_proxy := to\<rparr>
     | MountText body \<Rightarrow> empty_handler\<lparr>hh_text := body\<rparr>
     | MountRedirect to status \<Rightarrow> empty_handler\<lparr>hh_redirect := dec_string status @ '':'' @ to\<rparr>)"

definition legacy_bodies :: "TcpPortHandler \<Rightarrow> HttpHandler btree" where
  "legacy_bodies h =
     (if th_mounts h \<noteq> [] then fold (\<lambda>(mount, m). bt_insert mount (mount_to_handler m)) (th_mounts h) []
      else case th_text h of
        Some body \<Rightarrow> [(''/'', empty_handler\<lparr>hh_text := body\<rparr>)]
      | None \<Rightarrow>
          (case th_redirect h of
             Some r \<Rightarrow> [(''/'', empty_handler\<lparr>hh_redirect := dec_string (rs_status r) @ '':'' @ rs_to r\<rparr>)]
           | None \<Rightarrow>
               if (th_https h \<or> th_http h) \<and> th_tcp_forward h \<noteq> []
               then [(''/'', empty_handler\<lparr>hh_proxy := th_tcp_forward h\<rparr>)] else []))"

definition existing_web_handlers :: "ServeConfig \<Rightarrow> string \<Rightarrow> nat \<Rightarrow> HttpHandler btree" where
  "existing_web_handlers cfg host port =
     (case bt_get (sc_web cfg) (host_port host port) of
        Some wsc \<Rightarrow> wsc_handlers wsc
      | None \<Rightarrow> (case bt_get (sc_tcp cfg) (dec_string port) of None \<Rightarrow> [] | Some h \<Rightarrow> legacy_bodies h))"

datatype web_error = WebMountPoint string | EmptyText

definition root_mount :: "string option \<Rightarrow> (web_error, string) result" where
  "root_mount set_path =
     (case set_path of
        None \<Rightarrow> Inr ''/''
      | Some m \<Rightarrow> if m = [] \<or> m = ''/'' then Inr ''/'' else map_err WebMountPoint (clean_url_path m))"

definition set_web_handlers :: "ServeConfig \<Rightarrow> string \<Rightarrow> nat \<Rightarrow> bool \<Rightarrow> HttpHandler btree \<Rightarrow> ServeConfig" where
  "set_web_handlers cfg host port tls handlers =
     cfg\<lparr>sc_tcp := bt_insert (dec_string port) (default_handler\<lparr>th_https := tls, th_http := \<not> tls\<rparr>) (sc_tcp cfg),
         sc_web := bt_insert (host_port host port) \<lparr>wsc_handlers = handlers\<rparr> (sc_web cfg)\<rparr>"

definition target_handler :: "string \<Rightarrow> (web_error, HttpHandler) result" where
  "target_handler target =
     (case strip_prefix target ''text:'' of
        Some body \<Rightarrow> if body = [] then Inl EmptyText else Inr (empty_handler\<lparr>hh_text := body\<rparr>)
      | None \<Rightarrow> Inr (empty_handler\<lparr>hh_proxy := normalize_serve_target target\<rparr>))"

definition build_web_serve ::
  "ServeConfig \<Rightarrow> string \<Rightarrow> nat \<Rightarrow> string \<Rightarrow> string option \<Rightarrow> bool \<Rightarrow> (web_error, ServeConfig) result" where
  "build_web_serve cfg host port target set_path tls =
     rbind (root_mount set_path) (\<lambda>mount.
     rbind (target_handler target) (\<lambda>entry.
     Inr (set_web_handlers cfg host port tls (bt_insert mount entry (existing_web_handlers cfg host port)))))"

definition drop_web_port :: "nat \<Rightarrow> ServeConfig \<Rightarrow> ServeConfig" where
  "drop_web_port port cfg = cfg\<lparr>sc_web := filter (\<lambda>(k, _). \<not> suffix (port_suffix (dec_string port)) k) (sc_web cfg)\<rparr>"

definition remove_serve_port :: "ServeConfig \<Rightarrow> nat \<Rightarrow> ServeConfig \<times> bool" where
  "remove_serve_port cfg port =
     (let keep = (\<lambda>k. \<not> suffix (port_suffix (dec_string port)) k);
          cfg' = cfg\<lparr>sc_tcp := bt_remove (dec_string port) (sc_tcp cfg),
                     sc_web := filter (keep \<circ> fst) (sc_web cfg),
                     sc_allow_funnel := filter (keep \<circ> fst) (sc_allow_funnel cfg)\<rparr> in
      (cfg', bt_get (sc_tcp cfg) (dec_string port) \<noteq> None \<or> length (sc_web cfg') \<noteq> length (sc_web cfg) \<or>
             length (sc_allow_funnel cfg') \<noteq> length (sc_allow_funnel cfg)))"

section \<open>The commands\<close>

text \<open>
  The daemon as the command meets it: the answer to a status request (the node's name and the state's text),
  the document it returns, and its answer to each document sent.
\<close>

datatype talk_error = NoAnswer string | UnexpectedAnswer

datatype set_reply = SetOk string | SetError string | SetTalk talk_error

record serve_cli =
  sv_status :: "(talk_error, string option \<times> string) result"
  sv_config :: "(talk_error, ServeConfig) result"
  sv_set :: "ServeConfig \<Rightarrow> set_reply"

datatype serve_error =
    Flag flag_error
  | Talk talk_error
  | Refused string
  | NoNameYet string
  | UnexpectedArgument string
  | PathWithOff
  | NeedsTarget
  | PathOnTcp
  | WebError web_error
  | EmptyRedirect
  | RedirectStatusRange nat
  | RedirectLineBreak
  | RedirectPlaceholder string

text \<open>
  What a command did: the documents it sent, the lines it printed, whether it warned that the Funnel has no
  backend, and its end: an error, or success with the document a foreground serve will restore.
\<close>

record serve_run =
  rn_sent :: "ServeConfig list"
  rn_out :: "string list"
  rn_warn :: bool
  rn_end :: "(serve_error, ServeConfig option) result"

definition stop_with :: "serve_error \<Rightarrow> serve_run" where
  "stop_with e = \<lparr>rn_sent = [], rn_out = [], rn_warn = False, rn_end = Inl e\<rparr>"

definition succeed :: "string list \<Rightarrow> bool \<Rightarrow> ServeConfig option \<Rightarrow> serve_run" where
  "succeed lines warn held = \<lparr>rn_sent = [], rn_out = lines, rn_warn = warn, rn_end = Inr held\<rparr>"

definition run_of :: "(serve_error, serve_run) result \<Rightarrow> serve_run" where
  "run_of r = (case r of Inl e \<Rightarrow> stop_with e | Inr x \<Rightarrow> x)"

definition send_ok_or_die :: "serve_cli \<Rightarrow> ServeConfig \<Rightarrow> serve_run \<Rightarrow> serve_run" where
  "send_ok_or_die d cfg k =
     (case sv_set d cfg of
        SetOk m \<Rightarrow> k\<lparr>rn_sent := cfg # rn_sent k, rn_out := (''ok: '' @ m) # rn_out k\<rparr>
      | SetError m \<Rightarrow> (stop_with (Refused m))\<lparr>rn_sent := [cfg]\<rparr>
      | SetTalk e \<Rightarrow> (stop_with (Talk e))\<lparr>rn_sent := [cfg]\<rparr>)"

definition serve_host :: "serve_cli \<Rightarrow> (serve_error, string) result" where
  "serve_host d =
     rbind (map_err Talk (sv_status d)) (\<lambda>(name, state).
       case name of
         None \<Rightarrow> Inl (NoNameYet state)
       | Some h \<Rightarrow> if h = [] then Inl (NoNameYet state) else Inr (trim_end_dots h))"

definition get_serve_config :: "serve_cli \<Rightarrow> (serve_error, ServeConfig) result" where
  "get_serve_config d = map_err Talk (sv_config d)"

definition run_serve_reset :: "serve_cli \<Rightarrow> serve_run" where
  "run_serve_reset d = send_ok_or_die d serve_default (succeed [''serve config cleared''] False None)"

definition port_text :: "nat \<Rightarrow> string" where
  "port_text port = '':'' @ dec_string port"

definition run_off :: "serve_cli \<Rightarrow> ServeFlags \<Rightarrow> nat \<Rightarrow> bool \<Rightarrow> (serve_error, serve_run) result" where
  "run_off d f port funnel =
     (if fl_set_path f \<noteq> None then Inl PathWithOff
      else rbind (get_serve_config d) (\<lambda>cfg.
        if funnel then rbind (serve_host d) (\<lambda>host.
          Inr (send_ok_or_die d (set_funnel cfg host port False)
            (succeed [''funnel disabled for '' @ host_port host port @ '' (the serve on '' @ port_text port @ '' is untouched)''] False None)))
        else (case remove_serve_port cfg port of (cfg', removed) \<Rightarrow>
          if removed then Inr (send_ok_or_die d cfg' (succeed [''serve removed for '' @ port_text port] False None))
          else Inr (succeed [''no serve configured on '' @ port_text port @ ''; nothing to remove''] False None))))"

definition tcp_entry :: "ServeConfig \<Rightarrow> nat \<Rightarrow> TcpPortHandler \<Rightarrow> ServeConfig" where
  "tcp_entry cfg port h = drop_web_port port (cfg\<lparr>sc_tcp := bt_insert (dec_string port) h (sc_tcp cfg)\<rparr>)"

text \<open>The document a listener writes and the text of the confirmation. \<open>--tun\<close> never gets here.\<close>

fun listener_config ::
  "ServeKind \<Rightarrow> ServeFlags \<Rightarrow> string \<Rightarrow> string \<Rightarrow> nat \<Rightarrow> ServeConfig \<Rightarrow> (web_error, ServeConfig \<times> string) result" where
  "listener_config KHttps f target host port cfg =
     map_sum id (\<lambda>c. (c, ''https://'' @ host_port host port @ mount_suffix (fl_set_path f) @ '' -> '' @ target))
       (build_web_serve cfg host port target (fl_set_path f) True)"
| "listener_config KHttp f target host port cfg =
     map_sum id (\<lambda>c. (c, ''http://'' @ host_port host port @ mount_suffix (fl_set_path f) @ '' -> '' @ target))
       (build_web_serve cfg host port target (fl_set_path f) False)"
| "listener_config KTcp f target host port cfg =
     (let fwd = normalize_tcp_serve_target target in
      Inr (tcp_entry cfg port (default_handler\<lparr>th_tcp_forward := fwd\<rparr>), ''tcp '' @ port_text port @ '' -> '' @ fwd))"
| "listener_config KTlsTerminatedTcp f target host port cfg =
     (let fwd = normalize_tcp_serve_target target in
      Inr (tcp_entry cfg port (default_handler\<lparr>th_terminate_tls := host, th_tcp_forward := fwd\<rparr>),
           ''tls+tcp '' @ host_port host port @ '' -> '' @ fwd @ '' (TLS-terminated)''))"
| "listener_config KTun f target host port cfg = Inr (cfg, [])"

definition funnel_lines :: "bool \<Rightarrow> bool \<Rightarrow> string \<Rightarrow> nat \<Rightarrow> string list" where
  "funnel_lines funnel backend host port =
     (if \<not> funnel then []
      else if backend then [''funnel enabled: https://'' @ host_port host port @ '' is reachable from the PUBLIC internet'']
      else [''funnel enabled for '' @ host_port host port])"

definition send_listener :: "serve_cli \<Rightarrow> ServeFlags \<Rightarrow> string \<Rightarrow> nat \<Rightarrow> bool \<Rightarrow> ServeConfig \<Rightarrow> ServeConfig \<Rightarrow> string \<Rightarrow> serve_run" where
  "send_listener d f host port funnel previous cfg what =
     (let cfg' = (if funnel then set_funnel cfg host port True else cfg);
          backend = (web_proxy_backend cfg' port \<noteq> None) in
      send_ok_or_die d cfg'
        (succeed ((''serving '' @ what) # funnel_lines funnel backend host port) (funnel \<and> \<not> backend)
          (if serve_background f then None else Some previous)))"

definition run_on ::
  "serve_cli \<Rightarrow> ServeFlags \<Rightarrow> ServeKind \<Rightarrow> nat \<Rightarrow> bool \<Rightarrow> (serve_error, serve_run) result" where
  "run_on d f kind port funnel =
     (case fl_target f of
        None \<Rightarrow> Inl NeedsTarget
      | Some target \<Rightarrow>
          if fl_set_path f \<noteq> None \<and> \<not> is_web kind then Inl PathOnTcp
          else
            rbind (if is_web kind \<or> kind = KTlsTerminatedTcp \<or> funnel then serve_host d else Inr []) (\<lambda>host.
            rbind (get_serve_config d) (\<lambda>previous.
            rbind (map_err WebError (listener_config kind f target host port previous)) (\<lambda>(cfg, what).
            Inr (send_listener d f host port funnel previous cfg what)))))"

definition run_serve_v2 :: "(string \<Rightarrow> bool) \<Rightarrow> serve_cli \<Rightarrow> ServeFlags \<Rightarrow> bool \<Rightarrow> serve_run" where
  "run_serve_v2 letnum d f funnel = run_of
     (rbind (map_err Flag (check_serve_flags letnum f funnel)) (\<lambda>(kind, port).
      rbind (case fl_off f of
               None \<Rightarrow> Inr False
             | Some x \<Rightarrow> if x = ''off'' then Inr True else Inl (UnexpectedArgument x)) (\<lambda>trailing_off.
      if trailing_off \<or> fl_target f = Some ''off'' then run_off d f port funnel else run_on d f kind port funnel)))"

text \<open>The foreground: it waits for the interrupt, then puts the document back.\<close>

definition hold_foreground_serve :: "serve_cli \<Rightarrow> ServeConfig \<Rightarrow> serve_run" where
  "hold_foreground_serve d previous =
     (let r = send_ok_or_die d previous (succeed [''serve stopped; previous serve config restored''] False None) in
      r\<lparr>rn_out := ''Press Ctrl-C to stop serving and restore the previous serve config.'' # rn_out r\<rparr>)"

datatype ServeCmd =
    CmdTcp nat string
  | CmdHttps nat string "string option"
  | CmdHttp nat string "string option"
  | CmdRedirect nat string nat
  | CmdReset

definition run_web_cmd :: "serve_cli \<Rightarrow> string \<Rightarrow> bool \<Rightarrow> nat \<Rightarrow> string \<Rightarrow> string option \<Rightarrow> serve_run" where
  "run_web_cmd d scheme tls port target set_path = run_of
     (rbind (serve_host d) (\<lambda>host.
      rbind (get_serve_config d) (\<lambda>cfg.
      rbind (map_err WebError (build_web_serve cfg host port target set_path tls)) (\<lambda>cfg'.
      Inr (send_ok_or_die d cfg'
        (succeed [''serving '' @ scheme @ ''://'' @ host_port host port @ mount_suffix set_path @ '' -> '' @ target] False None))))))"

definition run_redirect :: "serve_cli \<Rightarrow> nat \<Rightarrow> string \<Rightarrow> nat \<Rightarrow> serve_run" where
  "run_redirect d port to status = run_of
     (if utrim to = [] then Inl EmptyRedirect
      else if \<not> (300 \<le> status \<and> status \<le> 399) then Inl (RedirectStatusRange status)
      else if CR \<in> set to \<or> LF \<in> set to then Inl RedirectLineBreak
      else case unexpanded_redirect_var to of
        Some placeholder \<Rightarrow> Inl (RedirectPlaceholder placeholder)
      | None \<Rightarrow>
          rbind (serve_host d) (\<lambda>host.
          rbind (get_serve_config d) (\<lambda>cfg.
          let handlers = bt_insert ''/'' (empty_handler\<lparr>hh_redirect := dec_string status @ '':'' @ to\<rparr>)
                (existing_web_handlers cfg host port) in
          Inr (send_ok_or_die d (set_web_handlers cfg host port True handlers)
            (succeed [''serving https://'' @ host_port host port @ '' -> redirect '' @ dec_string status @ '' -> '' @ to]
              False None)))))"

fun run_serve_cmd :: "serve_cli \<Rightarrow> ServeCmd \<Rightarrow> serve_run" where
  "run_serve_cmd d (CmdTcp port target) = run_of
     (rbind (get_serve_config d) (\<lambda>cfg.
      let fwd = normalize_serve_target target in
      Inr (send_ok_or_die d (tcp_entry cfg port (default_handler\<lparr>th_tcp_forward := fwd\<rparr>))
        (succeed [''serving tailnet '' @ port_text port @ '' -> '' @ fwd] False None))))"
| "run_serve_cmd d (CmdHttps port target set_path) = run_web_cmd d ''https'' True port target set_path"
| "run_serve_cmd d (CmdHttp port target set_path) = run_web_cmd d ''http'' False port target set_path"
| "run_serve_cmd d (CmdRedirect port to status) = run_redirect d port to status"
| "run_serve_cmd d CmdReset = run_serve_reset d"

definition run_serve :: "(string \<Rightarrow> bool) \<Rightarrow> serve_cli \<Rightarrow> ServeCmd option \<Rightarrow> ServeFlags \<Rightarrow> serve_run" where
  "run_serve letnum d cmd f = (case cmd of None \<Rightarrow> run_serve_v2 letnum d f False | Some c \<Rightarrow> run_serve_cmd d c)"

definition legacy_funnel_toggle :: "ServeFlags \<Rightarrow> (nat \<times> bool) option" where
  "legacy_funnel_toggle f =
     (if \<not> (fl_https f = None \<and> fl_http f = None \<and> fl_tcp f = None \<and> fl_tls_terminated_tcp f = None) then None
      else case fl_off f of
        None \<Rightarrow> None
      | Some x \<Rightarrow>
          if x \<noteq> ''on'' \<and> x \<noteq> ''off'' then None
          else case fl_target f of
            None \<Rightarrow> None
          | Some t \<Rightarrow> map_option (\<lambda>p. (p, x = ''on'')) (parse_u16 t))"

definition run_funnel_toggle :: "serve_cli \<Rightarrow> nat \<Rightarrow> bool \<Rightarrow> serve_run" where
  "run_funnel_toggle d port on = run_of
     (rbind (map_err Talk (sv_status d)) (\<lambda>(name, state).
      rbind (case name of None \<Rightarrow> Inl (NoNameYet state) | Some h \<Rightarrow> if h = [] then Inl (NoNameYet state) else Inr h) (\<lambda>host.
      rbind (get_serve_config d) (\<lambda>cfg.
      let cfg' = set_funnel cfg host port on; backend = (web_proxy_backend cfg' port \<noteq> None) in
      Inr (send_ok_or_die d cfg'
        (succeed [''funnel '' @ (if on then ''enabled'' else ''disabled'') @ '' for '' @ host_port host port]
          (on \<and> \<not> backend) None))))))"

definition run_funnel :: "(string \<Rightarrow> bool) \<Rightarrow> serve_cli \<Rightarrow> bool \<Rightarrow> ServeFlags \<Rightarrow> serve_run" where
  "run_funnel letnum d reset f =
     (if reset then run_serve_reset d
      else case legacy_funnel_toggle f of
        Some (port, on) \<Rightarrow>
          (case check_serve_flags letnum f True of
             Inl e \<Rightarrow> stop_with (Flag e) | Inr _ \<Rightarrow> run_funnel_toggle d port on)
      | None \<Rightarrow> run_serve_v2 letnum d f True)"

section \<open>Mount points\<close>

definition plain_seg :: "string \<Rightarrow> bool" where
  "plain_seg s \<longleftrightarrow> s \<noteq> [] \<and> s \<noteq> ''.'' \<and> s \<noteq> ''..'' \<and> CHR ''/'' \<notin> set s"

lemma clean_segments:
  assumes "\<forall>s \<in> set segs. CHR ''/'' \<notin> set s" "list_all plain_seg out"
  shows "list_all plain_seg (foldl clean_step out segs)"
  using assms
proof (induction segs arbitrary: out)
  case (Cons s segs)
  have "list_all plain_seg (clean_step out s)"
    using Cons.prems by (auto simp: clean_step_def plain_seg_def list_all_iff dest: in_set_butlastD)
  with Cons show ?case by simp
qed simp

lemma clean_plain: "list_all plain_seg segs \<Longrightarrow> foldl clean_step out segs = out @ segs"
  by (induction segs arbitrary: out) (auto simp: clean_step_def plain_seg_def)

lemma foldl_clean_split:
  assumes "list_all plain_seg segs" "t = [] \<or> t = ''/''"
  shows "clean_path (''/'' @ join ''/'' segs @ t) = ''/'' @ join ''/'' segs"
proof -
  have ns: "\<forall>w \<in> set segs. CHR ''/'' \<notin> set w" using assms(1) by (auto simp: list_all_iff plain_seg_def)
  have cs: "clean_step out [] = out" for out by (simp add: clean_step_def)
  have "foldl clean_step [] (split_on (CHR ''/'') (join ''/'' segs @ t)) = segs"
  proof (cases "segs = []")
    case True
    with assms(2) show ?thesis by (auto simp: cs)
  next
    case False
    then have j: "split_on (CHR ''/'') (join ''/'' segs) = segs" using split_on_join ns by simp
    have "split_on s (x @ [s]) = split_on s x @ [[]]" for s and x :: string
      by (induction x) (auto split: list.splits)
    with j clean_plain [OF assms(1), of "[]"] assms(2) show ?thesis by (auto simp: cs)
  qed
  then show ?thesis by (simp add: clean_path_def cs)
qed

text \<open>
  A mount point is accepted exactly when, with a slash put in front where it is missing, it is a slash
  followed by segments none of which is empty, \<open>.\<close> or \<open>..\<close>, with at most one trailing slash; it is stored
  with that slash and otherwise as given. The double slash is accepted too: it is the root with a trailing
  slash. No accepted mount point can be a path that climbs.
\<close>

theorem clean_url_path_exact:
  "clean_url_path u = Inr m \<longleftrightarrow>
     (if u = [] then m = ''/''
      else m = (if starts_with u ''/'' then u else ''/'' @ u) \<and>
        (\<exists>segs t. list_all plain_seg segs \<and> (t = [] \<or> t = ''/'') \<and> m = ''/'' @ join ''/'' segs @ t))"
proof (cases "u = []")
  case False
  let ?w = "if starts_with u ''/'' then u else ''/'' @ u"
  let ?segs = "foldl clean_step [] (split_on (CHR ''/'') ?w)"
  have "list_all plain_seg ?segs" by (rule clean_segments) (auto dest: split_on_no_sep)
  then have "?w = clean_path ?w \<or> ?w = clean_path ?w @ ''/'' \<longleftrightarrow>
      (\<exists>segs t. list_all plain_seg segs \<and> (t = [] \<or> t = ''/'') \<and> ?w = ''/'' @ join ''/'' segs @ t)" (is "?l \<longleftrightarrow> ?r")
  proof -
    assume a: "list_all plain_seg ?segs"
    have c: "clean_path ?w = ''/'' @ join ''/'' ?segs" by (simp add: clean_path_def)
    show ?thesis
    proof
      assume ?l
      with a c show ?r by (intro exI [of _ ?segs] exI [of _ "if ?w = clean_path ?w then [] else ''/''"]) auto
    next
      assume ?r
      then obtain segs t where st: "list_all plain_seg segs" "t = [] \<or> t = ''/''" "?w = ''/'' @ join ''/'' segs @ t" by blast
      with foldl_clean_split [OF st(1,2)] show ?l by auto
    qed
  qed
  with False show ?thesis by (auto simp: clean_url_path_def Let_def)
qed (auto simp: clean_url_path_def)

section \<open>The flag check\<close>

text \<open>The listener flags that are given: those with a number other than zero, in the order of the code.\<close>

fun given_of :: "(ServeKind \<times> nat option) list \<Rightarrow> (ServeKind \<times> nat) list" where
  "given_of [] = []"
| "given_of ((k, None) # vs) = given_of vs"
| "given_of ((k, Some n) # vs) = (if n = 0 then given_of vs else (k, n) # given_of vs)"

definition given_ports :: "ServeFlags \<Rightarrow> (ServeKind \<times> nat) list" where
  "given_ports f = given_of (port_flags f)"

lemma listener_loop_iff:
  "listener_loop vs (t, p, n) = Inr (t', p', n') \<longleftrightarrow>
     (\<forall>(k, v) \<in> set (given_of vs). v \<le> 65535) \<and> n' = n + length (given_of vs) \<and> (t', p') = last ((t, p) # given_of vs)"
  by (induction vs arbitrary: t p n rule: given_of.induct) auto

lemma serve_kind_and_port_iff:
  "serve_kind_and_port f = Inr (kind, port) \<and> kind \<noteq> KTun \<longleftrightarrow>
     \<not> fl_tun f \<and> (given_ports f = [] \<and> kind = KHttps \<and> port = 443 \<or> given_ports f = [(kind, port)] \<and> port \<le> 65535)"
proof -
  have tun: "KTun \<notin> fst ` set (given_ports f)"
    by (cases "fl_https f"; cases "fl_http f"; cases "fl_tcp f"; cases "fl_tls_terminated_tcp f")
      (auto simp: given_ports_def port_flags_def)
  show ?thesis
  proof (cases "listener_loop (port_flags f) (KHttps, 0, 0)")
    case (Inl e)
    then have "\<not> (\<forall>(k, v) \<in> set (given_ports f). v \<le> 65535)"
      using listener_loop_iff [of "port_flags f" KHttps 0 0 _ _ "length (given_ports f)"]
      unfolding given_ports_def by (metis old.sum.distinct(1) prod.collapse add_0)
    with Inl show ?thesis by (auto simp: serve_kind_and_port_def)
  next
    case (Inr r)
    obtain t p n where r: "r = (t, p, n)" by (cases r)
    then have l: "\<forall>(k, v) \<in> set (given_ports f). v \<le> 65535" "n = length (given_ports f)" "(t, p) = last ((KHttps, 0) # given_ports f)"
      using Inr listener_loop_iff [of "port_flags f" KHttps 0 0 t p n] unfolding given_ports_def by auto
    show ?thesis
    proof (cases "given_ports f")
      case Nil
      with l show ?thesis by (auto simp: serve_kind_and_port_def Inr r)
    next
      case (Cons g gs)
      with l tun show ?thesis by (cases gs; cases g) (auto simp: serve_kind_and_port_def Inr r)
    qed
  qed
qed

text \<open>
  The flag check accepts a command line exactly when it asks for nothing this build lacks and names at most
  one listener: every capability list is empty, no service, no TUN, no PROXY protocol (zero counts as not
  given), a mount point that can be cleaned, and either no port flag, which means HTTPS on 443, or a single one,
  with a number that fits a port. The kind and the port it answers are the given ones.
\<close>

theorem check_serve_flags_exact:
  "check_serve_flags letnum f funnel = Inr (kind, port) \<longleftrightarrow>
     parse_accept_app_caps letnum (fl_accept_app_caps f) = Inr [] \<and> fl_service f = None \<and> \<not> fl_tun f \<and>
     fl_proxy_protocol f \<in> {None, Some 0} \<and> (\<exists>m. clean_url_path (unwrap_or (fl_set_path f) ''/'') = Inr m) \<and>
     (given_ports f = [] \<and> kind = KHttps \<and> port = 443 \<or> given_ports f = [(kind, port)] \<and> port \<le> 65535)"
proof -
  have slash: "clean_url_path ''/'' = Inr ''/''" by code_simp
  have m: "check_mount f = Inr () \<longleftrightarrow> (\<exists>m. clean_url_path (unwrap_or (fl_set_path f) ''/'') = Inr m)"
    by (auto simp: check_mount_def slash split: option.splits sum.splits)
  have "check_serve_flags letnum f funnel = Inr (kind, port) \<longleftrightarrow>
     parse_accept_app_caps letnum (fl_accept_app_caps f) = Inr [] \<and> fl_service f = None \<and> check_mount f = Inr () \<and>
     fl_proxy_protocol f \<in> {None, Some 0} \<and> (serve_kind_and_port f = Inr (kind, port) \<and> kind \<noteq> KTun)"
    by (auto simp: check_serve_flags_def rbind_eq_Inr Let_def split: option.splits if_splits)
  then show ?thesis unfolding m serve_kind_and_port_iff by blast
qed

section \<open>Adding a handler\<close>

lemma bt_insert_first: "bt_wf ((k, v) # m) \<Longrightarrow> bt_insert k v m = (k, v) # m"
  by (cases m) (auto simp: bt_wf_def)

lemma bt_insert_last: "bt_wf (a @ [(k, v)]) \<Longrightarrow> bt_insert k v a = a @ [(k, v)]"
  by (induction a) (auto simp: bt_wf_def)

lemma bt_wf_appendD: "bt_wf (a @ b) \<Longrightarrow> bt_wf a \<and> bt_wf b"
  by (simp add: bt_wf_def sorted_wrt_append)

lemma bt_wf_map: "bt_wf (map (\<lambda>(k, m). (k, g m)) ms) \<longleftrightarrow> bt_wf ms"
  by (simp add: bt_wf_def case_prod_unfold comp_def)

lemma fold_insert_id:
  "bt_wf (a @ map (\<lambda>(k, m). (k, g m)) ms) \<Longrightarrow>
     fold (\<lambda>(k, m). bt_insert k (g m)) ms a = a @ map (\<lambda>(k, m). (k, g m)) ms"
proof (induction ms arbitrary: a)
  case (Cons x ms)
  obtain k m where x: "x = (k, m)" by (cases x)
  from Cons.prems have "bt_wf (a @ [(k, g m)])"
    using bt_wf_appendD [of "a @ [(k, g m)]" "map (\<lambda>(k, m). (k, g m)) ms"] by (simp add: x)
  with Cons show ?case by (simp add: x bt_insert_last)
qed simp

lemma collect_id:
  assumes "\<And>m h. conv m = Inr h \<Longrightarrow> h = g m"
  shows "bt_wf ms \<Longrightarrow> collect_handlers conv ms = Inr hs \<Longrightarrow> hs = map (\<lambda>(k, m). (k, g m)) ms"
proof (induction ms arbitrary: hs)
  case (Cons x ms)
  obtain k m where x: "x = (k, m)" by (cases x)
  from Cons.prems have wf: "bt_wf ms" using bt_wf_appendD [of "[x]" ms] by simp
  from Cons.prems obtain h r where "conv m = Inr h" "collect_handlers conv ms = Inr r" "hs = bt_insert k h r"
    by (auto simp: x rbind_eq_Inr)
  moreover have "bt_wf ((k, g m) # map (\<lambda>(k, m). (k, g m)) ms)"
    using Cons.prems(1) bt_wf_map [of g "(k, m) # ms"] by (simp add: x)
  ultimately show ?case using Cons.IH [OF wf] assms by (simp add: x bt_insert_first)
qed simp

lemma engine_http_handler_id: "engine_http_handler h = Inr h' \<Longrightarrow> h' = h"
  by (cases h) (auto simp: engine_http_handler_def rbind_eq_Inr)

lemma mount_handler_id: "mount_handler m = Inr h \<Longrightarrow> h = mount_to_handler m"
  by (cases m) (auto simp: mount_handler_def mount_to_handler_def legacy_redirect_def rbind_eq_Inr split: if_splits)

definition passes :: "HttpHandler \<Rightarrow> bool" where
  "passes h \<longleftrightarrow> \<not> has_control (hh_redirect h)"

lemma engine_http_handler_ok: "(\<exists>h'. engine_http_handler h = Inr h') \<longleftrightarrow> passes h"
  by (auto simp: engine_http_handler_def rbind_eq_Inr check_redirect_target_def passes_def)

lemma collect_engine_ok: "(\<exists>hs. collect_handlers engine_http_handler ms = Inr hs) \<longleftrightarrow> (\<forall>(k, h) \<in> set ms. passes h)"
  by (induction ms) (auto simp: rbind_eq_Inr simp flip: engine_http_handler_ok)

lemma collect_engine: "bt_wf ms \<Longrightarrow> (\<forall>(k, h) \<in> set ms. passes h) \<Longrightarrow> collect_handlers engine_http_handler ms = Inr ms"
  using collect_engine_ok [of ms] collect_id [of engine_http_handler "\<lambda>h. h" ms] engine_http_handler_id by fastforce

lemma legacy_bodies_engine:
  assumes "bt_wf (th_mounts h)" "legacy_web_handlers h = Inr hs"
  shows "legacy_bodies h = hs \<and> bt_wf hs \<and> (\<forall>(k, h) \<in> set hs. passes h)"
proof -
  have "(\<forall>(k, h) \<in> set hs. passes h)"
    using legacy_web_handlers_clean [OF assms(2)] by (auto simp: clean_handlers_def list_all_iff passes_def)
  moreover have "legacy_bodies h = hs \<and> bt_wf hs"
  proof (cases "th_mounts h = []")
    case True
    with assms(2) show ?thesis
      by (auto simp: legacy_web_handlers_def legacy_bodies_def legacy_redirect_def rbind_eq_Inr bt_wf_def
          split: option.splits if_splits)
  next
    case False
    with assms have "hs = map (\<lambda>(k, m). (k, mount_to_handler m)) (th_mounts h)"
      using collect_id [of mount_handler mount_to_handler] mount_handler_id
      by (auto simp: legacy_web_handlers_def)
    moreover have "bt_wf (map (\<lambda>(k, m). (k, mount_to_handler m)) (th_mounts h))"
      using assms(1) by (simp add: bt_wf_map)
    ultimately show ?thesis
      using False fold_insert_id [of "[]" mount_to_handler "th_mounts h"] by (simp add: legacy_bodies_def)
  qed
  ultimately show ?thesis by blast
qed

definition config_wf :: "ServeConfig \<Rightarrow> bool" where
  "config_wf cfg \<longleftrightarrow> bt_wf (sc_tcp cfg) \<and> bt_wf (sc_web cfg) \<and> bt_wf (sc_allow_funnel cfg) \<and>
     (\<forall>(k, h) \<in> set (sc_tcp cfg). bt_wf (th_mounts h)) \<and> (\<forall>(k, w) \<in> set (sc_web cfg). bt_wf (wsc_handlers w))"

text \<open>The handlers the daemon gives the engine for a web port, as \<open>engine_port\<close> computes them.\<close>

definition port_handlers :: "ServeConfig \<Rightarrow> string \<Rightarrow> nat \<Rightarrow> (ServeConfigError, HttpHandler btree) result" where
  "port_handlers cfg host port =
     (case bt_get (sc_web cfg) (host_port host port) of
        Some wsc \<Rightarrow> collect_handlers engine_http_handler (wsc_handlers wsc)
      | None \<Rightarrow> (case bt_get (sc_tcp cfg) (dec_string port) of Some h \<Rightarrow> legacy_web_handlers h | None \<Rightarrow> Inr []))"

lemma existing_are_served:
  assumes "config_wf cfg" "port_handlers cfg host port = Inr hs"
  shows "existing_web_handlers cfg host port = hs \<and> bt_wf hs \<and> (\<forall>(k, h) \<in> set hs. passes h)"
proof (cases "bt_get (sc_web cfg) (host_port host port)")
  case (Some w)
  then have "(host_port host port, w) \<in> set (sc_web cfg)" by (simp add: bt_get_def map_of_SomeD)
  with assms(1) have wf: "bt_wf (wsc_handlers w)" by (auto simp: config_wf_def)
  from assms(2) Some have c: "collect_handlers engine_http_handler (wsc_handlers w) = Inr hs" by (simp add: port_handlers_def)
  then have "\<forall>(k, h) \<in> set (wsc_handlers w). passes h" using collect_engine_ok by blast
  with c collect_engine [OF wf this] Some wf show ?thesis by (simp add: existing_web_handlers_def)
next
  case None
  show ?thesis
  proof (cases "bt_get (sc_tcp cfg) (dec_string port)")
    case (Some h)
    then have "(dec_string port, h) \<in> set (sc_tcp cfg)" by (simp add: bt_get_def map_of_SomeD)
    with assms(1) have "bt_wf (th_mounts h)" by (auto simp: config_wf_def)
    with legacy_bodies_engine [of h hs] assms(2) None Some show ?thesis
      by (simp add: existing_web_handlers_def port_handlers_def)
  qed (use assms(2) None in \<open>simp add: existing_web_handlers_def port_handlers_def\<close>)
qed

lemma config_wf_set_web:
  "config_wf cfg \<Longrightarrow> bt_wf hs \<Longrightarrow> config_wf (set_web_handlers cfg host port tls hs)"
  using set_bt_insert [of "dec_string port" "default_handler\<lparr>th_https := tls, th_http := \<not> tls\<rparr>" "sc_tcp cfg"]
    set_bt_insert [of "host_port host port" "\<lparr>wsc_handlers = hs\<rparr>" "sc_web cfg"]
  by (auto simp: config_wf_def set_web_handlers_def bt_wf_insert default_handler_def)

text \<open>
  C25. Adding a web handler to a port accretes. If the daemon serves the handlers \<open>hs\<close> on the port, whether they are
  stored in the \<open>Web\<close> map or in the older form on the port itself, then after \<open>serve\<close> it serves exactly \<open>hs\<close> with
  the new handler at its mount: nothing the port served elsewhere is lost in the migration. Every other port,
  every other host's handlers and the Funnel switches are as they were, and the document stays well-formed.
\<close>

theorem web_serve_accretes:
  assumes "config_wf cfg" "port_handlers cfg host port = Inr hs"
    "build_web_serve cfg host port target set_path tls = Inr cfg'"
  shows "\<exists>mount entry. root_mount set_path = Inr mount \<and> target_handler target = Inr entry \<and>
           port_handlers cfg' host port = Inr (bt_insert mount entry hs) \<and>
           bt_get (sc_tcp cfg') = (bt_get (sc_tcp cfg))(dec_string port \<mapsto> default_handler\<lparr>th_https := tls, th_http := \<not> tls\<rparr>) \<and>
           (\<forall>k. k \<noteq> host_port host port \<longrightarrow> bt_get (sc_web cfg') k = bt_get (sc_web cfg) k) \<and>
           sc_allow_funnel cfg' = sc_allow_funnel cfg \<and> config_wf cfg'"
proof -
  obtain mount entry where m: "root_mount set_path = Inr mount" "target_handler target = Inr entry"
    and c: "cfg' = set_web_handlers cfg host port tls (bt_insert mount entry (existing_web_handlers cfg host port))"
    using assms(3) by (auto simp: build_web_serve_def rbind_eq_Inr)
  note ex = existing_are_served [OF assms(1,2)]
  let ?hs = "bt_insert mount entry hs"
  have wf: "bt_wf ?hs" using ex by (simp add: bt_wf_insert)
  have "passes entry"
    using m(2) by (auto simp: target_handler_def passes_def empty_handler_def split: option.splits if_splits)
  with ex set_bt_insert [of mount entry hs] have "\<forall>(k, h) \<in> set ?hs. passes h" by fast
  then have "port_handlers cfg' host port = Inr ?hs"
    using assms(1) ex wf by (simp add: c port_handlers_def set_web_handlers_def config_wf_def bt_get_insert collect_engine)
  moreover have "bt_get (sc_tcp cfg') = (bt_get (sc_tcp cfg))(dec_string port \<mapsto> default_handler\<lparr>th_https := tls, th_http := \<not> tls\<rparr>)"
    using assms(1) by (simp add: c set_web_handlers_def config_wf_def bt_get_insert)
  moreover have "\<forall>k. k \<noteq> host_port host port \<longrightarrow> bt_get (sc_web cfg') k = bt_get (sc_web cfg) k"
    using assms(1) by (simp add: c set_web_handlers_def config_wf_def bt_get_insert)
  moreover have "config_wf cfg'" using config_wf_set_web [OF assms(1) wf] ex by (simp add: c)
  moreover have "sc_allow_funnel cfg' = sc_allow_funnel cfg" by (simp add: c set_web_handlers_def)
  ultimately show ?thesis using m by (intro exI [of _ mount] exI [of _ entry]) simp
qed

definition legacy_web :: ServeConfig where
  "legacy_web = serve_default\<lparr>sc_tcp := [(''443'', default_handler\<lparr>th_https := True, th_tcp_forward := ''10.0.0.1:80''\<rparr>)]\<rparr>"

lemma demo_numbers: "dec_string 443 = ''443''" "parse_u16 ''3000'' = Some 3000"
  by (simp add: demo_dec) (simp add: parse_u16_def is_ascii_digit_def byte_def digit_val_def)

theorem web_serve_accretes_witness:
  "\<exists>cfg'. build_web_serve legacy_web ''h.ts.net'' 443 ''3000'' (Some ''api'') True = Inr cfg' \<and>
     port_handlers legacy_web ''h.ts.net'' 443 = Inr [(''/'', empty_handler\<lparr>hh_proxy := ''10.0.0.1:80''\<rparr>)] \<and>
     port_handlers cfg' ''h.ts.net'' 443 =
       Inr [(''/'', empty_handler\<lparr>hh_proxy := ''10.0.0.1:80''\<rparr>), (''/api'', empty_handler\<lparr>hh_proxy := ''127.0.0.1:3000''\<rparr>)]"
proof -
  have wf: "config_wf legacy_web"
    by (simp add: legacy_web_def config_wf_def serve_default_def default_handler_def bt_wf_def)
  have p: "port_handlers legacy_web ''h.ts.net'' 443 = Inr [(''/'', empty_handler\<lparr>hh_proxy := ''10.0.0.1:80''\<rparr>)]"
    by (simp add: port_handlers_def legacy_web_def serve_default_def default_handler_def bt_get_def demo_numbers legacy_web_handlers_def)
  have "clean_url_path ''api'' = Inr ''/api''" by code_simp
  then have m: "root_mount (Some ''api'') = Inr ''/api''" by (simp add: root_mount_def)
  have t: "target_handler ''3000'' = Inr (empty_handler\<lparr>hh_proxy := ''127.0.0.1:3000''\<rparr>)"
    by (simp add: target_handler_def strip_prefix_def normalize_serve_target_def demo_numbers)
  then obtain cfg' where c: "build_web_serve legacy_web ''h.ts.net'' 443 ''3000'' (Some ''api'') True = Inr cfg'"
    using m by (simp add: build_web_serve_def)
  have "bt_insert ''/api'' (empty_handler\<lparr>hh_proxy := ''127.0.0.1:3000''\<rparr>) [(''/'', empty_handler\<lparr>hh_proxy := ''10.0.0.1:80''\<rparr>)] =
      [(''/'', empty_handler\<lparr>hh_proxy := ''10.0.0.1:80''\<rparr>), (''/api'', empty_handler\<lparr>hh_proxy := ''127.0.0.1:3000''\<rparr>)]"
    by (simp add: less_char_def)
  with web_serve_accretes [OF wf p c] m t c p show ?thesis by auto
qed

section \<open>The foreground serve\<close>

lemma validate_iff:
  "validate_serve_config_update a b = Inr () \<longleftrightarrow> (\<forall>p. \<forall>w \<in> served_types b p. \<forall>s \<in> served_types a p. w = s)"
proof -
  have "validate_serve_config_update a b = Inr () \<longleftrightarrow> (\<forall>(k, h) \<in> set (sc_tcp b). port_conflict a (k, h) = None)"
    using first_conflict_None [of a "sc_tcp b"]
    by (cases "first_conflict a (sc_tcp b)") (auto simp: validate_serve_config_update_def)
  also have "\<dots> \<longleftrightarrow> (\<forall>k h p s. (k, h) \<in> set (sc_tcp b) \<longrightarrow> parse_u16 k = Some p \<longrightarrow> s \<in> served_types a p \<longrightarrow> s = serve_type h)"
    by (auto simp: port_conflict_None)
  also have "\<dots> \<longleftrightarrow> (\<forall>p. \<forall>w \<in> served_types b p. \<forall>s \<in> served_types a p. w = s)"
    by (auto simp: served_types_def [of b]) metis
  finally show ?thesis .
qed

lemma send_end: "rn_end (send_ok_or_die d cfg k) = Inr x \<Longrightarrow> rn_end k = Inr x \<and> rn_sent (send_ok_or_die d cfg k) = cfg # rn_sent k"
  by (auto simp: send_ok_or_die_def stop_with_def split: set_reply.splits)

lemma send_sent: "\<exists>k'. rn_sent (send_ok_or_die d cfg k) = cfg # k'"
  by (auto simp: send_ok_or_die_def split: set_reply.splits)

lemma listener_config_tcp:
  assumes "listener_config kind f target host port cfg = Inr (cfg', what)" "bt_wf (sc_tcp cfg)" "k \<noteq> dec_string port"
  shows "bt_get (sc_tcp cfg') k = bt_get (sc_tcp cfg) k"
  using assms
  by (cases kind) (auto simp: build_web_serve_def rbind_eq_Inr set_web_handlers_def bt_get_insert tcp_entry_def
      drop_web_port_def Let_def map_sum_def split: sum.splits)

lemma run_on_Inr:
  assumes "run_on d f kind port funnel = Inr x"
  obtains target host previous cfg what where
    "sv_config d = Inr previous" "listener_config kind f target host port previous = Inr (cfg, what)"
    "x = send_listener d f host port funnel previous cfg what"
proof -
  obtain target where t: "fl_target f = Some target" "\<not> (fl_set_path f \<noteq> None \<and> \<not> is_web kind)"
    using assms by (cases "fl_target f"; cases "fl_set_path f \<noteq> None \<and> \<not> is_web kind") (simp_all add: run_on_def)
  from assms show ?thesis
    unfolding run_on_def t(1) option.case if_not_P [OF t(2)] rbind_eq_Inr get_serve_config_def map_err_eq_Inr
    by (elim exE conjE) (auto split: prod.splits intro: that)
qed


definition tcp_flags :: ServeFlags where
  "tcp_flags = \<lparr>fl_bg = None, fl_https = Some 0, fl_http = None, fl_tcp = Some 22, fl_tls_terminated_tcp = None,
     fl_set_path = None, fl_service = None, fl_tun = False, fl_proxy_protocol = Some 0, fl_accept_app_caps = [[]],
     fl_yes = False, fl_target = Some ''3000'', fl_off = None\<rparr>"

definition willing :: serve_cli where
  "willing = \<lparr>sv_status = Inl UnexpectedAnswer, sv_config = Inr legacy_web, sv_set = (\<lambda>_. SetOk ''stored'')\<rparr>"


end
