(* ===== verification/CliSafe.thy ===== *)
theory CliSafe
  imports ExitNode Utf8Chars
begin

text \<open>
  What the client (\<open>src/src/bin/tnet.rs\<close>) prints to a terminal, puts into the status page and hands to
  \<open>ssh\<close>. The strings come from a control server or a peer that is only half trusted, so each consumer has
  its own neutralisation. The consumers are not in the repository: a terminal and a browser are described by
  the characters that are special to them, a POSIX shell by its quoting rules (\<open>sh_words\<close>), \<open>ssh\<close> by the
  documented expansion of its tokens (a parameter).
\<close>

section \<open>The terminal\<close>

definition is_display_unsafe :: "string \<Rightarrow> bool" where
  "is_display_unsafe ch \<longleftrightarrow>
     is_control ch \<or>
     (length ch = 3 \<and> byte (ch ! 0) = 226 \<and>
        (byte (ch ! 1) = 128 \<and> 168 \<le> byte (ch ! 2) \<and> byte (ch ! 2) \<le> 174 \<or>
         byte (ch ! 1) = 129 \<and> 166 \<le> byte (ch ! 2) \<and> byte (ch ! 2) \<le> 169))"

definition TAB :: char where "TAB = CHR 0x09"

definition sanitize_for_terminal :: "string \<Rightarrow> string" where
  "sanitize_for_terminal s = concat (map (\<lambda>c. if is_display_unsafe c then replacement_char else c) (utf8_chars s))"

definition sanitize_multiline :: "string \<Rightarrow> string" where
  "sanitize_multiline s =
     concat (map (\<lambda>c. if c = [TAB] \<or> c = [LF] \<or> c = [CR] then c
                       else if is_display_unsafe c then replacement_char else c) (utf8_chars s))"

text \<open>A Rust string is well-formed UTF-8: each of its characters is read as one.\<close>

definition one_char :: "string \<Rightarrow> bool" where
  "one_char ch \<longleftrightarrow> ch \<noteq> [] \<and> utf8_step ch = (length ch, True)"

definition is_utf8 :: "string \<Rightarrow> bool" where
  "is_utf8 s \<longleftrightarrow> list_all one_char (utf8_chars s)"

lemma one_char_step:
  assumes "one_char ch"
  shows "utf8_step (ch @ rest) = (length ch, True)"
proof -
  have "length ch = 1 \<or> length ch = 2 \<or> length ch = 3 \<or> length ch = 4"
    using assms by (auto simp: one_char_def utf8_step_def Let_def split: if_splits)
  then show ?thesis
  proof (elim disjE)
    assume "length ch = 1"
    then obtain a where "ch = [a]" by (auto simp: length_Suc_conv)
    with assms show ?thesis by (auto simp: one_char_def utf8_step_def Let_def split: if_splits)
  next
    assume "length ch = 2"
    then obtain a b where "ch = [a, b]" by (auto simp: length_Suc_conv numeral_eq_Suc)
    with assms show ?thesis by (auto simp: one_char_def utf8_step_def Let_def split: if_splits)
  next
    assume "length ch = 3"
    then obtain a b c where "ch = [a, b, c]" by (auto simp: length_Suc_conv numeral_eq_Suc)
    with assms show ?thesis by (auto simp: one_char_def utf8_step_def Let_def split: if_splits)
  next
    assume "length ch = 4"
    then obtain a b c d where "ch = [a, b, c, d]" by (auto simp: length_Suc_conv numeral_eq_Suc)
    with assms show ?thesis by (auto simp: one_char_def utf8_step_def Let_def split: if_splits)
  qed
qed

lemma utf8_chars_concat: "list_all one_char cs \<Longrightarrow> utf8_chars (concat cs) = cs"
proof (induction cs)
  case (Cons c cs)
  then have "c @ concat cs \<noteq> []" by (simp add: one_char_def)
  with Cons one_char_step [of c "concat cs"] show ?case by (subst utf8_chars.simps) simp
qed simp

lemma replacement_one: "one_char replacement_char" "\<not> is_display_unsafe replacement_char"
  by code_simp+

text \<open>
  A string printed into a line of output keeps its length and its harmless characters: character by character
  the result is the input, with every control character, line separator and bidirectional override replaced by
  the replacement character. So none is left, and a value of the control server can neither start an escape
  sequence nor forge a column or a row.
\<close>

theorem terminal_line_safe:
  assumes "is_utf8 s"
  shows "utf8_chars (sanitize_for_terminal s) =
           map (\<lambda>c. if is_display_unsafe c then replacement_char else c) (utf8_chars s) \<and>
         list_all (\<lambda>c. \<not> is_display_unsafe c) (utf8_chars (sanitize_for_terminal s)) \<and>
         is_utf8 (sanitize_for_terminal s)"
proof -
  let ?cs = "map (\<lambda>c. if is_display_unsafe c then replacement_char else c) (utf8_chars s)"
  have "list_all one_char ?cs"
    using assms replacement_one by (auto simp: is_utf8_def list_all_iff)
  moreover have "list_all (\<lambda>c. \<not> is_display_unsafe c) ?cs" using replacement_one by (auto simp: list_all_iff)
  ultimately show ?thesis by (simp add: utf8_chars_concat sanitize_for_terminal_def is_utf8_def)
qed

theorem terminal_line_safe_witness:
  "list_all (\<lambda>c. \<not> is_display_unsafe c) (utf8_chars (sanitize_for_terminal (''a'' @ [CHR 0x1B, TAB] @ ''b''))) \<and>
   is_utf8 (''a'' @ [CHR 0x1B, TAB] @ ''b'')"
proof -
  have "is_utf8 (''a'' @ [CHR 0x1B, TAB] @ ''b'')" by code_simp
  with terminal_line_safe [OF this] show ?thesis by blast
qed

section \<open>The status page\<close>

definition html_char :: "char \<Rightarrow> string" where
  "html_char c =
     (if c = CHR ''&'' then ''&amp;''
      else if c = CHR ''<'' then ''&lt;''
      else if c = CHR ''>'' then ''&gt;''
      else if c = CHR 0x22 then ''&quot;''
      else if c = CHR 0x27 then ''&#39;''
      else [c])"

definition html_escape :: "string \<Rightarrow> string" where
  "html_escape s = concat (map html_char s)"

record WebPeer =
  wp_name :: string
  wp_ipv4 :: string
  wp_ipv6 :: "string option"
  wp_online :: "bool option"
  wp_is_exit_node :: bool
  wp_relay :: "string option"
  wp_last_seen :: "string option"

record WebStatus =
  ws_state :: string
  ws_version :: "string option"
  ws_tun :: bool
  ws_self_name :: "string option"
  ws_self_ipv4 :: "string option"
  ws_self_ipv6 :: "string option"
  ws_magic_dns_suffix :: "string option"
  ws_active_exit_node :: "string option"
  ws_auth_url :: "string option"
  ws_error :: "string option"
  ws_peers :: "WebPeer list"

definition DQ :: string where "DQ = [CHR 0x22]"

definition attr :: "string \<Rightarrow> string \<Rightarrow> string" where
  "attr name value = '' '' @ name @ ''='' @ DQ @ value @ DQ"

definition page_head :: string where
  "page_head =
     ''<!DOCTYPE html>'' @ [LF] @ ''<html'' @ attr ''lang'' ''en'' @ ''><head><meta'' @ attr ''charset'' ''utf-8'' @ ''>'' @
     ''<title>tailnetd status</title>'' @
     ''<style>body{font-family:system-ui,sans-serif;margin:2rem;}'' @
     ''table{border-collapse:collapse;margin-top:1rem;}'' @
     ''th,td{border:1px solid #ccc;padding:4px 10px;text-align:left;}'' @
     ''th{background:#f4f4f4;}.k{color:#555;}</style></head><body>'' @
     ''<h1>tailnetd status</h1>'' @ ''<table>''"

definition page_row :: "string \<Rightarrow> string \<Rightarrow> string" where
  "page_row k v = ''<tr><td'' @ attr ''class'' ''k'' @ ''>'' @ k @ ''</td><td>'' @ v @ ''</td></tr>''"

definition opt_row :: "string \<Rightarrow> string option \<Rightarrow> string" where
  "opt_row k v = (case v of None \<Rightarrow> [] | Some x \<Rightarrow> page_row k (html_escape x))"

definition opt_list :: "string option \<Rightarrow> string list" where
  "opt_list v = (case v of None \<Rightarrow> [] | Some x \<Rightarrow> [x])"

definition bool_text :: "bool \<Rightarrow> string" where
  "bool_text b = (if b then ''true'' else ''false'')"

definition facts_table :: "WebStatus \<Rightarrow> string" where
  "facts_table s =
     (let ips = opt_list (ws_self_ipv4 s) @ opt_list (ws_self_ipv6 s) in
      page_row ''state'' (html_escape (ws_state s)) @ opt_row ''version'' (ws_version s) @
      page_row ''TUN'' (bool_text (ws_tun s)) @ opt_row ''self'' (ws_self_name s) @
      (if ips \<noteq> [] then page_row ''addresses'' (html_escape (join '', '' ips)) else []) @
      opt_row ''magic-dns-suffix'' (ws_magic_dns_suffix s) @ opt_row ''exit-node'' (ws_active_exit_node s) @ ''</table>'')"

definition login_box :: "WebStatus \<Rightarrow> string" where
  "login_box s =
     (case ws_auth_url s of
        Some url \<Rightarrow>
          ''<div'' @ attr ''style'' ''margin-top:1rem;padding:12px;border:1px solid #d49b00;background:#fff8e1;'' @ ''>'' @
          ''<strong>This node needs to be authenticated.</strong><br>'' @
          ''<a'' @ attr ''href'' (html_escape url) @ attr ''target'' ''_blank'' @ attr ''rel'' ''noopener noreferrer'' @
          ''>Log in to authenticate this node</a>'' @
          ''<br><span'' @ attr ''class'' ''k'' @
          ''>The node finishes connecting automatically once authorized; reload to check.</span>'' @ ''</div>''
      | None \<Rightarrow>
          (case ws_error s of
             None \<Rightarrow> []
           | Some err \<Rightarrow>
               ''<div'' @ attr ''style'' ''margin-top:1rem;padding:12px;border:1px solid #c0392b;background:#fdecea;'' @ ''>'' @
               ''<strong>Registration failed:</strong> '' @ html_escape err @ ''<br>'' @
               ''<span'' @ attr ''class'' ''k'' @
               ''>This is a permanent failure '' @ [char_of (226::nat), char_of (128::nat), char_of (148::nat)] @
               '' re-authenticate with a fresh key '' @
               ''(`tnet up --authkey &lt;NEW_KEY&gt;`); the same key will keep failing.</span></div>''))"

definition peer_row :: "WebPeer \<Rightarrow> string" where
  "peer_row p =
     (let td = (\<lambda>x. ''<td>'' @ x @ ''</td>'') in
      ''<tr>'' @ td (html_escape (wp_name p)) @ td (html_escape (wp_ipv4 p)) @ td (html_escape (unwrap_or (wp_ipv6 p) [])) @
      td (case wp_online p of Some b \<Rightarrow> if b then ''yes'' else ''no'' | None \<Rightarrow> ''?'') @
      td (if wp_is_exit_node p then ''yes'' else []) @
      td (html_escape (unwrap_or (wp_relay p) [])) @ td (html_escape (unwrap_or (wp_last_seen p) [])) @ ''</tr>'')"

definition peers_table :: "WebStatus \<Rightarrow> string" where
  "peers_table s =
     ''<h2>peers ('' @ dec_string (length (ws_peers s)) @ '')</h2>'' @
     (if ws_peers s = [] then ''<p>no peers</p>''
      else ''<table><tr><th>name</th><th>ipv4</th><th>ipv6</th><th>online</th>'' @
           ''<th>exit-node</th><th>relay</th><th>last-seen</th></tr>'' @
           concat (map peer_row (ws_peers s)) @ ''</table>'')"

definition render_status_html :: "WebStatus \<Rightarrow> string" where
  "render_status_html s = page_head @ facts_table s @ login_box s @ peers_table s @ ''</body></html>''"

text \<open>The characters that make markup, and the page with every text taken out of it.\<close>

definition markup :: "string \<Rightarrow> string" where
  "markup s = filter (\<lambda>c. c = CHR ''<'' \<or> c = CHR ''>'' \<or> c = CHR 0x22 \<or> c = CHR 0x27) s"

definition blank_peer :: "WebPeer \<Rightarrow> WebPeer" where
  "blank_peer p = p\<lparr>wp_name := [], wp_ipv4 := [], wp_ipv6 := None, wp_relay := None, wp_last_seen := None\<rparr>"

definition blank :: "WebStatus \<Rightarrow> WebStatus" where
  "blank s = (let e = map_option (\<lambda>_. []) in
     s\<lparr>ws_state := [], ws_version := e (ws_version s), ws_self_name := e (ws_self_name s), ws_self_ipv4 := e (ws_self_ipv4 s),
       ws_self_ipv6 := e (ws_self_ipv6 s), ws_magic_dns_suffix := e (ws_magic_dns_suffix s),
       ws_active_exit_node := e (ws_active_exit_node s), ws_auth_url := e (ws_auth_url s), ws_error := e (ws_error s),
       ws_peers := map blank_peer (ws_peers s)\<rparr>)"

lemma markup_simps [simp]:
  "markup [] = []"
  "markup (c # s) = (if c = CHR ''<'' \<or> c = CHR ''>'' \<or> c = CHR 0x22 \<or> c = CHR 0x27 then c # markup s else markup s)"
  by (simp_all add: markup_def)

lemma markup_append [simp]: "markup (a @ b) = markup a @ markup b"
  by (simp add: markup_def)

lemma markup_concat: "markup (concat xs) = concat (map markup xs)"
  by (induction xs) (simp_all add: markup_def)

lemma markup_escape [simp]: "markup (html_escape s) = []"
  unfolding html_escape_def markup_concat by (induction s) (auto simp: html_char_def markup_def)

lemma markup_opt_row: "markup (opt_row k v) = markup (opt_row k (map_option (\<lambda>_. []) v))"
  by (cases v) (simp_all add: opt_row_def page_row_def)

lemma markup_peer_row: "markup (peer_row p) = markup (peer_row (blank_peer p))"
  by (simp add: peer_row_def blank_peer_def Let_def)

lemma blank_simps [simp]:
  "ws_state (blank s) = []" "ws_version (blank s) = map_option (\<lambda>_. []) (ws_version s)" "ws_tun (blank s) = ws_tun s"
  "ws_self_name (blank s) = map_option (\<lambda>_. []) (ws_self_name s)"
  "ws_self_ipv4 (blank s) = map_option (\<lambda>_. []) (ws_self_ipv4 s)"
  "ws_self_ipv6 (blank s) = map_option (\<lambda>_. []) (ws_self_ipv6 s)"
  "ws_magic_dns_suffix (blank s) = map_option (\<lambda>_. []) (ws_magic_dns_suffix s)"
  "ws_active_exit_node (blank s) = map_option (\<lambda>_. []) (ws_active_exit_node s)"
  "ws_auth_url (blank s) = map_option (\<lambda>_. []) (ws_auth_url s)" "ws_error (blank s) = map_option (\<lambda>_. []) (ws_error s)"
  "ws_peers (blank s) = map blank_peer (ws_peers s)"
  by (simp_all add: blank_def Let_def)

lemma markup_facts: "markup (facts_table s) = markup (facts_table (blank s))"
proof -
  have "opt_list (map_option (\<lambda>_. []) v) = [] \<longleftrightarrow> opt_list v = []" for v :: "string option"
    by (cases v) (simp_all add: opt_list_def)
  then show ?thesis
    unfolding facts_table_def Let_def
    by (simp add: page_row_def markup_opt_row [of _ "ws_version s"] markup_opt_row [of _ "ws_self_name s"]
        markup_opt_row [of _ "ws_magic_dns_suffix s"] markup_opt_row [of _ "ws_active_exit_node s"])
qed

lemma markup_login: "markup (login_box s) = markup (login_box (blank s))"
  by (simp add: login_box_def attr_def split: option.split)

lemma markup_peers: "markup (peers_table s) = markup (peers_table (blank s))"
proof -
  have "markup (concat (map peer_row ps)) = markup (concat (map peer_row (map blank_peer ps)))" for ps
    by (induction ps) (simp_all add: markup_peer_row [symmetric])
  then show ?thesis by (simp add: peers_table_def del: map_map)
qed

text \<open>
  The markup of the status page does not depend on any text in the report: angle brackets and quotes occur in
  it exactly as in the page of the same report with every text emptied. So a name, an address, an error or a
  login link, all of which others supply, can neither open a tag nor leave an attribute.
\<close>

theorem status_page_markup_fixed:
  "markup (render_status_html s) = markup (render_status_html (blank s))"
  by (simp add: render_status_html_def markup_facts [of s] markup_login [of s] markup_peers [of s])

section \<open>Serving the page\<close>

definition parse_request_target :: "string \<Rightarrow> (string \<times> string) option" where
  "parse_request_target request_line =
     (case split_whitespace request_line of m # t # _ \<Rightarrow> Some (m, t) | _ \<Rightarrow> None)"

definition trim_slashes :: "string \<Rightarrow> string" where
  "trim_slashes s = rev (dropWhile (\<lambda>c. c = CHR ''/'') (rev (dropWhile (\<lambda>c. c = CHR ''/'') s)))"

definition normalize_served_path :: "string \<Rightarrow> string" where
  "normalize_served_path path_prefix =
     (let trimmed = trim_slashes (utrim path_prefix) in if trimmed = [] then ''/'' else ''/'' @ trimmed)"

definition web_ui_url :: "string \<Rightarrow> string \<Rightarrow> string" where
  "web_ui_url bound served_path = ''http://'' @ bound @ (if served_path = ''/'' then [] else served_path)"

datatype WebRoute = Page | NotFound

definition route_web_request :: "string \<Rightarrow> string \<Rightarrow> string \<Rightarrow> WebRoute" where
  "route_web_request method path served_path = (if method = ''GET'' \<and> path = served_path then Page else NotFound)"

definition cgi_request_path :: "string option \<Rightarrow> string option \<Rightarrow> string option \<Rightarrow> string" where
  "cgi_request_path request_uri script_name path_info =
     (let uri = (case request_uri of None \<Rightarrow> [] | Some u \<Rightarrow> utrim u);
          path = (if uri \<noteq> [] then hd (split_on (CHR ''?'') uri) else unwrap_or script_name [] @ unwrap_or path_info []) in
      if path = [] then ''/'' else path)"

definition WEB_NOT_FOUND_BODY :: string where
  "WEB_NOT_FOUND_BODY = ''<!DOCTYPE html><html><body>not found</body></html>''"

definition WEB_UNAVAILABLE_BODY :: string where
  "WEB_UNAVAILABLE_BODY = ''<!DOCTYPE html><html><body>status unavailable</body></html>''"

text \<open>The answer to a routed request; the status is the daemon's reply, \<open>None\<close> when it failed.\<close>

definition page_answer :: "WebRoute \<Rightarrow> WebStatus option \<Rightarrow> string \<times> string" where
  "page_answer route status =
     (case route of
        NotFound \<Rightarrow> (''404 Not Found'', WEB_NOT_FOUND_BODY)
      | Page \<Rightarrow>
          (case status of
             Some s \<Rightarrow> (''200 OK'', render_status_html s)
           | None \<Rightarrow> (''500 Internal Server Error'', WEB_UNAVAILABLE_BODY)))"

definition cgi_response :: "string \<Rightarrow> string \<Rightarrow> string" where
  "cgi_response status body =
     ''Status: '' @ status @ [CR, LF] @ ''Content-Type: text/html; charset=utf-8'' @ [CR, LF] @
     ''Content-Length: '' @ dec_string (length body) @ [CR, LF, CR, LF] @ body"

definition run_web_cgi ::
  "string \<Rightarrow> string option \<Rightarrow> string option \<Rightarrow> string option \<Rightarrow> WebStatus option \<Rightarrow> string \<Rightarrow> string" where
  "run_web_cgi method request_uri script_name path_info status served_path =
     (case page_answer (route_web_request method (cgi_request_path request_uri script_name path_info) served_path) status of
        (st, body) \<Rightarrow> cgi_response st body)"

text \<open>
  One connection of the listener: the chunks of at most 1024 bytes its reads return before the deadline, an
  empty one at the end of the stream. \<open>None\<close>: the deadline or an error, or nothing was sent.
\<close>

fun read_request :: "string \<Rightarrow> string list \<Rightarrow> string option" where
  "read_request buf [] = None"
| "read_request buf (chunk # cs) =
     (if chunk = [] then Some buf
      else let buf' = buf @ chunk in
        if LF \<in> set buf' \<or> 8192 \<le> length buf' then Some buf' else read_request buf' cs)"

definition serve_status_connection :: "string list \<Rightarrow> WebStatus option \<Rightarrow> string \<Rightarrow> string option" where
  "serve_status_connection chunks status served_path =
     (case read_request [] chunks of
        None \<Rightarrow> None
      | Some buf \<Rightarrow>
          if buf = [] then None
          else
            let ls = str_lines (from_utf8_lossy buf);
                first_line = (case ls of [] \<Rightarrow> [] | l # _ \<Rightarrow> l);
                route = (case parse_request_target first_line of
                    Some (method, path) \<Rightarrow> route_web_request method path served_path | None \<Rightarrow> NotFound) in
            case page_answer route status of (st, body) \<Rightarrow>
              Some (''HTTP/1.1 '' @ st @ [CR, LF] @ ''Content-Type: text/html; charset=utf-8'' @ [CR, LF] @
                    ''Content-Length: '' @ dec_string (length body) @ [CR, LF] @ ''Connection: close'' @ [CR, LF, CR, LF] @ body))"

text \<open>
  The listener and the CGI mode answer the same request differently when it carries a query: for a GET of the
  served path followed by a question mark the listener says 404, while the CGI mode drops the query and serves
  the page.
\<close>

theorem query_answered_differently:
  assumes "CHR ''?'' \<notin> set served" "served \<noteq> []" "utrim (served @ ''?'' @ q) = served @ ''?'' @ q"
    "split_whitespace line = [''GET'', served @ ''?'' @ q, proto]"
  shows "(case parse_request_target line of Some (m, t) \<Rightarrow> route_web_request m t served | None \<Rightarrow> NotFound) = NotFound \<and>
         route_web_request ''GET'' (cgi_request_path (Some (served @ ''?'' @ q)) sn pi) served = Page"
proof -
  have "hd (split_on (CHR ''?'') (served @ ''?'' @ q)) = served"
    using assms(1) by (induction served) (auto split: list.splits)
  with assms show ?thesis by (simp add: parse_request_target_def route_web_request_def cgi_request_path_def)
qed

theorem query_answered_differently_witness:
  "route_web_request ''GET'' (cgi_request_path (Some ''/?a'') None None) ''/'' = Page \<and>
   (case parse_request_target ''GET /?a HTTP/1.1'' of Some (m, t) \<Rightarrow> route_web_request m t ''/'' | None \<Rightarrow> NotFound) = NotFound"
proof -
  have "utrim (''/'' @ ''?'' @ ''a'') = ''/'' @ ''?'' @ ''a''" by code_simp
  moreover have "split_whitespace ''GET /?a HTTP/1.1'' = [''GET'', ''/'' @ ''?'' @ ''a'', ''HTTP/1.1'']" by code_simp
  moreover have "CHR ''?'' \<notin> set ''/''" by simp
  ultimately show ?thesis
    using query_answered_differently [of "''/''" "''a''" "''GET /?a HTTP/1.1''" "''HTTP/1.1''" None None] by simp
qed

section \<open>What ssh is given\<close>

definition shell_char :: "char \<Rightarrow> string" where
  "shell_char c = (if c = CHR 0x27 then [CHR 0x27, CHR 0x5C, CHR 0x27, CHR 0x27] else [c])"

definition shell_quote :: "string \<Rightarrow> string" where
  "shell_quote s = [CHR 0x27] @ concat (map shell_char s) @ [CHR 0x27]"

record SshPeer = PeerReport +
  sp_ssh_host_keys :: "string list"

definition unsafe_user_char :: "char \<Rightarrow> bool" where
  "unsafe_user_char c \<longleftrightarrow> c = CHR '' '' \<or> c = TAB \<or> c = LF \<or> c = CR \<or> c = CHR ''@''"

datatype ssh_error =
    EmptyHost | EmptyUser | UnsafeUser string | NoStatus | NoPeer string | NoHostKeys string
  | NoConfigDir | KnownHostsFailed string | NoPath | NoSshBinary | ExecFailed string

definition split_ssh_target :: "string \<Rightarrow> (ssh_error, string option \<times> string) result" where
  "split_ssh_target target =
     (case (case split_once (CHR ''@'') target of Some (u, h) \<Rightarrow> (Some u, h) | None \<Rightarrow> (None, target)) of
        (user, host) \<Rightarrow>
          if host = [] then Inl EmptyHost
          else case user of
            None \<Rightarrow> Inr (None, host)
          | Some u \<Rightarrow>
              if u = [] then Inl EmptyUser
              else if starts_with u ''-'' \<or> list_ex unsafe_user_char u then Inl (UnsafeUser u)
              else Inr (Some u, host))"

definition ssh_destination :: "string option \<Rightarrow> string \<Rightarrow> string" where
  "ssh_destination user ssh_host = (case user of Some u \<Rightarrow> u @ ''@'' @ ssh_host | None \<Rightarrow> ssh_host)"

definition path_push :: "string \<Rightarrow> string \<Rightarrow> string" where
  "path_push d f = (if d = [] then f else if last d = CHR ''/'' then d @ f else d @ ''/'' @ f)"

definition find_ssh :: "string list option \<Rightarrow> (string \<Rightarrow> bool) \<Rightarrow> (ssh_error, string) result" where
  "find_ssh path is_file =
     (case path of
        None \<Rightarrow> Inl NoPath
      | Some dirs \<Rightarrow>
          (case find is_file (map (\<lambda>d. path_push d ''ssh'') dirs) of None \<Rightarrow> Inl NoSshBinary | Some c \<Rightarrow> Inr c))"

definition ssh_conf_dir :: "string option \<Rightarrow> string option \<Rightarrow> (ssh_error, string) result" where
  "ssh_conf_dir xdg home =
     (case (unwrap_or xdg [], unwrap_or home []) of
        (x, h) \<Rightarrow>
          if x \<noteq> [] then Inr (path_push x ''tailscale'')
          else if h \<noteq> [] then Inr (path_push (path_push h ''.config'') ''tailscale'')
          else Inl NoConfigDir)"

definition is_safe_known_hosts_host :: "string \<Rightarrow> bool" where
  "is_safe_known_hosts_host h \<longleftrightarrow>
     h \<noteq> [] \<and> \<not> starts_with h ''#'' \<and> \<not> list_ex (\<lambda>c. c = CHR '' '' \<or> c = TAB \<or> c = LF \<or> c = CR) h"

definition known_hosts_hosts :: "SshPeer \<Rightarrow> string list" where
  "known_hosts_hosts p =
     filter is_safe_known_hosts_host ([peer_name p, peer_ipv4 p] @ (case peer_ipv6 p of Some a \<Rightarrow> [a] | None \<Rightarrow> []))"

definition usable_key :: "string \<Rightarrow> bool" where
  "usable_key k \<longleftrightarrow> k \<noteq> [] \<and> LF \<notin> set k \<and> CR \<notin> set k"

definition render_known_hosts :: "SshPeer \<Rightarrow> string" where
  "render_known_hosts p =
     concat (map (\<lambda>key. concat (map (\<lambda>host. host @ '' '' @ key @ [LF]) (known_hosts_hosts p)))
       (filter usable_key (map utrim (sp_ssh_host_keys p))))"

definition proxy_command :: "string \<Rightarrow> string option \<Rightarrow> string" where
  "proxy_command exe socket =
     ''ProxyCommand '' @ shell_quote exe @ (case socket of Some s \<Rightarrow> '' --socket='' @ shell_quote s | None \<Rightarrow> []) @ '' nc %h %p''"

record ssh_env =
  se_peers :: "SshPeer list option"
  se_xdg :: "string option"
  se_home :: "string option"
  se_write_ok :: "string \<Rightarrow> string \<Rightarrow> bool"
  se_path :: "string list option"
  se_is_file :: "string \<Rightarrow> bool"
  se_exe :: string

definition write_ssh_known_hosts :: "ssh_env \<Rightarrow> SshPeer \<Rightarrow> (ssh_error, string) result" where
  "write_ssh_known_hosts e p =
     rbind (ssh_conf_dir (se_xdg e) (se_home e)) (\<lambda>dir.
       let path = path_push dir ''ssh_known_hosts'' in
       if se_write_ok e path (render_known_hosts p) then Inr path else Inl (KnownHostsFailed path))"

definition ssh_argv :: "string \<Rightarrow> string \<Rightarrow> string option \<Rightarrow> string option \<Rightarrow> string \<Rightarrow> string list \<Rightarrow> string list" where
  "ssh_argv known_hosts exe socket user ssh_host extra =
     [''-o'', ''UpdateHostKeys no'', ''-o'', ''StrictHostKeyChecking yes'', ''-o'', ''CanonicalizeHostname no'',
      ''-o'', ''UserKnownHostsFile '' @ known_hosts, ''-o'', proxy_command exe socket, ssh_destination user ssh_host] @ extra"

text \<open>The program and the arguments that replace the client.\<close>

definition run_ssh :: "ssh_env \<Rightarrow> string option \<Rightarrow> string \<Rightarrow> string list \<Rightarrow> (ssh_error, string \<times> string list) result" where
  "run_ssh e socket target extra =
     rbind (split_ssh_target target) (\<lambda>(user, host).
     case se_peers e of
       None \<Rightarrow> Inl NoStatus
     | Some peers \<Rightarrow>
         (case find (\<lambda>p. peer_name p = host \<or> peer_ipv4 p = host \<or> peer_ipv6 p = Some host) peers of
            None \<Rightarrow> Inl (NoPeer host)
          | Some p \<Rightarrow>
              if sp_ssh_host_keys p = [] then Inl (NoHostKeys host)
              else
                let ssh_host = (if peer_name p = [] then peer_ipv4 p else peer_name p) in
                rbind (write_ssh_known_hosts e p) (\<lambda>kh.
                rbind (find_ssh (se_path e) (se_is_file e)) (\<lambda>bin.
                Inr (bin, ssh_argv kh (se_exe e) socket user ssh_host extra)))))"

text \<open>
  The words a POSIX shell reads from a command of literal words: blanks separate, single quotes take everything
  up to the next one, a backslash takes the next character. \<open>None\<close>: the text has something that is not
  literal (an operator, an expansion, a pattern, a comment, double quotes), or a quote is not closed.
\<close>

definition shell_active :: "char \<Rightarrow> bool" where
  "shell_active c \<longleftrightarrow> c \<in> set (''|&;<>()$`*?[]{}!#~'' @ [CHR 0x22, LF])"

fun sh_words :: "bool \<Rightarrow> string option \<Rightarrow> string \<Rightarrow> string list option" where
  "sh_words True w [] = None"
| "sh_words True w (c # cs) =
     (if c = CHR 0x27 then sh_words False (Some (unwrap_or w [])) cs else sh_words True (Some (unwrap_or w [] @ [c])) cs)"
| "sh_words False w [] = Some (case w of None \<Rightarrow> [] | Some x \<Rightarrow> [x])"
| "sh_words False w (c # cs) =
     (if c = CHR 0x27 then sh_words True (Some (unwrap_or w [])) cs
      else if c = CHR 0x5C then
        (case cs of d # ds \<Rightarrow> if d = LF then None else sh_words False (Some (unwrap_or w [] @ [d])) ds | [] \<Rightarrow> None)
      else if c = CHR '' '' \<or> c = TAB then
        (case w of None \<Rightarrow> sh_words False None cs | Some x \<Rightarrow> map_option (Cons x) (sh_words False None cs))
      else if shell_active c then None
      else sh_words False (Some (unwrap_or w [] @ [c])) cs)"

definition plain :: "char \<Rightarrow> bool" where
  "plain c \<longleftrightarrow> \<not> shell_active c \<and> c \<noteq> CHR 0x27 \<and> c \<noteq> CHR 0x5C \<and> c \<noteq> CHR '' '' \<and> c \<noteq> TAB"

lemma sh_words_plain: "list_all plain x \<Longrightarrow> x \<noteq> [] \<Longrightarrow> sh_words False w (x @ rest) = sh_words False (Some (unwrap_or w [] @ x)) rest"
proof (induction x arbitrary: w)
  case (Cons c x)
  then show ?case by (cases "x = []") (auto simp: plain_def)
qed simp

lemma sh_words_quoted:
  "sh_words True w (concat (map shell_char s) @ [CHR 0x27] @ rest) = sh_words False (Some (unwrap_or w [] @ s)) rest"
  by (induction s arbitrary: w) (simp_all add: shell_char_def LF_def)

lemma sh_words_blank: "sh_words False (Some x) ('' '' @ r) = map_option (Cons x) (sh_words False None r)"
  by simp

lemma sh_words_shell_quote: "sh_words False w (shell_quote s @ rest) = sh_words False (Some (unwrap_or w [] @ s)) rest"
proof -
  have "sh_words False w (shell_quote s @ rest) =
      sh_words True (Some (unwrap_or w [])) (concat (map shell_char s) @ [CHR 0x27] @ rest)"
    by (simp add: shell_quote_def)
  then show ?thesis by (simp only: sh_words_quoted unwrap_or_simps)
qed

text \<open>
  The tokens \<open>ssh\<close> expands in a \<open>ProxyCommand\<close> before the shell reads it, as its manual says: a text without a
  percent sign stays, \<open>%h\<close> is the host and \<open>%p\<close> the port.
\<close>

definition ssh_tokens :: "(string \<Rightarrow> string option) \<Rightarrow> string \<Rightarrow> string \<Rightarrow> bool" where
  "ssh_tokens expand host port \<longleftrightarrow>
     (\<forall>t. CHR 0x25 \<notin> set t \<longrightarrow> expand (t @ '' nc %h %p'') = Some (t @ '' nc '' @ host @ '' '' @ port))"

lemma sh_words_nc:
  assumes "list_all plain host" "host \<noteq> []" "list_all plain port" "port \<noteq> []"
  shows "sh_words False (Some x) ('' nc '' @ host @ '' '' @ port) = Some [x, ''nc'', host, port]"
proof -
  have "list_all plain ''nc''" by (simp add: plain_def shell_active_def TAB_def LF_def)
  then have nc: "sh_words False None (''nc'' @ r) = sh_words False (Some ''nc'') r" for r
    using sh_words_plain [of "''nc''" None r] by (simp del: sh_words.simps append_Cons)
  have "sh_words False None (host @ '' '' @ port) = Some [host, port]"
    using sh_words_plain [OF assms(1,2), of None "'' '' @ port"] sh_words_plain [OF assms(3,4), of None "[]"] by simp
  then have "sh_words False None (''nc'' @ '' '' @ host @ '' '' @ port) = Some [''nc'', host, port]"
    unfolding nc sh_words_blank by simp
  with sh_words_blank [of x "''nc'' @ '' '' @ host @ '' '' @ port"] show ?thesis by (simp del: sh_words.simps)
qed

lemma sh_words_proxy:
  assumes "list_all plain host" "host \<noteq> []" "list_all plain port" "port \<noteq> []"
  shows "sh_words False None
      (shell_quote exe @ (case socket of Some s \<Rightarrow> '' --socket='' @ shell_quote s | None \<Rightarrow> []) @ '' nc '' @ host @ '' '' @ port) =
    Some ([exe] @ (case socket of Some s \<Rightarrow> [''--socket='' @ s] | None \<Rightarrow> []) @ [''nc'', host, port])"
proof (cases socket)
  case None
  then show ?thesis using sh_words_shell_quote [of None exe] sh_words_nc [OF assms, of exe] by simp
next
  case (Some s)
  let ?rest = "shell_quote s @ '' nc '' @ host @ '' '' @ port"
  have "list_all plain ''--socket=''" by (simp add: plain_def shell_active_def TAB_def LF_def)
  then have "sh_words False None (''--socket='' @ r) = sh_words False (Some ''--socket='') r" for r
    using sh_words_plain [of "''--socket=''" None r] by (simp del: sh_words.simps append_Cons)
  then have "sh_words False (Some exe) ('' --socket='' @ ?rest) =
      map_option (Cons exe) (sh_words False (Some ''--socket='') ?rest)"
    using sh_words_blank [of exe "''--socket='' @ ?rest"] by (simp del: sh_words.simps)
  also have "\<dots> = Some (exe # [''--socket='' @ s, ''nc'', host, port])"
    using sh_words_shell_quote [of "Some ''--socket=''" s] sh_words_nc [OF assms, of "''--socket='' @ s"] by simp
  finally show ?thesis
    using Some sh_words_shell_quote [of None exe "'' --socket='' @ ?rest"] by simp
qed


text \<open>A reading of the tokens that satisfies the hypothesis, for the host \<open>a\<close> and the port 22.\<close>

definition doc_expand :: "string \<Rightarrow> string option" where
  "doc_expand t = (if suffix '' nc %h %p'' t then Some (take (length t - 9) t @ '' nc a 22'') else None)"


lemma split_on_lines:
  "list_all (\<lambda>l. s \<notin> set l) ls \<Longrightarrow> split_on s (concat (map (\<lambda>l. l @ [s]) ls)) = ls @ [[]]"
  by (induction ls) (simp_all add: split_on_line)

text \<open>
  The pinned known-hosts file has one line for each pair of a usable key and a host identifier of the peer, in
  that order, and no other: every line is an identifier without blanks, line breaks or a leading hash, a blank, and
  a key without line breaks. Nothing the control server puts into a name or a key adds a line.
\<close>

theorem known_hosts_lines:
  "split_on LF (render_known_hosts p) =
     concat (map (\<lambda>key. map (\<lambda>host. host @ '' '' @ key) (known_hosts_hosts p)) (filter usable_key (map utrim (sp_ssh_host_keys p)))) @ [[]] \<and>
   list_all is_safe_known_hosts_host (known_hosts_hosts p) \<and>
   set (known_hosts_hosts p) \<subseteq> {peer_name p, peer_ipv4 p} \<union> set_option (peer_ipv6 p)"
proof -
  let ?keys = "filter usable_key (map utrim (sp_ssh_host_keys p))"
  let ?ls = "concat (map (\<lambda>key. map (\<lambda>host. host @ '' '' @ key) (known_hosts_hosts p)) ?keys)"
  have safe: "list_all is_safe_known_hosts_host (known_hosts_hosts p)"
    by (simp add: known_hosts_hosts_def list_all_iff)
  have "concat (map (\<lambda>key. concat (map (\<lambda>host. host @ '' '' @ key @ [LF]) hs)) ks) =
      concat (map (\<lambda>l. l @ [LF]) (concat (map (\<lambda>key. map (\<lambda>host. host @ '' '' @ key) hs) ks)))" for hs ks :: "string list"
    by (induction ks) (simp_all add: comp_def)
  then have "render_known_hosts p = concat (map (\<lambda>l. l @ [LF]) ?ls)"
    unfolding render_known_hosts_def .
  moreover have "list_all (\<lambda>l. LF \<notin> set l) ?ls"
  proof -
    have "LF \<noteq> CHR '' ''" by (simp add: LF_def)
    moreover have "LF \<notin> set h" if "h \<in> set (known_hosts_hosts p)" for h
      using safe that by (auto simp: list_all_iff list_ex_iff is_safe_known_hosts_host_def)
    ultimately show ?thesis by (auto simp: list_all_iff usable_key_def)
  qed
  moreover have "set (known_hosts_hosts p) \<subseteq> {peer_name p, peer_ipv4 p} \<union> set_option (peer_ipv6 p)"
    by (auto simp: known_hosts_hosts_def split: option.splits)
  ultimately show ?thesis using split_on_lines [of LF ?ls] safe by simp
qed

text \<open>
  C27. What the client runs names the peer it found: its destination argument is the peer's own name (its IPv4 address
  when the name is empty), behind the user when the target gave one. That argument starts with a hyphen, so
  \<open>ssh\<close> reads it as an option, exactly when no user was given and the name itself starts with one: neither the name
  nor what \<open>%h\<close> makes of it in the proxy command is checked.
\<close>

theorem ssh_destination_option:
  assumes "run_ssh e socket target extra = Inr (bin, argv)"
  shows "\<exists>user host p ssh_host. split_ssh_target target = Inr (user, host) \<and> p \<in> set (unwrap_or (se_peers e) []) \<and>
    (peer_name p = host \<or> peer_ipv4 p = host \<or> peer_ipv6 p = Some host) \<and> sp_ssh_host_keys p \<noteq> [] \<and>
    ssh_host = (if peer_name p = [] then peer_ipv4 p else peer_name p) \<and>
    argv ! 9 = proxy_command (se_exe e) socket \<and> drop 11 argv = extra \<and>
    argv ! 10 = ssh_destination user ssh_host \<and>
    (starts_with (argv ! 10) ''-'' \<longleftrightarrow> user = None \<and> starts_with ssh_host ''-'')"
proof -
  from assms obtain user host where t: "split_ssh_target target = Inr (user, host)"
    by (auto simp: run_ssh_def rbind_eq_Inr)
  with assms obtain peers where ps: "se_peers e = Some peers" by (cases "se_peers e") (simp_all add: run_ssh_def)
  with assms t obtain p where f: "find (\<lambda>p. peer_name p = host \<or> peer_ipv4 p = host \<or> peer_ipv6 p = Some host) peers = Some p"
    by (cases "find (\<lambda>p. peer_name p = host \<or> peer_ipv4 p = host \<or> peer_ipv6 p = Some host) peers") (simp_all add: run_ssh_def)
  with assms t ps have k: "sp_ssh_host_keys p \<noteq> []" by (cases "sp_ssh_host_keys p = []") (simp_all add: run_ssh_def)
  with assms t ps f obtain kh where
    a: "argv = ssh_argv kh (se_exe e) socket user (if peer_name p = [] then peer_ipv4 p else peer_name p) extra"
    by (auto simp: run_ssh_def Let_def rbind_eq_Inr)
  note h = t ps f k a
  have u: "u \<noteq> [] \<and> \<not> starts_with u ''-''" if "user = Some u" for u
    using h(1) that by (auto simp: split_ssh_target_def split: option.splits prod.splits if_splits)
  have "starts_with (ssh_destination user x) ''-'' \<longleftrightarrow> user = None \<and> starts_with x ''-''" for x
  proof (cases user)
    case (Some a)
    with u obtain c cs where "a = c # cs" "c \<noteq> CHR ''-''" by (cases a) (auto simp: starts_with_def)
    with Some show ?thesis by (simp add: ssh_destination_def starts_with_def)
  qed (simp add: ssh_destination_def)
  moreover have "p \<in> set peers \<and> (peer_name p = host \<or> peer_ipv4 p = host \<or> peer_ipv6 p = Some host)"
    using h(3) by (auto simp: find_Some_iff)
  moreover have "argv ! 9 = proxy_command (se_exe e) socket" "drop 11 argv = extra"
    "argv ! 10 = ssh_destination user (if peer_name p = [] then peer_ipv4 p else peer_name p)"
    by (simp_all add: a ssh_argv_def)
  ultimately show ?thesis using t ps k
    by (intro exI [of _ user] exI [of _ host] exI [of _ p] exI [of _ "if peer_name p = [] then peer_ipv4 p else peer_name p"])
      (simp only: unwrap_or_simps simp_thms)
qed

definition hostile_env :: ssh_env where
  "hostile_env = \<lparr>se_peers = Some [\<lparr>peer_name = ''-oLocalCommand=id'', peer_ipv4 = ''100.64.0.5'', peer_ipv6 = None,
     peer_is_exit_node = False, sp_ssh_host_keys = [''ssh-ed25519 AAAA'']\<rparr>], se_xdg = None, se_home = Some ''/root'',
     se_write_ok = (\<lambda>_ _. True), se_path = Some [''/bin''], se_is_file = (\<lambda>_. True), se_exe = ''/bin/tnet''\<rparr>"

theorem ssh_destination_option_witness:
  "\<exists>argv. run_ssh hostile_env None ''100.64.0.5'' [''h''] = Inr (''/bin/ssh'', argv) \<and> argv ! 10 = ''-oLocalCommand=id'' \<and>
     starts_with (argv ! 10) ''-''"
proof -
  have s: "split_ssh_target ''100.64.0.5'' = Inr (None, ''100.64.0.5'')" by (simp add: split_ssh_target_def)
  obtain argv where r: "run_ssh hostile_env None ''100.64.0.5'' [''h''] = Inr (''/bin/ssh'', argv)" "argv ! 10 = ''-oLocalCommand=id''"
    by (simp add: run_ssh_def s hostile_env_def write_ssh_known_hosts_def ssh_conf_dir_def find_ssh_def path_push_def
        ssh_argv_def ssh_destination_def)
  from ssh_destination_option [OF r(1)] r s show ?thesis by (auto simp: ssh_destination_def starts_with_def)
qed

end
