(* ===== verification/Taildrop.thy ===== *)
theory Taildrop
  imports StdNet Utf8Chars
begin

text \<open>
  Taildrop: sending a file, fetching one and draining the inbox (\<open>src/src/ipn/diag.rs\<close>), and the capture
  of packets to a file, which opens its target the same way. The daemon runs as root, so the model keeps the
  file system explicit: \<open>disk\<close> maps a resolved path to what is there. The engine's inbox is a parameter with
  its documented laws (\<open>inbox_laws\<close>); what the operating system may refuse is a parameter too, so every
  theorem holds for any pattern of failures.
\<close>

section \<open>The host\<close>

datatype io_kind = AlreadyExists | NotFound | InvalidInput | OtherIo

datatype io_error = IoError (io_kind: io_kind) (io_text: string)

text \<open>A regular file has its bytes and tells whether it carries the quarantine attribute.\<close>

datatype dir_entry = RegularFile string bool | Symlink | SpecialFile | Directory

type_synonym disk = "string \<rightharpoonup> dir_entry"

text \<open>
  What the operating system answers beyond the contents of \<open>disk\<close>: the faults of a system call at a path
  (permissions, a full disk, a name that is too long), how a path is resolved, and the texts of the
  errors the entries themselves cause. \<open>h_macos\<close> is the build target.
\<close>

record host =
  h_canonicalize :: "string \<Rightarrow> (string, string) result"
  h_is_dir :: "string \<Rightarrow> (string, bool) result"
  h_lstat_fault :: "string \<Rightarrow> io_error option"
  h_fstat_fault :: "string \<Rightarrow> io_error option"
  h_other_len :: "string \<Rightarrow> nat"
  h_create_fault :: "string \<Rightarrow> io_error option"
  h_remove_fault :: "string \<Rightarrow> io_error option"
  h_copy_fault :: "string \<Rightarrow> (nat \<times> io_error) option"
  h_task_fault :: "string \<Rightarrow> string option"
  h_quarantine_fault :: "string \<Rightarrow> string option"
  h_text :: "io_kind \<Rightarrow> string"
  h_macos :: bool

definition host_error :: "host \<Rightarrow> io_kind \<Rightarrow> io_error" where
  "host_error H k = IoError k (h_text H k)"

text \<open>\<open>symlink_metadata\<close>: the final component is not followed.\<close>

definition symlink_metadata :: "host \<Rightarrow> disk \<Rightarrow> string \<Rightarrow> (io_error, dir_entry) result" where
  "symlink_metadata H d p =
     (case h_lstat_fault H p of
        Some e \<Rightarrow> Inl e
      | None \<Rightarrow> (case d p of None \<Rightarrow> Inl (host_error H NotFound) | Some e \<Rightarrow> Inr e))"

definition is_file :: "dir_entry \<Rightarrow> bool" where
  "is_file e = (case e of RegularFile _ _ \<Rightarrow> True | _ \<Rightarrow> False)"

text \<open>\<open>Path::join\<close> of a resolved directory and a bare name.\<close>

definition path_join :: "string \<Rightarrow> string \<Rightarrow> string" where
  "path_join dir n = (if suffix ''/'' dir then dir @ n else dir @ ''/'' @ n)"

text \<open>\<open>O_CREAT | O_EXCL | O_NOFOLLOW\<close>: any entry at the path, a link included, makes the call fail.\<close>

definition excl_create :: "host \<Rightarrow> disk \<Rightarrow> string \<Rightarrow> (io_error, disk) result" where
  "excl_create H d p =
     (case h_create_fault H p of
        Some e \<Rightarrow> Inl e
      | None \<Rightarrow> if d p \<noteq> None then Inl (host_error H AlreadyExists)
               else Inr (d(p \<mapsto> RegularFile [] False)))"

definition remove_file :: "host \<Rightarrow> disk \<Rightarrow> string \<Rightarrow> (io_error, disk) result" where
  "remove_file H d p =
     (case h_remove_fault H p of
        Some e \<Rightarrow> Inl e
      | None \<Rightarrow> (case d p of
            None \<Rightarrow> Inl (host_error H NotFound)
          | Some Directory \<Rightarrow> Inl (host_error H OtherIo)
          | Some _ \<Rightarrow> Inr (d(p := None))))"

text \<open>
  \<open>O_WRONLY | O_CREAT | O_TRUNC | O_NOFOLLOW\<close>: a link and a directory are refused, a device or a FIFO is
  opened as it is.
\<close>

definition open_trunc :: "host \<Rightarrow> disk \<Rightarrow> string \<Rightarrow> (io_error, disk) result" where
  "open_trunc H d p =
     (case h_create_fault H p of
        Some e \<Rightarrow> Inl e
      | None \<Rightarrow> (case d p of
            None \<Rightarrow> Inr (d(p \<mapsto> RegularFile [] False))
          | Some (RegularFile _ m) \<Rightarrow> Inr (d(p \<mapsto> RegularFile [] m))
          | Some SpecialFile \<Rightarrow> Inr d
          | Some Symlink \<Rightarrow> Inl (host_error H OtherIo)
          | Some Directory \<Rightarrow> Inl (host_error H OtherIo)))"

text \<open>
  \<open>std::io::copy\<close> into the file just opened at \<open>p\<close>: a fault leaves the bytes written before it. Bytes sent
  to a device are not on the disk.
\<close>

definition store_bytes :: "disk \<Rightarrow> string \<Rightarrow> string \<Rightarrow> disk" where
  "store_bytes d p bs =
     (case d p of Some (RegularFile _ m) \<Rightarrow> d(p \<mapsto> RegularFile bs m) | _ \<Rightarrow> d)"

definition io_copy :: "host \<Rightarrow> disk \<Rightarrow> string \<Rightarrow> string \<Rightarrow> (io_error, nat) result \<times> disk" where
  "io_copy H d p bs =
     (case h_copy_fault H p of
        Some (k, e) \<Rightarrow> (Inl e, store_bytes d p (take k bs))
      | None \<Rightarrow> (Inr (length bs), store_bytes d p bs))"

text \<open>The attribute is set on macOS only; a path with a NUL byte or a refused call leaves it unset.\<close>

definition set_quarantine :: "host \<Rightarrow> disk \<Rightarrow> string \<Rightarrow> string option \<times> disk" where
  "set_quarantine H d p =
     (if \<not> h_macos H then (None, d)
      else if CHR 0x00 \<in> set p then (Some ''path has NUL byte'', d)
      else case h_quarantine_fault H p of
          Some e \<Rightarrow> (Some e, d)
        | None \<Rightarrow> (None, case d p of Some (RegularFile bs _) \<Rightarrow> d(p \<mapsto> RegularFile bs True) | _ \<Rightarrow> d))"

section \<open>The engine's inbox\<close>

text \<open>\<open>waiting_files\<close> lists names and sizes, \<open>open_file\<close> yields the bytes, \<open>delete_file\<close> the inbox after it.\<close>

record 'i inbox_engine =
  ib_waiting :: "'i \<Rightarrow> (string, (string \<times> nat) list) result"
  ib_open :: "'i \<Rightarrow> string \<Rightarrow> (string, string) result"
  ib_delete :: "'i \<Rightarrow> string \<Rightarrow> (string, unit) result \<times> 'i"

text \<open>
  The documented behaviour: the names listed are distinct (they are the entries of one directory), a
  deletion touches only the file it names, and a failed one touches nothing.
\<close>

definition inbox_laws :: "'i inbox_engine \<Rightarrow> bool" where
  "inbox_laws E \<longleftrightarrow>
     (\<forall>i ws. ib_waiting E i = Inr ws \<longrightarrow> distinct (map fst ws)) \<and>
     (\<forall>i n m. m \<noteq> n \<longrightarrow> ib_open E (snd (ib_delete E i n)) m = ib_open E i m) \<and>
     (\<forall>i n e m. fst (ib_delete E i n) = Inl e \<longrightarrow> ib_open E (snd (ib_delete E i n)) m = ib_open E i m)"

section \<open>Names\<close>

definition cp_send_name_ok :: "string \<Rightarrow> bool" where
  "cp_send_name_ok n \<longleftrightarrow>
     \<not> (n = [] \<or> n = ''.'' \<or> n = ''..'' \<or> CHR ''/'' \<in> set n \<or> CHR 0x5C \<in> set n \<or> CHR 0x00 \<in> set n)"

definition numbered_file_name :: "string \<Rightarrow> nat \<Rightarrow> string" where
  "numbered_file_name base i =
     (case rsplit_once (CHR ''.'') base of
        Some (stem, ext) \<Rightarrow> stem @ '' ('' @ dec_string i @ '')'' @ ''.'' @ ext
      | None \<Rightarrow> base @ '' ('' @ dec_string i @ '')'')"

definition MAX_RENAME_ATTEMPTS :: nat where
  "MAX_RENAME_ATTEMPTS = 100"

datatype ConflictPolicy = Skip | Overwrite | Rename

section \<open>Opening the target of an incoming file\<close>

text \<open>The loop over \<open>1..MAX_RENAME_ATTEMPTS\<close>, over the candidates still to try.\<close>

fun try_numbered :: "host \<Rightarrow> disk \<Rightarrow> string \<Rightarrow> string \<Rightarrow> nat list \<Rightarrow> (io_error, string \<times> disk) result" where
  "try_numbered H d dir base [] =
     Inl (IoError AlreadyExists (''could not find a free numbered name for '' @ debug_str base @ '' after '' @
       dec_string MAX_RENAME_ATTEMPTS @ '' attempts''))"
| "try_numbered H d dir base (i # is) =
     (let candidate = path_join dir (numbered_file_name base i) in
      case excl_create H d candidate of
        Inr d' \<Rightarrow> Inr (candidate, d')
      | Inl e \<Rightarrow> if io_kind e = AlreadyExists then try_numbered H d dir base is else Inl e)"

text \<open>The result is the path opened; the disk is returned on failure too, as a removal may precede it.\<close>

definition open_target_under_policy ::
  "host \<Rightarrow> disk \<Rightarrow> string \<Rightarrow> string \<Rightarrow> ConflictPolicy \<Rightarrow> (io_error, string) result \<times> disk" where
  "open_target_under_policy H d dir base conflict =
     (if \<not> cp_send_name_ok base
      then (Inl (IoError InvalidInput (''refusing unsafe taildrop file name '' @ debug_str base)), d)
      else
        let target = path_join dir base;
            created = (\<lambda>d. case excl_create H d target of Inl e \<Rightarrow> (Inl e, d) | Inr d' \<Rightarrow> (Inr target, d'))
        in (case conflict of
              Skip \<Rightarrow> created d
            | Overwrite \<Rightarrow>
                (case remove_file H d target of
                   Inr d1 \<Rightarrow> created d1
                 | Inl e \<Rightarrow> if io_kind e = NotFound then created d else (Inl e, d))
            | Rename \<Rightarrow>
                (case excl_create H d target of
                   Inr d' \<Rightarrow> (Inr target, d')
                 | Inl e \<Rightarrow>
                     if io_kind e \<noteq> AlreadyExists then (Inl e, d)
                     else (case try_numbered H d dir base [1..<MAX_RENAME_ATTEMPTS] of
                             Inl e' \<Rightarrow> (Inl e', d)
                           | Inr (p, d') \<Rightarrow> (Inr p, d')))))"

definition humanize_write_err :: "string \<Rightarrow> string \<Rightarrow> ConflictPolicy \<Rightarrow> io_error \<Rightarrow> string" where
  "humanize_write_err dir name conflict e =
     (let target = path_join dir name in
      if conflict = Skip \<and> io_kind e = AlreadyExists
      then ''refusing to overwrite '' @ target @ '': file already exists (left in inbox)''
      else ''failed to write '' @ target @ '': '' @ io_text e)"

section \<open>Receiving one file\<close>

datatype ReceiveOutcome =
    Received string nat
  | NotConsumed string nat string
  | Failed string

text \<open>The blocking task: open the target, mark it while it is empty, copy.\<close>

definition copy_task ::
  "host \<Rightarrow> disk \<Rightarrow> string \<Rightarrow> string \<Rightarrow> ConflictPolicy \<Rightarrow> string \<Rightarrow> (io_error, string \<times> nat) result \<times> disk" where
  "copy_task H d dir name conflict bs =
     (case open_target_under_policy H d dir name conflict of
        (Inl e, d1) \<Rightarrow> (Inl e, d1)
      | (Inr written, d1) \<Rightarrow>
          let d2 = snd (set_quarantine H d1 written) in
          (case io_copy H d2 written bs of
             (Inl e, d3) \<Rightarrow> (Inl e, d3)
           | (Inr n, d3) \<Rightarrow> (Inr (written, n), d3)))"

definition receive_one ::
  "'i inbox_engine \<Rightarrow> host \<Rightarrow> string \<Rightarrow> string \<Rightarrow> ConflictPolicy \<Rightarrow> 'i \<times> disk \<Rightarrow> ReceiveOutcome \<times> 'i \<times> disk" where
  "receive_one E H dir name conflict st =
     (case st of (i, d) \<Rightarrow>
      case ib_open E i name of
        Inl e \<Rightarrow> (Failed (''opening inbox file '' @ debug_str name @ '': '' @ e), i, d)
      | Inr bs \<Rightarrow>
          (case h_task_fault H name of
             Some e \<Rightarrow> (Failed (''receive task failed: '' @ e), i, d)
           | None \<Rightarrow>
               (case copy_task H d dir name conflict bs of
                  (Inl e, d') \<Rightarrow> (Failed (humanize_write_err dir name conflict e), i, d')
                | (Inr (written, n), d') \<Rightarrow>
                    (case ib_delete E i name of
                       (Inl e, i') \<Rightarrow>
                         (NotConsumed written n (''saved but could not be removed from the inbox: '' @ e), i', d')
                     | (Inr _, i') \<Rightarrow> (Received written n, i', d')))))"

section \<open>Draining the inbox\<close>

record FileGotReport =
  fg_name :: string
  fg_size :: nat
  fg_written :: "string option"
  fg_error :: "string option"

datatype taildrop_reply = FilesGot "FileGotReport list" | TaildropError string | TaildropOk string

fun drain ::
  "'i inbox_engine \<Rightarrow> host \<Rightarrow> string \<Rightarrow> ConflictPolicy \<Rightarrow> nat \<Rightarrow> (string \<times> nat) list \<Rightarrow> 'i \<times> disk \<Rightarrow>
     FileGotReport list \<times> 'i \<times> disk" where
  "drain E H dir conflict errs [] st = ([], st)"
| "drain E H dir conflict errs ((n, sz) # ws) st =
     (if errs > 100
      then ([\<lparr>fg_name = n, fg_size = 0, fg_written = None,
              fg_error = Some ''too many errors draining the inbox; stopping''\<rparr>], st)
      else case receive_one E H dir n conflict st of
        (Received w k, st') \<Rightarrow>
          (case drain E H dir conflict errs ws st' of
             (rs, st'') \<Rightarrow> (\<lparr>fg_name = n, fg_size = k, fg_written = Some w, fg_error = None\<rparr> # rs, st''))
      | (NotConsumed w k r, st') \<Rightarrow>
          (case drain E H dir conflict (errs + 1) ws st' of
             (rs, st'') \<Rightarrow> (\<lparr>fg_name = n, fg_size = k, fg_written = Some w, fg_error = Some r\<rparr> # rs, st''))
      | (Failed r, st') \<Rightarrow>
          (case drain E H dir conflict (errs + 1) ws st' of
             (rs, st'') \<Rightarrow> (\<lparr>fg_name = n, fg_size = 0, fg_written = None, fg_error = Some r\<rparr> # rs, st'')))"

fun wipe_files :: "'i inbox_engine \<Rightarrow> (string \<times> nat) list \<Rightarrow> 'i \<Rightarrow> FileGotReport list \<times> 'i" where
  "wipe_files E [] i = ([], i)"
| "wipe_files E ((n, sz) # ws) i =
     (case ib_delete E i n of (r, i') \<Rightarrow>
      case wipe_files E ws i' of (rs, i'') \<Rightarrow>
        ((case r of
            Inr _ \<Rightarrow> \<lparr>fg_name = n, fg_size = 0, fg_written = Some ''/dev/null'', fg_error = None\<rparr>
          | Inl e \<Rightarrow> \<lparr>fg_name = n, fg_size = 0, fg_written = None, fg_error = Some (''delete failed: '' @ e)\<rparr>) # rs, i''))"

definition wipe_inbox :: "'i inbox_engine \<Rightarrow> 'i \<Rightarrow> taildrop_reply \<times> 'i" where
  "wipe_inbox E i =
     (case ib_waiting E i of
        Inl e \<Rightarrow> (TaildropError (''list taildrop files failed: '' @ e), i)
      | Inr ws \<Rightarrow> (case wipe_files E ws i of (rs, i') \<Rightarrow> (FilesGot rs, i')))"

definition taildrop_dir_resolved :: "host \<Rightarrow> string \<Rightarrow> (string, string) result" where
  "taildrop_dir_resolved H dir =
     (case h_canonicalize H dir of
        Inl e \<Rightarrow> Inl (debug_str dir @ '' is not a directory: '' @ e)
      | Inr resolved \<Rightarrow>
          (case h_is_dir H resolved of
             Inr True \<Rightarrow> Inr resolved
           | Inr False \<Rightarrow> Inl (debug_str dir @ '' is not a directory'')
           | Inl e \<Rightarrow> Inl (debug_str dir @ '' is not a directory: '' @ e)))"

definition file_get_dir ::
  "'i inbox_engine \<Rightarrow> host \<Rightarrow> string \<Rightarrow> ConflictPolicy \<Rightarrow> 'i \<times> disk \<Rightarrow> taildrop_reply \<times> 'i \<times> disk" where
  "file_get_dir E H dir conflict st =
     (case st of (i, d) \<Rightarrow>
      if dir = ''/dev/null'' then (case wipe_inbox E i of (r, i') \<Rightarrow> (r, i', d))
      else case taildrop_dir_resolved H dir of
        Inl message \<Rightarrow> (TaildropError message, st)
      | Inr resolved \<Rightarrow>
          (case ib_waiting E i of
             Inl e \<Rightarrow> (TaildropError (''list taildrop files failed: '' @ e), st)
           | Inr ws \<Rightarrow> (case drain E H resolved conflict 0 ws st of (rs, st') \<Rightarrow> (FilesGot rs, st'))))"

section \<open>Paths given by the caller\<close>

text \<open>
  \<open>Path::file_name\<close> and \<open>Path::parent\<close>: the components are the slices between slashes; an empty slice
  is skipped, and so is \<open>.\<close> unless a relative path starts with it. \<open>path_parts\<close> tells whether the path is
  absolute and gives its slices from the last component back.
\<close>

definition skipped :: "string \<Rightarrow> bool" where
  "skipped c \<longleftrightarrow> c = [] \<or> c = ''.''"

definition path_parts :: "string \<Rightarrow> bool \<times> string list" where
  "path_parts p =
     (case split_on (CHR ''/'') p of
        [] \<Rightarrow> (False, [])
      | c # cs \<Rightarrow>
          if c = [] then (cs \<noteq> [], dropWhile skipped (rev cs))
          else (False, dropWhile skipped (rev cs) @ [c]))"

definition file_name :: "string \<Rightarrow> string option" where
  "file_name p =
     (case path_parts p of
        (_, []) \<Rightarrow> None
      | (_, c # _) \<Rightarrow> if c = ''.'' \<or> c = ''..'' then None else Some c)"

text \<open>The parent of a path that has a file name; the parent of a bare name is the empty path.\<close>

definition path_parent :: "string \<Rightarrow> string" where
  "path_parent p =
     (case path_parts p of
        (True, cs) \<Rightarrow> ''/'' @ join ''/'' (rev (dropWhile skipped (tl cs)))
      | (False, cs) \<Rightarrow>
          if tl cs = [] then []
          else join ''/'' (rev (dropWhile skipped (butlast (tl cs)) @ [last (tl cs)])))"

definition taildrop_dest_resolved :: "host \<Rightarrow> disk \<Rightarrow> string \<Rightarrow> (string, string) result" where
  "taildrop_dest_resolved H d dest =
     (case file_name dest of
        None \<Rightarrow> Inl (''refusing to write '' @ dest @ '': does not name a file to write'')
      | Some name \<Rightarrow>
          let parent = (if path_parent dest = [] then ''.'' else path_parent dest) in
          (case h_canonicalize H parent of
             Inl e \<Rightarrow> Inl (''cannot write '' @ dest @ '': parent directory '' @ parent @ '' is unusable: '' @ e)
           | Inr real \<Rightarrow>
               (case h_is_dir H real of
                  Inl e \<Rightarrow> Inl (''cannot write '' @ dest @ '': cannot stat parent '' @ real @ '': '' @ e)
                | Inr False \<Rightarrow> Inl (''cannot write '' @ dest @ '': parent '' @ real @ '' is not a directory'')
                | Inr True \<Rightarrow>
                    let resolved = path_join real name in
                    (case symlink_metadata H d resolved of
                       Inr e \<Rightarrow> if is_file e then Inr resolved
                                else Inl (''refusing to write '' @ dest @ '': exists and is not a regular file'')
                     | Inl e \<Rightarrow> if io_kind e = NotFound then Inr resolved
                                else Inl (''cannot write '' @ dest @ '': '' @ io_text e)))))"

definition capture_dest_ok :: "host \<Rightarrow> disk \<Rightarrow> string \<Rightarrow> (string, unit) result" where
  "capture_dest_ok H d path =
     (case symlink_metadata H d path of
        Inr e \<Rightarrow> if is_file e then Inr () else Inl (''refusing to capture to '' @ path @ '': not a regular file'')
      | Inl e \<Rightarrow> if io_kind e = NotFound then Inr () else Inl (''cannot stat '' @ path @ '': '' @ io_text e))"

definition taildrop_source_ok :: "host \<Rightarrow> disk \<Rightarrow> string \<Rightarrow> (string, unit) result" where
  "taildrop_source_ok H d path =
     (case symlink_metadata H d path of
        Inr e \<Rightarrow> if is_file e then Inr () else Inl (''refusing to send '' @ path @ '': not a regular file'')
      | Inl e \<Rightarrow> Inl (''cannot read '' @ path @ '': '' @ io_text e))"

section \<open>Fetching one file\<close>

text \<open>\<open>meddle\<close> is what other processes do to the disk between the check of the target and its opening.\<close>

definition file_get ::
  "'i inbox_engine \<Rightarrow> host \<Rightarrow> (disk \<Rightarrow> disk) \<Rightarrow> string \<Rightarrow> string \<Rightarrow> bool \<Rightarrow> 'i \<times> disk \<Rightarrow>
     taildrop_reply \<times> 'i \<times> disk" where
  "file_get E H meddle name dest delete_after st =
     (case st of (i, d) \<Rightarrow>
      case ib_open E i name of
        Inl e \<Rightarrow> (TaildropError (''no waiting file '' @ debug_str name @ '': '' @ e), i, meddle d)
      | Inr bs \<Rightarrow>
          (case taildrop_dest_resolved H d dest of
             Inl message \<Rightarrow> (TaildropError message, i, meddle d)
           | Inr resolved \<Rightarrow>
               (case h_task_fault H name of
                  Some e \<Rightarrow> (TaildropError (''taildrop fetch task failed: '' @ e), i, meddle d)
                | None \<Rightarrow>
                    (case open_trunc H (meddle d) resolved of
                       Inl e \<Rightarrow> (TaildropError (''cannot write '' @ dest @ '': '' @ io_text e), i, meddle d)
                     | Inr d1 \<Rightarrow>
                         (case io_copy H d1 resolved bs of
                            (Inl e, d2) \<Rightarrow> (TaildropError (''cannot write '' @ dest @ '': '' @ io_text e), i, d2)
                          | (Inr n, d2) \<Rightarrow>
                              (TaildropOk (''saved '' @ name @ '' to '' @ resolved),
                               (if delete_after then snd (ib_delete E i name) else i), d2))))))"

section \<open>Sending a file\<close>

text \<open>The engine's lookups and its transfer; a transfer is logged as (peer, name, length, what was opened).\<close>

record 'p peer_engine =
  pe_by_ip :: "ipaddr \<Rightarrow> (string, 'p option) result"
  pe_by_name :: "string \<Rightarrow> (string, 'p option) result"
  pe_send :: "'p \<Rightarrow> string \<Rightarrow> nat \<Rightarrow> dir_entry \<Rightarrow> (string, unit) result"

text \<open>Opening for reading with \<open>O_NOFOLLOW\<close>: a link is refused; \<open>h_create_fault\<close> is the fault of an open.\<close>

definition open_read :: "host \<Rightarrow> disk \<Rightarrow> string \<Rightarrow> (io_error, dir_entry) result" where
  "open_read H d p =
     (case h_create_fault H p of
        Some e \<Rightarrow> Inl e
      | None \<Rightarrow> (case d p of
            None \<Rightarrow> Inl (host_error H NotFound)
          | Some Symlink \<Rightarrow> Inl (host_error H OtherIo)
          | Some e \<Rightarrow> Inr e))"

text \<open>The length \<open>metadata\<close> reports; of what is not a regular file the host says it.\<close>

definition entry_len :: "host \<Rightarrow> string \<Rightarrow> dir_entry \<Rightarrow> nat" where
  "entry_len H p e = (case e of RegularFile bs _ \<Rightarrow> length bs | _ \<Rightarrow> h_other_len H p)"

definition resolve_peer :: "'p peer_engine \<Rightarrow> string \<Rightarrow> (string, 'p option) result" where
  "resolve_peer P peer = (case parse_ipaddr peer of Some addr \<Rightarrow> pe_by_ip P addr | None \<Rightarrow> pe_by_name P peer)"

definition file_cp ::
  "'p peer_engine \<Rightarrow> host \<Rightarrow> (disk \<Rightarrow> disk) \<Rightarrow> disk \<Rightarrow> string \<Rightarrow> string \<Rightarrow> string option \<Rightarrow>
     taildrop_reply \<times> ('p \<times> string \<times> nat \<times> dir_entry) list" where
  "file_cp P H meddle d path peer name_override =
     (case resolve_peer P peer of
        Inr None \<Rightarrow> (TaildropError (''no tailnet peer matches '' @ debug_str peer), [])
      | Inl e \<Rightarrow> (TaildropError (''resolve peer '' @ debug_str peer @ '' failed: '' @ e), [])
      | Inr (Some node) \<Rightarrow>
          (case or_else name_override (file_name path) of
             None \<Rightarrow> (TaildropError (''cannot derive a file name from path '' @ debug_str path), [])
           | Some name \<Rightarrow>
               if \<not> cp_send_name_ok name
               then (TaildropError (''invalid send name '' @ debug_str name @ '': must be a bare file name''), [])
               else case taildrop_source_ok H d path of
                 Inl message \<Rightarrow> (TaildropError message, [])
               | Inr _ \<Rightarrow>
                   (case open_read H (meddle d) path of
                      Inl e \<Rightarrow> (TaildropError (''cannot read '' @ path @ '': '' @ io_text e), [])
                    | Inr file \<Rightarrow>
                        (case h_fstat_fault H path of
                           Some e \<Rightarrow> (TaildropError (''cannot stat '' @ path @ '': '' @ io_text e), [])
                         | None \<Rightarrow>
                             let n = entry_len H path file in
                             ((case pe_send P node name n file of
                                 Inr _ \<Rightarrow> TaildropOk (''sent '' @ name @ '' ('' @ dec_string n @ '' bytes) to '' @ peer)
                               | Inl e \<Rightarrow> TaildropError (''taildrop send failed: '' @ e)),
                              [(node, name, n, file)])))))"

section \<open>Capturing packets to a file\<close>

text \<open>
  \<open>written\<close> is what the engine has put into the file when the capture ended, or failed to start; the reply of
  \<open>stop_capture\<close> is only logged.
\<close>

definition debug_capture ::
  "host \<Rightarrow> (disk \<Rightarrow> disk) \<Rightarrow> (string, unit) result \<Rightarrow> string \<Rightarrow> disk \<Rightarrow> string \<Rightarrow> nat \<Rightarrow> taildrop_reply \<times> disk" where
  "debug_capture H meddle start written d path seconds =
     (case capture_dest_ok H d path of
        Inl message \<Rightarrow> (TaildropError message, meddle d)
      | Inr _ \<Rightarrow>
          (case open_trunc H (meddle d) path of
             Inl e \<Rightarrow> (TaildropError (''cannot create '' @ path @ '': '' @ io_text e), meddle d)
           | Inr d1 \<Rightarrow>
               let d2 = store_bytes d1 path written in
               (case start of
                  Inl e \<Rightarrow>
                    (TaildropError (''failed to start capture: '' @ e),
                     case remove_file H d2 path of Inr d3 \<Rightarrow> d3 | Inl _ \<Rightarrow> d2)
                | Inr _ \<Rightarrow>
                    (TaildropOk (''captured '' @
                       dec_string (case h_fstat_fault H path of
                                     Some _ \<Rightarrow> 0
                                   | None \<Rightarrow> (case d2 path of None \<Rightarrow> 0 | Some e \<Rightarrow> entry_len H path e)) @
                       '' bytes to '' @ path @ '' ('' @ dec_string seconds @ ''s)''), d2))))"

section \<open>What one reception does\<close>

lemma path_join_inj [simp]: "path_join dir m = path_join dir n \<longleftrightarrow> m = n"
  by (simp add: path_join_def)

lemma excl_create_ok:
  "excl_create H d p = Inr d' \<longleftrightarrow> h_create_fault H p = None \<and> d p = None \<and> d' = d(p \<mapsto> RegularFile [] False)"
  by (auto simp: excl_create_def split: option.splits)

lemma remove_file_ok: "remove_file H d p = Inr d' \<Longrightarrow> d' = d(p := None)"
  by (auto simp: remove_file_def split: option.splits dir_entry.splits)

lemma try_numbered_ok:
  "try_numbered H d dir base is = Inr (p, d') \<Longrightarrow> d p = None \<and> d' = d(p \<mapsto> RegularFile [] False)"
  by (induction "is") (auto simp: Let_def excl_create_ok split: sum.splits if_splits)

lemma store_bytes_other [simp]: "q \<noteq> p \<Longrightarrow> store_bytes d p bs q = d q"
  by (simp add: store_bytes_def split: option.splits dir_entry.splits)

lemma store_bytes_file: "d p = Some (RegularFile x m) \<Longrightarrow> store_bytes d p bs = d(p \<mapsto> RegularFile bs m)"
  by (simp add: store_bytes_def)

text \<open>The target opened is a fresh empty file; only an overwrite may have removed something, and only at its own name.\<close>

lemma open_target_ok:
  assumes "open_target_under_policy H d dir base c = (Inr p, d')"
  shows "d' p = Some (RegularFile [] False) \<and> (c \<noteq> Overwrite \<longrightarrow> d p = None) \<and>
    (c = Overwrite \<longrightarrow> p = path_join dir base) \<and> (\<forall>q. q \<noteq> p \<longrightarrow> d' q = d q)"
  using assms
  by (cases c) (auto simp: open_target_under_policy_def Let_def excl_create_ok
      dest!: remove_file_ok try_numbered_ok split: sum.splits if_splits)

lemma open_target_failed:
  assumes "open_target_under_policy H d dir base c = (Inl e, d')"
  shows "d' = d \<or> c = Overwrite \<and> d' = d(path_join dir base := None)"
  using assms
  by (cases c) (auto simp: open_target_under_policy_def Let_def dest!: remove_file_ok split: sum.splits if_splits)

lemma set_quarantine_file:
  "d p = Some (RegularFile bs m) \<Longrightarrow>
    \<exists>m'. snd (set_quarantine H d p) = d(p \<mapsto> RegularFile bs m')"
  using fun_upd_idem [of d p "Some (RegularFile bs m)"]
  by (simp add: set_quarantine_def split: option.split) metis

lemma copy_task_ok:
  assumes "copy_task H d dir name c bs = (Inr (p, n), d')"
  shows "n = length bs \<and> (\<exists>m. d' p = Some (RegularFile bs m)) \<and> (c \<noteq> Overwrite \<longrightarrow> d p = None) \<and>
    (c = Overwrite \<longrightarrow> p = path_join dir name) \<and> (\<forall>q. q \<noteq> p \<longrightarrow> d' q = d q)"
proof -
  obtain d1 where o: "open_target_under_policy H d dir name c = (Inr p, d1)"
    using assms by (auto simp: copy_task_def Let_def split: prod.splits sum.splits)
  note t = open_target_ok [OF o]
  then obtain m where q: "snd (set_quarantine H d1 p) = d1(p \<mapsto> RegularFile [] m)"
    using set_quarantine_file by blast
  from assms o q show ?thesis using t
    by (auto simp: copy_task_def Let_def io_copy_def store_bytes_file split: option.splits)
qed

lemma copy_task_failed:
  assumes "copy_task H d dir name c bs = (Inl e, d')" and "d q \<noteq> None" and "d' q \<noteq> d q"
  shows "c = Overwrite \<and> q = path_join dir name"
proof (cases "open_target_under_policy H d dir name c")
  case (Pair r d1)
  show ?thesis
  proof (cases r)
    case (Inl e')
    with Pair assms have "d' = d1" by (simp add: copy_task_def)
    with open_target_failed [of H d dir name c e' d1] Pair Inl assms show ?thesis by (auto split: if_splits)
  next
    case (Inr p)
    with Pair have o: "open_target_under_policy H d dir name c = (Inr p, d1)" by simp
    note t = open_target_ok [OF o]
    then obtain m where s: "snd (set_quarantine H d1 p) = d1(p \<mapsto> RegularFile [] m)"
      using set_quarantine_file by blast
    from assms(1) o s have "\<forall>x. x \<noteq> p \<longrightarrow> d' x = d1 x"
      by (auto simp: copy_task_def Let_def io_copy_def split: option.splits prod.splits)
    with t assms(2,3) show ?thesis by metis
  qed
qed

lemma inbox_lawsD:
  assumes "inbox_laws E"
  shows "ib_waiting E i = Inr ws \<Longrightarrow> distinct (map fst ws)"
    and "m \<noteq> n \<Longrightarrow> ib_delete E i n = (r, i') \<Longrightarrow> ib_open E i' m = ib_open E i m"
    and "ib_delete E i n = (Inl e, i') \<Longrightarrow> ib_open E i' m = ib_open E i m"
  using assms unfolding inbox_laws_def by (blast, metis snd_conv, metis fst_conv snd_conv)

lemma copy_task_frame:
  assumes "copy_task H d dir name c bs = (r, d')" and "d q \<noteq> None" and "d' q \<noteq> d q"
  shows "c = Overwrite \<and> q = path_join dir name"
proof (cases r)
  case (Inl e)
  with assms show ?thesis using copy_task_failed by blast
next
  case (Inr x)
  obtain p n where "x = (p, n)" by (cases x) auto
  with Inr assms(1) have "copy_task H d dir name c bs = (Inr (p, n), d')" by simp
  from copy_task_ok [OF this] assms(2,3) show ?thesis by (cases "q = p") auto
qed

lemma receive_one_disk:
  "receive_one E H dir n c (i, d) = (out, i', d') \<Longrightarrow> d' = d \<or> (\<exists>bs r. copy_task H d dir n c bs = (r, d'))"
  by (auto simp: receive_one_def split: sum.splits option.splits prod.splits)

lemma receive_one_frame:
  assumes "inbox_laws E" and "receive_one E H dir n c (i, d) = (out, i', d')"
  shows "d q \<noteq> None \<Longrightarrow> d' q \<noteq> d q \<Longrightarrow> c = Overwrite \<and> q = path_join dir n"
    and "m \<noteq> n \<Longrightarrow> ib_open E i' m = ib_open E i m"
proof -
  show "c = Overwrite \<and> q = path_join dir n" if "d q \<noteq> None" "d' q \<noteq> d q"
    using receive_one_disk [OF assms(2)] copy_task_frame that by blast
  show "ib_open E i' m = ib_open E i m" if "m \<noteq> n"
    using assms(2) inbox_lawsD(2) [OF assms(1) that]
    by (auto simp: receive_one_def split: sum.splits option.splits prod.splits)
qed

lemma receive_one_received:
  assumes "receive_one E H dir n c (i, d) = (Received p k, i', d')"
  shows "(\<exists>bs m. ib_open E i n = Inr bs \<and> k = length bs \<and> d' p = Some (RegularFile bs m)) \<and>
    (c = Overwrite \<longrightarrow> p = path_join dir n)"
  using assms by (auto simp: receive_one_def split: sum.splits option.splits prod.splits dest: copy_task_ok)

lemma receive_one_kept:
  assumes "inbox_laws E" and "receive_one E H dir n c (i, d) = (out, i', d')" and "\<And>p k. out \<noteq> Received p k"
  shows "ib_open E i' n = ib_open E i n"
  using assms(2,3) inbox_lawsD(3) [OF assms(1)]
  by (auto simp: receive_one_def split: sum.splits option.splits prod.splits)

section \<open>What a drain does\<close>

lemma drain_Cons:
  assumes "drain E H dir c errs ((n, sz) # ws) st = (rs, st')"
  obtains (stopped) r where "errs > 100" "rs = [r]" "fg_name r = n" "st' = st"
      "fg_error r = Some ''too many errors draining the inbox; stopping''"
  | (received) p k st1 rs' where "errs \<le> 100" "receive_one E H dir n c st = (Received p k, st1)"
      "drain E H dir c errs ws st1 = (rs', st')"
      "rs = \<lparr>fg_name = n, fg_size = k, fg_written = Some p, fg_error = None\<rparr> # rs'"
  | (kept) out st1 r rs' where "errs \<le> 100" "receive_one E H dir n c st = (out, st1)" "\<And>p k. out \<noteq> Received p k"
      "drain E H dir c (errs + 1) ws st1 = (rs', st')" "rs = r # rs'" "fg_name r = n" "fg_error r \<noteq> None"
proof (cases "errs > 100")
  case True
  with assms show ?thesis by (auto intro!: stopped)
next
  case False
  obtain out st1 where o: "receive_one E H dir n c st = (out, st1)"
    by (cases "receive_one E H dir n c st") auto
  show ?thesis
  proof (cases out)
    case (Received p k)
    with assms False o show ?thesis by (auto split: prod.splits intro: received)
  next
    case (NotConsumed p k r)
    with assms False o show ?thesis by (auto split: prod.splits intro: kept)
  next
    case (Failed r)
    with assms False o show ?thesis by (auto split: prod.splits intro: kept)
  qed
qed

lemma drain_frame:
  assumes "inbox_laws E"
  shows "drain E H dir c errs ws (i, d) = (rs, i', d') \<Longrightarrow>
    (\<forall>q. d q \<noteq> None \<and> d' q \<noteq> d q \<longrightarrow> c = Overwrite \<and> q \<in> path_join dir ` fst ` set ws) \<and>
    (\<forall>m. m \<notin> fst ` set ws \<longrightarrow> ib_open E i' m = ib_open E i m)"
proof (induction ws arbitrary: errs i d rs)
  case (Cons w ws)
  obtain n sz where w: "w = (n, sz)" by fastforce
  have step: ?case if r: "receive_one E H dir n c (i, d) = (out, i1, d1)" and dr: "drain E H dir c e ws (i1, d1) = (rs', i', d')"
    for out i1 d1 e rs'
  proof -
    note f = receive_one_frame [OF assms r] and ih = Cons.IH [OF dr]
    have "c = Overwrite \<and> q \<in> path_join dir ` fst ` set (w # ws)" if "d q \<noteq> None" "d' q \<noteq> d q" for q
    proof (cases "d1 q = d q")
      case True
      then have "d1 q \<noteq> None \<and> d' q \<noteq> d1 q" using that by simp
      then show ?thesis using ih by auto
    qed (use f(1) [of q] that w in auto)
    then show ?thesis using f(2) ih w by auto
  qed
  from Cons.prems [unfolded w] show ?case
  proof (cases rule: drain_Cons)
    case (stopped r)
    then show ?thesis by simp
  next
    case (received p k st1 rs')
    then show ?thesis using step [of "Received p k" "fst st1" "snd st1" errs rs'] by simp
  next
    case (kept out st1 r rs')
    then show ?thesis using step [of out "fst st1" "snd st1" "errs + 1" rs'] by simp
  qed
qed simp

lemma drain_keeps:
  assumes "inbox_laws E"
  shows "\<lbrakk>drain E H dir c errs ws (i, d) = (rs, i', d'); distinct (map fst ws); n \<in> fst ` set ws; ib_open E i n = Inr bs\<rbrakk> \<Longrightarrow>
    ib_open E i' n = Inr bs \<or>
    (\<exists>r \<in> set rs. fg_name r = n \<and> fg_error r = None \<and>
       (\<exists>p m. fg_written r = Some p \<and> d' p = Some (RegularFile bs m)))"
proof (induction ws arbitrary: errs i d rs)
  case (Cons w ws)
  obtain a sz where w: "w = (a, sz)" by fastforce
  have rest: ?case if "a \<noteq> n" and r: "receive_one E H dir a c (i, d) = (out, i1, d1)"
    and dr: "drain E H dir c e ws (i1, d1) = (rs', i', d')" and "set rs' \<subseteq> set rs" for out i1 d1 e rs'
    using Cons.IH [OF dr] receive_one_frame(2) [OF assms r, of n] that Cons.prems w by fastforce
  from Cons.prems(1) [unfolded w] show ?case
  proof (cases rule: drain_Cons)
    case (stopped r)
    then show ?thesis using Cons.prems by simp
  next
    case (received p k st1 rs')
    obtain i1 d1 where st1: "st1 = (i1, d1)" by fastforce
    show ?thesis
    proof (cases "a = n")
      case True
      note g = receive_one_received [OF received(2) [unfolded st1]]
      then obtain m where m: "d1 p = Some (RegularFile bs m)" using True Cons.prems by auto
      have "d' p = d1 p"
      proof (rule ccontr)
        assume "d' p \<noteq> d1 p"
        with drain_frame [OF assms received(3) [unfolded st1]] m
        have "c = Overwrite \<and> p \<in> path_join dir ` fst ` set ws" by blast
        with g True have "n \<in> fst ` set ws" by force
        with Cons.prems(2) w True show False by simp
      qed
      with m received(4) True show ?thesis by auto
    next
      case False
      then show ?thesis using rest [of _ i1 d1 errs rs'] received st1 by fastforce
    qed
  next
    case (kept out st1 r rs')
    obtain i1 d1 where st1: "st1 = (i1, d1)" by fastforce
    show ?thesis
    proof (cases "a = n")
      case True
      have "n \<notin> fst ` set ws" using Cons.prems(2) w True by simp
      then have "ib_open E i' n = ib_open E i1 n" using drain_frame [OF assms kept(4) [unfolded st1]] by blast
      then show ?thesis using receive_one_kept [OF assms kept(2) [unfolded st1] kept(3)] True Cons.prems by simp
    next
      case False
      then show ?thesis using rest [of out i1 d1 "errs + 1" rs'] kept st1 by fastforce
    qed
  qed
qed simp

lemma drain_reports:
  "drain E H dir c errs ws st = (rs, st') \<Longrightarrow>
    map fg_name rs = take (length rs) (map fst ws) \<and>
    length (filter (\<lambda>r. fg_error r \<noteq> None) rs) + errs \<le> max (errs + 1) 102 \<and>
    (length rs < length ws \<longrightarrow> (\<exists>r \<in> set rs. fg_error r = Some ''too many errors draining the inbox; stopping''))"
proof (induction ws arbitrary: errs rs st)
  case (Cons w ws)
  obtain n sz where w: "w = (n, sz)" by fastforce
  from Cons.prems [unfolded w] show ?case
  proof (cases rule: drain_Cons)
    case (stopped r)
    then show ?thesis using Cons.prems w by auto
  next
    case (received p k st1 rs')
    then show ?thesis using Cons.IH [OF received(3)] w by auto
  next
    case (kept out st1 r rs')
    then show ?thesis using Cons.IH [OF kept(4)] w by auto
  qed
qed simp

lemma file_get_dir_FilesGot:
  assumes "file_get_dir E H dir c (i, d) = (reply, i', d')" and "dir \<noteq> ''/dev/null''"
  obtains (refused) e where "reply = TaildropError e" "i' = i" "d' = d"
  | (drained) resolved ws rs where "reply = FilesGot rs" "taildrop_dir_resolved H dir = Inr resolved"
      "ib_waiting E i = Inr ws" "drain E H resolved c 0 ws (i, d) = (rs, i', d')"
  using assms by (auto simp: file_get_dir_def split: sum.splits prod.splits)


text \<open>An inbox that is a list of files, and a host that refuses nothing (used for concrete runs).\<close>

definition list_inbox :: "(string \<times> string) list inbox_engine" where
  "list_inbox =
     \<lparr>ib_waiting = (\<lambda>i. Inr (map (\<lambda>n. (n, length (case map_of i n of Some b \<Rightarrow> b | None \<Rightarrow> []))) (remdups (map fst i)))),
      ib_open = (\<lambda>i n. case map_of i n of Some b \<Rightarrow> Inr b | None \<Rightarrow> Inl ''no such file''),
      ib_delete = (\<lambda>i n. (Inr (), filter (\<lambda>f. fst f \<noteq> n) i))\<rparr>"

definition easy_host :: host where
  "easy_host =
     \<lparr>h_canonicalize = Inr, h_is_dir = (\<lambda>_. Inr True), h_lstat_fault = (\<lambda>_. None), h_fstat_fault = (\<lambda>_. None),
      h_other_len = (\<lambda>_. 0), h_create_fault = (\<lambda>_. None), h_remove_fault = (\<lambda>_. None), h_copy_fault = (\<lambda>_. None),
      h_task_fault = (\<lambda>_. None), h_quarantine_fault = (\<lambda>_. None), h_text = (\<lambda>_. ''refused''), h_macos = False\<rparr>"

lemma map_of_filter_other: "m \<noteq> n \<Longrightarrow> map_of (filter (\<lambda>f. fst f \<noteq> n) i) m = map_of i m"
  by (induction i) auto

lemma list_inbox_laws: "inbox_laws list_inbox"
  by (simp add: inbox_laws_def list_inbox_def map_of_filter_other comp_def)

definition demo_inbox :: "(string \<times> string) list" where
  "demo_inbox = [(''a.txt'', ''new''), (''b'', ''bytes'')]"

definition demo_disk :: disk where
  "demo_disk = [''/d/a.txt'' \<mapsto> RegularFile ''old'' False]"

lemma demo_drain:
  "file_get_dir list_inbox easy_host ''/d'' Rename (demo_inbox, demo_disk) =
     (FilesGot
        [\<lparr>fg_name = ''a.txt'', fg_size = 3, fg_written = Some ''/d/a (1).txt'', fg_error = None\<rparr>,
         \<lparr>fg_name = ''b'', fg_size = 5, fg_written = Some ''/d/b'', fg_error = None\<rparr>],
      [], demo_disk(''/d/a (1).txt'' \<mapsto> RegularFile ''new'' False, ''/d/b'' \<mapsto> RegularFile ''bytes'' False))"
proof -
  have name: "numbered_file_name ''a.txt'' (Suc 0) = ''a (1).txt''"
    by code_simp
  have upt: "[Suc 0..<MAX_RENAME_ATTEMPTS] = Suc 0 # [2..<MAX_RENAME_ATTEMPTS]"
    by (simp add: MAX_RENAME_ATTEMPTS_def upt_conv_Cons)
  show ?thesis
    by (simp add: file_get_dir_def taildrop_dir_resolved_def list_inbox_def easy_host_def demo_inbox_def demo_disk_def
        receive_one_def copy_task_def open_target_under_policy_def cp_send_name_ok_def path_join_def suffix_def
        excl_create_def host_error_def Let_def upt name set_quarantine_def io_copy_def store_bytes_def fun_upd_twist)
qed



text \<open>
  A drain destroys nothing unless it was asked to overwrite: an entry of the file system that is not as it
  was before had the name of a waiting file in the target directory, and the policy was overwrite. In
  particular nothing outside the resolved target directory is ever touched.
\<close>

theorem drain_clobbers_on_request:
  assumes "inbox_laws E" and "file_get_dir E H dir conflict (i, d) = (reply, i', d')"
    and "d q = Some e" and "d' q \<noteq> Some e"
  shows "conflict = Overwrite \<and>
    (\<exists>resolved ws n sz. taildrop_dir_resolved H dir = Inr resolved \<and> ib_waiting E i = Inr ws \<and>
       (n, sz) \<in> set ws \<and> q = path_join resolved n)"
proof -
  have nd: "dir \<noteq> ''/dev/null''"
    using assms(2-4) by (auto simp: file_get_dir_def split: prod.splits)
  from assms(2) nd show ?thesis
  proof (cases rule: file_get_dir_FilesGot)
    case (refused e')
    then show ?thesis using assms(3,4) by simp
  next
    case (drained resolved ws rs)
    have "conflict = Overwrite \<and> q \<in> path_join resolved ` fst ` set ws"
      using drain_frame [OF assms(1) drained(4)] assms(3,4) by auto
    then show ?thesis using drained(2,3) by force
  qed
qed

lemma demo_overwrite:
  "file_get_dir list_inbox easy_host ''/d'' Overwrite ([(''a.txt'', ''new'')], demo_disk) =
     (FilesGot [\<lparr>fg_name = ''a.txt'', fg_size = 3, fg_written = Some ''/d/a.txt'', fg_error = None\<rparr>],
      [], demo_disk(''/d/a.txt'' \<mapsto> RegularFile ''new'' False))"
  by (simp add: file_get_dir_def taildrop_dir_resolved_def list_inbox_def easy_host_def demo_disk_def
        receive_one_def copy_task_def open_target_under_policy_def cp_send_name_ok_def path_join_def suffix_def
        excl_create_def remove_file_def host_error_def set_quarantine_def io_copy_def store_bytes_def Let_def)

theorem drain_clobbers_on_request_witness:
  "Overwrite = Overwrite \<and>
    (\<exists>resolved ws n sz. taildrop_dir_resolved easy_host ''/d'' = Inr resolved \<and>
       ib_waiting list_inbox [(''a.txt'', ''new'')] = Inr ws \<and>
       (n, sz) \<in> set ws \<and> ''/d/a.txt'' = path_join resolved n)"
  by (rule drain_clobbers_on_request [OF list_inbox_laws demo_overwrite, where e = "RegularFile ''old'' False"])
    (simp_all add: demo_disk_def)



section \<open>What a fetch, a send and a capture do\<close>

lemma open_trunc_ok:
  "open_trunc H d p = Inr d' \<Longrightarrow>
    (d p = Some SpecialFile \<and> d' = d) \<or>
    (d p = None \<or> (\<exists>bs m. d p = Some (RegularFile bs m))) \<and> (\<exists>m. d' = d(p \<mapsto> RegularFile [] m))"
  by (auto simp: open_trunc_def split: option.splits dir_entry.splits)

lemma copy_frame: "q \<noteq> p \<Longrightarrow> snd (io_copy H d p bs) q = d q"
  by (simp add: io_copy_def split: option.split)

lemma copy_special: "d p = Some SpecialFile \<Longrightarrow> snd (io_copy H d p bs) = d"
  by (simp add: io_copy_def store_bytes_def split: option.split)

text \<open>What is opened and copied at \<open>p\<close> changes only a regular or absent entry, whatever happened before.\<close>

lemma opened_frame:
  assumes "open_trunc H d p = Inr d1" and "io_copy H d1 p bs = (r, d2)" and "d2 q \<noteq> d q"
  shows "q = p \<and> (d p = None \<or> (\<exists>x m. d p = Some (RegularFile x m)))"
  using open_trunc_ok [OF assms(1)] copy_frame [of q p H d1 bs] copy_special [of d1 p H bs] assms
  by (cases "q = p") auto

text \<open>
  Whatever other processes do to the file system between the check of the target and its opening, a fetch
  changes at most the entry at the resolved path, and that only if it is then absent or a regular file: a
  link or a directory planted in between is neither followed nor replaced.
\<close>

theorem fetch_writes_only_its_target:
  assumes "file_get E H meddle name dest delete_after (i, d) = (reply, i', d')" and "d' q \<noteq> meddle d q"
  shows "taildrop_dest_resolved H d dest = Inr q \<and>
    (meddle d q = None \<or> (\<exists>bs m. meddle d q = Some (RegularFile bs m)))"
proof -
  from assms obtain p bs d1 r where t: "taildrop_dest_resolved H d dest = Inr p"
    and o: "open_trunc H (meddle d) p = Inr d1" and c: "io_copy H d1 p bs = (r, d')"
    by (auto simp: file_get_def split: sum.splits option.splits prod.splits)
  from opened_frame [OF o c assms(2)] t show ?thesis by simp
qed

text \<open>
  C34. A fetch that is reported as saved has put the whole file at the resolved path (or into a device that was
  swapped in there); one that fails leaves the file in the inbox.
\<close>

theorem fetch_saves_or_keeps:
  assumes "file_get E H meddle name dest delete_after (i, d) = (reply, i', d')"
  shows "(case reply of
      TaildropOk message \<Rightarrow>
        (\<exists>p bs. taildrop_dest_resolved H d dest = Inr p \<and> ib_open E i name = Inr bs \<and>
           message = ''saved '' @ name @ '' to '' @ p \<and>
           (meddle d p = Some SpecialFile \<or> (\<exists>m. d' p = Some (RegularFile bs m))) \<and>
           i' = (if delete_after then snd (ib_delete E i name) else i))
    | _ \<Rightarrow> i' = i)"
proof -
  have "(\<exists>m. d2 p = Some (RegularFile bs m)) \<or> d p = Some SpecialFile"
    if "open_trunc H d p = Inr d1" "io_copy H d1 p bs = (Inr n, d2)" for d d1 d2 p bs n
    using open_trunc_ok [OF that(1)] that(2) by (auto simp: io_copy_def store_bytes_file split: option.splits)
  then show ?thesis using assms
    by (fastforce simp: file_get_def split: sum.splits option.splits prod.splits)
qed

lemma demo_fetch:
  "file_get list_inbox easy_host (\<lambda>d. d(''/d/other'' := None)) ''b'' ''/d/./out'' True (demo_inbox, demo_disk) =
     (TaildropOk ''saved b to /d/out'', [(''a.txt'', ''new'')],
      demo_disk(''/d/other'' := None, ''/d/out'' \<mapsto> RegularFile ''bytes'' False))"
  by (simp add: file_get_def taildrop_dest_resolved_def file_name_def path_parts_def path_parent_def skipped_def
      list_inbox_def easy_host_def demo_inbox_def demo_disk_def symlink_metadata_def host_error_def path_join_def
      suffix_def open_trunc_def io_copy_def store_bytes_def)

theorem fetch_writes_only_its_target_witness:
  "taildrop_dest_resolved easy_host demo_disk ''/d/./out'' = Inr ''/d/out'' \<and>
    ((demo_disk(''/d/other'' := None)) ''/d/out'' = None \<or>
     (\<exists>bs m. (demo_disk(''/d/other'' := None)) ''/d/out'' = Some (RegularFile bs m)))"
  by (rule fetch_writes_only_its_target [OF demo_fetch]) (simp add: demo_disk_def)

theorem fetch_saves_or_keeps_witness:
  "\<exists>p bs. taildrop_dest_resolved easy_host demo_disk ''/d/./out'' = Inr p \<and>
     ib_open list_inbox demo_inbox ''b'' = Inr bs \<and> ''saved b to /d/out'' = ''saved '' @ ''b'' @ '' to '' @ p"
  using fetch_saves_or_keeps [OF demo_fetch] by (simp only: taildrop_reply.case) blast


lemma demo_send:
  "file_cp \<lparr>pe_by_ip = (\<lambda>_. Inr (Some ''box'')), pe_by_name = (\<lambda>_. Inr (Some ''box'')), pe_send = (\<lambda>_ _ _ _. Inr ())\<rparr>
     easy_host id demo_disk ''/d/a.txt'' ''box'' None =
   (TaildropOk ''sent a.txt (3 bytes) to box'', [(''box'', ''a.txt'', 3, RegularFile ''old'' False)])"
proof -
  have "resolve_peer \<lparr>pe_by_ip = (\<lambda>_. Inr (Some ''box'')), pe_by_name = (\<lambda>_. Inr (Some ''box'')), pe_send = (\<lambda>_ _ _ _. Inr ())\<rparr> ''box'' =
      Inr (Some ''box'')" by (simp add: resolve_peer_def split: option.split)
  moreover have "dec_string (Suc (Suc (Suc 0))) = ''3''" "cp_send_name_ok ''a.txt''" by code_simp+
  ultimately show ?thesis
    by (simp add: file_cp_def easy_host_def demo_disk_def file_name_def path_parts_def skipped_def
        taildrop_source_ok_def symlink_metadata_def is_file_def open_read_def entry_len_def Let_def)
qed


text \<open>
  A capture writes nothing but its own file, and only if that is absent or a regular file when it is checked;
  a link planted before the opening is refused.
\<close>

lemma capture_writes_only_its_file:
  assumes "debug_capture H meddle start written d path seconds = (reply, d')" and "d' q \<noteq> meddle d q"
  shows "q = path \<and> (h_lstat_fault H path = None \<longrightarrow> d path = None \<or> (\<exists>bs m. d path = Some (RegularFile bs m))) \<and>
    meddle d path \<noteq> Some Symlink \<and> meddle d path \<noteq> Some Directory"
proof -
  obtain d1 where c: "capture_dest_ok H d path = Inr ()" and o: "open_trunc H (meddle d) path = Inr d1"
    and d': "d' = store_bytes d1 path written \<or> d' = (store_bytes d1 path written)(path := None)"
    using assms by (auto simp: debug_capture_def Let_def split: sum.splits dest: remove_file_ok)
  have "q = path" using open_trunc_ok [OF o] d' assms(2) by (cases "q = path") auto
  moreover have "h_lstat_fault H path = None \<longrightarrow> d path = None \<or> (\<exists>bs m. d path = Some (RegularFile bs m))"
    using c by (auto simp: capture_dest_ok_def symlink_metadata_def is_file_def
        split: option.splits sum.splits dir_entry.splits if_splits)
  ultimately show ?thesis using open_trunc_ok [OF o] by auto
qed

end
