(* ===== verification/Encodings.thy ===== *)
theory Encodings
  imports StdNet Utf8Chars
begin

text \<open>
  The small text encodings the client and the daemon write out themselves instead of taking a dependency:
  hexadecimal in both directions (\<open>src/src/bin/tnet.rs\<close> and \<open>src/src/ipn/diag.rs\<close>), unpadded base32 of an
  update hash (\<open>diag.rs\<close>), padded URL-safe base64, Go's escaping of JSON text, Go's base-0 integers and the
  versioned \<open>--json\<close> value (\<open>tnet.rs\<close>), and \<open>str::parse::<u64>\<close> with its errors. Byte slices are strings of
  bytes.
\<close>

section \<open>Hexadecimal\<close>

definition hex_nibble :: "char \<Rightarrow> nat option" where
  "hex_nibble c =
     (let b = byte c in
      if 48 \<le> b \<and> b \<le> 57 then Some (b - 48)
      else if 97 \<le> b \<and> b \<le> 102 then Some (b - 97 + 10)
      else if 65 \<le> b \<and> b \<le> 70 then Some (b - 65 + 10)
      else None)"

definition hex_byte :: "nat \<Rightarrow> nat \<Rightarrow> char" where
  "hex_byte hi lo = char_of (16 * hi + lo)"

definition hex_char_upper :: "nat \<Rightarrow> char" where
  "hex_char_upper d = (if d < 10 then char_of (48 + d) else char_of (55 + d))"

definition lower_hex :: "string \<Rightarrow> string" where
  "lower_hex bs = concat (map (\<lambda>b. [hex_char (byte b div 16), hex_char (byte b mod 16)]) bs)"

definition encode_hex :: "string \<Rightarrow> string" where
  "encode_hex bs = foldl (\<lambda>s b. s @ [hex_char (byte b div 16), hex_char (byte b mod 16)]) [] bs"

definition hex_encode_upper :: "string \<Rightarrow> string" where
  "hex_encode_upper bs = foldl (\<lambda>s b. s @ [hex_char_upper (byte b div 16), hex_char_upper (byte b mod 16)]) [] bs"

text \<open>The CLI's decoder: the error names the first pair that is not hexadecimal (by lossy conversion, a parameter).\<close>

fun decode_pairs :: "(string \<Rightarrow> string) \<Rightarrow> string \<Rightarrow> (string, string) result" where
  "decode_pairs lossy (a # b # rest) =
     (case (hex_nibble a, hex_nibble b) of
        (Some hi, Some lo) \<Rightarrow>
          (case decode_pairs lossy rest of Inl e \<Rightarrow> Inl e | Inr bs \<Rightarrow> Inr (hex_byte hi lo # bs))
      | _ \<Rightarrow> Inl (''invalid hex byte '' @ debug_str (lossy [a, b])))"
| "decode_pairs lossy _ = Inr []"

definition hex_decode_lower :: "(string \<Rightarrow> string) \<Rightarrow> string \<Rightarrow> (string, string) result" where
  "hex_decode_lower lossy s =
     (let raw = utrim s in
      if length raw mod 2 \<noteq> 0 then Inl ''odd-length hex string'' else decode_pairs lossy raw)"

text \<open>
  The daemon's decoder goes through \<open>u8::from_str_radix(_, 16)\<close>, which takes a leading plus sign. A pair cut
  out of the middle of a character is no hexadecimal either way.
\<close>

definition u8_from_hex_pair :: "char \<Rightarrow> char \<Rightarrow> char option" where
  "u8_from_hex_pair a b =
     (case hex_nibble b of
        None \<Rightarrow> None
      | Some lo \<Rightarrow>
          if a = CHR ''+'' then Some (hex_byte 0 lo)
          else (case hex_nibble a of None \<Rightarrow> None | Some hi \<Rightarrow> Some (hex_byte hi lo)))"

fun collect_pairs :: "string \<Rightarrow> string option" where
  "collect_pairs (a # b # rest) =
     (case u8_from_hex_pair a b of
        None \<Rightarrow> None
      | Some x \<Rightarrow> (case collect_pairs rest of None \<Rightarrow> None | Some bs \<Rightarrow> Some (x # bs)))"
| "collect_pairs _ = Some []"

definition decode_hex :: "string \<Rightarrow> string option" where
  "decode_hex s = (if length s mod 2 \<noteq> 0 then None else collect_pairs s)"

section \<open>Integers\<close>

text \<open>\<open>str::parse::<u64>\<close>: digit by digit, so an invalid digit after the overflow is not reached.\<close>

fun u64_digits :: "nat \<Rightarrow> string \<Rightarrow> (string, nat) result" where
  "u64_digits acc [] = Inr acc"
| "u64_digits acc (c # cs) =
     (if \<not> is_ascii_digit c then Inl ''invalid digit found in string''
      else let n = acc * 10 + digit_val c in
        if 2 ^ 64 \<le> n then Inl ''number too large to fit in target type'' else u64_digits n cs)"

definition parse_u64 :: "string \<Rightarrow> (string, nat) result" where
  "parse_u64 s =
     (if s = [] then Inl ''cannot parse integer from empty string''
      else if s = ''+'' then Inl ''invalid digit found in string''
      else u64_digits 0 (case s of c # cs \<Rightarrow> if c = CHR ''+'' then cs else s | [] \<Rightarrow> s))"

text \<open>\<open>i64::from_str_radix\<close> of digits without a sign.\<close>

definition i64_from_str_radix :: "string \<Rightarrow> nat \<Rightarrow> nat option" where
  "i64_from_str_radix ds radix = (if ds = [] then None else radix_val radix (2 ^ 63) 0 ds)"

definition parse_go_base0_int :: "string \<Rightarrow> int option" where
  "parse_go_base0_int s =
     (let (negative, rest) =
        (case strip_prefix s ''-'' of
           Some rest \<Rightarrow> (True, rest)
         | None \<Rightarrow> (False, unwrap_or (strip_prefix s ''+'') s));
          (radix, digits) =
        (case or_else (strip_prefix rest ''0x'') (strip_prefix rest ''0X'') of Some d \<Rightarrow> (16, d)
         | None \<Rightarrow> case or_else (strip_prefix rest ''0b'') (strip_prefix rest ''0B'') of Some d \<Rightarrow> (2, d)
         | None \<Rightarrow> case or_else (strip_prefix rest ''0o'') (strip_prefix rest ''0O'') of Some d \<Rightarrow> (8, d)
         | None \<Rightarrow> if length rest > 1 \<and> starts_with rest ''0'' then (8, drop 1 rest) else (10, rest))
      in if starts_with digits ''+'' \<or> starts_with digits ''-'' then None
         else (case i64_from_str_radix digits radix of
                 None \<Rightarrow> None
               | Some m \<Rightarrow> Some (if negative then - int m else int m)))"

record JsonSchemaVersion =
  js_is_set :: bool
  js_version :: int

definition parse_json_schema_version :: "string \<Rightarrow> (string, JsonSchemaVersion) result" where
  "parse_json_schema_version s =
     (case parse_go_base0_int s of
        Some v \<Rightarrow> Inr \<lparr>js_is_set = True, js_version = v\<rparr>
      | None \<Rightarrow>
          if s \<in> {''t'', ''T'', ''TRUE'', ''true'', ''True''} then Inr \<lparr>js_is_set = True, js_version = 1\<rparr>
          else if s \<in> {''f'', ''F'', ''FALSE'', ''false'', ''False''} then Inr \<lparr>js_is_set = False, js_version = 0\<rparr>
          else Inl ''parse error'')"

definition json_schema_flag :: "string option \<Rightarrow> (string, JsonSchemaVersion) result" where
  "json_schema_flag raw =
     (case raw of
        None \<Rightarrow> Inr \<lparr>js_is_set = False, js_version = 0\<rparr>
      | Some s \<Rightarrow> map_err (\<lambda>e. ''invalid value '' @ debug_str s @ '' for flag --json: '' @ e) (parse_json_schema_version s))"

section \<open>Base32 and base64\<close>

definition BASE32 :: string where
  "BASE32 = ''ABCDEFGHIJKLMNOPQRSTUVWXYZ234567''"

text \<open>The inner \<open>while bits >= 5\<close>: one symbol per turn. \<open>acc\<close> is a \<open>u32\<close>; its shift drops the high bits.\<close>

function base32_emit :: "nat \<Rightarrow> nat \<Rightarrow> string \<Rightarrow> nat \<times> string" where
  "base32_emit acc bits out =
     (if bits \<ge> 5
      then base32_emit acc (bits - 5) (out @ [BASE32 ! (acc div 2 ^ (bits - 5) mod 32)])
      else (bits, out))"
  by auto
termination by (relation "measure (\<lambda>(_, bits, _). bits)") auto

declare base32_emit.simps [simp del]

fun base32_bytes :: "nat \<Rightarrow> nat \<Rightarrow> string \<Rightarrow> string \<Rightarrow> nat \<times> nat \<times> string" where
  "base32_bytes acc bits out [] = (acc, bits, out)"
| "base32_bytes acc bits out (b # bs) =
     (let acc' = (acc * 256) mod 2 ^ 32 + byte b in
      case base32_emit acc' (bits + 8) out of (bits', out') \<Rightarrow> base32_bytes acc' bits' out' bs)"

definition base32_nopad :: "string \<Rightarrow> string" where
  "base32_nopad data =
     (case base32_bytes 0 0 [] data of (acc, bits, out) \<Rightarrow>
        if bits > 0 then out @ [BASE32 ! ((acc * 2 ^ (5 - bits)) mod 2 ^ 32 mod 32)] else out)"

definition BASE64 :: string where
  "BASE64 = ''ABCDEFGHIJKLMNOPQRSTUVWXYZabcdefghijklmnopqrstuvwxyz0123456789-_''"

text \<open>One chunk of one to three bytes: a symbol for each of its bits' sextets, then padding.\<close>

definition base64_chunk :: "string \<Rightarrow> string" where
  "base64_chunk chunk =
     (let at = (\<lambda>i. if i < length chunk then byte (chunk ! i) else 0);
          n = at 0 * 65536 + at 1 * 256 + at 2 in
      map (\<lambda>i. if i \<le> length chunk then BASE64 ! (n div 2 ^ (18 - 6 * i) mod 64) else CHR ''='') [0, 1, 2, 3])"

fun base64_url_padded :: "string \<Rightarrow> string" where
  "base64_url_padded [] = []"
| "base64_url_padded [a] = base64_chunk [a]"
| "base64_url_padded [a, b] = base64_chunk [a, b]"
| "base64_url_padded (a # b # c # rest) = base64_chunk [a, b, c] @ base64_url_padded rest"

section \<open>JSON text the way Go writes it\<close>

definition json_escape_char :: "string \<Rightarrow> string" where
  "json_escape_char c =
     (let esc = (\<lambda>h. CHR 0x5C # ''u'' @ h) in
      if c = ''<'' then esc ''003c''
      else if c = ''>'' then esc ''003e''
      else if c = ''&'' then esc ''0026''
      else if c = [CHR 0xE2, CHR 0x80, CHR 0xA8] then esc ''2028''
      else if c = [CHR 0xE2, CHR 0x80, CHR 0xA9] then esc ''2029''
      else c)"

definition go_json_escape_html :: "string \<Rightarrow> string" where
  "go_json_escape_html json = concat (map json_escape_char (utf8_chars json))"

section \<open>Hexadecimal reads back\<close>

lemma byte_hex_byte: "hi < 16 \<Longrightarrow> lo < 16 \<Longrightarrow> byte (hex_byte hi lo) = 16 * hi + lo"
  by (simp add: hex_byte_def byte_char_of)

lemma hex_byte_byte [simp]: "hex_byte (byte b div 16) (byte b mod 16) = b"
  by (simp add: hex_byte_def byte_def)

lemma hex_nibble_lower [simp]: "d < 16 \<Longrightarrow> hex_nibble (hex_char d) = Some d"
  by (auto simp: hex_nibble_def hex_char_def byte_char_of Let_def)

lemma hex_nibble_upper [simp]: "d < 16 \<Longrightarrow> hex_nibble (hex_char_upper d) = Some d"
  by (auto simp: hex_nibble_def hex_char_upper_def byte_char_of Let_def)

lemma hex_nibble_not_plus [simp]: "hex_nibble (CHR ''+'') = None"
  by (simp add: hex_nibble_def byte_def)

text \<open>Both printers are one function of the digit they print with.\<close>

definition print_hex :: "(nat \<Rightarrow> char) \<Rightarrow> string \<Rightarrow> string" where
  "print_hex digit bs = concat (map (\<lambda>b. [digit (byte b div 16), digit (byte b mod 16)]) bs)"

lemma print_hex_simps [simp]:
  "print_hex digit [] = []"
  "print_hex digit (b # bs) = digit (byte b div 16) # digit (byte b mod 16) # print_hex digit bs"
  by (simp_all add: print_hex_def)

lemma foldl_hex: "foldl (\<lambda>s b. s @ [digit (byte b div 16), digit (byte b mod 16)]) acc bs = acc @ print_hex digit bs"
  by (induction bs arbitrary: acc) simp_all

lemma hex_printers:
  "lower_hex bs = print_hex hex_char bs"
  "encode_hex bs = print_hex hex_char bs"
  "hex_encode_upper bs = print_hex hex_char_upper bs"
  by (simp_all add: lower_hex_def print_hex_def encode_hex_def hex_encode_upper_def foldl_hex)

lemma print_hex_length [simp]: "length (print_hex digit bs) = 2 * length bs"
  by (induction bs) simp_all

lemma byte_nibbles: "byte b div 16 < 16" "byte b mod 16 < 16"
  using less_mult_imp_div_less [of "byte b" 16 16] byte_less [of b] by simp_all

lemma collect_print_hex:
  assumes "\<And>d. d < 16 \<Longrightarrow> hex_nibble (digit d) = Some d"
  shows "collect_pairs (print_hex digit bs) = Some bs"
proof (induction bs)
  case (Cons b bs)
  have "digit (byte b div 16) \<noteq> CHR ''+''" using assms [OF byte_nibbles(1), of b] by force
  then show ?case using Cons by (simp add: u8_from_hex_pair_def assms byte_nibbles)
qed simp

lemma decode_pairs_print_hex:
  assumes "\<And>d. d < 16 \<Longrightarrow> hex_nibble (digit d) = Some d"
  shows "decode_pairs lossy (print_hex digit bs) = Inr bs"
  by (induction bs) (simp_all add: assms byte_nibbles)

interpretation daemon_hex: codec encode_hex decode_hex "\<lambda>_. True"
  by unfold_locales (simp add: hex_printers decode_hex_def collect_print_hex)

interpretation minted_hex: codec hex_encode_upper decode_hex "\<lambda>_. True"
  by unfold_locales (simp add: hex_printers decode_hex_def collect_print_hex)

section \<open>Integers within their range\<close>

lemma to_digit_ten: "to_digit 10 c = (if is_ascii_digit c then Some (digit_val c) else None)"
  by (auto simp: to_digit_def is_ascii_digit_def digit_val_def Let_def)

lemma radix_digits_ge: "acc \<le> digits_val acc ds"
proof (induction ds arbitrary: acc)
  case (Cons c ds)
  from Cons [of "acc * 10 + digit_val c"] show ?case by simp
qed simp

lemma radix_val_dec:
  "\<forall>c \<in> set ds. is_ascii_digit c \<Longrightarrow> acc < limit \<Longrightarrow>
    radix_val 10 limit acc ds = (if digits_val acc ds < limit then Some (digits_val acc ds) else None)"
proof (induction ds arbitrary: acc)
  case (Cons c ds)
  let ?n = "acc * 10 + digit_val c"
  show ?case
  proof (cases "limit \<le> ?n")
    case True
    then have "\<not> digits_val ?n ds < limit" using radix_digits_ge [of ?n ds] by linarith
    with True Cons.prems show ?thesis by (simp add: to_digit_ten Let_def)
  next
    case False
    then show ?thesis using Cons.IH [of ?n] Cons.prems by (simp add: to_digit_ten Let_def)
  qed
qed simp

lemma i64_decimal: "i64_from_str_radix (dec_string n) 10 = (if n < 2 ^ 63 then Some n else None)"
  using radix_val_dec [of "dec_string n" 0] dec_string_digits
  by (simp add: i64_from_str_radix_def digits_val_dec_string)

text \<open>The decimal text of an integer.\<close>

definition dec_int :: "int \<Rightarrow> string" where
  "dec_int i = (if i < 0 then CHR ''-'' # dec_string (nat (- i)) else dec_string (nat i))"

lemma dec_string_no_prefix:
  assumes "a \<noteq> []" and "\<not> list_all is_ascii_digit a"
  shows "strip_prefix (dec_string n) a = None"
  using assms dec_string_digits [of _ n]
  by (auto simp: strip_prefix_def prefix_def list_all_iff)

lemma dec_string_head_zero: "starts_with (dec_string n) ''0'' \<Longrightarrow> length (dec_string n) = 1"
  using dec_string_leading_zero [of n]
  by (auto simp: starts_with_def prefix_def dec_string.simps [of 0])

text \<open>
  An integer in decimal is read as itself exactly when its magnitude is below \<open>2 ^ 63\<close>, else it is
  refused: so every version number the flag yields is in the range of \<open>i64\<close>. The one value of that range
  that is refused is the least one, which Go's \<open>ParseInt\<close> accepts.
\<close>

theorem base0_decimal_bounds: "parse_go_base0_int (dec_int i) = (if \<bar>i\<bar> < 2 ^ 63 then Some i else None)"
proof -
  define n where "n = nat \<bar>i\<bar>"
  have "\<forall>a \<in> set [''0x'', ''0X'', ''0b'', ''0B'', ''0o'', ''0O'', ''-'', ''+'']. a \<noteq> [] \<and> \<not> list_all is_ascii_digit a"
    by code_simp
  then have np: "strip_prefix (dec_string n) a = None"
    if "a \<in> set [''0x'', ''0X'', ''0b'', ''0B'', ''0o'', ''0O'', ''-'', ''+'']" for a
    using dec_string_no_prefix that by blast
  have "\<not> starts_with (dec_string n) ''+''" "\<not> starts_with (dec_string n) ''-''"
    using np [of "''+''"] np [of "''-''"] by (simp_all add: strip_prefix_def starts_with_def split: if_splits)
  moreover have "\<not> (length (dec_string n) > 1 \<and> starts_with (dec_string n) ''0'')"
    using dec_string_head_zero [of n] by auto
  moreover have "strip_prefix (CHR ''-'' # dec_string n) ''-'' = Some (dec_string n)" by (simp add: strip_prefix_def)
  ultimately have "parse_go_base0_int (dec_int i) =
      (case i64_from_str_radix (dec_string n) 10 of None \<Rightarrow> None | Some m \<Rightarrow> Some (if i < 0 then - int m else int m))"
    using np by (cases "i < 0"; cases "Suc 0 < length (dec_string n)")
      (simp_all add: parse_go_base0_int_def dec_int_def n_def split: option.split)
  moreover have "n < 2 ^ 63 \<longleftrightarrow> \<bar>i\<bar> < 2 ^ 63" "i = (if i < 0 then - int n else int n)"
    by (auto simp: n_def nat_less_iff)
  ultimately show ?thesis by (simp only: i64_decimal split: if_split) auto
qed

section \<open>Base32 against the bits of the data\<close>

definition bits_val :: "bool list \<Rightarrow> nat" where
  "bits_val = foldl (\<lambda>v b. 2 * v + (if b then 1 else 0)) 0"

definition byte_bits :: "char \<Rightarrow> bool list" where
  "byte_bits c = map (\<lambda>k. byte c div 2 ^ (7 - k) mod 2 = 1) [0, 1, 2, 3, 4, 5, 6, 7]"

fun chunks5 :: "bool list \<Rightarrow> bool list list" where
  "chunks5 (a # b # c # d # e # rest) = [a, b, c, d, e] # chunks5 rest"
| "chunks5 [] = []"
| "chunks5 rest = [take 5 (rest @ replicate 4 False)]"

text \<open>RFC 4648: the bits of the data in groups of five, the last group filled with zero bits.\<close>

definition base32_spec :: "string \<Rightarrow> string" where
  "base32_spec data = map (\<lambda>g. BASE32 ! bits_val g) (chunks5 (concat (map byte_bits data)))"

lemma bits_val_from: "foldl (\<lambda>v b. 2 * v + (if b then 1 else 0)) v bs = v * 2 ^ length bs + bits_val bs"
proof (induction bs arbitrary: v)
  case (Cons b bs)
  show ?case using Cons [of "2 * v + (if b then 1 else 0)"] Cons [of "if b then 1 else 0"]
    by (simp add: bits_val_def algebra_simps)
qed (simp add: bits_val_def)

lemma bits_val_append: "bits_val (xs @ ys) = bits_val xs * 2 ^ length ys + bits_val ys"
  using bits_val_from [of "bits_val xs" ys] by (simp add: bits_val_def)

lemma bits_val_less: "bits_val bs < 2 ^ length bs"
proof (induction bs rule: rev_induct)
  case (snoc b bs)
  then show ?case using bits_val_append [of bs "[b]"] by (simp add: bits_val_def split: if_splits)
qed (simp add: bits_val_def)

lemma bits_val_byte: "bits_val (byte_bits c) = byte c"
proof -
  have half: "n div k = 2 * (n div (k * 2)) + n div k mod 2" for n k :: nat
    by (simp only: div_mult2_eq mult_div_mod_eq)
  let ?n = "byte c"
  have top: "?n div 128 div 2 = 0" using byte_less [of c] less_mult_imp_div_less [of ?n 2 128] by simp
  have bit: "(if n mod 2 = (1 :: nat) then 1 else 0) = n mod 2" for n by auto
  have "bits_val (byte_bits c) =
    2 * (2 * (2 * (2 * (2 * (2 * (2 * (?n div 128 mod 2) + ?n div 64 mod 2) + ?n div 32 mod 2) + ?n div 16 mod 2) +
      ?n div 8 mod 2) + ?n div 4 mod 2) + ?n div 2 mod 2) + ?n mod 2"
    by (simp add: byte_bits_def bits_val_def bit del: One_nat_def)
  also have "\<dots> = ?n"
    using half [of ?n 1] half [of ?n 2] half [of ?n 4] half [of ?n 8] half [of ?n 16] half [of ?n 32] half [of ?n 64]
      half [of "?n div 128" 1] top by simp
  finally show ?thesis .
qed

lemma length_byte_bits [simp]: "length (byte_bits c) = 8"
  by (simp add: byte_bits_def)

text \<open>The symbol taken from the accumulator is the value of the five oldest pending bits.\<close>

lemma pending_split:
  assumes "acc mod 2 ^ length bs = bits_val bs" and "5 \<le> length bs"
  shows "acc div 2 ^ (length bs - 5) mod 32 = bits_val (take 5 bs)"
    and "acc mod 2 ^ (length bs - 5) = bits_val (drop 5 bs)"
proof -
  obtain k where k: "length bs = k + 5" using assms(2) le_Suc_ex [of 5 "length bs"] by (auto simp: add.commute)
  have v: "bits_val bs = bits_val (take 5 bs) * 2 ^ k + bits_val (drop 5 bs)"
    using bits_val_append [of "take 5 bs" "drop 5 bs"] k by simp
  have small: "bits_val (drop 5 bs) < 2 ^ k" using bits_val_less [of "drop 5 bs"] k by simp
  have p: "(2 :: nat) ^ length bs = 2 ^ k * 32" by (simp add: k power_add)
  have m: "acc mod 2 ^ k = bits_val (drop 5 bs)"
    using assms(1) v small mod_mod_cancel [of "2 ^ k" "2 ^ k * 32" acc] by (simp add: p)
  have "2 ^ k * (acc div 2 ^ k mod 32) + acc mod 2 ^ k = bits_val bs"
    using assms(1) mod_mult2_eq [of acc "2 ^ k" 32] by (simp add: p)
  then have "2 ^ k * (acc div 2 ^ k mod 32) = 2 ^ k * bits_val (take 5 bs)" using m v by simp
  then show "acc div 2 ^ (length bs - 5) mod 32 = bits_val (take 5 bs)" by (simp add: k)
  from m show "acc mod 2 ^ (length bs - 5) = bits_val (drop 5 bs)" by (simp add: k)
qed

text \<open>The groups of five that are complete, and the bits left over.\<close>

fun whole5 :: "bool list \<Rightarrow> bool list list" where
  "whole5 (a # b # c # d # e # rest) = [a, b, c, d, e] # whole5 rest"
| "whole5 _ = []"

fun left5 :: "bool list \<Rightarrow> bool list" where
  "left5 (a # b # c # d # e # rest) = left5 rest"
| "left5 rest = rest"

lemma left5_less: "length (left5 bs) < 5"
  by (induction bs rule: left5.induct) simp_all

lemma five_cases: "5 \<le> length (bs :: bool list) \<Longrightarrow> \<exists>a b c d e rest. bs = a # b # c # d # e # rest"
  by (cases bs rule: left5.cases) auto

lemma split5: "5 \<le> length bs \<Longrightarrow> whole5 bs = take 5 bs # whole5 (drop 5 bs) \<and> left5 bs = left5 (drop 5 bs)"
  using five_cases [of bs] by (auto simp: numeral_eq_Suc)

lemma short5: "length bs < 5 \<Longrightarrow> whole5 bs = [] \<and> left5 bs = bs"
  by (cases bs rule: left5.cases) auto

lemma whole5_append: "whole5 (xs @ ys) = whole5 xs @ whole5 (left5 xs @ ys)"
  by (induction xs rule: left5.induct) simp_all

lemma left5_append: "left5 (xs @ ys) = left5 (left5 xs @ ys)"
  by (induction xs rule: left5.induct) simp_all

lemma chunks5_whole:
  "chunks5 bs = whole5 bs @ (if left5 bs = [] then [] else [take 5 (left5 bs @ replicate 4 False)])"
  by (induction bs rule: chunks5.induct) simp_all

lemma emit_whole:
  "acc mod 2 ^ length bs = bits_val bs \<Longrightarrow>
    base32_emit acc (length bs) out =
      (length (left5 bs), out @ map (\<lambda>g. BASE32 ! bits_val g) (whole5 bs)) \<and>
    acc mod 2 ^ length (left5 bs) = bits_val (left5 bs)"
proof (induction "length bs" arbitrary: bs out rule: less_induct)
  case less
  show ?case
  proof (cases "5 \<le> length bs")
    case True
    note p = pending_split [OF less.prems True]
    have "length (drop 5 bs) < length bs" "length (drop 5 bs) = length bs - 5" using True by auto
    with less.hyps [of "drop 5 bs" "out @ [BASE32 ! bits_val (take 5 bs)]"] p
    show ?thesis using True split5 [OF True] by (simp add: base32_emit.simps [of acc "length bs"])
  next
    case False
    then show ?thesis using short5 [of bs] less.prems by (simp add: base32_emit.simps [of acc "length bs"])
  qed
qed

lemma bytes_whole:
  assumes "acc mod 2 ^ length bs = bits_val bs" and "length bs < 5"
    and "base32_bytes acc (length bs) out data = (acc', bits', out')"
  shows "let all = bs @ concat (map byte_bits data) in
    bits' = length (left5 all) \<and> out' = out @ map (\<lambda>g. BASE32 ! bits_val g) (whole5 all) \<and>
    acc' mod 2 ^ bits' = bits_val (left5 all)"
  using assms
proof (induction data arbitrary: acc bs out)
  case Nil
  then show ?case using short5 [of bs] by (simp add: Let_def)
next
  case (Cons b data)
  let ?bs = "bs @ byte_bits b" and ?acc = "(acc * 256) mod 2 ^ 32 + byte b"
  have dvd: "(2 :: nat) ^ length ?bs dvd 2 ^ 32" using Cons.prems(2) by (intro le_imp_power_dvd) simp
  have "?acc mod 2 ^ length ?bs = (acc * 256 + byte b) mod 2 ^ length ?bs"
    using mod_mod_cancel [OF dvd] by (metis mod_add_left_eq)
  also have "\<dots> = (acc mod 2 ^ length bs * 256 + byte b) mod 2 ^ length ?bs"
    using mod_add_left_eq [of "acc * 256" "2 ^ length bs * 256" "byte b"] mod_mult_mult2 [of acc 256 "2 ^ length bs"]
    by (simp add: power_add)
  also have "\<dots> = bits_val ?bs"
    using Cons.prems(1) bits_val_append [of bs "byte_bits b"] bits_val_byte [of b] bits_val_less [of ?bs] by simp
  finally have "?acc mod 2 ^ length ?bs = bits_val ?bs" .
  note e = emit_whole [OF this, of out]
  then have continued: "base32_bytes ?acc (length (left5 ?bs)) (out @ map (\<lambda>g. BASE32 ! bits_val g) (whole5 ?bs)) data =
      (acc', bits', out')"
    using Cons.prems(3) by (simp add: Let_def)
  from Cons.IH [OF _ left5_less continued] e
  show ?case using whole5_append [of ?bs] left5_append [of ?bs] by (auto simp: Let_def)
qed

text \<open>
  C39. The text of an update hash is the RFC 4648 base32 of its bytes without padding: the packing through a
  32-bit accumulator, whose shifts lose the high bits, yields the groups of five bits for data of any length.
\<close>

theorem base32_nopad_reference: "base32_nopad data = base32_spec data"
proof -
  let ?all = "concat (map byte_bits data)"
  obtain acc bits out where run: "base32_bytes 0 0 [] data = (acc, bits, out)" by (cases "base32_bytes 0 0 [] data") auto
  have f: "bits = length (left5 ?all)" "out = map (\<lambda>g. BASE32 ! bits_val g) (whole5 ?all)"
    "acc mod 2 ^ bits = bits_val (left5 ?all)"
    using bytes_whole [of 0 "[]" "[]" data acc bits out] run by (auto simp: bits_val_def Let_def)
  have last: "acc * 2 ^ (5 - bits) mod 2 ^ 32 mod 32 = bits_val (take 5 (left5 ?all @ replicate 4 False))" if "0 < bits"
  proof -
    have le: "bits < 5" using left5_less [of ?all] f(1) by simp
    have "(32 :: nat) = 2 ^ bits * 2 ^ (5 - bits)" using le by (simp flip: power_add)
    moreover have "acc * 2 ^ (5 - bits) mod 2 ^ 32 mod 32 = acc * 2 ^ (5 - bits) mod 32"
      using mod_mod_cancel [of 32 "2 ^ 32 :: nat"] by simp
    ultimately have "acc * 2 ^ (5 - bits) mod 2 ^ 32 mod 32 = bits_val (left5 ?all) * 2 ^ (5 - bits)"
      using mod_mult_mult2 [of acc "2 ^ (5 - bits)" "2 ^ bits"] f(3) by simp
    moreover have "take 5 (left5 ?all @ replicate 4 False) = left5 ?all @ replicate (5 - bits) False"
    proof -
      have "5 - bits \<le> 4" using that by simp
      then show ?thesis using le by (simp add: f(1) min_absorb1)
    qed
    moreover have "bits_val (replicate k False) = 0" for k by (induction k) (simp_all add: bits_val_def)
    ultimately show ?thesis by (simp add: bits_val_append)
  qed
  show ?thesis
    using f(1,2) last by (simp add: base32_nopad_def base32_spec_def run chunks5_whole)
qed

section \<open>Base64 reads back\<close>

definition sextet :: "char \<Rightarrow> nat" where
  "sextet c = length (takeWhile (\<lambda>x. x \<noteq> c) BASE64)"

text \<open>A decoder for the reference: four symbols give the bytes of one chunk.\<close>

definition unchunk :: "char \<Rightarrow> char \<Rightarrow> char \<Rightarrow> char \<Rightarrow> string" where
  "unchunk p q r s =
     (let v = (\<lambda>c. if c = CHR ''='' then 0 else sextet c);
          n = v p * 262144 + v q * 4096 + v r * 64 + v s;
          bs = [char_of (n div 65536), char_of (n div 256 mod 256), char_of (n mod 256)] in
      if r = CHR ''='' then take 1 bs else if s = CHR ''='' then take 2 bs else bs)"

fun base64_decode :: "string \<Rightarrow> string option" where
  "base64_decode [] = Some []"
| "base64_decode (p # q # r # s # rest) = map_option ((@) (unchunk p q r s)) (base64_decode rest)"
| "base64_decode _ = None"

lemma sextet_symbols: "\<forall>i < 64. sextet (BASE64 ! i) = i \<and> BASE64 ! i \<noteq> CHR ''=''"
proof -
  have "list_all (\<lambda>i. sextet (BASE64 ! i) = i \<and> BASE64 ! i \<noteq> CHR ''='') [0..<64]" by code_simp
  then show ?thesis by (simp add: list_all_iff)
qed

lemma sextets_of:
  fixes n :: nat
  assumes "n < 16777216"
  shows "n div 262144 mod 64 * 262144 + n div 4096 mod 64 * 4096 + n div 64 mod 64 * 64 + n mod 64 = n"
proof -
  have "n div 262144 < 64" using less_mult_imp_div_less [of n 64 262144] assms by simp
  moreover have "n div 64 = 64 * (n div 4096) + n div 64 mod 64" "n div 4096 = 64 * (n div 262144) + n div 4096 mod 64"
    using mult_div_mod_eq [of 64 "n div 64"] mult_div_mod_eq [of 64 "n div 4096"] by (simp_all add: div_mult2_eq [symmetric])
  moreover have "64 * (n div 64) + n mod 64 = n" by (rule mult_div_mod_eq)
  ultimately show ?thesis unfolding mod_less [OF \<open>n div 262144 < 64\<close>] by linarith
qed

lemma digit_256: "c < 256 \<Longrightarrow> (k * 256 + c) div 256 = k \<and> (k * 256 + c) mod 256 = (c :: nat)"
  by simp

definition three_bytes :: "nat \<Rightarrow> string" where
  "three_bytes n = [char_of (n div 65536), char_of (n div 256 mod 256), char_of (n mod 256)]"

lemma char_of_byte_id: "char_of (byte c) = c"
  by (simp add: byte_def)

lemma three_bytes_of: "three_bytes (byte a * 65536 + byte b * 256 + byte c) = [a, b, c]"
proof -
  let ?n = "byte a * 65536 + byte b * 256 + byte c"
  have n: "?n = (byte a * 256 + byte b) * 256 + byte c" by simp
  have "?n mod 256 = byte c" "?n div 256 = byte a * 256 + byte b"
    using digit_256 [of "byte c" "byte a * 256 + byte b"] unfolding n by simp_all
  moreover have "?n div 65536 = ?n div 256 div 256" by (simp only: div_mult2_eq [symmetric]) simp
  ultimately have "?n div 65536 = byte a" "?n div 256 mod 256 = byte b" "?n mod 256 = byte c"
    using digit_256 [of "byte b" "byte a"] by simp_all
  then show ?thesis unfolding three_bytes_def by (simp only: char_of_byte_id)
qed

lemma unchunk_symbols:
  assumes "i < 64" "j < 64" "k < 64" "l < 64" and n: "i * 262144 + j * 4096 + k * 64 + l = n"
  shows "k = 0 \<Longrightarrow> l = 0 \<Longrightarrow> unchunk (BASE64 ! i) (BASE64 ! j) (CHR ''='') (CHR ''='') = take 1 (three_bytes n)"
    and "l = 0 \<Longrightarrow> unchunk (BASE64 ! i) (BASE64 ! j) (BASE64 ! k) (CHR ''='') = take 2 (three_bytes n)"
    and "unchunk (BASE64 ! i) (BASE64 ! j) (BASE64 ! k) (BASE64 ! l) = three_bytes n"
  using sextet_symbols assms(1-4) unfolding n [symmetric]
  by (simp_all add: unchunk_def three_bytes_def Let_def)

text \<open>The four sextets of a chunk, with absent bytes read as zero.\<close>

lemma chunk_symbols:
  fixes a b c :: char
  defines "n \<equiv> byte a * 65536 + byte b * 256 + byte c"
  shows "n div 262144 mod 64 * 262144 + n div 4096 mod 64 * 4096 + n div 64 mod 64 * 64 + n mod 64 = n"
    and "base64_chunk [a, b, c] = [BASE64 ! (n div 262144 mod 64), BASE64 ! (n div 4096 mod 64),
      BASE64 ! (n div 64 mod 64), BASE64 ! (n mod 64)]"
    and "c = CHR 0x00 \<Longrightarrow> n mod 64 = 0 \<and> base64_chunk [a, b] =
      [BASE64 ! (n div 262144 mod 64), BASE64 ! (n div 4096 mod 64), BASE64 ! (n div 64 mod 64), CHR ''='']"
    and "b = CHR 0x00 \<Longrightarrow> c = CHR 0x00 \<Longrightarrow> n div 64 mod 64 = 0 \<and> base64_chunk [a] =
      [BASE64 ! (n div 262144 mod 64), BASE64 ! (n div 4096 mod 64), CHR ''='', CHR ''='']"
proof -
  have zero: "byte (CHR 0x00) = 0" by (simp add: byte_def)
  have "n < 16777216"
    using byte_less [of a] byte_less [of b] byte_less [of c] unfolding n_def by linarith
  then show "n div 262144 mod 64 * 262144 + n div 4096 mod 64 * 4096 + n div 64 mod 64 * 64 + n mod 64 = n"
    by (rule sextets_of)
  show "base64_chunk [a, b, c] = [BASE64 ! (n div 262144 mod 64), BASE64 ! (n div 4096 mod 64),
      BASE64 ! (n div 64 mod 64), BASE64 ! (n mod 64)]"
    by (simp add: base64_chunk_def n_def Let_def)
  show "n mod 64 = 0 \<and> base64_chunk [a, b] =
      [BASE64 ! (n div 262144 mod 64), BASE64 ! (n div 4096 mod 64), BASE64 ! (n div 64 mod 64), CHR ''='']"
    if c: "c = CHR 0x00"
  proof
    have "n = (byte a * 1024 + byte b * 4) * 64" by (simp add: n_def c zero)
    then show "n mod 64 = 0" by (simp only: mod_mult_self2_is_0)
    show "base64_chunk [a, b] =
      [BASE64 ! (n div 262144 mod 64), BASE64 ! (n div 4096 mod 64), BASE64 ! (n div 64 mod 64), CHR ''='']"
      by (simp add: base64_chunk_def n_def c zero Let_def)
  qed
  show "n div 64 mod 64 = 0 \<and> base64_chunk [a] =
      [BASE64 ! (n div 262144 mod 64), BASE64 ! (n div 4096 mod 64), CHR ''='', CHR ''='']"
    if bc: "b = CHR 0x00" "c = CHR 0x00"
    by (simp add: base64_chunk_def n_def bc zero Let_def)
qed

lemma unchunk_chunk:
  "base64_chunk [a] = [p, q, r, s] \<Longrightarrow> unchunk p q r s = [a]"
  "base64_chunk [a, b] = [p, q, r, s] \<Longrightarrow> unchunk p q r s = [a, b]"
  "base64_chunk [a, b, c] = [p, q, r, s] \<Longrightarrow> unchunk p q r s = [a, b, c]"
proof -
  note syms = unchunk_symbols [OF mod_less_divisor mod_less_divisor mod_less_divisor mod_less_divisor chunk_symbols(1),
      simplified zero_less_numeral, OF TrueI TrueI TrueI TrueI]
  let ?z = "CHR 0x00"
  show "unchunk p q r s = [a]" if "base64_chunk [a] = [p, q, r, s]"
    using that chunk_symbols(3) [OF refl, of a ?z] chunk_symbols(4) [OF refl refl, of a] syms(1) [of a ?z ?z]
      three_bytes_of [of a ?z ?z] by auto
  show "unchunk p q r s = [a, b]" if "base64_chunk [a, b] = [p, q, r, s]"
    using that chunk_symbols(3) [OF refl, of a b] syms(2) [of a b ?z] three_bytes_of [of a b ?z] by auto
  show "unchunk p q r s = [a, b, c]" if "base64_chunk [a, b, c] = [p, q, r, s]"
    using that chunk_symbols(2) [of a b c] syms(3) [of a b c] three_bytes_of [of a b c] by auto
qed

lemma chunk_four: obtains p q r s where "base64_chunk chunk = [p, q, r, s]"
  by (simp add: base64_chunk_def Let_def)

text \<open>
  The padded URL-safe base64 of any bytes decodes to those bytes: every chunk carries all of its bits, in
  the symbols that are not padding.
\<close>

theorem base64_round_trip: "base64_decode (base64_url_padded data) = Some data"
proof (induction data rule: base64_url_padded.induct)
  case 1
  show ?case by simp
next
  case (2 a)
  obtain p q r s where "base64_chunk [a] = [p, q, r, s]" by (rule chunk_four)
  then show ?case using unchunk_chunk(1) [of a] by simp
next
  case (3 a b)
  obtain p q r s where "base64_chunk [a, b] = [p, q, r, s]" by (rule chunk_four)
  then show ?case using unchunk_chunk(2) [of a b] by simp
next
  case (4 a b c rest)
  obtain p q r s where "base64_chunk [a, b, c] = [p, q, r, s]" by (rule chunk_four)
  then show ?case using unchunk_chunk(3) [of a b c] 4 by simp
qed

section \<open>The daemon's decoder against the strict one\<close>

text \<open>Each pair that starts with a plus sign, with a zero in its place.\<close>

fun unsign_pairs :: "string \<Rightarrow> string" where
  "unsign_pairs (a # b # rest) = (if a = CHR ''+'' then CHR ''0'' else a) # b # unsign_pairs rest"
| "unsign_pairs rest = rest"

lemma hex_nibble_zero [simp]: "hex_nibble (CHR ''0'') = Some 0"
  by (simp add: hex_nibble_def byte_def)

text \<open>
  The daemon's decoder of a disablement secret is the strict decoder of the client, except that a plus
  sign in front of a digit counts as a zero: \<open>+f\<close> is the byte 15, although every non-hexadecimal character
  is documented to be refused.
\<close>

theorem daemon_hex_takes_signs:
  "decode_hex s =
    (if length s mod 2 \<noteq> 0 then None
     else case decode_pairs id (unsign_pairs s) of Inl _ \<Rightarrow> None | Inr bs \<Rightarrow> Some bs)"
proof -
  have "collect_pairs s = (case decode_pairs id (unsign_pairs s) of Inl _ \<Rightarrow> None | Inr bs \<Rightarrow> Some bs)"
  proof (induction s rule: collect_pairs.induct)
    case (1 a b rest)
    then show ?case by (simp add: u8_from_hex_pair_def split: option.split sum.split)
  qed simp_all
  then show ?thesis by (simp add: decode_hex_def)
qed

lemma strict_pairs_daemon: "decode_pairs lossy s = Inr bs \<Longrightarrow> collect_pairs s = Some bs"
proof (induction s arbitrary: bs rule: collect_pairs.induct)
  case (1 a b rest)
  then show ?case
    by (cases "a = CHR ''+''") (auto simp: u8_from_hex_pair_def split: option.splits sum.splits)
qed simp_all

lemma collected_plain:
  "collect_pairs s = Some bs \<Longrightarrow> even (length s) \<Longrightarrow> c \<in> set s \<Longrightarrow> \<not> is_ascii_ws c \<and> byte c < 128"
proof (induction s arbitrary: bs rule: collect_pairs.induct)
  case (1 a b rest)
  have nib: "hex_nibble x \<noteq> None \<Longrightarrow> \<not> is_ascii_ws x \<and> byte x < 128" for x
    by (auto simp: hex_nibble_def is_ascii_ws_def Let_def split: if_splits)
  have plus: "\<not> is_ascii_ws (CHR ''+'') \<and> byte (CHR ''+'') < 128" by (simp add: is_ascii_ws_def byte_def)
  from 1 show ?case using nib [of a] nib [of b] plus
    by (auto simp: u8_from_hex_pair_def split: option.splits if_splits)
qed simp_all

text \<open>Text without white space and without bytes above the ASCII range is trimmed already.\<close>

lemma utrim_plain:
  assumes "\<And>c. c \<in> set s \<Longrightarrow> \<not> is_ascii_ws c \<and> byte c < 128"
  shows "utrim s = s"
proof -
  have small: "\<not> wide_space c d e" if "byte c < 128" for c d e using that by (auto simp: wide_space_def)
  have "ws_len s = 0"
  proof (cases s)
    case (Cons c cs)
    with assms [of c] small show ?thesis by (simp add: ws_len_def split: list.split)
  qed (simp add: ws_len_def)
  moreover have "ws_tail s = 0"
  proof (cases s rule: rev_cases)
    case (snoc cs c)
    note c = assms [of c, unfolded snoc, simplified]
    show ?thesis
    proof (cases cs rule: rev_cases)
      case Nil
      with c show ?thesis by (simp add: ws_tail_def snoc)
    next
      case (snoc ds d)
      have d: "byte d < 128" using assms [of d] \<open>s = cs @ [c]\<close> snoc by simp
      have "\<not> wide_space e d c" for e using d by (auto simp: wide_space_def)
      with c d show ?thesis by (simp add: ws_tail_def \<open>s = cs @ [c]\<close> snoc split: list.split)
    qed
  qed (simp add: ws_tail_def)
  ultimately show ?thesis by (simp add: utrim_def trim_start.simps [of s] trim_end.simps [of s])
qed

end
