(* ===== verification/Lock.thy ===== *)
theory Lock
  imports Encodings
begin

text \<open>
  Tailnet Lock from both ends: the command line (\<open>src/src/bin/tnet.rs\<close>: the grammar of \<open>lock init\<close>, its plan,
  \<open>lock disable\<close>, the key-derivation line, the versioned \<open>--json\<close> flag) and the daemon's handlers
  (\<open>src/src/ipn/diag.rs\<close>), composed the way a command runs. The engine (\<open>tka_*\<close>), the source of random bytes
  and the key-derivation function are parameters. Byte slices are strings of bytes.
\<close>

section \<open>Arguments of lock init\<close>

record LockTrustedKey =
  lk_public :: string
  lk_votes :: nat

definition parse_lock_public_key :: "string \<Rightarrow> (string, string) result" where
  "parse_lock_public_key s =
     (case or_else (strip_prefix s ''nlpub:'') (strip_prefix s ''tlpub:'') of
        None \<Rightarrow> Inl ''key hex string doesn't have expected type prefix tlpub:''
      | Some raw \<Rightarrow>
          if length raw \<noteq> 64
          then Inl (''key hex has the wrong size, got '' @ dec_string (length raw) @ '' want 64'')
          else (case decode_pairs id raw of
                  Inl _ \<Rightarrow> Inl ''invalid hex character in key''
                | Inr bs \<Rightarrow> Inr bs))"

definition is_disablement_arg :: "string \<Rightarrow> bool" where
  "is_disablement_arg a \<longleftrightarrow> starts_with a ''disablement:'' \<or> starts_with a ''disablement-secret:''"

definition parse_disablement :: "(string \<Rightarrow> string) \<Rightarrow> nat \<Rightarrow> string \<Rightarrow> (string, string) result" where
  "parse_disablement lossy n a =
     (let hex = (case split_once (CHR '':'') a of Some (_, rest) \<Rightarrow> rest | None \<Rightarrow> []) in
      map_err (\<lambda>e. ''parsing disablement '' @ dec_string n @ '': '' @ e) (hex_decode_lower lossy hex))"

definition parse_trusted_key :: "nat \<Rightarrow> string \<Rightarrow> (string, LockTrustedKey) result" where
  "parse_trusted_key n a =
     (let (key_text, votes_text) =
        (case split_once (CHR ''?'') a of Some (k, v) \<Rightarrow> (k, Some v) | None \<Rightarrow> (a, None)) in
      rbind (map_err (\<lambda>e. ''parsing key '' @ dec_string n @ '': '' @ e) (parse_lock_public_key key_text)) (\<lambda>public.
      rbind (case votes_text of
               Some v \<Rightarrow> map_err (\<lambda>e. ''parsing key '' @ dec_string n @ '' votes: '' @ e) (parse_u64 v)
             | None \<Rightarrow> Inr 1) (\<lambda>votes.
      Inr \<lparr>lk_public = public, lk_votes = votes\<rparr>)))"

fun parse_lock_args_from ::
  "(string \<Rightarrow> string) \<Rightarrow> bool \<Rightarrow> bool \<Rightarrow> nat \<Rightarrow> string list \<Rightarrow> (string, LockTrustedKey list \<times> string list) result" where
  "parse_lock_args_from lossy keys_ok dis_ok n [] = Inr ([], [])"
| "parse_lock_args_from lossy keys_ok dis_ok n (a # rest) =
     (if dis_ok \<and> is_disablement_arg a then
        rbind (parse_disablement lossy n a) (\<lambda>bs.
        rbind (parse_lock_args_from lossy keys_ok dis_ok (n + 1) rest) (\<lambda>(ks, ds). Inr (ks, bs # ds)))
      else if \<not> keys_ok then
        Inl (''parsing argument '' @ dec_string n @
          '': expected value with \"disablement:\" or \"disablement-secret:\" prefix, got '' @ debug_str a)
      else
        rbind (parse_trusted_key n a) (\<lambda>k.
        rbind (parse_lock_args_from lossy keys_ok dis_ok (n + 1) rest) (\<lambda>(ks, ds). Inr (k # ks, ds))))"

definition parse_lock_args ::
  "(string \<Rightarrow> string) \<Rightarrow> string list \<Rightarrow> bool \<Rightarrow> bool \<Rightarrow> (string, LockTrustedKey list \<times> string list) result" where
  "parse_lock_args lossy args keys_ok dis_ok = parse_lock_args_from lossy keys_ok dis_ok 1 args"

section \<open>The plan of lock init\<close>

record LockInitArgs =
  li_positionals :: "string list"
  li_gen_disablements :: "nat option"
  li_for_support :: bool
  li_confirm :: bool
  li_supplied_secret :: "string option"

datatype LockInitPlan = Confirm string | InitLock (secret_hex: string) (preamble: string) (notice: string)

definition TAB :: char where "TAB = CHR 0x09"

definition writeln :: "string \<Rightarrow> string" where
  "writeln s = s @ [LF]"

definition EM_DASH :: string where
  "EM_DASH = [CHR 0xE2, CHR 0x80, CHR 0x94]"

definition SUPPORT_DISABLEMENT_NOTE :: string where
  "SUPPORT_DISABLEMENT_NOTE =
     ''Note: this daemon's engine also transmits the disablement secret to the coordination server as the support disablement, so its operator can disable the lock. Upstream does that only for --gen-disablement-for-support.''"

definition refuse_keys :: string where
  "refuse_keys =
     ''this daemon cannot initialize tailnet lock with a chosen trusted-key set. Upstream's rule is that \"the tailnet lock key of the current node must be one of the trusted keys during initialization\"; here the engine's `tka_init` takes no key set at all '' @ EM_DASH @ '' it always initializes trusting this node's own tailnet lock key alone, with one vote '' @ EM_DASH @ '' and exposes no way to read that key back, so a key set can neither be honoured nor checked. Re-run with no <trusted-key> arguments to initialize with this node as the sole trusted key (docs/ENGINE_ASKS.md #36)''"

definition refuse_values :: string where
  "refuse_values =
     ''this daemon cannot initialize tailnet lock with a pre-computed disablement value. The engine's `tka_init` takes a disablement SECRET and derives the value from it itself, so a value computed offline with `tnet lock disablement-kdf` has nowhere to go. Supply the secret with --disablement-secret instead, or let this command mint one (docs/ENGINE_ASKS.md #36)''"

definition refuse_support :: string where
  "refuse_support =
     ''this daemon cannot honour --gen-disablement-for-support: it asks for an ADDITIONAL disablement secret, minted separately and transmitted to the coordination server, and the engine's `tka_init` carries exactly one secret '' @ EM_DASH @ '' which it already transmits as the support disablement. The secret this command uses is known to the coordination server either way, with or without this flag (docs/ENGINE_ASKS.md #36)''"

definition refuse_both :: string where
  "refuse_both =
     ''--gen-disablements can only be used without --disablement-secret: --disablement-secret supplies the one disablement secret, --gen-disablements asks this command to mint it''"

definition refuse_none :: string where
  "refuse_none =
     ''initializing tailnet lock requires at least one disablement, so --gen-disablements 0 cannot be used: a lock with no disablement value could never be disabled''"

definition refuse_many :: "nat \<Rightarrow> string" where
  "refuse_many n =
     ''this daemon cannot honour --gen-disablements '' @ dec_string n @
     '': the engine's `tka_init` stores exactly one disablement value, so only --gen-disablements 1 (the default) can be initialized (docs/ENGINE_ASKS.md #36)''"

text \<open>Everything that is refused before anything is printed or minted.\<close>

definition lock_init_refusal :: "(string \<Rightarrow> string) \<Rightarrow> LockInitArgs \<Rightarrow> bool \<Rightarrow> (string, nat) result" where
  "lock_init_refusal lossy args lock_enabled =
     (if lock_enabled then Inl ''tailnet lock is already enabled''
      else rbind (parse_lock_args lossy (li_positionals args) True True) (\<lambda>(keys, disablements).
      if keys \<noteq> [] then Inl refuse_keys
      else if disablements \<noteq> [] then Inl refuse_values
      else if li_for_support args then Inl refuse_support
      else if li_gen_disablements args \<noteq> None \<and> li_supplied_secret args \<noteq> None then Inl refuse_both
      else
        let n = unwrap_or (li_gen_disablements args) 1 in
        if li_supplied_secret args = None \<and> n = 0 then Inl refuse_none
        else if li_supplied_secret args = None \<and> n \<noteq> 1 then Inl (refuse_many n)
        else (case li_supplied_secret args of
                None \<Rightarrow> Inr n
              | Some secret \<Rightarrow>
                  (case hex_decode_lower lossy secret of
                     Inl e \<Rightarrow> Inl ''--disablement-secret must be hex-encoded''
                   | Inr _ \<Rightarrow> Inr n))))"

definition init_preamble :: string where
  "init_preamble =
     writeln ''You are initializing tailnet lock with the following trusted signing keys:'' @
     writeln '' - the tailnet lock key of this node (the only key this daemon can trust; it cannot print it)'' @
     writeln []"

definition confirm_text :: "string \<Rightarrow> LockInitArgs \<Rightarrow> nat \<Rightarrow> string" where
  "confirm_text program args n =
     init_preamble @
     (case li_supplied_secret args of
        Some secret \<Rightarrow>
          writeln ''The disablement secret supplied with --disablement-secret will be used; none will be generated.'' @
          writeln SUPPORT_DISABLEMENT_NOTE @
          writeln ([LF] @ ''If this is correct, please re-run this command with the --confirm flag:'') @
          writeln ([TAB] @ program @ '' lock init --confirm --disablement-secret '' @ secret)
      | None \<Rightarrow>
          writeln (dec_string n @ '' disablement secrets will be generated.'') @
          writeln SUPPORT_DISABLEMENT_NOTE @
          writeln ([LF] @ ''If this is correct, please re-run this command with the --confirm flag:'') @
          writeln ([TAB] @ program @ '' lock init --confirm --gen-disablements '' @ dec_string n))"

definition minted_notice :: "nat \<Rightarrow> string \<Rightarrow> string" where
  "minted_notice n hex =
     writeln (dec_string n @ '' disablement secrets have been generated and are printed below. Take note of them now, they WILL NOT be shown again.'') @
     writeln ([TAB] @ ''disablement-secret:'' @ hex)"

text \<open>\<open>mint\<close> is what the source of random bytes answers if it is asked.\<close>

definition plan_lock_init ::
  "(string \<Rightarrow> string) \<Rightarrow> string \<Rightarrow> LockInitArgs \<Rightarrow> bool \<Rightarrow> (string, string) result \<Rightarrow> (string, LockInitPlan) result" where
  "plan_lock_init lossy program args lock_enabled mint =
     rbind (lock_init_refusal lossy args lock_enabled) (\<lambda>n.
     if \<not> li_confirm args then Inr (Confirm (confirm_text program args n))
     else (case li_supplied_secret args of
        Some secret \<Rightarrow> Inr (InitLock secret init_preamble (writeln SUPPORT_DISABLEMENT_NOTE))
      | None \<Rightarrow>
          rbind mint (\<lambda>secret.
          let hex = hex_encode_upper secret in
          Inr (InitLock hex init_preamble (minted_notice n hex @ writeln SUPPORT_DISABLEMENT_NOTE)))))"

section \<open>The daemon's side\<close>

text \<open>
  The engine's calls; the lists are the calls of \<open>tka_init\<close>, \<open>tka_sign\<close> and \<open>tka_disable\<close> a handler made,
  in order. \<open>tka_node_key\<close> is the engine's parser of a node key.
\<close>

record TkaLogEntry =
  te_aum_hash :: string
  te_change :: string
  te_signer_key_ids :: "string list"
  te_raw :: string

record tka_engine =
  tka_status :: "(string, (string \<times> bool) option) result"
  tka_init :: "string \<Rightarrow> (string, unit) result"
  tka_disable :: "string \<Rightarrow> (string, unit) result"
  tka_sign :: "string \<Rightarrow> (string, unit) result"
  tka_log :: "nat \<Rightarrow> (string, TkaLogEntry list) result"
  tka_node_key :: "string \<Rightarrow> string option"

datatype tka_call = TkaInit string | TkaDisable string | TkaSign string

record LockLogEntry =
  ll_hash :: string
  ll_change :: string
  ll_signer_key_ids :: "string list"
  ll_raw :: string

datatype lock_reply = LrLock bool string bool | LrLog bool "LockLogEntry list" | LrOk string | LrError string

definition lock_status :: "tka_engine \<Rightarrow> lock_reply" where
  "lock_status E =
     (case tka_status E of
        Inr (Some (head, disabled)) \<Rightarrow> LrLock True head disabled
      | Inr None \<Rightarrow> LrLock False [] False
      | Inl e \<Rightarrow> LrError (''tailnet lock status query failed: '' @ e))"

definition lock_init :: "tka_engine \<Rightarrow> string \<Rightarrow> lock_reply \<times> tka_call list" where
  "lock_init E secret =
     (case decode_hex secret of
        None \<Rightarrow> (LrError ''invalid disablement secret: expected a hex-encoded value'', [])
      | Some bytes \<Rightarrow>
          ((case tka_init E bytes of
              Inr _ \<Rightarrow> LrOk ''Tailnet Lock initialized with this node as the sole trusted key (applies on the next netmap sync; keep the disablement secret safe)''
            | Inl e \<Rightarrow> LrError (''tailnet lock init failed: '' @ e)), [TkaInit bytes]))"

definition lock_disable :: "tka_engine \<Rightarrow> string \<Rightarrow> lock_reply \<times> tka_call list" where
  "lock_disable E secret =
     (case decode_hex secret of
        None \<Rightarrow> (LrError ''invalid disablement secret: expected a hex-encoded value'', [])
      | Some bytes \<Rightarrow>
          ((case tka_disable E bytes of
              Inr _ \<Rightarrow> LrOk ''Tailnet Lock disabled for the tailnet (applies on the next netmap sync)''
            | Inl e \<Rightarrow> LrError (''tailnet lock disable failed: '' @ e)), [TkaDisable bytes]))"

definition log_entry :: "TkaLogEntry \<Rightarrow> LockLogEntry" where
  "log_entry e =
     \<lparr>ll_hash = base32_nopad (te_aum_hash e), ll_change = te_change e,
      ll_signer_key_ids = map (\<lambda>i. ''tlpub:'' @ encode_hex i) (te_signer_key_ids e), ll_raw = encode_hex (te_raw e)\<rparr>"

definition lock_log :: "tka_engine \<Rightarrow> nat \<Rightarrow> lock_reply" where
  "lock_log E limit =
     (case tka_status E of
        Inl e \<Rightarrow> LrError (''tailnet lock status query failed: '' @ e)
      | Inr status \<Rightarrow>
          (case tka_log E limit of
             Inl e \<Rightarrow> LrError (''tailnet lock log query failed: '' @ e)
           | Inr entries \<Rightarrow> LrLog (status \<noteq> None) (map log_entry entries)))"

definition lock_sign :: "tka_engine \<Rightarrow> string \<Rightarrow> lock_reply \<times> tka_call list" where
  "lock_sign E node_key =
     (case tka_node_key E node_key of
        None \<Rightarrow> (LrError (''invalid node key '' @ debug_str node_key @
          '': expected the `nodekey:<hex>` form (as shown by `tnet status`/`whois`)''), [])
      | Some k \<Rightarrow>
          ((case tka_sign E k of
              Inr _ \<Rightarrow> LrOk ''node key signed into Tailnet Lock (applies on the next netmap sync)''
            | Inl e \<Rightarrow> LrError (''tailnet lock sign failed: '' @ e)), [TkaSign k]))"

datatype lock_request = LockStatus | LockLog nat | LockInit string | LockSign string | LockDisable string

text \<open>The arms of the dispatch; \<open>dev\<close> is the engine of a node that is up.\<close>

definition lock_dispatch :: "tka_engine option \<Rightarrow> lock_request \<Rightarrow> lock_reply \<times> tka_call list" where
  "lock_dispatch dev r =
     (case dev of
        None \<Rightarrow> (LrError ''node is not up'', [])
      | Some E \<Rightarrow>
          (case r of
             LockStatus \<Rightarrow> (lock_status E, [])
           | LockLog limit \<Rightarrow> (lock_log E limit, [])
           | LockSign k \<Rightarrow> lock_sign E k
           | LockInit s \<Rightarrow> lock_init E s
           | LockDisable s \<Rightarrow> lock_disable E s))"

section \<open>The commands\<close>

text \<open>How a command ends: normally, with an error returned to \<open>main\<close>, or with a message and status 1.\<close>

datatype lock_end = LockDone | LockBail string | LockExit string

definition run_lock_init ::
  "tka_engine option \<Rightarrow> (string \<Rightarrow> string) \<Rightarrow> string \<Rightarrow> LockInitArgs \<Rightarrow> (string, string) result \<Rightarrow>
     string \<times> lock_end \<times> tka_call list" where
  "run_lock_init dev lossy program args mint =
     (case fst (lock_dispatch dev LockStatus) of
        LrError message \<Rightarrow> ([], LockExit message, [])
      | LrOk _ \<Rightarrow> ([], LockBail ''unexpected response to lock status'', [])
      | LrLog _ _ \<Rightarrow> ([], LockBail ''unexpected response to lock status'', [])
      | LrLock enabled head disabled \<Rightarrow>
          (case plan_lock_init lossy program args enabled mint of
             Inl e \<Rightarrow> ([], LockBail e, [])
           | Inr (Confirm t) \<Rightarrow> (t, LockDone, [])
           | Inr (InitLock hex pre note) \<Rightarrow>
               (case lock_dispatch dev (LockInit hex) of
                  (LrOk message, calls) \<Rightarrow>
                    (pre @ note @ writeln ''Initialization complete.'' @ writeln message, LockDone, calls)
                | (LrError message, calls) \<Rightarrow> (pre, LockExit message, calls)
                | (_, calls) \<Rightarrow> (pre, LockBail ''unexpected response to lock init'', calls))))"

definition run_lock_disable :: "tka_engine option \<Rightarrow> string \<Rightarrow> string \<times> lock_end \<times> tka_call list" where
  "run_lock_disable dev secret =
     (case lock_dispatch dev (LockDisable secret) of
        (LrOk message, calls) \<Rightarrow> (writeln (''ok: '' @ message), LockDone, calls)
      | (LrError message, calls) \<Rightarrow> ([], LockExit message, calls)
      | (_, calls) \<Rightarrow> ([], LockBail ''unexpected response to lock disable'', calls))"

definition run_lock_sign :: "tka_engine option \<Rightarrow> string \<Rightarrow> string \<times> lock_end \<times> tka_call list" where
  "run_lock_sign dev node_key =
     (case lock_dispatch dev (LockSign node_key) of
        (LrOk message, calls) \<Rightarrow> (writeln (''ok: '' @ message), LockDone, calls)
      | (LrError message, calls) \<Rightarrow> ([], LockExit message, calls)
      | (_, calls) \<Rightarrow> ([], LockBail ''unexpected response to lock sign'', calls))"

text \<open>\<open>argon\<close> is the key-derivation function with the parameters the source fixes.\<close>

definition disablement_kdf_line ::
  "(string \<Rightarrow> string) \<Rightarrow> (string \<Rightarrow> (string, string) result) \<Rightarrow> string \<Rightarrow> (string, string) result" where
  "disablement_kdf_line lossy argon secret =
     rbind (map_err (\<lambda>_. ''disablement secret must be hex-encoded'') (hex_decode_lower lossy secret)) (\<lambda>bs.
     rbind (map_err (\<lambda>e. ''argon2 derivation failed: '' @ e) (argon bs)) (\<lambda>out.
     Inr (''disablement:'' @ lower_hex out)))"

section \<open>What a plan is\<close>

lemma parse_lock_args_nothing:
  "parse_lock_args_from lossy True True n args = Inr ([], []) \<longleftrightarrow> args = []"
  by (cases args) (auto simp: rbind_def split: sum.splits prod.splits)

lemma lock_init_refusal_ok:
  "lock_init_refusal lossy args enabled = Inr n \<longleftrightarrow>
    \<not> enabled \<and> li_positionals args = [] \<and> \<not> li_for_support args \<and>
    (case li_supplied_secret args of
       Some s \<Rightarrow> li_gen_disablements args = None \<and> is_ok (hex_decode_lower lossy s) \<and> n = 1
     | None \<Rightarrow> unwrap_or (li_gen_disablements args) 1 = 1 \<and> n = 1)"
proof -
  have "(\<exists>ks ds. parse_lock_args lossy (li_positionals args) True True = Inr (ks, ds) \<and> ks = [] \<and> ds = []) \<longleftrightarrow>
      li_positionals args = []"
    by (simp add: parse_lock_args_def parse_lock_args_nothing)
  then show ?thesis
    by (cases "parse_lock_args lossy (li_positionals args) True True"; cases "li_supplied_secret args";
        cases "li_gen_disablements args"; cases "hex_decode_lower lossy (the (li_supplied_secret args))")
      (auto simp: lock_init_refusal_def Let_def split: if_splits)
qed

text \<open>
  \<open>lock init\<close> goes ahead exactly when the lock is not enabled yet, no trusted key and no precomputed value
  is given, no secret for support is asked for, the one disablement is either minted (the default, or
  \<open>--gen-disablements 1\<close>) or supplied in hexadecimal, and \<open>--confirm\<close> is there; the secret handed to the
  daemon is then the minted one in upper case, or the supplied text.
\<close>

theorem lock_init_goes_ahead:
  "plan_lock_init lossy program args enabled mint = Inr (InitLock hex pre note) \<longleftrightarrow>
    \<not> enabled \<and> li_positionals args = [] \<and> \<not> li_for_support args \<and> li_confirm args \<and> pre = init_preamble \<and>
    (case li_supplied_secret args of
       Some s \<Rightarrow> li_gen_disablements args = None \<and> is_ok (hex_decode_lower lossy s) \<and> hex = s \<and>
         note = writeln SUPPORT_DISABLEMENT_NOTE
     | None \<Rightarrow> unwrap_or (li_gen_disablements args) 1 = 1 \<and>
         (\<exists>secret. mint = Inr secret \<and> hex = hex_encode_upper secret \<and>
            note = minted_notice 1 hex @ writeln SUPPORT_DISABLEMENT_NOTE))"
proof -
  have "plan_lock_init lossy program args enabled mint = Inr (InitLock hex pre note) \<longleftrightarrow>
    (\<exists>n. lock_init_refusal lossy args enabled = Inr n \<and> li_confirm args \<and> pre = init_preamble \<and>
      (case li_supplied_secret args of
         Some s \<Rightarrow> hex = s \<and> note = writeln SUPPORT_DISABLEMENT_NOTE
       | None \<Rightarrow> \<exists>secret. mint = Inr secret \<and> hex = hex_encode_upper secret \<and>
            note = minted_notice n hex @ writeln SUPPORT_DISABLEMENT_NOTE))"
    by (auto simp: plan_lock_init_def rbind_eq_Inr Let_def split: option.splits)
  then show ?thesis by (auto simp: lock_init_refusal_ok split: option.splits)
qed

section \<open>What the commands do\<close>

lemma run_lock_init_cases:
  assumes "run_lock_init dev lossy program args mint = (out, fin, calls)"
  obtains (refused) "calls = []" "fin \<noteq> LockDone" "out = []"
  | (asked) en t where "calls = []" "fin = LockDone" "plan_lock_init lossy program args en mint = Inr (Confirm t)" "out = t"
  | (sent) E hex pre nt where "dev = Some E" "plan_lock_init lossy program args False mint = Inr (InitLock hex pre nt)"
      "calls = snd (lock_init E hex)"
      "(case fst (lock_init E hex) of
          LrOk m \<Rightarrow> fin = LockDone \<and> out = pre @ nt @ writeln ''Initialization complete.'' @ writeln m
        | LrError m \<Rightarrow> fin = LockExit m \<and> out = pre
        | _ \<Rightarrow> fin = LockBail ''unexpected response to lock init'' \<and> out = pre)"
proof (cases dev)
  case None
  with assms show ?thesis by (auto simp: run_lock_init_def lock_dispatch_def intro: refused)
next
  case (Some E)
  show ?thesis
  proof (cases "lock_status E")
    case (LrLock en hd dis)
    then have st: "fst (lock_dispatch dev LockStatus) = LrLock en hd dis" using Some by (simp add: lock_dispatch_def)
    show ?thesis
    proof (cases "plan_lock_init lossy program args en mint")
      case (Inl e)
      with assms st show ?thesis by (auto simp: run_lock_init_def intro: refused)
    next
      case (Inr plan)
      show ?thesis
      proof (cases plan)
        case (Confirm t)
        with Inr assms st show ?thesis by (auto simp: run_lock_init_def intro: asked)
      next
        case (InitLock hex pre nt)
        with Inr have p: "plan_lock_init lossy program args en mint = Inr (InitLock hex pre nt)" by simp
        then have en: "\<not> en" using lock_init_goes_ahead by blast
        have "lock_dispatch dev (LockInit hex) = lock_init E hex" using Some by (simp add: lock_dispatch_def)
        with assms st p show ?thesis
          by (intro sent [of E hex pre nt])
            (auto simp: run_lock_init_def Some en split: lock_reply.splits prod.splits)
      qed
    qed
  qed (use assms Some in \<open>auto simp: run_lock_init_def lock_dispatch_def intro: refused\<close>)
qed


definition demo_tka :: tka_engine where
  "demo_tka = \<lparr>tka_status = Inr None, tka_init = (\<lambda>_. Inr ()), tka_disable = (\<lambda>_. Inr ()),
     tka_sign = (\<lambda>_. Inr ()), tka_log = (\<lambda>_. Inr []), tka_node_key = Some\<rparr>"

definition demo_init :: LockInitArgs where
  "demo_init = \<lparr>li_positionals = [], li_gen_disablements = None, li_for_support = False, li_confirm = True,
     li_supplied_secret = None\<rparr>"

lemma demo_lock_init:
  "snd (run_lock_init (Some demo_tka) id ''tnet'' demo_init (Inr ''k'')) = (LockDone, [TkaInit ''k''])"
  by code_simp


text \<open>
  The secret goes back the way it came only without its label: \<open>lock disable\<close> hands the engine the bytes of
  the hexadecimal text, but refuses the line \<open>disablement-secret:...\<close> as \<open>lock init\<close> printed it.
\<close>

theorem printed_secret_line_refused:
  "run_lock_disable (Some E) (hex_encode_upper secret) =
     (case tka_disable E secret of
        Inr _ \<Rightarrow> (writeln ''ok: Tailnet Lock disabled for the tailnet (applies on the next netmap sync)'', LockDone, [TkaDisable secret])
      | Inl e \<Rightarrow> ([], LockExit (''tailnet lock disable failed: '' @ e), [TkaDisable secret])) \<and>
   run_lock_disable (Some E) (''disablement-secret:'' @ hex_encode_upper secret) =
     ([], LockExit ''invalid disablement secret: expected a hex-encoded value'', [])"
proof -
  have a: "decode_hex (hex_encode_upper secret) = Some secret" by (simp add: minted_hex.dec_enc)
  have "odd (length (''disablement-secret:'' @ hex_encode_upper secret))" by (simp add: hex_printers)
  then have b: "decode_hex (''disablement-secret:'' @ hex_encode_upper secret) = None"
    by (simp only: decode_hex_def odd_iff_mod_2_eq_one) simp
  show ?thesis
    by (simp only: run_lock_disable_def lock_dispatch_def lock_disable_def a b option.case lock_request.case prod.case lock_reply.case)
      (simp split: sum.split)
qed



section \<open>Keys read back\<close>

text \<open>
  A tailnet-lock key is read exactly when it carries one of the two prefixes and 64 hexadecimal digits, and
  printing a key the way the log does (\<open>tlpub:\<close> and lower-case digits) reads back as the same 32 bytes.
\<close>

theorem lock_key_round_trip:
  assumes "length key = 32" and "p = ''nlpub:'' \<or> p = ''tlpub:''"
  shows "parse_lock_public_key (p @ lower_hex key) = Inr key"
proof -
  have "or_else (strip_prefix (p @ lower_hex key) ''nlpub:'') (strip_prefix (p @ lower_hex key) ''tlpub:'') = Some (lower_hex key)"
    using assms(2) by (auto simp: strip_prefix_def)
  moreover have "decode_pairs id (lower_hex key) = Inr key" by (simp add: hex_printers decode_pairs_print_hex)
  ultimately show ?thesis using assms(1) by (simp add: parse_lock_public_key_def hex_printers)
qed

theorem lock_key_round_trip_witness:
  "parse_lock_public_key (''tlpub:'' @ lower_hex (replicate 32 (CHR 0xAB))) = Inr (replicate 32 (CHR 0xAB))"
  by (rule lock_key_round_trip) simp_all

end
