(* ===== verification/IpForward.thy ===== *)
theory IpForward
  imports Routes Utf8Chars "HOL-Library.List_Lexorder" "HOL-Library.Char_ord"
begin

text \<open>
  \<open>src/src/ipforward.rs\<close>: does the host forward what this node routes? The warning of the LocalAPI check, and
  the verdict behind Go's \<open>ip-forwarding-off\<close> health warning with the per-interface switches. The file
  system under \<open>/proc/sys\<close> is a parameter, and so is the target the daemon is built for.
\<close>

section \<open>The host\<close>

datatype target_os = Linux | Bsd | OtherOs

text \<open>\<open>pf_read\<close>: the bytes of a file, or an error with its text and whether it means that there is no such file.\<close>

record proc_fs =
  pf_read :: "string \<Rightarrow> (bool \<times> string, string) result"
  pf_is_dir :: "string \<Rightarrow> (string, bool) result"

definition LF_KB :: string where
  "LF_KB = LF # ''See https://tailscale.com/s/ip-forwarding''"

section \<open>The warning\<close>

definition read_proc_forwarding :: "proc_fs \<Rightarrow> string \<Rightarrow> (string, bool) result" where
  "read_proc_forwarding F path =
     (case pf_read F path of
        Inl (_, e) \<Rightarrow> Inl (path @ '': '' @ e)
      | Inr raw \<Rightarrow>
          (let t = utrim raw in
           if t = ''0'' then Inr False
           else if t = ''1'' \<or> t = ''2'' then Inr True
           else Inl (path @ '': unexpected value '' @ debug_str t)))"

definition forwarding_warning_os :: "target_os \<Rightarrow> proc_fs \<Rightarrow> string" where
  "forwarding_warning_os os F =
     (if os \<noteq> Linux then []
      else case (read_proc_forwarding F ''/proc/sys/net/ipv4/ip_forward'',
                 read_proc_forwarding F ''/proc/sys/net/ipv6/conf/all/forwarding'') of
          (Inr True, Inr True) \<Rightarrow> []
        | (Inr False, Inr False) \<Rightarrow> ''IP forwarding is disabled, subnet routing/exit nodes will not work.'' @ LF_KB
        | (Inr True, Inr False) \<Rightarrow> ''IPv6 forwarding is disabled, subnet routing/exit nodes may not work.'' @ LF_KB
        | (Inr False, Inr True) \<Rightarrow> ''IP forwarding is disabled, subnet routing/exit nodes will not work.'' @ LF_KB
        | (Inl e, _) \<Rightarrow>
            ''Couldn't check system's IP forwarding configuration, subnet routing/exit nodes may not work: '' @ e @ LF_KB
        | (_, Inl e) \<Rightarrow>
            ''Couldn't check system's IP forwarding configuration, subnet routing/exit nodes may not work: '' @ e @ LF_KB)"

definition forwarding_warning :: "target_os \<Rightarrow> proc_fs \<Rightarrow> bool \<Rightarrow> string" where
  "forwarding_warning os F tun_enabled = (if \<not> tun_enabled then [] else forwarding_warning_os os F)"

section \<open>One switch\<close>

datatype Protocol = ProtoV4 | ProtoV6

definition ip_forward_sysctl_key :: "Protocol \<Rightarrow> string \<Rightarrow> string" where
  "ip_forward_sysctl_key p iface =
     (case p of
        ProtoV4 \<Rightarrow> if iface = [] then ''net/ipv4/ip_forward'' else ''net/ipv4/conf/'' @ iface @ ''/forwarding''
      | ProtoV6 \<Rightarrow> if iface = [] then ''net/ipv6/conf/all/forwarding''
                   else ''net/ipv6/conf/'' @ iface @ ''/forwarding'')"

text \<open>\<open>str::parse::<i32>\<close>: the digits left to right, an invalid one before an overflow.\<close>

fun i32_digits :: "bool \<Rightarrow> int \<Rightarrow> string \<Rightarrow> (string, int) result" where
  "i32_digits neg acc [] = Inr acc"
| "i32_digits neg acc (c # cs) =
     (if \<not> is_ascii_digit c then Inl ''invalid digit found in string''
      else let n = (if neg then acc * 10 - int (digit_val c) else acc * 10 + int (digit_val c)) in
        if 2 ^ 31 \<le> n then Inl ''number too large to fit in target type''
        else if n < - (2 ^ 31) then Inl ''number too small to fit in target type''
        else i32_digits neg n cs)"

definition parse_i32 :: "string \<Rightarrow> (string, int) result" where
  "parse_i32 s =
     (case s of
        [] \<Rightarrow> Inl ''cannot parse integer from empty string''
      | c # cs \<Rightarrow>
          if c = CHR ''+'' \<or> c = CHR ''-'' then
            (if cs = [] then Inl ''invalid digit found in string'' else i32_digits (c = CHR ''-'') 0 cs)
          else i32_digits False 0 s)"

definition ip_forwarding_enabled_linux :: "proc_fs \<Rightarrow> Protocol \<Rightarrow> string \<Rightarrow> (string, bool) result" where
  "ip_forwarding_enabled_linux F p iface =
     (let key = ip_forward_sysctl_key p iface in
      if CHR ''/'' \<in> set iface \<or> iface = ''.'' \<or> iface = ''..''
      then Inl (''invalid interface name '' @ debug_str iface)
      else case pf_read F (''/proc/sys/'' @ key) of
        Inl (True, _) \<Rightarrow>
          (case pf_is_dir F ''/proc/sys'' of
             Inl e \<Rightarrow> Inl (''failed to check sysctl '' @ key @ ''; no procfs? '' @ e)
           | Inr False \<Rightarrow> Inl (''failed to check sysctl '' @ key @ ''; /proc/sys isn't a directory'')
           | Inr True \<Rightarrow> Inr False)
      | Inl (False, e) \<Rightarrow> Inl e
      | Inr bytes \<Rightarrow>
          (case parse_i32 (utrim (from_utf8_lossy bytes)) of
             Inl e \<Rightarrow> Inl (''couldn't parse '' @ key @ '': '' @ e)
           | Inr v \<Rightarrow>
               if \<not> (0 \<le> v \<and> v \<le> 2) then Inl (''unexpected value '' @ (if v < 0 then CHR ''-'' # dec_string (nat (- v))
                      else dec_string (nat v)) @ '' for '' @ key)
               else Inr (v = 1 \<or> v = 2)))"

section \<open>The verdict\<close>

definition max_prefix_len :: "ipnet \<Rightarrow> nat" where
  "max_prefix_len r = (case r of NetV4 _ _ \<Rightarrow> 32 | NetV6 _ _ \<Rightarrow> 128)"

definition is_ipv4 :: "ipaddr \<Rightarrow> bool" where
  "is_ipv4 a = (case a of V4 _ \<Rightarrow> True | V6 _ \<Rightarrow> False)"

fun protocols_required_for_forwarding :: "ipnet list \<Rightarrow> (string \<times> ipaddr) list \<Rightarrow> bool \<times> bool" where
  "protocols_required_for_forwarding [] ips = (False, False)"
| "protocols_required_for_forwarding (r # rs) ips =
     (let rest = protocols_required_for_forwarding rs ips in
      if prefix_len r = max_prefix_len r \<and> list_ex (\<lambda>(_, ip). ip = addr r) ips then rest
      else if is_ipv4 (addr r) then (True, snd rest) else (fst rest, True))"

text \<open>The loop over the interface names, in the order of the sorted set; a read error ends it.\<close>

fun interface_verdict :: "(Protocol \<Rightarrow> string \<Rightarrow> (string, bool) result) \<Rightarrow> bool \<Rightarrow> bool \<Rightarrow> string list \<Rightarrow> bool" where
  "interface_verdict rd any_enabled warnings [] = (\<not> any_enabled \<or> warnings)"
| "interface_verdict rd any_enabled warnings (n # ns) =
     (if n = ''lo'' then interface_verdict rd any_enabled warnings ns
      else case rd ProtoV4 n of
        Inl _ \<Rightarrow> False
      | Inr False \<Rightarrow> interface_verdict rd any_enabled True ns
      | Inr True \<Rightarrow> interface_verdict rd True warnings ns)"

definition sorted_names :: "(string \<times> ipaddr) list \<Rightarrow> string list" where
  "sorted_names ips = remdups (sort (map fst ips))"

definition ip_forwarding_broken_linux ::
  "ipnet list \<Rightarrow> (string \<times> ipaddr) list \<Rightarrow> (Protocol \<Rightarrow> string \<Rightarrow> (string, bool) result) \<Rightarrow> bool" where
  "ip_forwarding_broken_linux routes ips rd =
     (let (want_v4, want_v6) = protocols_required_for_forwarding routes ips in
      if \<not> want_v4 \<and> \<not> want_v6 then False
      else case (rd ProtoV4 [], rd ProtoV6 []) of
        (Inr v4e, Inr v6e) \<Rightarrow>
          if v4e \<and> v6e then False
          else if \<not> want_v4 then False
          else interface_verdict rd False (want_v6 \<and> \<not> v6e) (sorted_names ips)
      | _ \<Rightarrow> False)"

definition ip_forwarding_broken ::
  "target_os \<Rightarrow> proc_fs \<Rightarrow> bool \<Rightarrow> ipnet list \<Rightarrow> (string, (string \<times> ipaddr) list) result \<Rightarrow> bool" where
  "ip_forwarding_broken os F tun_enabled routes interface_ips =
     (if \<not> tun_enabled \<or> routes = [] then False
      else case os of
        Linux \<Rightarrow>
          (case interface_ips of
             Inr ips \<Rightarrow> ip_forwarding_broken_linux routes ips (ip_forwarding_enabled_linux F)
           | Inl _ \<Rightarrow> False)
      | Bsd \<Rightarrow> True
      | OtherOs \<Rightarrow> False)"

section \<open>What the verdict is\<close>

text \<open>A route needs its family forwarded unless it is a single address of this host.\<close>

definition needs_forwarding :: "(string \<times> ipaddr) list \<Rightarrow> ipnet \<Rightarrow> bool" where
  "needs_forwarding ips r \<longleftrightarrow> \<not> (prefix_len r = max_prefix_len r \<and> addr r \<in> snd ` set ips)"

lemma protocols_required:
  "protocols_required_for_forwarding rs ips =
    ((\<exists>r \<in> set rs. needs_forwarding ips r \<and> is_ipv4 (addr r)), (\<exists>r \<in> set rs. needs_forwarding ips r \<and> \<not> is_ipv4 (addr r)))"
proof (induction rs)
  case (Cons r rs)
  have "list_ex (\<lambda>(_, ip). ip = addr r) ips \<longleftrightarrow> addr r \<in> snd ` set ips"
    by (force simp: list_ex_iff)
  with Cons show ?case by (auto simp: needs_forwarding_def Let_def)
qed simp

lemma interface_verdict_eq:
  "interface_verdict rd any warn ns \<longleftrightarrow>
    (\<forall>n \<in> set ns - {''lo''}. is_ok (rd ProtoV4 n)) \<and>
    (warn \<or> (\<exists>n \<in> set ns - {''lo''}. rd ProtoV4 n = Inr False) \<or>
     \<not> any \<and> \<not> (\<exists>n \<in> set ns - {''lo''}. rd ProtoV4 n = Inr True))"
proof (induction ns arbitrary: any warn)
  case (Cons n ns)
  show ?case
  proof (cases "n = ''lo''")
    case True
    then show ?thesis using Cons by simp
  next
    case False
    show ?thesis
    proof (cases "rd ProtoV4 n")
      case (Inl e)
      then have "\<not> is_ok (rd ProtoV4 n)" by simp
      then show ?thesis using False Inl by (auto simp: Ball_def)
    next
      case (Inr b)
      with False Cons show ?thesis by (cases b) auto
    qed
  qed
qed auto

text \<open>
  C37. The health verdict on Linux: broken means that a kernel tunnel advertises an IPv4 route of others, the
  two global switches can be read and are not both on, every switch of an interface other than \<open>lo\<close> can be
  read, and one of them is off, or none is on, or an IPv6 route needs the IPv6 switch that is off. Whatever
  cannot be read, and a node whose routes are IPv6 only, counts as healthy.
\<close>

theorem ip_forwarding_broken_exact:
  "ip_forwarding_broken Linux F tun routes (Inr ips) \<longleftrightarrow>
    (let rd = ip_forwarding_enabled_linux F; ifaces = fst ` set ips - {''lo''} in
     tun \<and> (\<exists>r \<in> set routes. needs_forwarding ips r \<and> is_ipv4 (addr r)) \<and>
     (\<exists>v4 v6. rd ProtoV4 [] = Inr v4 \<and> rd ProtoV6 [] = Inr v6 \<and> \<not> (v4 \<and> v6) \<and>
       (\<forall>n \<in> ifaces. is_ok (rd ProtoV4 n)) \<and>
       ((\<exists>r \<in> set routes. needs_forwarding ips r \<and> \<not> is_ipv4 (addr r)) \<and> \<not> v6 \<or>
        (\<exists>n \<in> ifaces. rd ProtoV4 n = Inr False) \<or> \<not> (\<exists>n \<in> ifaces. rd ProtoV4 n = Inr True))))"
proof -
  have ns: "set (sorted_names ips) = fst ` set ips" by (simp add: sorted_names_def)
  show ?thesis
    by (cases "ip_forwarding_enabled_linux F ProtoV4 []"; cases "ip_forwarding_enabled_linux F ProtoV6 []")
      (auto simp: ip_forwarding_broken_def ip_forwarding_broken_linux_def protocols_required interface_verdict_eq ns Let_def)
qed

definition demo_proc :: proc_fs where
  "demo_proc =
     \<lparr>pf_read = (\<lambda>p. if p = ''/proc/sys/net/ipv4/conf/eth0/forwarding'' \<or> p = ''/proc/sys/net/ipv4/ip_forward'' then Inr ''0''
        else Inr ''1''),
      pf_is_dir = (\<lambda>_. Inr True)\<rparr>"

theorem ip_forwarding_broken_exact_witness:
  "ip_forwarding_broken Linux demo_proc True [NetV4 5 8] (Inr [(''eth0'', V4 5)])"
proof -
  have "ip_forwarding_enabled_linux demo_proc ProtoV4 [] = Inr False" "ip_forwarding_enabled_linux demo_proc ProtoV6 [] = Inr True"
    "ip_forwarding_enabled_linux demo_proc ProtoV4 ''eth0'' = Inr False"
    by code_simp+
  then show ?thesis
    by (simp add: ip_forwarding_broken_exact Let_def needs_forwarding_def max_prefix_len_def is_ipv4_def ex_bool_eq)
qed

text \<open>
  No name an interface can be given makes the check read outside \<open>/proc/sys/net\<close>: every path that is read
  has the name as one component between fixed ones.
\<close>

lemma sysctl_path_contained:
  assumes "\<forall>path. path \<in> paths \<longrightarrow> pf_read F path = pf_read G path"
    and "paths = {''/proc/sys/net/ipv4/ip_forward'', ''/proc/sys/net/ipv6/conf/all/forwarding''} \<union>
      {''/proc/sys/net/ipv4/conf/'' @ n @ ''/forwarding'' | n. CHR ''/'' \<notin> set n \<and> n \<noteq> [] \<and> n \<noteq> ''.'' \<and> n \<noteq> ''..''} \<union>
      {''/proc/sys/net/ipv6/conf/'' @ n @ ''/forwarding'' | n. CHR ''/'' \<notin> set n \<and> n \<noteq> [] \<and> n \<noteq> ''.'' \<and> n \<noteq> ''..''}"
    and "pf_is_dir F = pf_is_dir G"
  shows "ip_forwarding_enabled_linux F p iface = ip_forwarding_enabled_linux G p iface"
proof (cases "CHR ''/'' \<in> set iface \<or> iface = ''.'' \<or> iface = ''..''")
  case True
  then show ?thesis by (simp add: ip_forwarding_enabled_linux_def Let_def)
next
  case False
  have "''/proc/sys/'' @ ip_forward_sysctl_key p iface \<in> paths"
    using False by (cases p; cases "iface = []") (auto simp: ip_forward_sysctl_key_def assms(2))
  then have "pf_read F (''/proc/sys/'' @ ip_forward_sysctl_key p iface) = pf_read G (''/proc/sys/'' @ ip_forward_sysctl_key p iface)"
    using assms(1) by blast
  then show ?thesis unfolding ip_forwarding_enabled_linux_def Let_def assms(3) by (simp only:)
qed

end
