(* ===== verification/LinkMon.thy ===== *)
theory LinkMon
  imports IpForward BTree
begin

text \<open>
  \<open>src/src/ipn/linkmon.rs\<close> and the loop of \<open>src/src/ipn/mod.rs\<close> that runs it: the snapshot of the addresses that
  matter to a path, the poll that rebinds the engine when the snapshot changes, Go's question whether any
  interface could reach the Internet, and the network state that the debug commands print. The list of
  interface addresses comes from the operating system and is an input.
\<close>

unbundle bit_operations_syntax

section \<open>Addresses\<close>

text \<open>The octets and segments the predicates read are fields of the address as a number.\<close>

definition octet4 :: "32 word \<Rightarrow> nat \<Rightarrow> 32 word" where
  "octet4 a i = drop_bit (8 * (3 - i)) a AND 0xFF"

definition segment6 :: "128 word \<Rightarrow> nat \<Rightarrow> 128 word" where
  "segment6 a i = drop_bit (16 * (7 - i)) a AND 0xFFFF"

definition is_loopback :: "ipaddr \<Rightarrow> bool" where
  "is_loopback a = (case a of V4 v \<Rightarrow> octet4 v 0 = 127 | V6 v \<Rightarrow> v = 1)"

definition is_link_local4 :: "32 word \<Rightarrow> bool" where
  "is_link_local4 v \<longleftrightarrow> octet4 v 0 = 169 \<and> octet4 v 1 = 254"

definition is_tailnet_v4 :: "32 word \<Rightarrow> bool" where
  "is_tailnet_v4 v \<longleftrightarrow> octet4 v 0 = 100 \<and> octet4 v 1 AND 0xC0 = 0x40"

definition is_tailnet_v6 :: "128 word \<Rightarrow> bool" where
  "is_tailnet_v6 v \<longleftrightarrow> segment6 v 0 = 0xFD7A \<and> segment6 v 1 = 0x115C \<and> segment6 v 2 = 0xA1E0"

definition is_tailscale_ip :: "ipaddr \<Rightarrow> bool" where
  "is_tailscale_ip a = (case a of V4 v \<Rightarrow> is_tailnet_v4 v | V6 v \<Rightarrow> is_tailnet_v6 v)"

definition is_path_relevant :: "ipaddr \<Rightarrow> bool" where
  "is_path_relevant a =
     (if is_loopback a then False
      else case a of
        V6 v \<Rightarrow> if segment6 v 0 AND 0xFFC0 = 0xFE80 then False else \<not> is_tailnet_v6 v
      | V4 v \<Rightarrow> \<not> is_tailnet_v4 v)"

definition is_usable_v4 :: "ipaddr \<Rightarrow> bool" where
  "is_usable_v4 a = (case a of V4 v \<Rightarrow> \<not> is_loopback a \<and> \<not> is_link_local4 v | V6 _ \<Rightarrow> False)"

definition is_usable_v6 :: "ipaddr \<Rightarrow> bool" where
  "is_usable_v6 a =
     (case a of
        V6 v \<Rightarrow> segment6 v 0 AND 0xE000 = 0x2000 \<or> segment6 v 0 AND 0xFE00 = 0xFC00 \<and> \<not> is_tailnet_v6 v
      | V4 _ \<Rightarrow> False)"

section \<open>The snapshot and the monitor\<close>

record LinkSnapshot =
  ls_addrs :: "ipaddr set"

definition from_addrs :: "ipaddr list \<Rightarrow> LinkSnapshot" where
  "from_addrs addrs = \<lparr>ls_addrs = set (filter is_path_relevant addrs)\<rparr>"

definition changed :: "LinkSnapshot \<Rightarrow> LinkSnapshot \<Rightarrow> bool" where
  "changed a b \<longleftrightarrow> ls_addrs a \<noteq> ls_addrs b"

text \<open>An enumeration that fails is an empty snapshot.\<close>

definition snapshot :: "(string, ipaddr list) result \<Rightarrow> LinkSnapshot" where
  "snapshot r = (case r of Inr ips \<Rightarrow> from_addrs ips | Inl _ \<Rightarrow> \<lparr>ls_addrs = {}\<rparr>)"

text \<open>
  The loop over the polls. A poll is what the enumeration returns and what a rebind of the engine would
  return then; the answer per poll is the result of the rebind, or \<open>None\<close> when there was none. The result
  of a rebind is only logged.
\<close>

type_synonym poll = "(string, ipaddr list) result \<times> (string, unit) result"

fun link_monitor_loop :: "LinkSnapshot \<Rightarrow> poll list \<Rightarrow> (string, unit) result option list" where
  "link_monitor_loop prev [] = []"
| "link_monitor_loop prev ((addrs, rebind) # ps) =
     (let now = snapshot addrs in
      if changed prev now then Some rebind # link_monitor_loop now ps else None # link_monitor_loop prev ps)"

section \<open>Can the host reach the Internet at all?\<close>

record InterfaceAddr =
  ia_name :: string
  ia_ip :: ipaddr
  ia_prefix_len :: nat
  ia_index :: "nat option"
  ia_oper_up :: bool
  ia_point_to_point :: bool

text \<open>\<open>apple\<close> is the build for macOS or iOS.\<close>

definition is_tailscale_interface :: "bool \<Rightarrow> string \<Rightarrow> ipaddr list \<Rightarrow> bool" where
  "is_tailscale_interface apple name ips =
     (if apple \<and> starts_with name ''utun'' \<and> list_ex is_tailscale_ip ips then True
      else name = ''Tailscale'' \<or> starts_with name ''tailscale'')"

definition group_addr :: "InterfaceAddr \<Rightarrow> (bool \<times> ipaddr list) btree \<Rightarrow> (bool \<times> ipaddr list) btree" where
  "group_addr a m =
     (let (up, ips) = (case bt_get m (ia_name a) of Some e \<Rightarrow> e | None \<Rightarrow> (False, [])) in
      bt_insert (ia_name a) (up \<or> ia_oper_up a, ips @ [ia_ip a]) m)"

definition any_interface_up_from :: "bool \<Rightarrow> InterfaceAddr list \<Rightarrow> bool" where
  "any_interface_up_from apple addrs =
     list_ex (\<lambda>(name, up, ips). up \<and> \<not> is_tailscale_interface apple name ips \<and>
         list_ex (\<lambda>ip. is_usable_v4 ip \<or> is_usable_v6 ip) ips)
       (fold group_addr addrs [])"

text \<open>\<open>None\<close> is unknown, not down.\<close>

definition any_interface_up :: "bool \<Rightarrow> (string, InterfaceAddr list) result \<Rightarrow> bool option" where
  "any_interface_up apple r = (case r of Inr addrs \<Rightarrow> Some (any_interface_up_from apple addrs) | Inl _ \<Rightarrow> None)"

definition interface_ips :: "(string, InterfaceAddr list) result \<Rightarrow> (string, (string \<times> ipaddr) list) result" where
  "interface_ips r = (case r of Inr addrs \<Rightarrow> Inr (map (\<lambda>a. (ia_name a, ia_ip a)) addrs) | Inl e \<Rightarrow> Inl e)"

section \<open>The network state\<close>

record InterfaceInfo =
  ii_index :: "nat option"
  ii_name :: string
  ii_flags :: "string list"

record NetworkState =
  ns_interface_ips :: "string list btree"
  ns_interfaces :: "InterfaceInfo btree"
  ns_have_v4 :: bool
  ns_have_v6 :: bool
  ns_path :: LinkSnapshot

record iface_acc =
  ac_index :: "nat option"
  ac_up :: bool
  ac_loopback :: bool
  ac_p2p :: bool

definition acc_default :: iface_acc where
  "acc_default = \<lparr>ac_index = None, ac_up = False, ac_loopback = False, ac_p2p = False\<rparr>"

definition merge_addr :: "InterfaceAddr \<Rightarrow> iface_acc \<Rightarrow> iface_acc" where
  "merge_addr a e =
     \<lparr>ac_index = or_else (ac_index e) (ia_index a), ac_up = (ac_up e \<or> ia_oper_up a),
      ac_loopback = (ac_loopback e \<or> is_loopback (ia_ip a)), ac_p2p = (ac_p2p e \<or> ia_point_to_point a)\<rparr>"

definition bt_modify :: "string \<Rightarrow> 'v \<Rightarrow> ('v \<Rightarrow> 'v) \<Rightarrow> 'v btree \<Rightarrow> 'v btree" where
  "bt_modify k d f m = bt_insert k (f (case bt_get m k of Some v \<Rightarrow> v | None \<Rightarrow> d)) m"

definition info_of :: "string \<Rightarrow> iface_acc \<Rightarrow> InterfaceInfo" where
  "info_of name a =
     \<lparr>ii_index = ac_index a, ii_name = name,
      ii_flags = (if ac_up a then [''up''] else []) @ (if ac_loopback a then [''loopback''] else []) @
        (if ac_p2p a then [''pointtopoint''] else [])\<rparr>"

definition from_interfaces :: "InterfaceAddr list \<Rightarrow> NetworkState" where
  "from_interfaces addrs =
     (let path = from_addrs (map ia_ip addrs) in
      \<lparr>ns_interface_ips =
         fold (\<lambda>a. bt_modify (ia_name a) [] (\<lambda>l. l @ [show_ipaddr (ia_ip a) @ ''/'' @ dec_string (ia_prefix_len a)])) addrs [],
       ns_interfaces =
         map (\<lambda>(name, e). (name, info_of name e)) (fold (\<lambda>a. bt_modify (ia_name a) acc_default (merge_addr a)) addrs []),
       ns_have_v4 = (\<exists>a \<in> ls_addrs path. is_ipv4 a),
       ns_have_v6 = (\<exists>a \<in> ls_addrs path. \<not> is_ipv4 a),
       ns_path = path\<rparr>)"

definition current_state :: "(string, InterfaceAddr list) result \<Rightarrow> NetworkState" where
  "current_state r = (case r of Inr addrs \<Rightarrow> from_interfaces addrs | Inl _ \<Rightarrow> from_interfaces [])"

definition interface_names :: "NetworkState \<Rightarrow> string list" where
  "interface_names st = map fst (ns_interfaces st)"

definition path_changed :: "NetworkState \<Rightarrow> NetworkState \<Rightarrow> bool" where
  "path_changed a b = changed (ns_path a) (ns_path b)"

section \<open>The monitor rebinds on changes of the path only\<close>

text \<open>The snapshots of a run of polls, with the baseline in front.\<close>

definition snapshots :: "LinkSnapshot \<Rightarrow> poll list \<Rightarrow> LinkSnapshot list" where
  "snapshots base ps = base # map (snapshot \<circ> fst) ps"

text \<open>
  C38. The engine is rebound at a poll exactly when its snapshot differs from the one of the poll before (the
  baseline, for the first): a rebind is neither missed nor repeated while the addresses stay the same, and
  one that failed is not tried again before the next change.
\<close>

theorem rebinds_on_changes:
  "link_monitor_loop base ps =
    map (\<lambda>i. if snapshots base ps ! i = snapshots base ps ! Suc i then None else Some (snd (ps ! i))) [0..<length ps]"
proof (induction ps arbitrary: base)
  case (Cons p ps)
  obtain addrs rebind where p: "p = (addrs, rebind)" by fastforce
  have diff: "changed base (snapshot addrs) \<longleftrightarrow> base \<noteq> snapshot addrs"
    by (cases base, cases "snapshot addrs") (simp add: changed_def)
  have tail: "map (\<lambda>i. if snapshots base (p # ps) ! i = snapshots base (p # ps) ! Suc i then None
        else Some (snd ((p # ps) ! i))) [0..<length (p # ps)] =
      (if base = snapshot addrs then None else Some rebind) #
      map (\<lambda>i. if snapshots (snapshot addrs) ps ! i = snapshots (snapshot addrs) ps ! Suc i then None
        else Some (snd (ps ! i))) [0..<length ps]"
    by (simp add: snapshots_def p upt_conv_Cons map_Suc_upt [symmetric] comp_def del: upt_Suc)
  show ?case
  proof (cases "base = snapshot addrs")
    case True
    then show ?thesis using diff tail Cons [of base] by (simp add: Let_def p)
  next
    case False
    then show ?thesis using diff tail Cons [of "snapshot addrs"] by (simp add: Let_def p)
  qed
qed simp

text \<open>
  The node's own addresses do not disturb the monitor: addresses of the tailnet, loopback addresses and
  IPv6 link-local ones may come and go without a rebind.
\<close>

theorem own_addresses_no_rebind:
  "\<not> changed (from_addrs (xs @ filter (\<lambda>a. is_tailscale_ip a \<or> is_loopback a) ys @ zs)) (from_addrs (xs @ zs))"
proof -
  have "\<not> is_path_relevant a" if "is_tailscale_ip a \<or> is_loopback a" for a
    using that by (cases a) (auto simp: is_path_relevant_def is_tailscale_ip_def)
  then show ?thesis by (auto simp: changed_def from_addrs_def)
qed

section \<open>What the interface question answers\<close>

lemma bt_get_group:
  "bt_wf m \<Longrightarrow> bt_wf (fold group_addr addrs m) \<and>
    bt_get (fold group_addr addrs m) k =
      (case (bt_get m k, filter (\<lambda>a. ia_name a = k) addrs) of
         (None, []) \<Rightarrow> None
       | (e, as) \<Rightarrow>
           (let (up, ips) = (case e of Some x \<Rightarrow> x | None \<Rightarrow> (False, [])) in
            Some (up \<or> list_ex ia_oper_up as, ips @ map ia_ip as)))"
proof (induction addrs arbitrary: m)
  case Nil
  then show ?case by (auto split: option.split)
next
  case (Cons a addrs)
  have w: "bt_wf (group_addr a m)" using Cons.prems by (simp add: group_addr_def bt_wf_insert split: prod.split)
  have g: "bt_get (group_addr a m) k =
      (if ia_name a = k then
         (let (up, ips) = (case bt_get m k of Some x \<Rightarrow> x | None \<Rightarrow> (False, [])) in Some (up \<or> ia_oper_up a, ips @ [ia_ip a]))
       else bt_get m k)"
    using Cons.prems by (auto simp: group_addr_def bt_get_insert Let_def split: prod.split)
  show ?case
    using Cons.IH [OF w] unfolding g
    by (auto simp: Let_def split: option.split list.split prod.split)
qed

text \<open>
  The host counts as connected exactly when some usable address sits on an interface that is up and is
  not the tailnet's own: all addresses and flags reported for one name are judged together, and the ranges
  of the tailnet do not disqualify an IPv4 address of another interface.
\<close>

theorem any_interface_up_exact:
  "any_interface_up_from apple addrs \<longleftrightarrow>
    (\<exists>a b. a \<in> set addrs \<and> b \<in> set addrs \<and> ia_name b = ia_name a \<and> ia_oper_up b \<and>
       (is_usable_v4 (ia_ip a) \<or> is_usable_v6 (ia_ip a)) \<and>
       \<not> is_tailscale_interface apple (ia_name a) (map ia_ip (filter (\<lambda>x. ia_name x = ia_name a) addrs)))"
proof -
  let ?m = "fold group_addr addrs []"
  let ?on = "\<lambda>k. filter (\<lambda>a. ia_name a = k) addrs"
  have wf: "bt_wf ?m" using bt_get_group [of "[]" addrs] bt_wf_Nil by blast
  have get: "bt_get ?m k = (if ?on k = [] then None else Some (list_ex ia_oper_up (?on k), map ia_ip (?on k)))" for k
    using bt_get_group [of "[]" addrs k] bt_wf_Nil by (simp add: bt_get_Nil split: list.splits)
  have entries: "(k, up, ips) \<in> set ?m \<longleftrightarrow> ?on k \<noteq> [] \<and> up = list_ex ia_oper_up (?on k) \<and> ips = map ia_ip (?on k)" for k up ips
  proof -
    have "distinct (map fst ?m)" using wf unfolding bt_wf_def by (simp add: strict_sorted_iff)
    then have "(k, up, ips) \<in> set ?m \<longleftrightarrow> bt_get ?m k = Some (up, ips)" by (simp add: bt_get_def map_of_eq_Some_iff)
    then show ?thesis by (auto simp: get)
  qed
  have "any_interface_up_from apple addrs \<longleftrightarrow>
      (\<exists>k up ips. (k, up, ips) \<in> set ?m \<and> up \<and> \<not> is_tailscale_interface apple k ips \<and>
         list_ex (\<lambda>ip. is_usable_v4 ip \<or> is_usable_v6 ip) ips)"
    by (auto simp: any_interface_up_from_def list_ex_iff)
  also have "\<dots> \<longleftrightarrow> (\<exists>k. ?on k \<noteq> [] \<and> list_ex ia_oper_up (?on k) \<and> \<not> is_tailscale_interface apple k (map ia_ip (?on k)) \<and>
         list_ex (\<lambda>ip. is_usable_v4 ip \<or> is_usable_v6 ip) (map ia_ip (?on k)))"
    by (simp add: entries)
  also have "\<dots> \<longleftrightarrow> (\<exists>a b. a \<in> set addrs \<and> b \<in> set addrs \<and> ia_name b = ia_name a \<and> ia_oper_up b \<and>
       (is_usable_v4 (ia_ip a) \<or> is_usable_v6 (ia_ip a)) \<and>
       \<not> is_tailscale_interface apple (ia_name a) (map ia_ip (?on (ia_name a))))"
    by (fastforce simp: list_ex_iff filter_empty_conv)
  finally show ?thesis .
qed

text \<open>
  The dump and the health question read an address differently, although both are documented as Go's usable
  IPv4 path: a host whose only address is an IPv4 link-local one has IPv4 in the dump and is down for the health
  check, and one whose only address is in the carrier-grade range has none in the dump and is up.
\<close>

theorem dump_and_health_disagree:
  "ns_have_v4 (from_interfaces [\<lparr>ia_name = ''eth0'', ia_ip = V4 0xA9FE0001, ia_prefix_len = 16, ia_index = None,
      ia_oper_up = True, ia_point_to_point = False\<rparr>]) \<and>
   \<not> any_interface_up_from apple [\<lparr>ia_name = ''eth0'', ia_ip = V4 0xA9FE0001, ia_prefix_len = 16, ia_index = None,
      ia_oper_up = True, ia_point_to_point = False\<rparr>] \<and>
   \<not> ns_have_v4 (from_interfaces [\<lparr>ia_name = ''eth0'', ia_ip = V4 0x64400001, ia_prefix_len = 10, ia_index = None,
      ia_oper_up = True, ia_point_to_point = False\<rparr>]) \<and>
   any_interface_up_from apple [\<lparr>ia_name = ''eth0'', ia_ip = V4 0x64400001, ia_prefix_len = 10, ia_index = None,
      ia_oper_up = True, ia_point_to_point = False\<rparr>]"
  by (simp add: any_interface_up_exact from_interfaces_def from_addrs_def is_path_relevant_def is_loopback_def octet4_def
      is_tailnet_v4_def is_ipv4_def is_usable_v4_def is_usable_v6_def is_link_local4_def is_tailscale_interface_def
      starts_with_def Let_def)

end
