(* ===== verification/Captive.thy ===== *)
theory Captive
  imports Backend LinkMon
begin

text \<open>
  \<open>src/src/ipn/captive.rs\<close> and the part of \<open>src/src/ipn/mod.rs\<close> that drives it: is this node behind the login
  page of a network? The conditions that count as impaired connectivity and which of them is reported, the
  schedule of the probes, the list of endpoints, the reading of an answer, a whole pass, and the loop that
  records the verdict. Instants and durations are nanoseconds. The URL library, the HTTP client, the
  interface list and the engine's net report are parameters, and so is the Unicode \<open>str::to_lowercase\<close>.
\<close>

section \<open>What impairs connectivity\<close>

definition SECS :: "nat \<Rightarrow> nat" where "SECS n = n * 10 ^ 9"

definition DETECTION_INTERVAL :: nat where "DETECTION_INTERVAL = SECS 2"
definition NO_DERP_HOME_TIME_TO_VISIBLE :: nat where "NO_DERP_HOME_TIME_TO_VISIBLE = SECS 10"
definition NETWORK_STATUS_TIME_TO_VISIBLE :: nat where "NETWORK_STATUS_TIME_TO_VISIBLE = SECS 5"
definition RECHECK_INTERVAL :: nat where "RECHECK_INTERVAL = SECS 30"

datatype ConnectivityWarnable = NetworkStatus | NoDerpHome | IpForwardingOff

definition warnable_code :: "ConnectivityWarnable \<Rightarrow> string" where
  "warnable_code w = (case w of NetworkStatus \<Rightarrow> ''network-status'' | NoDerpHome \<Rightarrow> ''no-derp-home''
     | IpForwardingOff \<Rightarrow> ''ip-forwarding-off'')"

definition time_to_visible :: "ConnectivityWarnable \<Rightarrow> nat" where
  "time_to_visible w = (case w of NetworkStatus \<Rightarrow> NETWORK_STATUS_TIME_TO_VISIBLE
     | NoDerpHome \<Rightarrow> NO_DERP_HOME_TIME_TO_VISIBLE | IpForwardingOff \<Rightarrow> 0)"

definition is_steady :: "ConnectivityWarnable \<Rightarrow> bool" where
  "is_steady w \<longleftrightarrow> w = IpForwardingOff"

definition settle_time :: "ConnectivityWarnable \<Rightarrow> nat" where
  "settle_time w = time_to_visible w + DETECTION_INTERVAL"

record ConnectivityHealth =
  ch_any_interface_up :: "bool option"
  ch_derp_home :: "bool option"
  ch_ip_forwarding :: "bool option"

definition UNKNOWN :: ConnectivityHealth where
  "UNKNOWN = \<lparr>ch_any_interface_up = None, ch_derp_home = None, ch_ip_forwarding = None\<rparr>"

text \<open>\<open>min_by_key\<close> answers the first of the least elements, as \<open>arg_min_list\<close> does.\<close>

definition connectivity_impacted_from :: "state \<Rightarrow> ConnectivityHealth \<Rightarrow> ConnectivityWarnable option" where
  "connectivity_impacted_from st h =
     (if st \<noteq> Running then None
      else
        let bad = map fst (filter (\<lambda>(_, healthy). healthy = Some False)
          [(NetworkStatus, ch_any_interface_up h), (NoDerpHome, ch_derp_home h), (IpForwardingOff, ch_ip_forwarding h)]) in
        if bad = [] then None else Some (arg_min_list (\<lambda>w. (is_steady w, time_to_visible w)) bad))"

text \<open>
  What a tick finds outside the daemon: two enumerations of the interfaces (one per signal), the engine's
  state and net report, and the kernel's switches.
\<close>

datatype netcheck_answer = NetReport "nat option" | NetError | NetTimeout

record host_view =
  hv_ifaces_up :: "(string, InterfaceAddr list) result"
  hv_ifaces_fwd :: "(string, InterfaceAddr list) result"
  hv_device_state :: device_state
  hv_netcheck :: netcheck_answer
  hv_os :: target_os
  hv_apple :: bool
  hv_proc :: proc_fs
  hv_ipnet :: ipnet_lib

definition backend_ip_forwarding_broken :: "host_view \<Rightarrow> backend \<Rightarrow> bool" where
  "backend_ip_forwarding_broken h b =
     (let routes = (case calc_advertise_routes (hv_ipnet h) (advertise_routes (be_prefs b)) (advertise_exit_node (be_prefs b)) of
          Inr rs \<Rightarrow> rs | Inl _ \<Rightarrow> []) in
      ip_forwarding_broken (hv_os h) (hv_proc h) (tun_enabled (be_prefs b)) routes (interface_ips (hv_ifaces_fwd h)))"

definition should_run_captive_portal_detection :: "backend \<Rightarrow> bool" where
  "should_run_captive_portal_detection b = want_running (be_prefs b)"

definition observed_health :: "host_view \<Rightarrow> backend \<Rightarrow> ConnectivityHealth" where
  "observed_health h b =
     \<lparr>ch_any_interface_up = any_interface_up (hv_apple h) (hv_ifaces_up h),
      ch_derp_home = (case hv_netcheck h of NetReport p \<Rightarrow> Some (p \<noteq> None) | NetError \<Rightarrow> None | NetTimeout \<Rightarrow> None),
      ch_ip_forwarding = Some (\<not> backend_ip_forwarding_broken h b)\<rparr>"

definition connectivity_impacted :: "host_view \<Rightarrow> backend \<Rightarrow> ConnectivityWarnable option" where
  "connectivity_impacted h b =
     (if \<not> want_running (be_prefs b) then None
      else
        let st = (if be_device b \<noteq> None then fst (state_from_device (hv_device_state h)) else derive_state b False);
            health = (if st = Running \<and> be_device b \<noteq> None then observed_health h b else UNKNOWN)
        in connectivity_impacted_from st health)"

section \<open>When a probe is due\<close>

record EpisodeTimer =
  et_impacted :: "(ConnectivityWarnable \<times> nat) option"
  et_last_run :: "nat option"

definition timer_default :: EpisodeTimer where
  "timer_default = \<lparr>et_impacted = None, et_last_run = None\<rparr>"

definition recovered :: "EpisodeTimer \<Rightarrow> EpisodeTimer" where
  "recovered t = t\<lparr>et_impacted := None, et_last_run := None\<rparr>"

text \<open>The wait restarts when the warnable changes, and a steady one on either side makes a new episode.\<close>

definition onset :: "EpisodeTimer \<Rightarrow> ConnectivityWarnable \<Rightarrow> nat \<Rightarrow> EpisodeTimer \<times> nat" where
  "onset t w now =
     (let fresh = (\<lambda>steady. ((if steady then t\<lparr>et_last_run := None\<rparr> else t)\<lparr>et_impacted := Some (w, now)\<rparr>, now)) in
      case et_impacted t of
        None \<Rightarrow> fresh (is_steady w)
      | Some (w', since) \<Rightarrow> if w' = w then (t, since) else fresh (is_steady w \<or> is_steady w'))"

definition probe_due :: "EpisodeTimer \<Rightarrow> ConnectivityWarnable \<Rightarrow> nat \<Rightarrow> EpisodeTimer \<times> bool" where
  "probe_due t w now =
     (let (t', since) = onset t w now;
          due = (case et_last_run t' of
             None \<Rightarrow> settle_time w \<le> now - since
           | Some prev \<Rightarrow> \<not> is_steady w \<and> RECHECK_INTERVAL \<le> now - prev)
      in (if due then t'\<lparr>et_last_run := Some now\<rparr> else t', due))"

section \<open>Endpoints and answers\<close>

datatype EndpointProvider = DerpMapPreferred | DerpMapOther | TailscaleProvider

fun provider_rank :: "EndpointProvider \<Rightarrow> nat" where
  "provider_rank DerpMapPreferred = 0"
| "provider_rank DerpMapOther = 1"
| "provider_rank TailscaleProvider = 2"

instantiation EndpointProvider :: linorder
begin

definition less_eq_EndpointProvider :: "EndpointProvider \<Rightarrow> EndpointProvider \<Rightarrow> bool" where
  "p \<le> q \<longleftrightarrow> provider_rank p \<le> provider_rank q"

definition less_EndpointProvider :: "EndpointProvider \<Rightarrow> EndpointProvider \<Rightarrow> bool" where
  "p < q \<longleftrightarrow> provider_rank p < provider_rank q"

instance
proof
  show "p = q" if "p \<le> q" "q \<le> p" for p q :: EndpointProvider
    using that unfolding less_eq_EndpointProvider_def by (cases p; cases q) simp_all
qed (auto simp: less_eq_EndpointProvider_def less_EndpointProvider_def)

end

text \<open>The operations of the URL library the code uses.\<close>

record 'u url_lib =
  ul_parse :: "string \<Rightarrow> 'u option"
  ul_host_str :: "'u \<Rightarrow> string option"
  ul_port :: "'u \<Rightarrow> nat option"
  ul_append_pair :: "string \<Rightarrow> string \<Rightarrow> 'u \<Rightarrow> 'u"

record 'u Endpoint =
  ep_url :: 'u
  ep_status_code :: nat
  ep_expected_content :: string
  ep_supports_challenge :: bool
  ep_provider :: EndpointProvider

definition endpoint_host :: "'u url_lib \<Rightarrow> 'u Endpoint \<Rightarrow> string" where
  "endpoint_host U e =
     (let host = unwrap_or (ul_host_str U (ep_url e)) [] in
      case ul_port U (ep_url e) of Some p \<Rightarrow> host @ '':'' @ dec_string p | None \<Rightarrow> host)"

definition challenge :: "'u url_lib \<Rightarrow> 'u Endpoint \<Rightarrow> string" where
  "challenge U e = ''ts_'' @ endpoint_host U e"

definition expected_response :: "'u url_lib \<Rightarrow> 'u Endpoint \<Rightarrow> string" where
  "expected_response U e = ''response ts_'' @ endpoint_host U e"

text \<open>\<open>slice::windows\<close>.\<close>

definition windows :: "nat \<Rightarrow> string \<Rightarrow> string list" where
  "windows n xs = map (\<lambda>i. take n (drop i xs)) [0..<Suc (length xs) - n]"

definition contains_subslice :: "string \<Rightarrow> string \<Rightarrow> bool" where
  "contains_subslice haystack needle =
     (if needle = [] then True else list_ex (\<lambda>w. w = needle) (windows (length needle) haystack))"

definition response_looks_like_captive ::
  "'u url_lib \<Rightarrow> 'u Endpoint \<Rightarrow> nat \<Rightarrow> string option \<Rightarrow> string option \<Rightarrow> bool" where
  "response_looks_like_captive U e got tailscale_response body =
     (if got \<noteq> ep_status_code e then True
      else if ep_supports_challenge e \<and> tailscale_response \<noteq> Some (expected_response U e) then True
      else if ep_expected_content e = [] then False
      else case body of
        None \<Rightarrow> False
      | Some bytes \<Rightarrow> \<not> contains_subslice bytes (ep_expected_content e))"

record DerpNode =
  dn_ipv4 :: string
  dn_can_port80 :: bool

record DerpRegion =
  dr_region_id :: nat
  dr_avoid :: bool
  dr_no_measure_no_home :: bool
  dr_nodes :: "DerpNode list"

definition derp_endpoint :: "'u url_lib \<Rightarrow> nat option \<Rightarrow> nat \<Rightarrow> DerpNode \<Rightarrow> 'u Endpoint option" where
  "derp_endpoint U preferred region_id node =
     (if dn_ipv4 node = [] \<or> \<not> dn_can_port80 node then None
      else case ul_parse U (''http://'' @ dn_ipv4 node @ ''/generate_204'') of
        None \<Rightarrow> None
      | Some url \<Rightarrow> Some
          \<lparr>ep_url = url, ep_status_code = 204, ep_expected_content = [], ep_supports_challenge = True,
           ep_provider = (if Some region_id = preferred then DerpMapPreferred else DerpMapOther)\<rparr>)"

definition derp_endpoints :: "'u url_lib \<Rightarrow> DerpRegion list \<Rightarrow> nat option \<Rightarrow> 'u Endpoint list" where
  "derp_endpoints U regions preferred =
     concat (map (\<lambda>r. if dr_avoid r \<or> dr_no_measure_no_home r then []
       else List.map_filter (derp_endpoint U preferred (dr_region_id r)) (dr_nodes r)) regions)"

definition tailscale_endpoints :: "'u url_lib \<Rightarrow> 'u Endpoint list" where
  "tailscale_endpoints U =
     List.map_filter (\<lambda>host.
       case ul_parse U (''http://'' @ host @ ''/generate_204'') of
         None \<Rightarrow> None
       | Some url \<Rightarrow> Some
           \<lparr>ep_url = url, ep_status_code = 204, ep_expected_content = [], ep_supports_challenge = False,
            ep_provider = TailscaleProvider\<rparr>)
       [''controlplane.tailscale.com'', ''login.tailscale.com'']"

definition available_endpoints :: "'u url_lib \<Rightarrow> DerpRegion list \<Rightarrow> nat option \<Rightarrow> 'u Endpoint list" where
  "available_endpoints U regions preferred =
     sort_key ep_provider (derp_endpoints U regions preferred @ tailscale_endpoints U)"

section \<open>Interfaces worth probing\<close>

definition excluded_prefixes :: "string \<Rightarrow> string list" where
  "excluded_prefixes goos =
     [''tailscale'', ''tun'', ''tap'', ''docker'', ''kube'', ''wg'', ''ipsec''] @
     (if goos = ''windows'' then [''loopback'', ''tunnel'', ''ppp'', ''isatap'', ''teredo'', ''6to4'']
      else if goos = ''darwin'' \<or> goos = ''ios'' then
        [''pdp'', ''awdl'', ''bridge'', ''ap'', ''utun'', ''tap'', ''llw'', ''anpi'', ''lo'', ''stf'', ''gif'', ''xhc'', ''pktap'']
      else if goos = ''android'' then [''rmnet'', ''p2p'', ''dummy'', ''sit'']
      else [])"

definition interface_name_does_not_need_captive_detection :: "(string \<Rightarrow> string) \<Rightarrow> string \<Rightarrow> string \<Rightarrow> bool" where
  "interface_name_does_not_need_captive_detection lower name goos =
     list_ex (starts_with (lower name)) (excluded_prefixes goos)"

definition goos :: "string \<Rightarrow> string" where
  "goos os = (if os = ''macos'' then ''darwin'' else os)"

definition detection_interfaces :: "(string \<Rightarrow> string) \<Rightarrow> (string \<times> ipaddr) list \<Rightarrow> string \<Rightarrow> string set" where
  "detection_interfaces lower ifaces gos =
     set (map fst (filter (\<lambda>(name, a). \<not> is_loopback a \<and>
       \<not> interface_name_does_not_need_captive_detection lower name gos) ifaces))"

definition host_detection_interfaces ::
  "(string \<Rightarrow> string) \<Rightarrow> string \<Rightarrow> (string, (string \<times> ipaddr) list) result \<Rightarrow> string set" where
  "host_detection_interfaces lower os r =
     (case r of Inr pairs \<Rightarrow> detection_interfaces lower pairs (goos os) | Inl _ \<Rightarrow> {})"

section \<open>A pass\<close>

record 'u ProbeRequest =
  pq_url :: 'u
  pq_challenge :: "string option"
  pq_wants_body :: bool

record ProbeResponse =
  pr_status :: nat
  pr_tailscale_response :: "string option"
  pr_body :: "string option"

type_synonym 'u transport = "'u ProbeRequest \<Rightarrow> (string, ProbeResponse) result"

definition probe_request :: "'u url_lib \<Rightarrow> 'u Endpoint \<Rightarrow> nat \<Rightarrow> 'u ProbeRequest" where
  "probe_request U e now_unix =
     \<lparr>pq_url = ul_append_pair U ''t'' (dec_string now_unix) (ep_url e),
      pq_challenge = (if ep_supports_challenge e then Some (challenge U e) else None),
      pq_wants_body = (ep_expected_content e \<noteq> [])\<rparr>"

definition probe_endpoint_with :: "'u url_lib \<Rightarrow> 'u Endpoint \<Rightarrow> nat \<Rightarrow> 'u transport \<Rightarrow> (string, bool) result" where
  "probe_endpoint_with U e now_unix transport =
     rbind (transport (probe_request U e now_unix)) (\<lambda>r.
       Inr (response_looks_like_captive U e (pr_status r) (pr_tailscale_response r) (pr_body r)))"

text \<open>The results of the tasks in the order they finish; \<open>None\<close> is a task that panicked.\<close>

fun first_win :: "(string, bool) result option list \<Rightarrow> bool" where
  "first_win [] = False"
| "first_win (None # rs) = first_win rs"
| "first_win (Some (Inr True) # rs) = True"
| "first_win (Some (Inr False) # rs) = first_win rs"
| "first_win (Some (Inl _) # rs) = first_win rs"

definition MAX_ENDPOINTS_PER_PASS :: nat where "MAX_ENDPOINTS_PER_PASS = 5"

text \<open>\<open>finish\<close> is the order in which the tasks of the pass finish, \<open>panics\<close> which of them panic.\<close>

definition detect ::
  "'u url_lib \<Rightarrow> string set \<Rightarrow> DerpRegion list \<Rightarrow> nat option \<Rightarrow> nat \<Rightarrow> 'u transport \<Rightarrow>
     ('u Endpoint \<Rightarrow> bool) \<Rightarrow> ('u Endpoint list \<Rightarrow> 'u Endpoint list) \<Rightarrow> bool" where
  "detect U interfaces regions preferred now_unix transport panics finish =
     (if interfaces = {} then False
      else
        let endpoints = take MAX_ENDPOINTS_PER_PASS (available_endpoints U regions preferred) in
        if endpoints = [] then False
        else first_win (map (\<lambda>e. if panics e then None else Some (probe_endpoint_with U e now_unix transport))
               (finish endpoints)))"

section \<open>The loop\<close>

text \<open>
  A tick: the backend and the host at the first lock, the instant the timer is asked, what the pass finds
  if there is one, and the backend and the host at the second lock.
\<close>

record tick =
  tk_host :: host_view
  tk_backend :: backend
  tk_now :: nat
  tk_found :: bool
  tk_host2 :: host_view
  tk_backend2 :: backend

definition gate :: "host_view \<Rightarrow> backend \<Rightarrow> ConnectivityWarnable option" where
  "gate h b = (if should_run_captive_portal_detection b then connectivity_impacted h b else None)"

definition set_captive_portal_detected :: "bool \<Rightarrow> bool \<Rightarrow> bool" where
  "set_captive_portal_detected detected flag = (if flag = detected then flag else detected)"

text \<open>The loop keeps the timer, the backend the flag; the answer of a tick tells whether it probed.\<close>

definition captive_tick :: "tick \<Rightarrow> EpisodeTimer \<times> bool \<Rightarrow> (EpisodeTimer \<times> bool) \<times> bool" where
  "captive_tick k s =
     (case s of (timer, flag) \<Rightarrow>
        case gate (tk_host k) (tk_backend k) of
          None \<Rightarrow> ((recovered timer, set_captive_portal_detected False flag), False)
        | Some w \<Rightarrow>
            (case probe_due timer w (tk_now k) of (timer', due) \<Rightarrow>
               if \<not> due then ((timer', flag), False)
               else if should_run_captive_portal_detection (tk_backend2 k) \<and>
                       connectivity_impacted (tk_host2 k) (tk_backend2 k) \<noteq> None
                    then ((timer', set_captive_portal_detected (tk_found k) flag), True)
                    else ((timer', set_captive_portal_detected False flag), True)))"

lemma recheck_gate:
  "should_run_captive_portal_detection b \<and> connectivity_impacted h b \<noteq> None \<longleftrightarrow> gate h b \<noteq> None"
  by (simp add: gate_def)

lemmas captive_tick_gate = captive_tick_def [unfolded recheck_gate]

text \<open>The runs of the loop: for each tick whether it probed and the flag it leaves.\<close>

fun captive_portal_loop :: "EpisodeTimer \<times> bool \<Rightarrow> tick list \<Rightarrow> (bool \<times> bool) list" where
  "captive_portal_loop s [] = []"
| "captive_portal_loop s (k # ks) =
     (case captive_tick k s of (s', probed) \<Rightarrow> (probed, snd s') # captive_portal_loop s' ks)"

definition WARNABLE_TEXT :: string where
  "WARNABLE_TEXT = ''This network requires you to log in using your web browser.''"

definition health_warnings :: "bool \<Rightarrow> string list" where
  "health_warnings flag = (if flag then [WARNABLE_TEXT] else [])"

section \<open>Which condition is reported\<close>

lemma connectivity_impacted_from_Running:
  "connectivity_impacted_from Running h =
    (if ch_any_interface_up h = Some False then Some NetworkStatus
     else if ch_derp_home h = Some False then Some NoDerpHome
     else if ch_ip_forwarding h = Some False then Some IpForwardingOff
     else None)"
proof -
  let ?worst = "arg_min_list (\<lambda>w. (is_steady w, time_to_visible w))"
  have picks: "?worst [NetworkStatus, NoDerpHome, IpForwardingOff] = NetworkStatus" "?worst [NetworkStatus, NoDerpHome] = NetworkStatus"
    "?worst [NetworkStatus, IpForwardingOff] = NetworkStatus" "?worst [NoDerpHome, IpForwardingOff] = NoDerpHome"
    by (simp_all add: is_steady_def time_to_visible_def NETWORK_STATUS_TIME_TO_VISIBLE_def NO_DERP_HOME_TIME_TO_VISIBLE_def
        SECS_def less_eq_prod_def Let_def)
  show ?thesis
    by (cases "ch_any_interface_up h = Some False"; cases "ch_derp_home h = Some False"; cases "ch_ip_forwarding h = Some False")
      (simp_all only: connectivity_impacted_from_def filter.simps prod.case list.map fst_conv if_True if_False Let_def picks
        arg_min_list.simps(1) list.distinct simp_thms not_True_eq_False not_False_eq_True)
qed

lemma unhealthy_unknown: "connectivity_impacted_from st UNKNOWN = None"
  by (simp add: connectivity_impacted_from_def UNKNOWN_def)

text \<open>
  The condition reported for a node: none unless it is wanted up, has an engine and the engine is running;
  then a network that is down wins over a missing relay, and that over forwarding that is off, while a signal
  that could not be read impairs nothing.
\<close>

theorem connectivity_impacted_exact:
  "connectivity_impacted h b =
    (if \<not> want_running (be_prefs b) \<or> be_device b = None \<or> hv_device_state h \<noteq> DevRunning then None
     else if any_interface_up (hv_apple h) (hv_ifaces_up h) = Some False then Some NetworkStatus
     else if hv_netcheck h = NetReport None then Some NoDerpHome
     else if backend_ip_forwarding_broken h b then Some IpForwardingOff
     else None)"
proof (cases "want_running (be_prefs b) \<and> be_device b \<noteq> None")
  case False
  moreover have "derive_state b False \<noteq> Running" if "be_device b = None"
    using that by (simp add: derive_state_def derive_state_from_def)
  ultimately show ?thesis by (auto simp: connectivity_impacted_def connectivity_impacted_from_def Let_def)
next
  case True
  have run: "fst (state_from_device ds) = Running \<longleftrightarrow> ds = DevRunning" for ds by (cases ds) auto
  have nc: "(case hv_netcheck h of NetReport p \<Rightarrow> Some (p \<noteq> None) | NetError \<Rightarrow> None | NetTimeout \<Rightarrow> None) = Some False
      \<longleftrightarrow> hv_netcheck h = NetReport None"
    by (cases "hv_netcheck h") auto
  show ?thesis
    using True
    by (simp add: connectivity_impacted_def run connectivity_impacted_from_Running observed_health_def nc unhealthy_unknown)
qed

section \<open>The schedule\<close>

text \<open>The loop's timer alone, over what the gate says and the instant of each tick.\<close>

type_synonym gate_event = "ConnectivityWarnable option \<times> nat"

definition event_of :: "tick \<Rightarrow> gate_event" where
  "event_of k = (gate (tk_host k) (tk_backend k), tk_now k)"

definition timer_step :: "EpisodeTimer \<Rightarrow> gate_event \<Rightarrow> EpisodeTimer \<times> bool" where
  "timer_step t e = (case fst e of None \<Rightarrow> (recovered t, False) | Some w \<Rightarrow> probe_due t w (snd e))"

lemma captive_tick_timer: "fst (fst (captive_tick k s)) = fst (timer_step (fst s) (event_of k))"
  "snd (captive_tick k s) = snd (timer_step (fst s) (event_of k))"
  by (auto simp: captive_tick_def timer_step_def event_of_def split: prod.splits option.splits)

lemma recovered_default [simp]: "recovered t = timer_default"
  by (simp add: recovered_def timer_default_def)

text \<open>The timer after a history, the newest tick first, and whether the newest tick probed.\<close>

fun timer_after :: "gate_event list \<Rightarrow> EpisodeTimer" where
  "timer_after [] = timer_default"
| "timer_after (e # h) = fst (timer_step (timer_after h) e)"

definition probed :: "gate_event list \<Rightarrow> bool" where
  "probed h = (case h of [] \<Rightarrow> False | e # h' \<Rightarrow> snd (timer_step (timer_after h') e))"

text \<open>
  What the timer remembers is true of the history: since when its warnable has been reported without a
  break, and when the last probe of the episode was.
\<close>

definition remembers :: "gate_event list \<Rightarrow> bool" where
  "remembers h \<longleftrightarrow>
     (case et_impacted (timer_after h) of
        None \<Rightarrow> et_last_run (timer_after h) = None \<and> (h = [] \<or> fst (hd h) = None)
      | Some (w, since) \<Rightarrow>
          \<exists>n < length h. (\<forall>i \<le> n. fst (h ! i) = Some w) \<and> snd (h ! n) = since) \<and>
     (\<forall>r. et_last_run (timer_after h) = Some r \<longrightarrow>
        (\<exists>n < length h. probed (drop n h) \<and> snd (h ! n) = r \<and> (\<forall>i < n. \<not> probed (drop i h)) \<and> (\<forall>i \<le> n. fst (h ! i) \<noteq> None)))"

lemma onset_impacted: "et_impacted (fst (onset t w now)) = Some (w, snd (onset t w now))"
  by (auto simp: onset_def Let_def split: option.splits)

lemma probe_due_impacted: "et_impacted (fst (probe_due t w now)) = et_impacted (fst (onset t w now))"
  by (auto simp: probe_due_def Let_def split: option.splits prod.splits)

lemma onset_since:
  "snd (onset t w now) = now \<or> et_impacted t = Some (w, snd (onset t w now))"
  by (auto simp: onset_def Let_def split: option.splits)

lemma onset_last: "et_last_run (fst (onset t w now)) = None \<or> et_last_run (fst (onset t w now)) = et_last_run t"
  by (auto simp: onset_def Let_def split: option.splits)

lemma probe_due_last:
  "et_last_run (fst (probe_due t w now)) =
    (if snd (probe_due t w now) then Some now else et_last_run (fst (onset t w now)))"
  by (auto simp: probe_due_def Let_def split: option.splits prod.splits)

lemma remembers: "remembers h"
proof (induction h)
  case Nil
  then show ?case by (simp add: remembers_def timer_default_def)
next
  case (Cons e h)
  obtain g now where e: "e = (g, now)" by fastforce
  show ?case
  proof (cases g)
    case None
    then show ?thesis by (simp add: remembers_def e timer_step_def timer_default_def)
  next
    case (Some w)
    let ?t = "timer_after h"
    let ?t' = "timer_after (e # h)"
    have t': "?t' = fst (probe_due ?t w now)" and p: "probed (e # h) = snd (probe_due ?t w now)"
      by (simp_all add: e Some timer_step_def probed_def)
    have imp: "et_impacted ?t' = Some (w, snd (onset ?t w now))"
      by (simp only: t' probe_due_impacted onset_impacted)
    have since: "\<exists>n < length (e # h). (\<forall>i \<le> n. fst ((e # h) ! i) = Some w) \<and> snd ((e # h) ! n) = snd (onset ?t w now)"
    proof (cases "snd (onset ?t w now) = now")
      case True
      then show ?thesis by (intro exI [of _ 0]) (simp add: e Some)
    next
      case False
      then have "et_impacted ?t = Some (w, snd (onset ?t w now))" using onset_since by blast
      with Cons obtain n where "n < length h" "\<forall>i \<le> n. fst (h ! i) = Some w" "snd (h ! n) = snd (onset ?t w now)"
        by (auto simp: remembers_def)
      then show ?thesis by (intro exI [of _ "Suc n"]) (auto simp: e Some nth_Cons split: nat.split)
    qed
    have ran: "\<exists>n < length (e # h). probed (drop n (e # h)) \<and> snd ((e # h) ! n) = r \<and>
        (\<forall>i < n. \<not> probed (drop i (e # h))) \<and> (\<forall>i \<le> n. fst ((e # h) ! i) \<noteq> None)"
      if r: "et_last_run ?t' = Some r" for r
    proof (cases "probed (e # h)")
      case True
      then have "r = now" using r by (simp add: t' p probe_due_last del: timer_after.simps)
      with True show ?thesis by (intro exI [of _ 0]) (simp add: e Some)
    next
      case False
      then have "et_last_run ?t = Some r" using r onset_last [of ?t w now] by (auto simp: t' p probe_due_last simp del: timer_after.simps)
      with Cons obtain n where "n < length h" "probed (drop n h)" "snd (h ! n) = r" "\<forall>i < n. \<not> probed (drop i h)"
        "\<forall>i \<le> n. fst (h ! i) \<noteq> None"
        by (auto simp: remembers_def)
      then show ?thesis using False
        by (intro exI [of _ "Suc n"]) (auto simp: e Some nth_Cons drop_Cons split: nat.split)
    qed
    show ?thesis unfolding remembers_def imp using since ran by auto
  qed
qed

text \<open>The histories of a run of the loop: at tick \<open>i\<close>, the events up to it, the newest first.\<close>

definition history :: "tick list \<Rightarrow> nat \<Rightarrow> gate_event list" where
  "history ks i = rev (map event_of (take (Suc i) ks))"

lemma loop_probes:
  assumes "fst s = timer_after h" and "i < length ks"
  shows "fst (captive_portal_loop s ks ! i) = probed (rev (map event_of (take (Suc i) ks)) @ h)"
  using assms
proof (induction ks arbitrary: s h i)
  case (Cons k ks)
  obtain s' pr where st: "captive_tick k s = (s', pr)" by fastforce
  have f: "fst s' = timer_after (event_of k # h)" and pr: "pr = probed (event_of k # h)"
    using captive_tick_timer [of k s] Cons.prems(1) st by (simp_all add: probed_def)
  show ?case
  proof (cases i)
    case 0
    then show ?thesis using st pr by simp
  next
    case (Suc j)
    then have "j < length ks" using Cons.prems(2) by simp
    from Cons.IH [OF f this] show ?thesis using st Suc by simp
  qed
qed simp

lemma length_loop [simp]: "length (captive_portal_loop s ks) = length ks"
  by (induction ks arbitrary: s) (auto split: prod.split)

lemma history_nth: "i < length ks \<Longrightarrow> n \<le> i \<Longrightarrow> history ks i ! n = event_of (ks ! (i - n))"
  by (simp add: history_def rev_nth)

lemma drop_history: "i < length ks \<Longrightarrow> n \<le> i \<Longrightarrow> drop n (history ks i) = history ks (i - n)"
  by (simp add: history_def drop_rev take_map Suc_diff_le min_absorb1 min_absorb2)

lemma length_history: "i < length ks \<Longrightarrow> length (history ks i) = Suc i"
  by (simp add: history_def)

text \<open>The reason for a probe, in terms of the history.\<close>

lemma probed_reason:
  assumes "probed (e # h)"
  obtains w n where "fst e = Some w" "n < Suc (length h)" "\<forall>i \<le> n. fst ((e # h) ! i) = Some w"
      "settle_time w \<le> snd e - snd ((e # h) ! n)"
    | w n where "fst e = Some w" "\<not> is_steady w" "n < length h" "probed (drop n h)" "\<forall>i < n. \<not> probed (drop i h)"
      "\<forall>i \<le> n. fst (h ! i) \<noteq> None" "RECHECK_INTERVAL \<le> snd e - snd (h ! n)"
proof -
  obtain w where w: "fst e = Some w" using assms by (cases "fst e") (auto simp: probed_def timer_step_def)
  let ?o = "onset (timer_after h) w (snd e)"
  have due: "snd (probe_due (timer_after h) w (snd e))" using assms w by (simp add: probed_def timer_step_def)
  show thesis
  proof (cases "et_last_run (fst ?o)")
    case None
    then have settle: "settle_time w \<le> snd e - snd ?o" using due by (simp add: probe_due_def Let_def split: prod.splits)
    show thesis
    proof (cases "snd ?o = snd e")
      case True
      then show thesis using settle w that(1) [of w 0] by simp
    next
      case False
      then have "et_impacted (timer_after h) = Some (w, snd ?o)" using onset_since by blast
      then obtain n where "n < length h" "\<forall>i \<le> n. fst (h ! i) = Some w" "snd (h ! n) = snd ?o"
        using remembers [of h] by (auto simp: remembers_def)
      then show thesis using settle w that(1) [of w "Suc n"] by (auto simp: nth_Cons split: nat.split)
    qed
  next
    case (Some r)
    then have re: "\<not> is_steady w" "RECHECK_INTERVAL \<le> snd e - r" using due by (simp_all add: probe_due_def Let_def split: prod.splits)
    have "et_last_run (timer_after h) = Some r" using Some onset_last [of "timer_after h" w "snd e"] by simp
    then obtain n where "n < length h" "probed (drop n h)" "snd (h ! n) = r" "\<forall>i < n. \<not> probed (drop i h)"
      "\<forall>i \<le> n. fst (h ! i) \<noteq> None"
      using remembers [of h] by (auto simp: remembers_def)
    then show thesis using re w that(2) by blast
  qed
qed

text \<open>The same in terms of the ticks of a run.\<close>

lemma tick_probed_reason:
  assumes "i < length ks" "probed (history ks i)"
  obtains w j where "fst (event_of (ks ! i)) = Some w" "j \<le> i" "\<forall>m. j \<le> m \<and> m \<le> i \<longrightarrow> fst (event_of (ks ! m)) = Some w"
      "settle_time w \<le> tk_now (ks ! i) - tk_now (ks ! j)"
    | w j where "fst (event_of (ks ! i)) = Some w" "\<not> is_steady w" "j < i" "probed (history ks j)"
      "\<forall>m. j < m \<and> m < i \<longrightarrow> \<not> probed (history ks m)" "\<forall>m. j \<le> m \<and> m \<le> i \<longrightarrow> fst (event_of (ks ! m)) \<noteq> None"
      "RECHECK_INTERVAL \<le> tk_now (ks ! i) - tk_now (ks ! j)"
proof -
  obtain e h where eh: "history ks i = e # h" using length_history [OF assms(1)] by (cases "history ks i") auto
  have nth: "(e # h) ! n = event_of (ks ! (i - n))" if "n \<le> i" for n using history_nth [OF assms(1) that] eh by simp
  have at: "h ! (i - Suc m) = event_of (ks ! m)" "drop (i - Suc m) h = history ks m" if "m < i" for m
    using history_nth [OF assms(1), of "i - m"] drop_history [OF assms(1), of "i - m"] eh that by (simp_all add: Suc_diff_Suc nth_Cons' drop_Cons')
  have e: "e = event_of (ks ! i)" using nth [of 0] by simp
  have len: "length h = i" using length_history [OF assms(1)] eh by simp
  have snd_e: "snd (event_of k) = tk_now k" for k by (simp add: event_of_def)
  have "probed (e # h)" using assms(2) eh by simp
  then show thesis
  proof (cases rule: probed_reason)
    case (1 w n)
    have n: "n \<le> i" using 1(2) len by simp
    have "fst (event_of (ks ! m)) = Some w" if "i - n \<le> m \<and> m \<le> i" for m
    proof -
      have "i - m \<le> n" "i - (i - m) = m" using that by linarith+
      then show ?thesis using 1(3) nth [of "i - m"] by fastforce
    qed
    then show thesis using that(1) [of w "i - n"] 1(1,4) nth [OF n] e by (auto simp: snd_e)
  next
    case (2 w n)
    have n: "Suc n \<le> i" using 2(3) len by simp
    let ?j = "i - Suc n"
    have j: "?j < i" "i - Suc ?j = n" using n by auto
    have "\<not> probed (history ks m)" if "?j < m \<and> m < i" for m
    proof -
      have "i - Suc m < n" using that by linarith
      then show ?thesis using 2(5) at(2) [of m] that by fastforce
    qed
    moreover have "fst (event_of (ks ! m)) \<noteq> None" if "?j \<le> m \<and> m \<le> i" for m
    proof (cases "m = i")
      case True
      then show ?thesis using 2(1) e by simp
    next
      case False
      then have "i - Suc m \<le> n" "m < i" using that by linarith+
      then show ?thesis using 2(6) at(1) by fastforce
    qed
    ultimately show thesis
      using that(2) [of w ?j] 2(1,2,4,7) at [OF j(1)] j e by (simp add: snd_e)
  qed
qed


text \<open>A node that is up on a host without a network, and its ticks.\<close>

definition demo_captive :: backend where
  "demo_captive = demo_backend
     \<lparr>be_prefs := default_prefs\<lparr>want_running := True\<rparr>,
      be_device := Some \<lparr>eng_config = demo_engine_config, eng_authkey = None, eng_ops = []\<rparr>\<rparr>"

definition demo_host :: "netcheck_answer \<Rightarrow> (string, InterfaceAddr list) result \<Rightarrow> host_view" where
  "demo_host nc ifaces =
     \<lparr>hv_ifaces_up = ifaces, hv_ifaces_fwd = Inr [], hv_device_state = DevRunning, hv_netcheck = nc,
      hv_os = OtherOs, hv_apple = False, hv_proc = demo_proc, hv_ipnet = demo_ipnet\<rparr>"

definition demo_tick :: "(string, InterfaceAddr list) result \<Rightarrow> nat \<Rightarrow> tick" where
  "demo_tick ifaces now =
     \<lparr>tk_host = demo_host (NetReport (Some 1)) ifaces, tk_backend = demo_captive, tk_now = now, tk_found = True,
      tk_host2 = demo_host (NetReport (Some 1)) ifaces, tk_backend2 = demo_captive\<rparr>"

lemma demo_captive_prefs: "want_running (be_prefs demo_captive)" "be_device demo_captive \<noteq> None" "tun_enabled (be_prefs demo_captive) = False"
  by (simp_all add: demo_captive_def default_prefs_def)

lemma demo_gate: "gate (demo_host nc (Inr [])) demo_captive = Some NetworkStatus"
proof -
  have "any_interface_up a (Inr []) = Some False" for a
    by (simp add: any_interface_up_def any_interface_up_exact)
  then show ?thesis
    using demo_captive_prefs
    by (simp add: gate_def should_run_captive_portal_detection_def connectivity_impacted_exact demo_host_def)
qed

lemma demo_event: "fst (event_of (demo_tick (Inr []) now)) = Some NetworkStatus"
  by (simp add: event_of_def demo_tick_def demo_gate)

lemma demo_probes:
  "captive_portal_loop (timer_default, False) [demo_tick (Inr []) 0, demo_tick (Inr []) (SECS 7)] = [(False, False), (True, True)]"
  by (simp add: captive_tick_gate demo_tick_def demo_gate probe_due_def onset_def timer_default_def Let_def settle_time_def
      time_to_visible_def NETWORK_STATUS_TIME_TO_VISIBLE_def DETECTION_INTERVAL_def SECS_def is_steady_def
      set_captive_portal_detected_def split: if_splits)


text \<open>
  A steady condition costs one probe: a node whose forwarding is off, and nothing else, is probed once at
  most however long that lasts.
\<close>

theorem steady_condition_probes_once:
  assumes "list_all (\<lambda>k. gate (tk_host k) (tk_backend k) = Some IpForwardingOff) ks"
  shows "length (filter fst (captive_portal_loop (timer_default, flag) ks)) \<le> 1"
proof -
  have quiet: "filter fst (captive_portal_loop (t, f) ks) = []"
    if "et_impacted t = Some (IpForwardingOff, since)" "et_last_run t \<noteq> None"
      "list_all (\<lambda>k. gate (tk_host k) (tk_backend k) = Some IpForwardingOff) ks" for t f ks since
    using that
    by (induction ks arbitrary: f)
      (auto simp: captive_tick_def probe_due_def onset_def is_steady_def Let_def split: prod.splits option.splits)
  have once: "length (filter fst (captive_portal_loop (t, f) ks)) \<le> 1"
    if "et_impacted t = None \<or> (\<exists>since. et_impacted t = Some (IpForwardingOff, since))"
      "list_all (\<lambda>k. gate (tk_host k) (tk_backend k) = Some IpForwardingOff) ks" for t f
    using that
  proof (induction ks arbitrary: t f)
    case (Cons k ks)
    obtain t' f' pr where st: "captive_tick k (t, f) = ((t', f'), pr)" by (metis prod.collapse)
    have g: "gate (tk_host k) (tk_backend k) = Some IpForwardingOff" using Cons.prems(2) by simp
    have t': "t' = fst (probe_due t IpForwardingOff (tk_now k))" and pr: "pr = snd (probe_due t IpForwardingOff (tk_now k))"
      using captive_tick_timer [of k "(t, f)"] st g by (simp_all add: timer_step_def event_of_def)
    have imp: "\<exists>since. et_impacted t' = Some (IpForwardingOff, since)"
      by (simp add: t' probe_due_impacted onset_impacted)
    show ?case
    proof (cases pr)
      case True
      then have "et_last_run t' \<noteq> None" by (simp add: t' pr probe_due_last)
      then show ?thesis using imp quiet Cons.prems(2) st True by auto
    next
      case False
      then show ?thesis using Cons.IH [of t' f'] imp Cons.prems(2) st by simp
    qed
  qed simp
  show ?thesis using once [of timer_default] assms by (simp add: timer_default_def)
qed

text \<open>
  C12. The warning in the status is evidence of a probe: it stands after a tick exactly when the last probe up
  to then found a portal, the node was still impaired when that verdict was recorded, and it has been impaired
  at every tick since.
\<close>

theorem warning_stands_exactly:
  assumes "i < length ks"
  shows "snd (captive_portal_loop (timer_default, False) ks ! i) \<longleftrightarrow>
    (\<exists>j \<le> i. fst (captive_portal_loop (timer_default, False) ks ! j) \<and> tk_found (ks ! j) \<and>
       gate (tk_host2 (ks ! j)) (tk_backend2 (ks ! j)) \<noteq> None \<and>
       (\<forall>m. j < m \<and> m \<le> i \<longrightarrow> \<not> fst (captive_portal_loop (timer_default, False) ks ! m) \<and>
          gate (tk_host (ks ! m)) (tk_backend (ks ! m)) \<noteq> None))"
proof -
  have step: "snd (fst (captive_tick k s)) \<longleftrightarrow>
      (if snd (captive_tick k s) then tk_found k \<and> gate (tk_host2 k) (tk_backend2 k) \<noteq> None
       else snd s \<and> gate (tk_host k) (tk_backend k) \<noteq> None)" for k s
    by (cases s) (auto simp: captive_tick_gate set_captive_portal_detected_def split: option.splits prod.splits)
  have between: "(\<forall>m. Suc j < m \<and> m \<le> Suc i \<longrightarrow> R m) \<longleftrightarrow> (\<forall>m. j < m \<and> m \<le> i \<longrightarrow> R (Suc m))" for j i and R :: "nat \<Rightarrow> bool"
  proof (intro iffI allI impI)
    fix m
    assume "\<forall>m. j < m \<and> m \<le> i \<longrightarrow> R (Suc m)" "Suc j < m \<and> m \<le> Suc i"
    then show "R m" by (cases m) auto
  qed auto
  have upto: "(\<forall>m. m \<le> Suc i \<longrightarrow> R m) \<longleftrightarrow> R 0 \<and> (\<forall>m. m \<le> i \<longrightarrow> R (Suc m))" for i and R :: "nat \<Rightarrow> bool"
    using All_less_Suc2 [of "Suc i" R] by (simp add: less_Suc_eq_le)
  have above: "(\<forall>m. 0 < m \<and> m \<le> Suc i \<longrightarrow> R m) \<longleftrightarrow> (\<forall>m. m \<le> i \<longrightarrow> R (Suc m))" for i and R :: "nat \<Rightarrow> bool"
    using upto [of i "\<lambda>m. 0 < m \<longrightarrow> R m"] by auto
  have some: "(\<exists>m. m \<le> Suc i \<and> R m) \<longleftrightarrow> R 0 \<or> (\<exists>m. m \<le> i \<and> R (Suc m))" for i and R :: "nat \<Rightarrow> bool"
    using upto [of i "\<lambda>m. \<not> R m"] by auto
  let ?quiet = "\<lambda>s ks m. \<not> fst (captive_portal_loop s ks ! m) \<and> gate (tk_host (ks ! m)) (tk_backend (ks ! m)) \<noteq> None"
  let ?found = "\<lambda>s ks j. fst (captive_portal_loop s ks ! j) \<and> tk_found (ks ! j) \<and> gate (tk_host2 (ks ! j)) (tk_backend2 (ks ! j)) \<noteq> None"
  have "snd (captive_portal_loop s ks ! i) \<longleftrightarrow>
      (snd s \<and> (\<forall>m. m \<le> i \<longrightarrow> ?quiet s ks m)) \<or> (\<exists>j. j \<le> i \<and> ?found s ks j \<and> (\<forall>m. j < m \<and> m \<le> i \<longrightarrow> ?quiet s ks m))"
    if "i < length ks" for s
    using that
  proof (induction ks arbitrary: s i)
    case (Cons k ks)
    obtain s' pr where st: "captive_tick k s = (s', pr)" by fastforce
    have s': "snd s' \<longleftrightarrow> (if pr then tk_found k \<and> gate (tk_host2 k) (tk_backend2 k) \<noteq> None
        else snd s \<and> gate (tk_host k) (tk_backend k) \<noteq> None)"
      using step [of k s] st by simp
    show ?case
    proof (cases i)
      case 0
      then show ?thesis using st s' by auto
    next
      case (Suc n)
      then have "n < length ks" using Cons.prems by simp
      from Cons.IH [OF this, of s'] show ?thesis
        unfolding Suc upto some between above by (cases pr) (auto simp: st s')
    qed
  qed simp
  from this [of "(timer_default, False)"] assms show ?thesis by simp
qed

theorem warning_stands_exactly_witness:
  "\<exists>j \<le> (1::nat). tk_found ([demo_tick (Inr []) 0, demo_tick (Inr []) (SECS 7)] ! j) \<and>
    gate (demo_host (NetReport (Some 1)) (Inr [])) demo_captive \<noteq> None"
proof -
  have "1 < length [demo_tick (Inr []) 0, demo_tick (Inr []) (SECS 7)]" by simp
  from warning_stands_exactly [OF this] have "\<exists>j \<le> (1::nat). tk_found ([demo_tick (Inr []) 0, demo_tick (Inr []) (SECS 7)] ! j)"
    unfolding demo_probes by auto
  then show ?thesis using demo_gate by simp
qed

section \<open>A pass answers independently of the order\<close>

lemma first_win_iff: "first_win rs \<longleftrightarrow> Some (Inr True) \<in> set rs"
  by (induction rs rule: first_win.induct) auto

lemma contains_subslice_sublist: "contains_subslice haystack needle \<longleftrightarrow> sublist needle haystack"
proof (cases "needle = []")
  case False
  let ?n = "length needle" and ?l = "length haystack"
  have "contains_subslice haystack needle \<longleftrightarrow> (\<exists>i < Suc ?l - ?n. take ?n (drop i haystack) = needle)"
    using False by (force simp: contains_subslice_def windows_def list_ex_iff)
  also have "\<dots> \<longleftrightarrow> (\<exists>ps ss. haystack = ps @ needle @ ss)"
  proof
    assume "\<exists>i < Suc ?l - ?n. take ?n (drop i haystack) = needle"
    then obtain i where "take ?n (drop i haystack) = needle" by blast
    then show "\<exists>ps ss. haystack = ps @ needle @ ss" by (metis append_take_drop_id)
  next
    assume "\<exists>ps ss. haystack = ps @ needle @ ss"
    then obtain ps ss where "haystack = ps @ needle @ ss" by blast
    then show "\<exists>i < Suc ?l - ?n. take ?n (drop i haystack) = needle" by (intro exI [of _ "length ps"]) simp
  qed
  finally show ?thesis by (simp add: sublist_def)
qed (simp add: contains_subslice_def)

lemma available_endpoints_204:
  "e \<in> set (available_endpoints U regions preferred) \<Longrightarrow> ep_status_code e = 204 \<and> ep_expected_content e = []"
  by (auto simp: available_endpoints_def derp_endpoints_def tailscale_endpoints_def map_filter_def derp_endpoint_def
      split: if_splits option.splits)

text \<open>
  C33. What a pass finds: a portal exactly when the host has an interface worth probing and one of the five
  best endpoints was answered with another status than 204, or, where it echoes the challenge, without the
  right echo. The order in which the answers arrive, requests that fail and tasks that panic do not matter.
\<close>

theorem detect_exact:
  assumes "\<forall>es. set (finish es) = set es"
  shows "detect U interfaces regions preferred now_unix transport panics finish \<longleftrightarrow>
    interfaces \<noteq> {} \<and>
    (\<exists>e \<in> set (take 5 (available_endpoints U regions preferred)). \<not> panics e \<and>
       (\<exists>r. transport (probe_request U e now_unix) = Inr r \<and>
          (pr_status r \<noteq> 204 \<or> ep_supports_challenge e \<and> pr_tailscale_response r \<noteq> Some (expected_response U e))))"
proof -
  let ?es = "take 5 (available_endpoints U regions preferred)"
  have fin: "set (finish es) = set es" for es using assms by blast
  have e204: "ep_status_code e = 204 \<and> ep_expected_content e = []" if "e \<in> set ?es" for e
    using that available_endpoints_204 by (meson in_set_takeD)
  have captive: "probe_endpoint_with U e now_unix transport = Inr True \<longleftrightarrow>
      (\<exists>r. transport (probe_request U e now_unix) = Inr r \<and>
          (pr_status r \<noteq> 204 \<or> ep_supports_challenge e \<and> pr_tailscale_response r \<noteq> Some (expected_response U e)))"
    if "e \<in> set ?es" for e
    using e204 [OF that]
    by (cases "transport (probe_request U e now_unix)") (auto simp: probe_endpoint_with_def response_looks_like_captive_def)
  have "detect U interfaces regions preferred now_unix transport panics finish \<longleftrightarrow>
      interfaces \<noteq> {} \<and> (\<exists>e \<in> set ?es. \<not> panics e \<and> probe_endpoint_with U e now_unix transport = Inr True)"
    by (cases "?es = []")
      (force simp: detect_def MAX_ENDPOINTS_PER_PASS_def Let_def first_win_iff fin image_iff split: if_splits)+
  then show ?thesis using captive by auto
qed

definition demo_urls :: "string url_lib" where
  "demo_urls = \<lparr>ul_parse = Some, ul_host_str = Some, ul_port = (\<lambda>_. None), ul_append_pair = (\<lambda>k v u. u @ ''?'' @ k @ ''='' @ v)\<rparr>"

definition portal_answer :: "string transport" where
  "portal_answer q = Inr \<lparr>pr_status = 302, pr_tailscale_response = None, pr_body = None\<rparr>"

theorem detect_exact_witness:
  "detect demo_urls {''eth0''} [] None 7 portal_answer (\<lambda>_. False) rev"
proof -
  have "set (take 5 (available_endpoints demo_urls [] None)) \<noteq> {}"
    by (simp add: available_endpoints_def derp_endpoints_def tailscale_endpoints_def demo_urls_def map_filter_def)
  then obtain e where "e \<in> set (take 5 (available_endpoints demo_urls [] None))" by (meson ex_in_conv)
  then show ?thesis
    by (subst detect_exact) (auto simp: portal_answer_def)
qed

text \<open>
  The endpoints are tried in the order of preference, and the sources keep their own order within one
  rank; a region to be avoided, and a node without an address or without port 80, gives none.
\<close>

theorem endpoints_in_preference_order:
  "sorted (map ep_provider (available_endpoints U regions preferred)) \<and>
    filter (\<lambda>e. ep_provider e = p) (available_endpoints U regions preferred) =
      filter (\<lambda>e. ep_provider e = p) (derp_endpoints U regions preferred @ tailscale_endpoints U) \<and>
    derp_endpoints U regions preferred =
      derp_endpoints U (map (\<lambda>r. r\<lparr>dr_nodes := filter (\<lambda>n. dn_ipv4 n \<noteq> [] \<and> dn_can_port80 n) (dr_nodes r)\<rparr>)
        (filter (\<lambda>r. \<not> (dr_avoid r \<or> dr_no_measure_no_home r)) regions)) preferred"
proof (intro conjI)
  show "sorted (map ep_provider (available_endpoints U regions preferred))"
    by (simp add: available_endpoints_def)
  show "filter (\<lambda>e. ep_provider e = p) (available_endpoints U regions preferred) =
      filter (\<lambda>e. ep_provider e = p) (derp_endpoints U regions preferred @ tailscale_endpoints U)"
    unfolding available_endpoints_def by (rule sort_key_stable)
  have none: "derp_endpoint U preferred i n = None" if "dn_ipv4 n = [] \<or> \<not> dn_can_port80 n" for i n
    using that by (simp add: derp_endpoint_def)
  have nodes: "List.map_filter (derp_endpoint U preferred i) (filter (\<lambda>n. dn_ipv4 n \<noteq> [] \<and> dn_can_port80 n) ns) =
      List.map_filter (derp_endpoint U preferred i) ns" for i ns
    by (induction ns) (auto simp: List.map_filter_simps none split: option.split)
  show "derp_endpoints U regions preferred =
      derp_endpoints U (map (\<lambda>r. r\<lparr>dr_nodes := filter (\<lambda>n. dn_ipv4 n \<noteq> [] \<and> dn_can_port80 n) (dr_nodes r)\<rparr>)
        (filter (\<lambda>r. \<not> (dr_avoid r \<or> dr_no_measure_no_home r)) regions)) preferred"
    by (induction regions) (simp_all add: derp_endpoints_def nodes)
qed

text \<open>
  An interface that is down is probed all the same: a host whose only interface is down has no interface up
  for the health check and still a candidate for detection, although the list of candidates is documented to
  hold interfaces that are up.
\<close>

theorem down_interface_still_probed:
  "let a = \<lparr>ia_name = ''eth0'', ia_ip = V4 0x0A000001, ia_prefix_len = 8, ia_index = None, ia_oper_up = False,
      ia_point_to_point = False\<rparr> in
   \<not> any_interface_up_from apple [a] \<and> detection_interfaces id [(ia_name a, ia_ip a)] ''linux'' = {''eth0''}"
  by (simp add: any_interface_up_exact detection_interfaces_def interface_name_does_not_need_captive_detection_def
      excluded_prefixes_def starts_with_def is_loopback_def octet4_def Let_def)

end
