(* ===== verification/EnvFile.thy ===== *)
theory EnvFile
  imports Encodings
begin

text \<open>
  \<open>src/src/envknob.rs\<close>: the environment file the daemon applies to itself before it starts. The scan of
  \<open>KEY=value\<close> lines, Go's quoted values with their escapes, the choice of the file, the messages about what
  did not apply, and the variables that are set. Text is its UTF-8 bytes; reading a file is a parameter.
\<close>

section \<open>Go's quoted strings\<close>

definition backslash :: char where "backslash = CHR 0x5C"
definition dquote :: char where "dquote = CHR 0x22"

text \<open>\<open>char::encode_utf8\<close>, and \<open>char::from_u32\<close> as the condition on its argument.\<close>

definition valid_rune :: "nat \<Rightarrow> bool" where
  "valid_rune v \<longleftrightarrow> v < 0xD800 \<or> 0xE000 \<le> v \<and> v \<le> 0x10FFFF"

definition encode_utf8 :: "nat \<Rightarrow> string" where
  "encode_utf8 v =
     (if v < 0x80 then [char_of v]
      else if v < 0x800 then [char_of (0xC0 + v div 64), char_of (0x80 + v mod 64)]
      else if v < 0x10000 then
        [char_of (0xE0 + v div 4096), char_of (0x80 + v div 64 mod 64), char_of (0x80 + v mod 64)]
      else [char_of (0xF0 + v div 262144), char_of (0x80 + v div 4096 mod 64), char_of (0x80 + v div 64 mod 64),
            char_of (0x80 + v mod 64)])"

definition hex_value :: "string \<Rightarrow> nat" where
  "hex_value ds = foldl (\<lambda>v c. v * 16 + unwrap_or (hex_nibble c) 0) 0 ds"

definition octal_value :: "string \<Rightarrow> nat" where
  "octal_value ds = foldl (\<lambda>v c. v * 8 + digit_val c) 0 ds"

definition one_byte_escape :: "char \<Rightarrow> char option" where
  "one_byte_escape c =
     (if c = CHR ''a'' then Some (CHR 0x07)
      else if c = CHR ''b'' then Some (CHR 0x08)
      else if c = CHR ''f'' then Some (CHR 0x0C)
      else if c = CHR ''n'' then Some (CHR 0x0A)
      else if c = CHR ''r'' then Some (CHR 0x0D)
      else if c = CHR ''t'' then Some (CHR 0x09)
      else if c = CHR ''v'' then Some (CHR 0x0B)
      else if c = backslash then Some backslash
      else if c = dquote then Some dquote
      else None)"

text \<open>
  One character of the literal: the bytes it stands for and how many bytes it takes. \<open>str::get\<close> of a range
  that ends within a character is no digits either way.
\<close>

definition unquote_char :: "string \<Rightarrow> (string \<times> nat) option" where
  "unquote_char s =
     (let c = s ! 0; e = s ! 1 in
      if c = dquote then None
      else if c \<noteq> backslash then Some (take (fst (utf8_step s)) s, fst (utf8_step s))
      else if length s < 2 then None
      else case one_byte_escape e of
        Some v \<Rightarrow> Some ([v], 2)
      | None \<Rightarrow>
          if e = CHR ''x'' \<or> e = CHR ''u'' \<or> e = CHR ''U'' then
            (let n = (if e = CHR ''x'' then 2 else if e = CHR ''u'' then 4 else 8); digits = take n (drop 2 s) in
             if length s < 2 + n then None
             else if \<not> list_all (\<lambda>b. hex_nibble b \<noteq> None) digits then None
             else if e = CHR ''x'' then Some ([char_of (hex_value digits)], 2 + n)
             else if valid_rune (hex_value digits) then Some (encode_utf8 (hex_value digits), 2 + n)
             else None)
          else if 48 \<le> byte e \<and> byte e \<le> 55 then
            (let digits = take 3 (drop 1 s) in
             if length s < 4 then None
             else if \<not> list_all (\<lambda>b. 48 \<le> byte b \<and> byte b \<le> 55) digits then None
             else if 255 < octal_value digits then None
             else Some ([char_of (octal_value digits)], 4))
          else None)"

lemma unquote_char_pos: "unquote_char s = Some (out, n) \<Longrightarrow> 0 < n"
  using utf8_step_pos [of s] by (auto simp: unquote_char_def Let_def split: if_splits option.splits)

function unquote_chars :: "string \<Rightarrow> string option" where
  "unquote_chars s =
     (if s = [] then Some []
      else case unquote_char s of
        None \<Rightarrow> None
      | Some (out, n) \<Rightarrow> (case unquote_chars (drop n s) of None \<Rightarrow> None | Some r \<Rightarrow> Some (out @ r)))"
  by pat_completeness auto
termination by (relation "measure length") (auto dest: unquote_char_pos)

declare unquote_chars.simps [simp del]

definition unquote_go_string :: "string \<Rightarrow> string option" where
  "unquote_go_string s =
     (if length s < 2 \<or> last s \<noteq> dquote then None
      else let inner = take (length s - 2) (drop 1 s) in
        if LF \<in> set inner then None else unquote_chars inner)"

section \<open>The scan\<close>

record Assignment =
  as_key :: string
  as_value :: string

datatype ParseErrorKind = InvalidValue | NulByte

record ParseError =
  pe_line_number :: nat
  pe_line :: string
  pe_kind :: ParseErrorKind

record ParsedEnv =
  pn_assignments :: "Assignment list"
  pn_skipped :: "ParseError list"
  pn_refusal :: "ParseError option"

definition NUL :: char where "NUL = CHR 0x00"

definition parse_error_text :: "ParseError \<Rightarrow> string" where
  "parse_error_text e =
     (case pe_kind e of
        InvalidValue \<Rightarrow> ''line '' @ dec_string (pe_line_number e) @ '': invalid value in line '' @
          debug_str (pe_line e) @ '': invalid syntax''
      | NulByte \<Rightarrow> ''line '' @ dec_string (pe_line_number e) @ '': invalid NUL byte in line '' @ debug_str (pe_line e))"

text \<open>What one line asks for.\<close>

datatype line_outcome = Ignored | Refused ParseErrorKind | Skipped | Assigned Assignment

definition read_line :: "string \<Rightarrow> line_outcome" where
  "read_line line =
     (if line = [] \<or> starts_with line ''#'' then Ignored
      else case split_once (CHR ''='') line of
        None \<Rightarrow> Ignored
      | Some (k, v) \<Rightarrow>
          (let key = utrim k; v = utrim v in
           if key = [] then Ignored
           else case (if starts_with v [dquote] then unquote_go_string v else Some v) of
             None \<Rightarrow> Refused InvalidValue
           | Some val \<Rightarrow>
               if NUL \<in> set key \<or> NUL \<in> set val then Skipped
               else Assigned \<lparr>as_key = key, as_value = val\<rparr>))"

fun parse_lines :: "nat \<Rightarrow> string list \<Rightarrow> ParsedEnv" where
  "parse_lines n [] = \<lparr>pn_assignments = [], pn_skipped = [], pn_refusal = None\<rparr>"
| "parse_lines n (raw # rest) =
     (let line = utrim raw; p = parse_lines (Suc n) rest in
      case read_line line of
        Ignored \<Rightarrow> p
      | Refused k \<Rightarrow>
          \<lparr>pn_assignments = [], pn_skipped = [], pn_refusal = Some \<lparr>pe_line_number = n, pe_line = line, pe_kind = k\<rparr>\<rparr>
      | Skipped \<Rightarrow> p\<lparr>pn_skipped := \<lparr>pe_line_number = n, pe_line = line, pe_kind = NulByte\<rparr> # pn_skipped p\<rparr>
      | Assigned a \<Rightarrow> p\<lparr>pn_assignments := a # pn_assignments p\<rparr>)"

definition parse_key_value_env :: "string \<Rightarrow> ParsedEnv" where
  "parse_key_value_env contents = parse_lines 1 (str_lines contents)"

section \<open>The file\<close>

definition MACOS_ENV_FILE :: string where "MACOS_ENV_FILE = ''/etc/tailnetd/tailnetd-env.txt''"

definition platform_env_files :: "string \<Rightarrow> string list" where
  "platform_env_files os = (if os = ''macos'' then [MACOS_ENV_FILE] else [])"

definition TS_DEBUG_ENV_FILE :: string where "TS_DEBUG_ENV_FILE = ''TS_DEBUG_ENV_FILE''"

record DiskConfig =
  dc_path :: "string option"
  dc_assignments :: "Assignment list"
  dc_problems :: "string list"

definition scan_file :: "string \<Rightarrow> string \<Rightarrow> DiskConfig" where
  "scan_file path contents =
     (let p = parse_key_value_env contents in
      \<lparr>dc_path = Some path, dc_assignments = pn_assignments p,
       dc_problems =
         map (\<lambda>e. ''error parsing '' @ path @ '': '' @ parse_error_text e @ '' (line skipped; the rest of the file applied)'')
           (pn_skipped p) @
         (case pn_refusal p of
            None \<Rightarrow> []
          | Some e \<Rightarrow> [''error parsing '' @ path @ '': '' @ parse_error_text e @
              '' (that line and every line below it was not applied)''])\<rparr>)"

text \<open>\<open>read_to_string\<close>: an error with its text and whether it is that there is no such file.\<close>

type_synonym file_reader = "string \<Rightarrow> (bool \<times> string, string) result"

fun try_files :: "file_reader \<Rightarrow> string list \<Rightarrow> string list \<Rightarrow> DiskConfig" where
  "try_files rd problems [] = \<lparr>dc_path = None, dc_assignments = [], dc_problems = problems\<rparr>"
| "try_files rd problems (path # files) =
     (case rd path of
        Inr contents \<Rightarrow> (let c = scan_file path contents in c\<lparr>dc_problems := problems @ dc_problems c\<rparr>)
      | Inl (True, e) \<Rightarrow> try_files rd problems files
      | Inl (False, e) \<Rightarrow> try_files rd (problems @ [''error applying disk config: '' @ path @ '': '' @ e]) files)"

definition load_disk_config :: "file_reader \<Rightarrow> string option \<Rightarrow> string list \<Rightarrow> DiskConfig" where
  "load_disk_config rd explicit files =
     (case explicit of
        Some path \<Rightarrow>
          (case rd path of
             Inr contents \<Rightarrow> scan_file path contents
           | Inl (_, e) \<Rightarrow>
               \<lparr>dc_path = Some path, dc_assignments = [],
                dc_problems = [''error applying disk config: error opening explicitly configured '' @ TS_DEBUG_ENV_FILE @
                  '' '' @ path @ '': '' @ e]\<rparr>)
      | None \<Rightarrow> try_files rd [] files)"

section \<open>The environment\<close>

text \<open>\<open>std::env::set_var\<close>; \<open>None\<close> is its panic.\<close>

definition set_var :: "string \<Rightarrow> string \<Rightarrow> (string \<rightharpoonup> string) \<Rightarrow> (string \<rightharpoonup> string) option" where
  "set_var k v env =
     (if k = [] \<or> CHR ''='' \<in> set k \<or> NUL \<in> set k \<or> NUL \<in> set v then None else Some (env(k \<mapsto> v)))"

fun set_vars :: "Assignment list \<Rightarrow> (string \<rightharpoonup> string) \<Rightarrow> (string \<rightharpoonup> string) option" where
  "set_vars [] env = Some env"
| "set_vars (a # as) env = (case set_var (as_key a) (as_value a) env of None \<Rightarrow> None | Some env' \<Rightarrow> set_vars as env')"

record Applied =
  ap_path :: "string option"
  ap_keys :: "string list"
  ap_problems :: "string list"

definition explicit_env_file :: "string option \<Rightarrow> string option" where
  "explicit_env_file value = (case value of None \<Rightarrow> None | Some name \<Rightarrow> if name = [] then None else Some name)"

definition apply_disk_config ::
  "string \<Rightarrow> file_reader \<Rightarrow> (string \<rightharpoonup> string) \<Rightarrow> (Applied \<times> (string \<rightharpoonup> string)) option" where
  "apply_disk_config os rd env =
     (let explicit = explicit_env_file (env TS_DEBUG_ENV_FILE);
          config = load_disk_config rd explicit (platform_env_files os);
          keys = map as_key (dc_assignments config) in
      case set_vars (dc_assignments config) env of
        None \<Rightarrow> None
      | Some env' \<Rightarrow> Some (\<lparr>ap_path = dc_path config, ap_keys = keys, ap_problems = dc_problems config\<rparr>, env'))"

section \<open>Applying the file never panics\<close>

lemma trim_start_set: "set (trim_start s) \<subseteq> set s"
proof (induction s rule: trim_start.induct)
  case (1 s)
  then show ?case
    using set_drop_subset [of "ws_len s" s] by (subst trim_start.simps) auto
qed

lemma trim_end_set: "set (trim_end s) \<subseteq> set s"
proof (induction s rule: trim_end.induct)
  case (1 s)
  then show ?case
    using set_take_subset [of "length s - ws_tail s" s] by (subst trim_end.simps) auto
qed

lemma utrim_set: "set (utrim s) \<subseteq> set s"
  using trim_start_set trim_end_set unfolding utrim_def by blast

definition settable :: "Assignment \<Rightarrow> bool" where
  "settable a \<longleftrightarrow> as_key a \<noteq> [] \<and> CHR ''='' \<notin> set (as_key a) \<and> NUL \<notin> set (as_key a) \<and> NUL \<notin> set (as_value a)"

lemma read_line_settable: "read_line line = Assigned a \<Longrightarrow> settable a"
  using utrim_set
  by (fastforce simp: read_line_def settable_def split_once_Some Let_def split: if_splits option.splits prod.splits)

lemma parse_lines_settable: "list_all settable (pn_assignments (parse_lines n ls))"
  by (induction n ls rule: parse_lines.induct) (auto simp: Let_def read_line_settable split: line_outcome.split)

lemma scan_file_settable: "list_all settable (dc_assignments (scan_file path contents))"
  by (simp add: scan_file_def parse_key_value_env_def parse_lines_settable Let_def)

lemma load_settable: "list_all settable (dc_assignments (load_disk_config rd explicit files))"
proof -
  have "list_all settable (dc_assignments (try_files rd problems files))" for problems
    by (induction rd problems files rule: try_files.induct)
      (auto simp: scan_file_settable Let_def split: sum.split prod.split bool.split)
  then show ?thesis by (auto simp: load_disk_config_def scan_file_settable split: option.split sum.split)
qed

lemma set_vars_settable:
  "list_all settable as \<Longrightarrow> set_vars as env = Some (env ++ map_of (rev (map (\<lambda>a. (as_key a, as_value a)) as)))"
  by (induction as arbitrary: env) (auto simp: set_var_def settable_def map_add_def fun_eq_iff split: option.split)

text \<open>
  C15. Applying the file never panics, whatever it contains: every variable of the file is one that
  \<open>set_var\<close> accepts. Afterwards the environment is the old one with the assignments of the file made in
  their order, the last one of a variable winning.
\<close>

theorem apply_disk_config_never_panics:
  "\<exists>applied. apply_disk_config os rd env =
    Some (applied, env ++ map_of (rev (map (\<lambda>a. (as_key a, as_value a))
      (dc_assignments (load_disk_config rd (explicit_env_file (env TS_DEBUG_ENV_FILE)) (platform_env_files os))))))"
  by (simp add: apply_disk_config_def Let_def set_vars_settable [OF load_settable])

section \<open>What can be written can be read\<close>

definition quote_byte :: "char \<Rightarrow> string" where
  "quote_byte c =
     (if c = dquote \<or> c = backslash then [backslash, c]
      else if 32 \<le> byte c \<and> byte c \<le> 126 then [c]
      else [backslash, CHR ''x'', hex_char (byte c div 16), hex_char (byte c mod 16)])"

definition write_assignment :: "Assignment \<Rightarrow> string" where
  "write_assignment a = as_key a @ ''='' @ [dquote] @ concat (map quote_byte (as_value a)) @ [dquote]"

definition write_env :: "Assignment list \<Rightarrow> string" where
  "write_env as = concat (map (\<lambda>a. write_assignment a @ [LF]) as)"

text \<open>A variable with a plain name; its value may be any bytes without NUL.\<close>

definition plain_assignment :: "Assignment \<Rightarrow> bool" where
  "plain_assignment a \<longleftrightarrow>
     as_key a \<noteq> [] \<and> list_all (\<lambda>c. 33 \<le> byte c \<and> byte c \<le> 126 \<and> c \<noteq> CHR ''='') (as_key a) \<and>
     hd (as_key a) \<noteq> CHR ''#'' \<and> NUL \<notin> set (as_value a)"

lemma hex_value_byte: "hex_value [hex_char (byte c div 16), hex_char (byte c mod 16)] = byte c"
  by (simp add: hex_value_def byte_nibbles)

lemma unquote_quoted: "unquote_chars (quote_byte c @ rest) = (case unquote_chars rest of None \<Rightarrow> None | Some r \<Rightarrow> Some (c # r))"
proof -
  have hv: "char_of (hex_value [hex_char (byte c div 16), hex_char (byte c mod 16)]) = c"
    by (simp only: hex_value_byte) (simp add: byte_def)
  have "unquote_char (quote_byte c @ rest) = Some ([c], length (quote_byte c))"
  proof (cases "c = dquote \<or> c = backslash")
    case True
    then show ?thesis
      by (auto simp: quote_byte_def unquote_char_def one_byte_escape_def backslash_def dquote_def Let_def)
  next
    case False
    show ?thesis
    proof (cases "32 \<le> byte c \<and> byte c \<le> 126")
      case True
      then show ?thesis using False by (simp add: quote_byte_def unquote_char_def utf8_step_def Let_def)
    next
      case plain: False
      have x: "one_byte_escape (CHR ''x'') = None" by (simp add: one_byte_escape_def backslash_def dquote_def)
      have b: "backslash \<noteq> dquote" by (simp add: backslash_def dquote_def)
      have q: "quote_byte c = [backslash, CHR ''x'', hex_char (byte c div 16), hex_char (byte c mod 16)]"
        using plain False by (auto simp: quote_byte_def)
      show ?thesis using hv by (simp add: q unquote_char_def x b byte_nibbles numeral_2_eq_2 Let_def)
    qed
  qed
  moreover have "quote_byte c @ rest \<noteq> []" by (simp add: quote_byte_def)
  ultimately show ?thesis
    by (subst unquote_chars.simps) (simp split: option.split)
qed

lemma unquote_quote: "unquote_chars (concat (map quote_byte bs)) = Some bs"
  by (induction bs) (simp add: unquote_chars.simps, simp add: unquote_quoted)

lemma mark_bytes: "byte backslash = 92" "byte dquote = 34" "byte (CHR ''x'') = 120"
  by (simp_all add: backslash_def dquote_def byte_def)

lemma quote_byte_printable:
  assumes "x \<in> set (quote_byte c)"
  shows "32 \<le> byte x \<and> byte x \<le> 126"
proof -
  have hc: "48 \<le> byte (hex_char d) \<and> byte (hex_char d) \<le> 102" if "d < 16" for d
    using that by (simp add: hex_char_def byte_char_of)
  consider "x = backslash" | "x = c" "c = dquote \<or> c = backslash \<or> 32 \<le> byte c \<and> byte c \<le> 126" | "x = CHR ''x''"
    | "x = hex_char (byte c div 16)" | "x = hex_char (byte c mod 16)"
    using assms by (auto simp: quote_byte_def split: if_splits)
  then show ?thesis using mark_bytes hc [OF byte_nibbles(1) [of c]] hc [OF byte_nibbles(2) [of c]] by cases auto
qed

text \<open>Text that begins and ends with a visible ASCII character is trimmed already.\<close>

lemma utrim_ends:
  assumes "s \<noteq> []" "33 \<le> byte (hd s)" "byte (hd s) \<le> 126" "33 \<le> byte (last s)" "byte (last s) \<le> 126"
  shows "utrim s = s"
proof -
  have "ws_len s = 0"
    using assms by (cases s) (auto simp: ws_len_def is_ascii_ws_def wide_space_def split: list.split)
  moreover have "ws_tail s = 0"
    using assms by (cases s rule: rev_cases) (auto simp: ws_tail_def is_ascii_ws_def wide_space_def split: list.split)
  ultimately show ?thesis by (simp add: utrim_def trim_start.simps [of s] trim_end.simps [of s])
qed

lemma read_written:
  assumes "plain_assignment a"
  shows "utrim (write_assignment a) = write_assignment a" "read_line (write_assignment a) = Assigned a" "LF \<notin> set (write_assignment a)"
proof -
  let ?q = "dquote # concat (map quote_byte (as_value a)) @ [dquote]"
  have dq: "byte dquote = 34" by (simp add: dquote_def byte_def)
  have w: "write_assignment a = as_key a @ CHR ''='' # ?q" by (simp add: write_assignment_def)
  have k: "as_key a \<noteq> []" "\<And>c. c \<in> set (as_key a) \<Longrightarrow> 33 \<le> byte c \<and> byte c \<le> 126 \<and> c \<noteq> CHR ''=''"
    using assms by (auto simp: plain_assignment_def list_all_iff)
  have tk: "utrim (as_key a) = as_key a" using k by (intro utrim_ends) auto
  show tw: "utrim (write_assignment a) = write_assignment a" unfolding w using k dq by (intro utrim_ends) auto
  have tq: "utrim ?q = ?q" using dq by (intro utrim_ends) auto
  have printable: "32 \<le> byte x" if "x \<in> set (concat (map quote_byte (as_value a)))" for x
    using that quote_byte_printable by auto
  have lf: "byte LF = 10" by (simp add: LF_def byte_def)
  have "x \<noteq> LF" if "x \<in> set (write_assignment a)" for x
  proof
    assume "x = LF"
    then have "byte x = 10" using lf by simp
    with that show False unfolding w using k(2) [of x] printable [of x] dq by (auto simp: byte_def)
  qed
  then show "LF \<notin> set (write_assignment a)" by blast
  have inner: "LF \<notin> set (concat (map quote_byte (as_value a)))" using printable lf by fastforce
  have u: "unquote_go_string ?q = Some (as_value a)"
    using inner unquote_quote by (simp add: unquote_go_string_def)
  have "split_once (CHR ''='') (write_assignment a) = Some (as_key a, ?q)"
    unfolding w split_once_Some using k(2) by blast
  moreover have "\<not> starts_with (write_assignment a) ''#''"
    using assms k(1) by (cases "as_key a") (auto simp: w starts_with_def plain_assignment_def)
  moreover have "NUL \<notin> set (as_key a)" using k(2) [of NUL] by (auto simp: NUL_def byte_def)
  moreover have "NUL \<notin> set (as_value a)" using assms by (simp add: plain_assignment_def)
  ultimately show "read_line (write_assignment a) = Assigned a"
    using k(1) by (simp add: read_line_def tk tq u starts_with_def w)
qed

lemma str_lines_line: "LF \<notin> set l \<Longrightarrow> str_lines (l @ LF # rest) = drop_cr l # str_lines rest"
  unfolding str_lines_def by (cases "split_on LF rest") (auto simp: split_on_line Let_def)

lemma parse_written:
  assumes "list_all plain_assignment as"
  shows "parse_lines n (str_lines (write_env as)) = \<lparr>pn_assignments = as, pn_skipped = [], pn_refusal = None\<rparr>"
  using assms
proof (induction as arbitrary: n)
  case Nil
  then show ?case by (simp add: write_env_def str_lines_def)
next
  case (Cons a as)
  have l: "write_env (a # as) = write_assignment a @ LF # write_env as" by (simp add: write_env_def)
  have a: "plain_assignment a" using Cons.prems by simp
  have "dquote \<noteq> CR" by (simp add: dquote_def CR_def)
  then have "drop_cr (write_assignment a) = write_assignment a" by (simp add: drop_cr_def write_assignment_def)
  then have "str_lines (write_env (a # as)) = write_assignment a # str_lines (write_env as)"
    using str_lines_line [OF read_written(3) [OF a]] l by simp
  then show ?case using Cons read_written(1,2) [OF a] by (simp add: Let_def)
qed

interpretation env_file: codec write_env "\<lambda>t. Some (pn_assignments (parse_key_value_env t))" "list_all plain_assignment"
  by unfold_locales (simp add: parse_key_value_env_def parse_written)

text \<open>
  C14. Every environment of plainly named variables can be written as a file: with the values quoted, whatever
  bytes they hold, the scan gives exactly the variables back, skips no line and refuses none.
\<close>

theorem env_file_round_trip:
  assumes "list_all plain_assignment as"
  shows "parse_key_value_env (write_env as) = \<lparr>pn_assignments = as, pn_skipped = [], pn_refusal = None\<rparr>"
  using parse_written [OF assms] by (simp add: parse_key_value_env_def)

theorem env_file_round_trip_witness:
  "parse_key_value_env (write_env [\<lparr>as_key = ''TS_LOG'', as_value = [CHR 0xFF, CHR 0x22, CHR 0x0A]\<rparr>]) =
    \<lparr>pn_assignments = [\<lparr>as_key = ''TS_LOG'', as_value = [CHR 0xFF, CHR 0x22, CHR 0x0A]\<rparr>], pn_skipped = [], pn_refusal = None\<rparr>"
  by (rule env_file_round_trip) (simp add: plain_assignment_def byte_def NUL_def)

section \<open>A refused line ends the scan\<close>

lemma split_on_append: "split_on s (a @ s # b) = split_on s a @ split_on s b"
  by (induction a) (auto split: list.split)

lemma str_lines_append: "str_lines (a @ LF # b) = map drop_cr (split_on LF a) @ str_lines b"
  unfolding str_lines_def by (simp add: split_on_append butlast_append Let_def)

lemma ws_len_CR:
  "l \<noteq> [] \<Longrightarrow> ws_len (l @ [CR]) = ws_len l"
proof (cases l)
  case (Cons c cs)
  have cr: "byte CR = 13" by (simp add: CR_def byte_def)
  show ?thesis
  proof (cases cs)
    case Nil
    then show ?thesis using Cons cr by (simp add: ws_len_def)
  next
    case (Cons d r)
    then show ?thesis using \<open>l = c # cs\<close> cr by (cases r) (auto simp: ws_len_def wide_space_def)
  qed
qed simp

lemma trim_start_CR: "trim_start (l @ [CR]) = (if trim_start l = [] then [] else trim_start l @ [CR])"
proof (induction l rule: trim_start.induct)
  case (1 l)
  have cr: "ws_len [CR] = 1" by (simp add: ws_len_def is_ascii_ws_def CR_def byte_def)
  have nil: "trim_start [] = []" by (simp add: trim_start.simps ws_len_def)
  show ?case
  proof (cases "l = []")
    case True
    then show ?thesis using cr nil by (simp add: trim_start.simps [of "[CR]"])
  next
    case False
    note len = ws_len_CR [OF False]
    show ?thesis
    proof (cases "ws_len l = 0")
      case True
      then show ?thesis using len False by (simp add: trim_start.simps [of "l @ [CR]"] trim_start.simps [of l])
    next
      case False
      from 1 [OF False] show ?thesis
        using len False ws_len_le [of l] by (simp add: trim_start.simps [of "l @ [CR]"] trim_start.simps [of l])
    qed
  qed
qed

lemma trim_end_CR: "trim_end (l @ [CR]) = trim_end l"
proof -
  have "ws_tail (l @ [CR]) = 1" by (simp add: ws_tail_def is_ascii_ws_def CR_def byte_def)
  then show ?thesis by (simp add: trim_end.simps [of "l @ [CR]"])
qed

lemma utrim_drop_cr [simp]: "utrim (drop_cr l) = utrim l"
proof (cases "l \<noteq> [] \<and> last l = CR")
  case True
  then obtain l' where "l = l' @ [CR]" by (cases l rule: rev_cases) auto
  then show ?thesis by (simp add: drop_cr_def utrim_def trim_start_CR trim_end_CR)
qed (auto simp: drop_cr_def)

lemma parse_lines_cong: "map utrim as = map utrim bs \<Longrightarrow> parse_lines n as = parse_lines n bs"
proof (induction as arbitrary: bs n)
  case (Cons a as)
  then obtain b bs' where "bs = b # bs'" "utrim a = utrim b" "map utrim as = map utrim bs'" by (cases bs) auto
  with Cons.IH [of bs'] show ?case by (simp add: Let_def)
qed simp

lemma parse_lines_refused:
  "pn_refusal (parse_lines n as) \<noteq> None \<Longrightarrow> parse_lines n (as @ bs) = parse_lines n as"
  by (induction n as rule: parse_lines.induct) (auto simp: Let_def split: line_outcome.splits)

text \<open>
  A refused line ends the scan: whatever is written below it changes nothing, neither the variables that
  are set nor the complaint.
\<close>

theorem refusal_ends_the_scan:
  assumes "pn_refusal (parse_key_value_env a) \<noteq> None"
  shows "parse_key_value_env (a @ [LF] @ b) = parse_key_value_env a"
proof -
  let ?sp = "split_on LF a"
  have all: "str_lines (a @ [LF] @ b) = map drop_cr ?sp @ str_lines b" by (simp add: str_lines_append)
  have sp: "?sp = butlast ?sp @ [last ?sp]" by simp
  show ?thesis
  proof (cases "last ?sp = []")
    case True
    have "map drop_cr ?sp = str_lines a @ [[]]"
      using True by (subst sp) (simp add: str_lines_def drop_cr_def Let_def)
    then show ?thesis using parse_lines_refused assms unfolding parse_key_value_env_def all by simp
  next
    case False
    have "map drop_cr ?sp = map drop_cr (butlast ?sp) @ [drop_cr (last ?sp)]"
      by (metis sp map_append list.simps(8,9))
    moreover have "str_lines a = map drop_cr (butlast ?sp) @ [last ?sp]" using False by (simp add: str_lines_def Let_def)
    ultimately have "map utrim (map drop_cr ?sp) = map utrim (str_lines a)" by simp
    then have "parse_lines 1 (map drop_cr ?sp) = parse_lines 1 (str_lines a)" by (rule parse_lines_cong)
    then show ?thesis using parse_lines_refused assms unfolding parse_key_value_env_def all by metis
  qed
qed

theorem refusal_ends_the_scan_witness:
  "parse_key_value_env (''A=\"'' @ [LF] @ ''B=1'') = parse_key_value_env ''A=\"''"
proof -
  have "pn_refusal (parse_key_value_env ''A=\"'') \<noteq> None" by code_simp
  then show ?thesis by (rule refusal_ends_the_scan)
qed

end
