(* ===== verification/HostReap.thy ===== *)
theory HostReap
  imports Routes EnvFile
begin

text \<open>
  \<open>src/src/hostreap.rs\<close>: what a macOS host keeps after the daemon was killed, routes into a tunnel device that
  is gone and a resolver entry, is removed at the next start. The reading of the routing table, the choice of
  the routes, the commands, and the report. The programs that are run, the interface table and the network
  type of the \<open>ipnet\<close> crate are parameters; the log of the commands is part of the result.
\<close>

section \<open>The routing table\<close>

definition TUN_IF_PREFIX :: string where "TUN_IF_PREFIX = ''utun''"

definition DNS_KEY :: string where "DNS_KEY = ''State:/Network/Service/tailscale-rs/DNS''"

record FibEntry =
  fe_destination :: ipnet
  fe_gateway :: string
  fe_flags :: string
  fe_netif :: string

text \<open>\<open>Ipv4Net::new\<close> and its \<open>Display\<close>.\<close>

record ipv4_net_lib =
  nl_new :: "32 word \<Rightarrow> nat \<Rightarrow> ipnet option"
  nl_show :: "ipnet \<Rightarrow> string"

text \<open>\<open>str::parse::<u8>\<close>.\<close>

definition parse_u8 :: "string \<Rightarrow> nat option" where
  "parse_u8 s = from_str_radix 10 256 s"

fun dotted_octets :: "string list \<Rightarrow> nat list option" where
  "dotted_octets [] = Some []"
| "dotted_octets (p # ps) =
     (if p = [] \<or> \<not> list_all is_ascii_digit p then None
      else case parse_u8 p of
        None \<Rightarrow> None
      | Some v \<Rightarrow> (case dotted_octets ps of None \<Rightarrow> None | Some vs \<Rightarrow> Some (v # vs)))"

text \<open>\<open>Ipv4Addr::from\<close> of the array of four octets, those that are not written being zero.\<close>

definition pack_octets :: "nat list \<Rightarrow> 32 word" where
  "pack_octets os = (let at = (\<lambda>i. if i < length os then os ! i else 0) in
     of_nat (at 0 * 16777216 + at 1 * 65536 + at 2 * 256 + at 3))"

definition parse_destination :: "ipv4_net_lib \<Rightarrow> string \<Rightarrow> ipnet option" where
  "parse_destination L token =
     (if token = ''default'' then nl_new L 0 0
      else
        case (case split_once (CHR ''/'') token of
                None \<Rightarrow> Some (token, None)
              | Some (a, l) \<Rightarrow> (case parse_u8 l of None \<Rightarrow> None | Some n \<Rightarrow> Some (a, Some n))) of
          None \<Rightarrow> None
        | Some (addr_part, explicit) \<Rightarrow>
            (let parts = split_on (CHR ''.'') addr_part in
             if 4 < length parts then None
             else case dotted_octets parts of
               None \<Rightarrow> None
             | Some os \<Rightarrow> nl_new L (pack_octets os) (unwrap_or explicit (length os * 8))))"

definition parse_route_line :: "ipv4_net_lib \<Rightarrow> string \<Rightarrow> FibEntry option" where
  "parse_route_line L line =
     (case split_whitespace line of
        dest # gateway # flags # netif # _ \<Rightarrow>
          (case parse_destination L dest of
             None \<Rightarrow> None
           | Some d \<Rightarrow> Some \<lparr>fe_destination = d, fe_gateway = gateway, fe_flags = flags, fe_netif = netif\<rparr>)
      | _ \<Rightarrow> None)"

definition parse_netstat_inet :: "ipv4_net_lib \<Rightarrow> string \<Rightarrow> FibEntry list" where
  "parse_netstat_inet L out = List.map_filter (parse_route_line L) (str_lines out)"

definition is_interface_scoped_utun_route :: "FibEntry \<Rightarrow> bool" where
  "is_interface_scoped_utun_route e \<longleftrightarrow>
     starts_with (fe_netif e) TUN_IF_PREFIX \<and> fe_gateway e = fe_netif e \<and> CHR ''S'' \<in> set (fe_flags e)"

definition stale_utun_routes :: "FibEntry list \<Rightarrow> (string \<Rightarrow> bool) \<Rightarrow> FibEntry list" where
  "stale_utun_routes entries iface_exists =
     filter (\<lambda>e. is_interface_scoped_utun_route e \<and> \<not> iface_exists (fe_netif e)) entries"

section \<open>The commands\<close>

datatype host_command = RunRoute "string list" | RunScutil string

text \<open>
  What the host answers: the routing table if \<open>netstat\<close> succeeds, the interface table, and for each command
  (with the number of commands before it) how it ends.
\<close>

record reap_host =
  rh_netstat :: "string option"
  rh_ifindex :: "string \<Rightarrow> bool"
  rh_route :: "nat \<Rightarrow> string list \<Rightarrow> bool"
  rh_scutil :: "nat \<Rightarrow> string \<Rightarrow> string option"
  rh_macos :: bool
  rh_root :: bool
  rh_no_reap :: "string option"

record ReapReport =
  rr_skipped :: bool
  rr_routes_reaped :: "string list"
  rr_routes_failed :: "string list"
  rr_dns_key_reaped :: bool

definition reap_default :: ReapReport where
  "reap_default = \<lparr>rr_skipped = False, rr_routes_reaped = [], rr_routes_failed = [], rr_dns_key_reaped = False\<rparr>"

definition reap_disabled :: "string option \<Rightarrow> bool" where
  "reap_disabled value \<longleftrightarrow> value = Some ''1''"

definition interface_exists :: "reap_host \<Rightarrow> string \<Rightarrow> bool" where
  "interface_exists H name = (if NUL \<in> set name then True else rh_ifindex H name)"

definition route_delete_argv :: "ipv4_net_lib \<Rightarrow> string \<Rightarrow> ipnet \<Rightarrow> string list" where
  "route_delete_argv L if_name net = [''-n'', ''-q'', ''delete'', ''-inet'', nl_show L net, ''-interface'', if_name]"

definition route_delete_dest_argv :: "ipv4_net_lib \<Rightarrow> ipnet \<Rightarrow> string list" where
  "route_delete_dest_argv L net = [''-n'', ''-q'', ''delete'', ''-inet'', nl_show L net]"

definition delete_route :: "ipv4_net_lib \<Rightarrow> reap_host \<Rightarrow> FibEntry \<Rightarrow> host_command list \<Rightarrow> bool \<times> host_command list" where
  "delete_route L H e log =
     (let argv = route_delete_argv L (fe_netif e) (fe_destination e); log' = log @ [RunRoute argv] in
      if rh_route H (length log) argv then (True, log')
      else
        let argv2 = route_delete_dest_argv L (fe_destination e) in
        (rh_route H (length log') argv2, log' @ [RunRoute argv2]))"

fun reap_entries :: "ipv4_net_lib \<Rightarrow> reap_host \<Rightarrow> FibEntry list \<Rightarrow> ReapReport \<Rightarrow> host_command list \<Rightarrow>
    ReapReport \<times> host_command list" where
  "reap_entries L H [] r log = (r, log)"
| "reap_entries L H (e # es) r log =
     (let rendered = nl_show L (fe_destination e) @ '' via '' @ fe_netif e in
      case delete_route L H e log of (ok, log') \<Rightarrow>
        reap_entries L H es
          (if ok then r\<lparr>rr_routes_reaped := rr_routes_reaped r @ [rendered]\<rparr>
           else r\<lparr>rr_routes_failed := rr_routes_failed r @ [rendered]\<rparr>) log')"

definition reap_routes :: "ipv4_net_lib \<Rightarrow> reap_host \<Rightarrow> ReapReport \<Rightarrow> host_command list \<Rightarrow> ReapReport \<times> host_command list" where
  "reap_routes L H r log =
     (case rh_netstat H of
        None \<Rightarrow> (r, log)
      | Some table \<Rightarrow> reap_entries L H (stale_utun_routes (parse_netstat_inet L table) (interface_exists H)) r log)"

definition scutil_show_script :: string where
  "scutil_show_script = ''open'' @ [LF] @ ''show '' @ DNS_KEY @ [LF] @ ''quit'' @ [LF]"

definition scutil_remove_script :: string where
  "scutil_remove_script = ''open'' @ [LF] @ ''remove '' @ DNS_KEY @ [LF] @ ''quit'' @ [LF]"

datatype KeyState = Present | Absent | Unknown

definition scutil_key_state :: "string \<Rightarrow> KeyState" where
  "scutil_key_state out =
     (if contains_str out ''No such key'' then Absent
      else if contains_str out ''<dictionary>'' then Present
      else Unknown)"

definition reap_dns_key :: "reap_host \<Rightarrow> ReapReport \<Rightarrow> host_command list \<Rightarrow> ReapReport \<times> host_command list" where
  "reap_dns_key H r log =
     (let log1 = log @ [RunScutil scutil_show_script] in
      case rh_scutil H (length log) scutil_show_script of
        None \<Rightarrow> (r, log1)
      | Some out \<Rightarrow>
          (case scutil_key_state out of
             Absent \<Rightarrow> (r, log1)
           | Present \<Rightarrow>
               ((if rh_scutil H (length log1) scutil_remove_script \<noteq> None then r\<lparr>rr_dns_key_reaped := True\<rparr> else r),
                log1 @ [RunScutil scutil_remove_script])
           | Unknown \<Rightarrow> (r, log1)))"

definition reap_stale_host_state :: "ipv4_net_lib \<Rightarrow> reap_host \<Rightarrow> ReapReport \<times> host_command list" where
  "reap_stale_host_state L H =
     (if reap_disabled (rh_no_reap H) then (reap_default\<lparr>rr_skipped := True\<rparr>, [])
      else if \<not> rh_macos H then (reap_default\<lparr>rr_skipped := True\<rparr>, [])
      else if \<not> rh_root H then (reap_default\<lparr>rr_skipped := True\<rparr>, [])
      else case reap_routes L H reap_default [] of (r, log) \<Rightarrow> reap_dns_key H r log)"

section \<open>What is touched\<close>

lemma parse_u8_dec: "parse_u8 (dec_string n) = (if n < 256 then Some n else None)"
proof -
  have "dec_string n = c # cs \<Longrightarrow> c \<noteq> CHR ''+''" for c cs
    using dec_string_digits [of c n] by (auto simp: is_ascii_digit_def byte_def)
  then have "parse_u8 (dec_string n) = radix_val 10 256 0 (dec_string n)"
    by (cases "dec_string n") (auto simp: parse_u8_def from_str_radix_def Let_def)
  then show ?thesis using radix_val_dec [of "dec_string n" 0 256] dec_string_digits
    by (simp add: digits_val_dec_string)
qed

text \<open>The routes of the table that a run may delete.\<close>

definition stale_routes :: "ipv4_net_lib \<Rightarrow> reap_host \<Rightarrow> FibEntry list" where
  "stale_routes L H =
     (case rh_netstat H of None \<Rightarrow> [] | Some t \<Rightarrow> stale_utun_routes (parse_netstat_inet L t) (interface_exists H))"

lemma reap_entries_log:
  "set (snd (reap_entries L H es r log)) \<subseteq> set log \<union>
    {RunRoute argv | argv e. e \<in> set es \<and>
      (argv = route_delete_argv L (fe_netif e) (fe_destination e) \<or> argv = route_delete_dest_argv L (fe_destination e))}"
proof (induction es arbitrary: r log)
  case (Cons e es)
  obtain ok log' where d: "delete_route L H e log = (ok, log')" by fastforce
  then have "set log' \<subseteq> set log \<union> {RunRoute (route_delete_argv L (fe_netif e) (fe_destination e)),
      RunRoute (route_delete_dest_argv L (fe_destination e))}"
    by (auto simp: delete_route_def Let_def split: if_splits)
  then show ?case using Cons [of _ log'] d by (auto simp: Let_def) blast+
qed simp

lemma reap_dns_log:
  assumes "reap_dns_key H r log = (r', log')"
  shows "set log' \<subseteq> set log \<union> {RunScutil scutil_show_script, RunScutil scutil_remove_script} \<and>
    (RunScutil scutil_remove_script \<in> set log' - set log \<longrightarrow>
      (\<exists>out. rh_scutil H (length log) scutil_show_script = Some out \<and> scutil_key_state out = Present))"
proof -
  have "scutil_show_script \<noteq> scutil_remove_script" by (simp add: scutil_show_script_def scutil_remove_script_def)
  then show ?thesis using assms by (auto simp: reap_dns_key_def Let_def split: option.splits KeyState.splits)
qed

text \<open>
  C16. Reaping touches only what a killed daemon left: on a macOS host, as root and unless it is turned off. Every
  \<open>route\<close> command deletes the destination of a static route of the table into a \<open>utun\<close> device that no longer
  exists, and the only \<open>scutil\<close> commands are the query for the daemon's own resolver key and its removal, which
  is issued only when the query answered with a dictionary.
\<close>

theorem reap_touches_only_stale_state:
  assumes "c \<in> set (snd (reap_stale_host_state L H))"
  shows "rh_macos H \<and> rh_root H \<and> rh_no_reap H \<noteq> Some ''1'' \<and>
    (case c of
       RunRoute argv \<Rightarrow> \<exists>e \<in> set (stale_routes L H).
         starts_with (fe_netif e) ''utun'' \<and> fe_gateway e = fe_netif e \<and> CHR ''S'' \<in> set (fe_flags e) \<and>
         \<not> interface_exists H (fe_netif e) \<and>
         (argv = route_delete_argv L (fe_netif e) (fe_destination e) \<or> argv = route_delete_dest_argv L (fe_destination e))
     | RunScutil script \<Rightarrow> script = scutil_show_script \<or>
         script = scutil_remove_script \<and>
         (\<exists>n out. rh_scutil H n scutil_show_script = Some out \<and> scutil_key_state out = Present))"
proof -
  obtain r log where r: "reap_routes L H reap_default [] = (r, log)" by fastforce
  obtain r' log' where d: "reap_dns_key H r log = (r', log')" by fastforce
  have gates: "rh_macos H \<and> rh_root H \<and> rh_no_reap H \<noteq> Some ''1''" and c: "c \<in> set log'"
    using assms by (auto simp: reap_stale_host_state_def reap_disabled_def r d split: if_splits)
  have log: "set log \<subseteq> {RunRoute argv | argv e. e \<in> set (stale_routes L H) \<and>
      (argv = route_delete_argv L (fe_netif e) (fe_destination e) \<or> argv = route_delete_dest_argv L (fe_destination e))}"
  proof (cases "rh_netstat H")
    case None
    then show ?thesis using r by (simp add: reap_routes_def)
  next
    case (Some t)
    then have "log = snd (reap_entries L H (stale_routes L H) reap_default [])"
      using r by (simp add: reap_routes_def stale_routes_def)
    then show ?thesis using reap_entries_log [of L H "stale_routes L H" reap_default "[]"] by simp
  qed
  have stale: "starts_with (fe_netif e) ''utun'' \<and> fe_gateway e = fe_netif e \<and> CHR ''S'' \<in> set (fe_flags e) \<and>
      \<not> interface_exists H (fe_netif e)" if "e \<in> set (stale_routes L H)" for e
    using that by (auto simp: stale_routes_def stale_utun_routes_def is_interface_scoped_utun_route_def TUN_IF_PREFIX_def
        split: option.splits)
  show ?thesis
  proof (cases c)
    case (RunRoute argv)
    then have "c \<in> set log" using c reap_dns_log [OF d] by auto
    then show ?thesis using RunRoute gates log stale by auto
  next
    case (RunScutil script)
    then have "c \<notin> set log" using log by auto
    then show ?thesis using RunScutil gates c reap_dns_log [OF d] by auto
  qed
qed

definition demo_nets :: ipv4_net_lib where
  "demo_nets = \<lparr>nl_new = (\<lambda>a n. if n \<le> 32 then Some (NetV4 a n) else None), nl_show = (\<lambda>_. ''100.64/10'')\<rparr>"

definition demo_reap :: reap_host where
  "demo_reap = \<lparr>rh_netstat = Some ''100.64/10 utun4 USc utun4'', rh_ifindex = (\<lambda>_. False), rh_route = (\<lambda>n _. n = 1),
     rh_scutil = (\<lambda>_ _. Some ''<dictionary>''), rh_macos = True, rh_root = True, rh_no_reap = None\<rparr>"

lemma demo_reap_run:
  "snd (reap_stale_host_state demo_nets demo_reap) =
    [RunRoute (route_delete_argv demo_nets ''utun4'' (NetV4 (pack_octets [100, 64]) 10)),
     RunRoute (route_delete_dest_argv demo_nets (NetV4 (pack_octets [100, 64]) 10)),
     RunScutil scutil_show_script, RunScutil scutil_remove_script]"
proof -
  let ?line = "''100.64/10 utun4 USc utun4''"
  have lines: "str_lines ?line = [?line]" "split_whitespace ?line = [''100.64/10'', ''utun4'', ''USc'', ''utun4'']" by code_simp+
  have dest: "split_once (CHR ''/'') ''100.64/10'' = Some (''100.64'', ''10'')" "parse_u8 ''10'' = Some 10"
    "split_on (CHR ''.'') ''100.64'' = [''100'', ''64'']" "dotted_octets [''100'', ''64''] = Some [100, 64]" by code_simp+
  have "parse_destination demo_nets ''100.64/10'' = Some (NetV4 (pack_octets [100, 64]) 10)"
    by (simp add: parse_destination_def dest demo_nets_def Let_def del: dotted_octets.simps)
  then have table: "parse_netstat_inet demo_nets ?line =
      [\<lparr>fe_destination = NetV4 (pack_octets [100, 64]) 10, fe_gateway = ''utun4'', fe_flags = ''USc'', fe_netif = ''utun4''\<rparr>]"
    by (simp add: parse_netstat_inet_def lines parse_route_line_def List.map_filter_simps)
  have key: "scutil_key_state ''<dictionary>'' = Present" by code_simp
  show ?thesis
    by (simp add: reap_stale_host_state_def demo_reap_def reap_disabled_def reap_routes_def table stale_utun_routes_def
        is_interface_scoped_utun_route_def TUN_IF_PREFIX_def starts_with_def interface_exists_def NUL_def delete_route_def
        reap_dns_key_def key Let_def)
qed

theorem reap_touches_only_stale_state_witness:
  "\<exists>n out. rh_scutil demo_reap n scutil_show_script = Some out \<and> scutil_key_state out = Present"
proof -
  have "RunScutil scutil_remove_script \<in> set (snd (reap_stale_host_state demo_nets demo_reap))" by (simp add: demo_reap_run)
  from reap_touches_only_stale_state [OF this]
  have "scutil_remove_script = scutil_show_script \<or> (\<exists>n out. rh_scutil demo_reap n scutil_show_script = Some out \<and> scutil_key_state out = Present)"
    by auto
  then show ?thesis by (simp add: scutil_show_script_def scutil_remove_script_def)
qed

text \<open>
  A destination of the table is read as it was meant: one to four octets, the missing ones zero, with the
  prefix length that is written or else eight bits for each octet, given a network type that accepts the
  lengths up to 32.
\<close>

theorem destination_reads_back:
  assumes "\<forall>a n. nl_new L a n = (if n \<le> 32 then Some (NetV4 a n) else None)" and "os \<noteq> []" "length os \<le> 4"
    and "list_all (\<lambda>b. b < 256) os" and "list_all (\<lambda>n. n \<le> 32) (case len of None \<Rightarrow> [] | Some n \<Rightarrow> [n])"
  shows "parse_destination L (join ''.'' (map dec_string os) @ (case len of None \<Rightarrow> [] | Some n \<Rightarrow> ''/'' @ dec_string n)) =
    Some (NetV4 (pack_octets os) (unwrap_or len (8 * length os)))"
proof -
  let ?addr = "join ''.'' (map dec_string os)"
  have digit: "is_ascii_digit c \<Longrightarrow> c \<noteq> CHR ''.'' \<and> c \<noteq> CHR ''/'' \<and> c \<noteq> CHR ''d''" for c
    by (auto simp: is_ascii_digit_def byte_def)
  have plain: "c = CHR ''.'' \<or> is_ascii_digit c" if "c \<in> set ?addr" for c
  proof -
    have "set (join ''.'' ws) \<subseteq> insert (CHR ''.'') (\<Union> (set ` set ws))" for ws
      by (induction "''.''" ws rule: join.induct) auto
    then show ?thesis using that dec_string_digits by fastforce
  qed
  have parts: "split_on (CHR ''.'') ?addr = map dec_string os"
    using assms(2) dec_string_digits digit by (intro split_on_join) auto
  have octets: "dotted_octets (map dec_string bs) = Some bs" if "list_all (\<lambda>b. b < 256) bs" for bs
    using that by (induction bs) (auto simp: parse_u8_dec list_all_iff dec_string_digits)
  let ?tok = "?addr @ (case len of None \<Rightarrow> [] | Some n \<Rightarrow> ''/'' @ dec_string n)"
  have slash: "CHR ''/'' \<notin> set ?addr" using plain digit by fastforce
  have "split_once (CHR ''/'') ?tok = (case len of None \<Rightarrow> None | Some n \<Rightarrow> Some (?addr, dec_string n))"
  proof (cases len)
    case None
    have "split_once (CHR ''/'') ?addr = None"
      by (metis in_set_conv_decomp not_None_eq slash split_once_Some surj_pair)
    then show ?thesis using None by simp
  next
    case (Some n)
    then show ?thesis using slash by (simp add: split_once_Some)
  qed
  moreover have "?tok \<noteq> ''default''"
  proof
    assume d: "?tok = ''default''"
    have ne: "?addr \<noteq> []" using assms(2) by (cases os rule: list.exhaust; cases "tl os") auto
    then have "hd ?addr \<in> set ?addr" by (rule hd_in_set)
    moreover have "hd ?addr = CHR ''d''" using arg_cong [OF d, of hd] ne by simp
    ultimately have "CHR ''d'' \<in> set ?addr" by (simp only:)
    then show False using plain digit by fastforce
  qed
  ultimately show ?thesis
    using assms(1,3,5) octets [OF assms(4)]
    by (cases len) (simp_all add: parse_destination_def parts parse_u8_dec Let_def)
qed

theorem destination_reads_back_witness:
  "parse_destination demo_nets ''192.168/16'' = Some (NetV4 (pack_octets [192, 168]) 16)"
proof -
  have "join ''.'' (map dec_string [192, 168]) @ ''/'' @ dec_string 16 = ''192.168/16''" by code_simp
  with destination_reads_back [of demo_nets "[192, 168]" "Some 16"] show ?thesis by (simp add: demo_nets_def)
qed

end
