(* ===== verification/Spec2Isabelle.thy ===== *)
theory Spec2Isabelle
  imports Races Connection NotifyStream GoDuration PortmapRaces Proxies CliServe CliSafe Taildrop Lock Captive HostReap
begin

text \<open>
  \<^bold>\<open>A verification development of tailscaled-rs\<close>

  The repository is a Tailscale daemon (\<open>tailnetd\<close>) around an engine library, with a command line
  client (\<open>tnet\<close>). Clients talk to the daemon over a Unix socket (the LocalAPI). The daemon's own logic is: who
  may issue which request, how a request, a configuration file and an administrator's policy change the
  preferences, how the preferences become an engine config, how an engine is brought up, replaced and
  torn down while several commands run at once, how all of this is persisted per profile, and the services
  around the engine: serve and Funnel, the proxies, port mapping, file transfer, tailnet lock, the monitors of
  the host, and what is repaired and applied at the start.

  \<^bold>\<open>How it is modelled.\<close> The code is translated function by function, under its own names. A struct is
  a record, an enum a datatype, \<open>Result\<close> the sum type \<open>result\<close> of the theory \<open>Prelude\<close> (\<open>Inl\<close> the error), an
  \<open>Option\<close> an option, strings are byte lists, an \<open>&mut self\<close> method takes the backend and the file system
  and returns both with its result. One method call under the backend lock is one atomic operation; the
  interleaving of the operations is a step relation. What is not in the repository is a parameter: the
  engine, the JSON and HuJSON decoders, the \<open>ipnet\<close> and \<open>url\<close> crates, the HTTP client, the operating system's
  answers (uids, the interface list, programs that are run, failing system calls) and the clock. They are
  fields of the environment records (\<open>io_env\<close>, \<open>ipnet_lib\<close>, \<open>build_env\<close>, \<open>conf_env\<close>, \<open>daemon_env\<close>, \<open>host_view\<close>,
  \<open>reap_host\<close> and others), arbitrary unless a theorem says otherwise.

  \<^bold>\<open>The theories.\<close>

  \<^item> \<open>Prelude\<close>: results, string functions, decimal numbers, and the two shared interfaces \<open>codec\<close> (a printer
    and its parser) and \<open>reconciler\<close> (a step that is idempotent). \<open>StdNet\<close>: the standard library's IP address
    parser and printer. \<open>Utf8\<close>, \<open>Utf8Chars\<close>: UTF-8 text, trimming, words, lines, numbers in a radix. \<open>BTree\<close>:
    \<open>BTreeMap\<close> as a sorted association list, behind the locale \<open>ordered_map\<close>.
  \<^item> \<open>Store\<close>, \<open>Prefs\<close> (\<open>prefs.rs\<close>): the file system, the atomic write and its intermediate states, the preferences
    with their defaults, load and save. Shown: crash safety of every write.
  \<^item> \<open>GoDuration\<close> (\<open>goduration.rs\<close>): Go's duration texts, with 64-bit arithmetic and the floating point path of
    the fraction (round to nearest even on rationals). Shown: the round trip on every \<open>i64\<close>, and the bounds.
    The parser's loop terminates because each turn consumes input.
  \<^item> \<open>State\<close> (\<open>ipn/state.rs\<close>), \<open>Routes\<close> (\<open>routes.rs\<close>), \<open>ExitNode\<close> (\<open>ipn/mod.rs\<close>), \<open>TunFlag\<close> (\<open>tunflag.rs\<close>), \<open>Gates\<close>
    (\<open>ipn/control_url.rs\<close>, \<open>ipn/exitnodepolicy.rs\<close>, \<open>ipn/alwayson.rs\<close>, \<open>featureknob.rs\<close>, \<open>ipn/selfupdate.rs\<close>, tag rules):
    the pure decisions, each with its exact characterisation.
  \<^item> \<open>LocalApi\<close> (\<open>localapi.rs\<close>), \<open>Auth\<close> (\<open>auth.rs\<close>, the shutdown ladder of \<open>server.rs\<close>): the requests and who may issue
    them.
  \<^item> \<open>SysPolicy\<close>, \<open>PolicyApply\<close> (\<open>ipn/syspolicy.rs\<close>): the administrator's policy from the JSON file to the
    preferences. Shown: validation suffices for reading, the credential never reaches a report, layering,
    idempotence, an exact report, agreement of the pinned list with what is moved.
  \<^item> \<open>RevertGuard\<close> (\<open>ipn/revert_guard.rs\<close>): the guard makes the patching \<open>up\<close> equal to a replacing one.
  \<^item> \<open>Conffile\<close> (\<open>conffile.rs\<close>), \<open>EngineConfig\<close> (\<open>ipn/config.rs\<close>), \<open>Profile\<close> (\<open>ipn/profile.rs\<close>): the declarative
    configuration, the engine config, profile identifiers and files.
  \<^item> \<open>Backend\<close>, \<open>BackendOps\<close>, \<open>LiveEdit\<close> (\<open>ipn/mod.rs\<close>): the backend's state and every operation on it: status,
    policy reconcile, reconnect timer, profiles, down, logout, the phases of up, set, the dry run, reload.
    Shown: each operation's contract on success and on every failure; a live edit keeps the engine in
    step with the preferences.
  \<^item> \<open>Lifecycle\<close>, \<open>Races\<close> (\<open>ipn/mod.rs\<close>): the commands as sequences of locked sections and their interleaving.
    Shown: the daemon refines a six-rule machine (locale \<open>simulation\<close>), whose invariant gives the
    lifecycle invariant of every reachable state; a superseded bring-up never installs; and the three
    orders of sections the generation counter does not cover.
  \<^item> \<open>Framing\<close>, \<open>Server\<close>, \<open>Connection\<close>, \<open>NotifyStream\<close> (\<open>server.rs\<close>): the lines of a connection with their cap, the
    dispatch of every request, the loop of one connection, and the watch as a state machine. Shown: a
    connection that may only read changes nothing, a shutdown is acknowledged before it happens, the frames
    of a watch.
  \<^item> \<open>Serve\<close>, \<open>ServeOps\<close> (\<open>ipn/serve.rs\<close>, \<open>ipn/mod.rs\<close>), \<open>CliServe\<close> (\<open>bin/tnet.rs\<close>): what is served, the update rules,
    the supervisor that fails closed, and the client's commands, which refine an update of the document.
  \<^item> \<open>PortmapWire\<close>, \<open>Portmap\<close>, \<open>PortmapRaces\<close> (\<open>portmap.rs\<close>): the packets and the gateway lookups, the client, and
    the interleaving of its attempts with \<open>close\<close>. Shown: no mapping is left behind.
  \<^item> \<open>Proxies\<close> (\<open>socks5.rs\<close>, \<open>httpproxy.rs\<close>): the exchange of one connection up to its tunnel.
  \<^item> \<open>CliSafe\<close> (\<open>bin/tnet.rs\<close>): text from other machines on its way to a terminal, a web page, \<open>ssh\<close> and its host keys.
  \<^item> \<open>Taildrop\<close> (\<open>ipn/diag.rs\<close>): receiving, fetching and sending files against a model of the file system with one
    operation per system call. Shown: a file leaves the inbox only once it is stored, nothing but the target
    is written, only regular files are sent.
  \<^item> \<open>Encodings\<close> (\<open>bin/tnet.rs\<close>, \<open>ipn/diag.rs\<close>): hexadecimal, base32, base64, Go's integers and JSON escapes, against
    reference definitions. \<open>Lock\<close>: the tailnet lock verbs from the arguments to the engine's calls. Shown: a
    minted secret is the one the engine holds, and it is printed only after the engine has taken it.
  \<^item> \<open>IpForward\<close> (\<open>ipforward.rs\<close>), \<open>LinkMon\<close> (\<open>ipn/linkmon.rs\<close>), \<open>Captive\<close> (\<open>ipn/captive.rs\<close>, \<open>ipn/mod.rs\<close>): the host's
    forwarding switches, its addresses, and the portal detection that is driven by both. Shown: the verdicts
    exactly, when the engine is rebound, when a probe is due, and that a warning is the verdict of a probe.
  \<^item> \<open>EnvFile\<close> (\<open>envknob.rs\<close>), \<open>HostReap\<close> (\<open>hostreap.rs\<close>): what the daemon does before it serves: the environment file,
    and the removal of what a killed daemon left on a macOS host. Shown: applying never panics, every
    environment can be written as a file, and only stale routes and the daemon's own key are removed.

  \<^bold>\<open>Interfaces.\<close> The locales \<open>codec\<close>, \<open>reconciler\<close>, \<open>ordered_map\<close>, \<open>simulation\<close> and those of the serve and
  port-mapping theories state what one component relies on; each is interpreted on the model's own
  definitions in the theory that provides them.

  \<^bold>\<open>Bounds.\<close> Counters that the code keeps in \<open>u64\<close> and only increments (\<open>generation\<close>, the timer's sequence number)
  are natural numbers: they would have to be incremented \<open>2 ^ 64\<close> times to wrap. Where the code's arithmetic
  can overflow (durations, route prefixes, ports, the shifts of base32) the width is modelled. No definition
  uses fuel.

  \<^bold>\<open>Not modelled.\<close> The rest of the command line client (\<open>bin/tnet.rs\<close>: the other commands, argument parsing by
  \<open>clap\<close> and the tables it prints) and the daemon's entry point (\<open>bin/tailnetd.rs\<close>) are parsing, wiring and output.
  The accept loops, the handshake deadlines and the splices of the proxies and of the server, the plain watch
  stream, the doctor and debug reports and the installers are network or operating system I/O. Methods
  of the backend that only forward a question to the engine (ping, whois, DNS) have no logic of their own. Log
  output is not modelled.
\<close>

end
